(* ===== verification/Prelude.thy ===== *)
theory Prelude
  imports Main "HOL-Library.Sublist"
begin

text \<open>
  What every component of the development shares: the collections of facts the
  component proofs use, the list operations that stand for SQL statements over a
  table (select, update, delete, insert), and the interface of a system whose
  operations keep an invariant.
\<close>

named_theorems table_simps \<open>selecting from an updated table\<close>
named_theorems op_defs \<open>the definitions of the operations of a component\<close>

section \<open>Tables\<close>

text \<open>
  A table is the list of its rows. The order of the rows is the order in which the
  database returns them when a statement does not ask for one; nothing below depends
  on it. A statement \<open>UPDATE ... WHERE p\<close> is \<open>update_where\<close>, a
  \<open>DELETE ... WHERE p\<close> is \<open>delete_where\<close>, \<open>db.scalar(select(..).where(p))\<close>
  is \<open>find p\<close>.
\<close>

definition update_where :: "('r \<Rightarrow> bool) \<Rightarrow> ('r \<Rightarrow> 'r) \<Rightarrow> 'r list \<Rightarrow> 'r list" where
  "update_where p f rows = map (\<lambda>r. if p r then f r else r) rows"

definition delete_where :: "('r \<Rightarrow> bool) \<Rightarrow> 'r list \<Rightarrow> 'r list" where
  "delete_where p rows = filter (\<lambda>r. \<not> p r) rows"

definition count_where :: "('r \<Rightarrow> bool) \<Rightarrow> 'r list \<Rightarrow> nat" where
  "count_where p rows = length (filter p rows)"

lemma update_where_Nil [simp]: "update_where p f [] = []"
  by (simp add: update_where_def)

lemma update_where_Cons [simp]:
  "update_where p f (r # rows) = (if p r then f r else r) # update_where p f rows"
  by (simp add: update_where_def)

lemma update_where_append [simp]:
  "update_where p f (xs @ ys) = update_where p f xs @ update_where p f ys"
  by (simp add: update_where_def)

lemma length_update_where [simp]: "length (update_where p f rows) = length rows"
  by (simp add: update_where_def)

lemma set_update_where:
  "set (update_where p f rows) = (\<lambda>r. if p r then f r else r) ` set rows"
  by (simp add: update_where_def)

lemma in_update_where_iff: "r \<in> set (update_where p f rows) \<longleftrightarrow> (\<exists>q \<in> set rows. r = (if p q then f q else q))"
  by (auto simp: update_where_def)

lemma in_update_whereE [elim]:
  assumes "r \<in> set (update_where p f rows)"
  obtains (kept) "r \<in> set rows" and "\<not> p r" | (changed) q where "q \<in> set rows" and "p q" and "r = f q"
  using assms by (auto simp: set_update_where split: if_splits)

lemma map_update_where [table_simps]:
  "(\<And>r. k (f r) = k r) \<Longrightarrow> map k (update_where p f rows) = map k rows"
  by (simp add: update_where_def)

lemma map_update_where_on:
  "(\<And>r. r \<in> set rows \<Longrightarrow> p r \<Longrightarrow> k (f r) = k r) \<Longrightarrow> map k (update_where p f rows) = map k rows"
  by (simp add: update_where_def)

lemma list_ex_update_where:
  "list_ex q (update_where p f rows) \<longleftrightarrow> (\<exists>r \<in> set rows. q (if p r then f r else r))"
  by (auto simp: list_ex_iff update_where_def)

lemma update_where_none: "(\<And>r. r \<in> set rows \<Longrightarrow> \<not> p r) \<Longrightarrow> update_where p f rows = rows"
  by (induction rows) auto

lemma update_where_twice:
  "(\<And>r. p (f r) = p r) \<Longrightarrow> update_where p g (update_where p f rows) = update_where p (\<lambda>r. g (f r)) rows"
  by (simp add: update_where_def)

lemma set_delete_where [simp]: "set (delete_where p rows) = {r \<in> set rows. \<not> p r}"
  by (simp add: delete_where_def)

lemma distinct_map_delete_where: "distinct (map k rows) \<Longrightarrow> distinct (map k (delete_where p rows))"
  by (simp add: delete_where_def distinct_map_filter)

lemma count_where_Nil [simp]: "count_where p [] = 0"
  by (simp add: count_where_def)

lemma count_where_Cons [simp]:
  "count_where p (r # rows) = (if p r then Suc (count_where p rows) else count_where p rows)"
  by (simp add: count_where_def)

lemma count_where_append [simp]: "count_where p (xs @ ys) = count_where p xs + count_where p ys"
  by (simp add: count_where_def)

lemma count_where_le_length: "count_where p rows \<le> length rows"
  by (simp add: count_where_def)

lemma count_where_update_le:
  "(\<And>r. r \<in> set rows \<Longrightarrow> q r \<Longrightarrow> p (f r) \<Longrightarrow> p r) \<Longrightarrow>
    count_where p (update_where q f rows) \<le> count_where p rows"
  by (induction rows) (auto intro: le_SucI)

lemma count_where_update_eq:
  "(\<And>r. r \<in> set rows \<Longrightarrow> q r \<Longrightarrow> p (f r) \<longleftrightarrow> p r) \<Longrightarrow>
    count_where p (update_where q f rows) = count_where p rows"
  by (induction rows) auto

lemma count_where_delete_le: "count_where p (delete_where q rows) \<le> count_where p rows"
  by (induction rows) (auto simp: delete_where_def intro: le_SucI)

lemma count_where_mono: "(\<And>r. r \<in> set rows \<Longrightarrow> p r \<Longrightarrow> q r) \<Longrightarrow> count_where p rows \<le> count_where q rows"
  by (induction rows) (auto intro: le_SucI)

subsection \<open>Rows by their key\<close>

text \<open>
  \<open>keyed k rows\<close>: the primary key \<open>k\<close> identifies a row, as the database's
  primary-key constraint keeps it.
\<close>

abbreviation keyed :: "('r \<Rightarrow> 'k) \<Rightarrow> 'r list \<Rightarrow> bool" where
  "keyed k rows \<equiv> distinct (map k rows)"

definition row_by :: "('r \<Rightarrow> 'k) \<Rightarrow> 'k \<Rightarrow> 'r list \<Rightarrow> 'r option" where
  "row_by k i rows = find (\<lambda>r. k r = i) rows"

lemma find_SomeD: "find p xs = Some x \<Longrightarrow> x \<in> set xs \<and> p x"
  by (auto simp: find_Some_iff)

lemma find_update_where:
  "(\<And>r. r \<in> set rows \<Longrightarrow> p (if q r then f r else r) \<longleftrightarrow> p r) \<Longrightarrow>
    find p (update_where q f rows) = map_option (\<lambda>r. if q r then f r else r) (find p rows)"
  by (induction rows) auto

lemma row_by_SomeD: "row_by k i rows = Some r \<Longrightarrow> r \<in> set rows \<and> k r = i"
  unfolding row_by_def by (rule find_SomeD)

lemma row_by_mem: "keyed k rows \<Longrightarrow> r \<in> set rows \<Longrightarrow> row_by k (k r) rows = Some r"
  by (induction rows) (auto simp: row_by_def)

lemma row_by_None_iff: "row_by k i rows = None \<longleftrightarrow> i \<notin> k ` set rows"
  by (auto simp: row_by_def find_None_iff)

lemma row_by_update [table_simps]:
  "(\<And>r. k (f r) = k r) \<Longrightarrow>
    row_by k i (update_where p f rows) = map_option (\<lambda>r. if p r then f r else r) (row_by k i rows)"
  unfolding row_by_def by (rule find_update_where) simp

lemma keyed_unique: "keyed k rows \<Longrightarrow> r \<in> set rows \<Longrightarrow> q \<in> set rows \<Longrightarrow> k r = k q \<Longrightarrow> r = q"
  by (meson distinct_map inj_onD)

section \<open>Systems that keep an invariant\<close>

text \<open>
  The contract a component's operations share: each one is a step on the component's
  state, given by an event (the request with its arguments), and each one keeps the
  invariant. Every run of operations then keeps it.
\<close>

locale kept_system =
  fixes step :: "'s \<Rightarrow> 'e \<Rightarrow> 's"
    and good :: "'s \<Rightarrow> bool"
  assumes step_good: "good s \<Longrightarrow> good (step s e)"
begin

lemma run_good: "good s \<Longrightarrow> good (foldl step s es)"
  by (induction es arbitrary: s) (auto intro: step_good)

lemma run_prefix_good: "good s \<Longrightarrow> prefix fs es \<Longrightarrow> good (foldl step s fs)"
  by (rule run_good)

end

text \<open>
  A system with a fact about a single item that no operation undoes once it holds: a
  revoked session stays revoked, a cancelled scan stays cancelled.
\<close>

locale latched_system = kept_system step good
  for step :: "'s \<Rightarrow> 'e \<Rightarrow> 's" and good :: "'s \<Rightarrow> bool" +
  fixes latch :: "'i \<Rightarrow> 's \<Rightarrow> bool"
  assumes step_latch: "good s \<Longrightarrow> latch i s \<Longrightarrow> latch i (step s e)"
begin

lemma run_latch: "good s \<Longrightarrow> latch i s \<Longrightarrow> latch i (foldl step s es)"
  by (induction es arbitrary: s) (auto intro: step_good step_latch)

end

text \<open>
  A system whose operations keep the invariant when the environment behaves: \<open>allowed\<close>
  says which events may happen in which state (a message broker that delivers a task
  once, say). \<open>allowed_run\<close> is a history in which every event was allowed when it happened.
\<close>

fun allowed_run :: "('s \<Rightarrow> 'e \<Rightarrow> 's) \<Rightarrow> ('s \<Rightarrow> 'e \<Rightarrow> bool) \<Rightarrow> 's \<Rightarrow> 'e list \<Rightarrow> bool" where
  "allowed_run step allowed s [] = True"
| "allowed_run step allowed s (e # es) = (allowed s e \<and> allowed_run step allowed (step s e) es)"

lemma allowed_run_always: "allowed_run step (\<lambda>_. p) s es \<longleftrightarrow> list_all p es"
  by (induction es arbitrary: s) auto

locale guarded_system =
  fixes step :: "'s \<Rightarrow> 'e \<Rightarrow> 's" and allowed :: "'s \<Rightarrow> 'e \<Rightarrow> bool" and safe :: "'s \<Rightarrow> bool"
  assumes step_safe: "safe s \<Longrightarrow> allowed s e \<Longrightarrow> safe (step s e)"
begin

lemma run_safe: "safe s \<Longrightarrow> allowed_run step allowed s es \<Longrightarrow> safe (foldl step s es)"
  by (induction es arbitrary: s) (auto intro: step_safe)

end

text \<open>With nothing to ask of the environment, a guarded system is a kept one.\<close>

sublocale kept_system \<subseteq> guarded: guarded_system step "\<lambda>_ _. True" good
  by unfold_locales (rule step_good)

end
