(* ===== verification/PyString.thy ===== *)
theory PyString
  imports Prelude "HOL-Library.Char_ord"
begin

text \<open>
  The string operations of Python that the program uses, on lists of characters. A
  character is a code point below 256 (Latin-1), so \<open>str.lower\<close>, \<open>str.strip\<close> and
  \<open>str.isalnum\<close> are written out with the code points Python's tables give them there;
  characters above that range are outside the model. \<open>s.endswith(t)\<close> and
  \<open>s.startswith(t)\<close> are \<open>suffix t s\<close> and \<open>prefix t s\<close> of \<open>HOL-Library.Sublist\<close>.
\<close>

section \<open>Characters\<close>

definition ord :: "char \<Rightarrow> int" where
  "ord c = of_char c"

definition is_space :: "char \<Rightarrow> bool" where
  "is_space c = (let n = ord c in
     (9 \<le> n \<and> n \<le> 13) \<or> (28 \<le> n \<and> n \<le> 32) \<or> n = 133 \<or> n = 160)"

definition lower_char :: "char \<Rightarrow> char" where
  "lower_char c = (let n = ord c in
     if (65 \<le> n \<and> n \<le> 90) \<or> (192 \<le> n \<and> n \<le> 222 \<and> n \<noteq> 215) then char_of (n + 32) else c)"

definition is_ascii_digit :: "char \<Rightarrow> bool" where
  "is_ascii_digit c = (let n = ord c in 48 \<le> n \<and> n \<le> 57)"

definition is_ascii_lower :: "char \<Rightarrow> bool" where
  "is_ascii_lower c = (let n = ord c in 97 \<le> n \<and> n \<le> 122)"

definition is_ascii_upper :: "char \<Rightarrow> bool" where
  "is_ascii_upper c = (let n = ord c in 65 \<le> n \<and> n \<le> 90)"

definition is_alnum :: "char \<Rightarrow> bool" where
  "is_alnum c = (is_ascii_digit c \<or> is_ascii_lower c \<or> is_ascii_upper c \<or>
     (let n = ord c in n = 170 \<or> n = 178 \<or> n = 179 \<or> n = 181 \<or> n = 185 \<or> n = 186 \<or>
        (188 \<le> n \<and> n \<le> 190) \<or> (192 \<le> n \<and> n \<le> 214) \<or> (216 \<le> n \<and> n \<le> 246) \<or> 248 \<le> n))"

lemma ord_bound: "0 \<le> ord c" "ord c < 256"
proof -
  have e: "ord c = int (of_char c)" by (simp add: ord_def of_char_def)
  have l: "of_char c < (256 :: nat)" by simp
  show "0 \<le> ord c" unfolding e by (rule of_nat_0_le_iff)
  show "ord c < 256" unfolding e using l by linarith
qed

lemma char_of_ord [simp]: "char_of (ord c) = c"
  by (simp add: ord_def)

lemma ord_char_of [simp]: "0 \<le> n \<Longrightarrow> n < 256 \<Longrightarrow> ord (char_of n) = n"
  by (simp add: ord_def)

lemma ord_inj: "ord c = ord d \<longleftrightarrow> c = d"
  by (simp add: ord_def)

lemma lower_char_idem [simp]: "lower_char (lower_char c) = lower_char c"
  using ord_bound [of c] by (auto simp: lower_char_def Let_def)

lemma lower_char_eq_iff:
  assumes "\<not> (97 \<le> ord d \<and> ord d \<le> 122)" and "ord d < 128" and "\<not> (65 \<le> ord d \<and> ord d \<le> 90)"
  shows "lower_char c = d \<longleftrightarrow> c = d"
proof
  assume h: "lower_char c = d"
  show "c = d"
  proof (rule ccontr)
    assume "c \<noteq> d"
    with h have "lower_char c \<noteq> c" by simp
    then have r: "(65 \<le> ord c \<and> ord c \<le> 90) \<or> (192 \<le> ord c \<and> ord c \<le> 222)"
      and "lower_char c = char_of (ord c + 32)"
      by (auto simp: lower_char_def Let_def split: if_splits)
    with h have "ord d = ord c + 32" by auto
    with r assms show False by auto
  qed
next
  assume "c = d"
  with assms show "lower_char c = d" by (auto simp: lower_char_def Let_def)
qed

section \<open>Strip, lower, search\<close>

definition strip_if :: "(char \<Rightarrow> bool) \<Rightarrow> string \<Rightarrow> string" where
  "strip_if p s = rev (dropWhile p (rev (dropWhile p s)))"

definition strip :: "string \<Rightarrow> string" where
  "strip s = strip_if is_space s"

definition strip_dots :: "string \<Rightarrow> string" where
  "strip_dots s = strip_if (\<lambda>c. c = CHR ''.'') s"

definition lower :: "string \<Rightarrow> string" where
  "lower s = map lower_char s"

text \<open>\<open>s.split(sep, 1)\<close> and \<open>s.partition(sep)\<close>: the parts before and after the first \<open>sep\<close>.\<close>

text \<open>The slice \<open>s[:n]\<close>, counting down on an integer.\<close>

fun slice_to :: "int \<Rightarrow> 'a list \<Rightarrow> 'a list" where
  "slice_to n [] = []"
| "slice_to n (x # xs) = (if n \<le> 0 then [] else x # slice_to (n - 1) xs)"

lemma slice_to_take: "slice_to n xs = take (nat n) xs"
  by (induction n xs rule: slice_to.induct) (auto simp: nat_diff_distrib take_Cons' nat_eq_iff)

fun cut :: "string \<Rightarrow> string \<Rightarrow> (string \<times> string) option" where
  "cut sep [] = (if sep = [] then Some ([], []) else None)"
| "cut sep (c # s) =
     (if prefix sep (c # s) then Some ([], drop (length sep) (c # s))
      else map_option (\<lambda>(a, b). (c # a, b)) (cut sep s))"

definition contains :: "string \<Rightarrow> string \<Rightarrow> bool" where
  "contains sep s = (cut sep s \<noteq> None)"

definition before :: "char \<Rightarrow> string \<Rightarrow> string" where
  "before c s = takeWhile (\<lambda>x. x \<noteq> c) s"

definition after_last :: "char \<Rightarrow> string \<Rightarrow> string" where
  "after_last c s = rev (takeWhile (\<lambda>x. x \<noteq> c) (rev s))"

fun split_on :: "char \<Rightarrow> string \<Rightarrow> string list" where
  "split_on c [] = [[]]"
| "split_on c (x # s) =
     (if x = c then [] # split_on c s
      else (case split_on c s of [] \<Rightarrow> [[x]] | w # ws \<Rightarrow> (x # w) # ws))"

fun join :: "string \<Rightarrow> string list \<Rightarrow> string" where
  "join sep [] = []"
| "join sep [w] = w"
| "join sep (w # v # ws) = w @ sep @ join sep (v # ws)"

function dec :: "int \<Rightarrow> string" where
  "dec n = (if n < 10 then [char_of (48 + n)] else dec (n div 10) @ [char_of (48 + n mod 10)])"

  by auto
termination
  by (relation "measure nat") auto

declare dec.simps [simp del]

subsection \<open>Strip\<close>

lemma set_dropWhile_subset: "set (dropWhile p s) \<subseteq> set s"
  by (induction s) auto

lemma set_takeWhile_subset: "set (takeWhile p s) \<subseteq> set s"
  by (induction s) (auto split: if_splits)

lemma set_strip_if: "set (strip_if p s) \<subseteq> set s"
  using set_dropWhile_subset [of p "rev (dropWhile p s)"] set_dropWhile_subset [of p s]
  by (simp add: strip_if_def)

lemma dropWhile_idem_strip:
  "\<not> p (hd s) \<or> s = [] \<Longrightarrow> dropWhile p s = s"
  by (cases s) auto

lemma strip_if_ends:
  "strip_if p s \<noteq> [] \<Longrightarrow> \<not> p (hd (strip_if p s)) \<and> \<not> p (last (strip_if p s))"
proof -
  assume ne: "strip_if p s \<noteq> []"
  let ?a = "dropWhile p s"
  let ?b = "dropWhile p (rev ?a)"
  have b: "?b \<noteq> []" using ne by (simp add: strip_if_def)
  then have "\<not> p (hd ?b)" by (rule hd_dropWhile)
  then have l: "\<not> p (last (strip_if p s))"
    by (simp add: strip_if_def last_rev b)
  obtain xs where "rev ?a = xs @ ?b" by (metis takeWhile_dropWhile_id)
  then have "?a = rev ?b @ rev xs" by (metis rev_append rev_rev_ident)
  moreover have "?a \<noteq> []" using b by (cases ?a) (simp_all del: dropWhile_eq_Nil_conv)
  ultimately have "hd (rev ?b) = hd ?a" using b by (metis hd_append rev_is_Nil_conv)
  moreover have "\<not> p (hd ?a)" using \<open>?a \<noteq> []\<close> by (rule hd_dropWhile)
  ultimately show ?thesis using l by (simp add: strip_if_def)
qed

lemma strip_if_clean:
  assumes "s = [] \<or> (\<not> p (hd s) \<and> \<not> p (last s))"
  shows "strip_if p s = s"
  using assms by (auto simp: strip_if_def dropWhile_idem_strip hd_rev)

lemma strip_if_idem [simp]: "strip_if p (strip_if p s) = strip_if p s"
  using strip_if_ends strip_if_clean by metis

lemma strip_if_free: "(\<And>c. c \<in> set s \<Longrightarrow> \<not> p c) \<Longrightarrow> strip_if p s = s"
  by (rule strip_if_clean) auto

lemma lower_idem [simp]: "lower (lower s) = lower s"
  by (simp add: lower_def)

lemma lower_Nil [simp]: "lower [] = []" "lower s = [] \<longleftrightarrow> s = []"
  by (simp_all add: lower_def)

lemma lower_fixed: "(\<And>c. c \<in> set s \<Longrightarrow> lower_char c = c) \<Longrightarrow> lower s = s"
  unfolding lower_def by (induction s) auto

lemma lower_fixed_iff: "lower s = s \<longleftrightarrow> (\<forall>c \<in> set s. lower_char c = c)"
  unfolding lower_def by (induction s) auto

subsection \<open>Cutting\<close>

lemma cut_SomeD: "cut sep s = Some (a, b) \<Longrightarrow> s = a @ sep @ b"
proof (induction s arbitrary: a b)
  case (Cons c s)
  then show ?case
    by (auto split: if_splits simp: prefix_def)
qed (auto split: if_splits)

lemma cut_None_iff: "cut sep s = None \<longleftrightarrow> \<not> sublist sep s"
proof (induction s)
  case (Cons c s)
  then show ?case by (auto simp: sublist_Cons_right)
qed auto

lemma contains_iff: "contains sep s \<longleftrightarrow> sublist sep s"
  by (simp add: contains_def cut_None_iff del: not_None_eq)

lemma set_before: "set (before c s) \<subseteq> set s" "c \<notin> set (before c s)"
  using set_takeWhile_subset [of "\<lambda>x. x \<noteq> c" s] set_takeWhileD [of c "\<lambda>x. x \<noteq> c" s]
  by (auto simp: before_def)

lemma before_free: "c \<notin> set s \<Longrightarrow> before c s = s"
  unfolding before_def by (induction s) auto

lemma set_after_last: "set (after_last c s) \<subseteq> set s" "c \<notin> set (after_last c s)"
  using set_before [of c "rev s"] by (simp_all add: after_last_def before_def)

lemma after_last_free: "c \<notin> set s \<Longrightarrow> after_last c s = s"
  unfolding after_last_def by (metis before_def before_free rev_rev_ident set_rev)

lemma cut_first: "c \<notin> set u \<Longrightarrow> cut (c # sep) (u @ (c # sep) @ v) = Some (u, v)"
  by (induction u) (auto simp: prefix_def)

lemma before_first: "c \<notin> set u \<Longrightarrow> before c (u @ c # v) = u"
  unfolding before_def by (induction u) auto

lemma after_last_last: "c \<notin> set v \<Longrightarrow> after_last c (u @ c # v) = v"
  using before_first [of c "rev v" "rev u"] by (simp add: after_last_def before_def)

lemma lower_append [simp]: "lower (s @ t) = lower s @ lower t"
  by (simp add: lower_def)

lemma notin_lower:
  "c \<notin> set s \<Longrightarrow> \<not> (65 \<le> ord c \<and> ord c \<le> 90) \<Longrightarrow> \<not> (97 \<le> ord c \<and> ord c \<le> 122) \<Longrightarrow> ord c < 128 \<Longrightarrow>
    c \<notin> set (lower s)"
proof
  assume c: "\<not> (65 \<le> ord c \<and> ord c \<le> 90)" "\<not> (97 \<le> ord c \<and> ord c \<le> 122)" "ord c < 128"
    and "c \<notin> set s" and "c \<in> set (lower s)"
  then obtain x where "x \<in> set s" and "lower_char x = c" by (auto simp: lower_def)
  with lower_char_eq_iff [OF c(2) c(3) c(1), of x] \<open>c \<notin> set s\<close> show False by simp
qed

subsection \<open>Splitting\<close>

lemma split_on_ne [simp]: "split_on c s \<noteq> []"
  by (induction s) (auto split: list.splits)

lemma split_on_free: "c \<notin> set s \<Longrightarrow> split_on c s = [s]"
  by (induction s) auto

lemma split_on_parts: "w \<in> set (split_on c s) \<Longrightarrow> c \<notin> set w \<and> set w \<subseteq> set s"
proof (induction s arbitrary: w)
  case (Cons x s)
  obtain v ws where v: "split_on c s = v # ws" by (cases "split_on c s") auto
  show ?case
  proof (cases "x = c")
    case True
    with Cons show ?thesis by auto
  next
    case False
    with Cons.prems v have "w = x # v \<or> w \<in> set ws" by auto
    with Cons.IH [of v] Cons.IH [of w] v False show ?thesis by auto
  qed
qed simp

lemma split_on_cons:
  "c \<notin> set w \<Longrightarrow> split_on c (w @ c # s) = w # split_on c s"
  by (induction w) auto

lemma join_Cons: "ws \<noteq> [] \<Longrightarrow> join sep (w # ws) = w @ sep @ join sep ws"
  by (cases ws) auto

lemma join_split: "join [c] (split_on c s) = s"
proof (induction s)
  case (Cons x s)
  obtain w ws where "split_on c s = w # ws" by (cases "split_on c s") auto
  with Cons show ?case by (cases ws) (auto simp: join_Cons)
qed simp

lemma split_join:
  "ws \<noteq> [] \<Longrightarrow> (\<And>w. w \<in> set ws \<Longrightarrow> c \<notin> set w) \<Longrightarrow> split_on c (join [c] ws) = ws"
proof (induction ws)
  case (Cons w ws)
  then show ?case
    by (cases ws) (auto simp: split_on_free split_on_cons)
qed simp

lemma length_split_on: "length (split_on c s) = Suc (count_list s c)"
proof (induction s)
  case (Cons x s)
  obtain w ws where "split_on c s = w # ws" by (cases "split_on c s") auto
  with Cons show ?case by auto
qed simp

lemma split_on_append: "split_on c (u @ c # v) = split_on c u @ split_on c v"
proof (induction u)
  case (Cons x u)
  obtain w ws where "split_on c u = w # ws" by (cases "split_on c u") auto
  with Cons show ?case by (cases ws) auto
qed simp

subsection \<open>Decimal numerals\<close>

lemma dec_ne [simp]: "dec n \<noteq> []"
  by (subst dec.simps) auto

lemma dec_digits: "0 \<le> n \<Longrightarrow> c \<in> set (dec n) \<Longrightarrow> is_ascii_digit c"
proof (induction n rule: dec.induct)
  case (1 n)
  show ?case
  proof (cases "n < 10")
    case True
    with 1(3) have "c = char_of (48 + n)" by (subst (asm) dec.simps) simp
    with True 1(2) show ?thesis by (simp add: is_ascii_digit_def Let_def)
  next
    case False
    with 1(3) have "c \<in> set (dec (n div 10)) \<or> c = char_of (48 + n mod 10)"
      by (subst (asm) dec.simps) auto
    moreover have "n mod 10 < 10" "0 \<le> n mod 10" by simp_all
    ultimately show ?thesis
      using 1(1) [OF False] False
      by (auto simp: is_ascii_digit_def Let_def simp del: pos_mod_bound pos_mod_sign)
  qed
qed

fun undec :: "int \<Rightarrow> string \<Rightarrow> int" where
  "undec acc [] = acc"
| "undec acc (c # s) = undec (acc * 10 + (ord c - 48)) s"

lemma undec_append [simp]: "undec a (s @ t) = undec (undec a s) t"
  by (induction s arbitrary: a) auto

lemma undec_dec [simp]: "0 \<le> n \<Longrightarrow> undec 0 (dec n) = n"
proof (induction n rule: dec.induct)
  case (1 n)
  have "n mod 10 < 10" "0 \<le> n mod 10" by simp_all
  with 1 show ?case by (subst dec.simps) auto
qed

lemma dec_inject: "0 \<le> m \<Longrightarrow> 0 \<le> n \<Longrightarrow> dec m = dec n \<longleftrightarrow> m = n"
  by (metis undec_dec)

end
