(* ===== verification/Enums.thy ===== *)
theory Enums
  imports Prelude Complex_Main
begin

text \<open>
  The enumerations of \<open>models/base.py\<close>: one datatype per \<open>enum.Enum\<close>, with the source's
  members as constructors (a prefix where two enumerations share a member name), the
  rank of a role, the CVSS bands and the weight of a severity. Roles and severities are
  linearly ordered by rank.

  The weights are floats in the source. All of them, and every sum the program forms
  from them, are multiples of one half below 2^52, which a float holds exactly, so a
  rational stands for each.
\<close>

datatype user_role = OWNER | ADMIN | ANALYST | VIEWER

datatype asset_status = ACTIVE | INACTIVE | NEW | CHANGED | DECOMMISSIONED

datatype claim_status = CLAIM_PENDING | CLAIM_VERIFIED | CLAIM_FAILED

datatype cadence = HOURLY | DAILY | WEEKLY

datatype scan_status = QUEUED | RUNNING | COMPLETED | FAILED | CANCELLED

datatype severity = INFO | LOW | MEDIUM | HIGH | CRITICAL

datatype finding_status = OPEN | TRIAGED | CONFIRMED | REMEDIATED | FALSE_POSITIVE | ACCEPTED_RISK

fun role_rank :: "user_role \<Rightarrow> nat" where
  "role_rank VIEWER = 0"
| "role_rank ANALYST = 1"
| "role_rank ADMIN = 2"
| "role_rank OWNER = 3"

definition at_least :: "user_role \<Rightarrow> user_role \<Rightarrow> bool" where
  "at_least role other = (role_rank other \<le> role_rank role)"

definition is_terminal :: "scan_status \<Rightarrow> bool" where
  "is_terminal s = (s \<in> {COMPLETED, FAILED, CANCELLED})"

definition from_cvss :: "rat option \<Rightarrow> severity" where
  "from_cvss score = (case score of
     None \<Rightarrow> INFO
   | Some x \<Rightarrow> (if x \<le> 0 then INFO else if x < 4 then LOW else if x < 7 then MEDIUM
                else if x < 9 then HIGH else CRITICAL))"

fun weight :: "severity \<Rightarrow> rat" where
  "weight INFO = 0"
| "weight LOW = 1"
| "weight MEDIUM = 4"
| "weight HIGH = 8"
| "weight CRITICAL = 15"

fun severity_rank :: "severity \<Rightarrow> nat" where
  "severity_rank INFO = 0"
| "severity_rank LOW = 1"
| "severity_rank MEDIUM = 2"
| "severity_rank HIGH = 3"
| "severity_rank CRITICAL = 4"

definition all_severities :: "severity list" where
  "all_severities = [INFO, LOW, MEDIUM, HIGH, CRITICAL]"

section \<open>The orders\<close>

lemma role_rank_inj [simp]: "role_rank a = role_rank b \<longleftrightarrow> a = b"
  by (cases a; cases b) auto

lemma severity_rank_inj [simp]: "severity_rank a = severity_rank b \<longleftrightarrow> a = b"
  by (cases a; cases b) auto

instantiation user_role :: linorder
begin

definition less_eq_user_role :: "user_role \<Rightarrow> user_role \<Rightarrow> bool" where
  "less_eq_user_role a b = (role_rank a \<le> role_rank b)"

definition less_user_role :: "user_role \<Rightarrow> user_role \<Rightarrow> bool" where
  "less_user_role a b = (role_rank a < role_rank b)"

instance
  by standard (auto simp: less_eq_user_role_def less_user_role_def)

end

instantiation severity :: linorder
begin

definition less_eq_severity :: "severity \<Rightarrow> severity \<Rightarrow> bool" where
  "less_eq_severity a b = (severity_rank a \<le> severity_rank b)"

definition less_severity :: "severity \<Rightarrow> severity \<Rightarrow> bool" where
  "less_severity a b = (severity_rank a < severity_rank b)"

instance
  by standard (auto simp: less_eq_severity_def less_severity_def)

end

lemma at_least_iff: "at_least role other \<longleftrightarrow> other \<le> role"
  by (simp add: at_least_def less_eq_user_role_def)

lemma weight_nonneg [simp]: "0 \<le> weight s"
  by (cases s) auto

lemma weight_mono: "a \<le> b \<Longrightarrow> weight a \<le> weight b"
  by (cases a; cases b) (auto simp: less_eq_severity_def)

lemma in_all_severities [simp]: "s \<in> set all_severities"
  by (cases s) (auto simp: all_severities_def)

lemma distinct_all_severities [simp]: "distinct all_severities"
  by (simp add: all_severities_def)

end
