(* ===== verification/Scoring.thy ===== *)
theory Scoring
  imports Enums "HOL-Library.Multiset"
begin

text \<open>
  Risk scoring, the first and last parts of \<open>core/scoring.py\<close>: the composite score of an
  asset, the severity of an exposed port, and the two aggregation helpers.
\<close>

definition risky_ports :: "(int \<times> rat) list" where
  "risky_ports =
    [(21, 6), (23, 10), (445, 9), (3389, 8), (3306, 7), (5432, 7), (27017, 7), (6379, 8),
     (9200, 7), (11211, 7), (5900, 7), (2375, 9), (22, 2), (25, 3)]"

definition expected_web_ports :: "int list" where
  "expected_web_ports = [80, 443, 8080, 8443]"

definition max_risk_score :: rat where
  "max_risk_score = 100"

text \<open>\<open>round(x, 1)\<close>. The argument is always a multiple of one half, where it is the identity.\<close>

definition round1 :: "rat \<Rightarrow> rat" where
  "round1 x = of_int (round (10 * x)) / 10"

definition port_weight :: "int \<Rightarrow> rat" where
  "port_weight port =
    (if port \<in> set expected_web_ports then 1 / 2
     else case map_of risky_ports port of Some w \<Rightarrow> w | None \<Rightarrow> 1)"

definition score_asset :: "severity list \<Rightarrow> int list \<Rightarrow> rat" where
  "score_asset findings open_ports =
    (let finding_score = sum_list (map weight findings);
         port_score = sum_list (map port_weight open_ports);
         total = finding_score + min port_score 25
     in round1 (min total max_risk_score))"

definition port_exposure_severity :: "int \<Rightarrow> severity" where
  "port_exposure_severity port =
    (case map_of risky_ports port of
       None \<Rightarrow> INFO
     | Some w \<Rightarrow> (if w \<ge> 9 then HIGH else if w \<ge> 6 then MEDIUM else if w \<ge> 2 then LOW else INFO))"

definition severity_breakdown :: "severity list \<Rightarrow> (severity \<times> nat) list" where
  "severity_breakdown severities = map (\<lambda>s. (s, count_where (\<lambda>x. x = s) severities)) all_severities"

text \<open>An entry of \<open>Asset.ports\<close>, a JSON object whose members may be absent.\<close>

record port_entry =
  pe_port :: "int option"
  pe_protocol :: string
  pe_state :: "string option"
  pe_service :: "string option"
  pe_banner :: "string option"

definition summarise_ports :: "port_entry list \<Rightarrow> int list" where
  "summarise_ports ports =
    sort (remdups (List.map_filter
      (\<lambda>p. if pe_state p = Some ''open'' then pe_port p else None) ports))"

section \<open>Facts\<close>

definition half_integral :: "rat \<Rightarrow> bool" where
  "half_integral x = (\<exists>k :: int. x = of_int k / 2)"

lemma half_integral_add [intro]: "half_integral x \<Longrightarrow> half_integral y \<Longrightarrow> half_integral (x + y)"
  unfolding half_integral_def by (metis add_divide_distrib of_int_add)

lemma half_integral_numeral [simp]: "half_integral 0" "half_integral 1" "half_integral (numeral n)" "half_integral (1 / 2)"
proof -
  show "half_integral 0" unfolding half_integral_def by (rule exI [of _ 0]) simp
  show "half_integral 1" unfolding half_integral_def by (rule exI [of _ 2]) simp
  show "half_integral (numeral n)" unfolding half_integral_def 
    by (rule exI [of _ "numeral n * 2"]) (simp only: of_int_mult of_int_numeral nonzero_mult_div_cancel_right)
  show "half_integral (1 / 2)" unfolding half_integral_def by (rule exI [of _ 1]) simp
qed

lemma half_integral_min [intro]: "half_integral x \<Longrightarrow> half_integral y \<Longrightarrow> half_integral (min x y)"
  by (simp add: min_def)

lemma half_integral_sum_list: "(\<And>x. x \<in> set xs \<Longrightarrow> half_integral (f x)) \<Longrightarrow> half_integral (sum_list (map f xs))"
  by (induction xs) auto

lemma half_integral_weight [simp]: "half_integral (weight s)"
  by (cases s) auto

lemma half_integral_port_weight [simp]: "half_integral (port_weight p)"
  by (auto simp: port_weight_def risky_ports_def)

lemma round1_half_integral: "half_integral x \<Longrightarrow> round1 x = x"
proof -
  assume "half_integral x"
  then obtain k where "x = of_int k / 2" by (auto simp: half_integral_def)
  then have x: "10 * x = of_int (5 * k)" by simp
  then have "of_int (round (10 * x)) = 10 * x" by (simp only: round_of_int)
  then show ?thesis by (simp add: round1_def)
qed

lemma port_weight_pos: "0 < port_weight p"
  by (auto simp: port_weight_def risky_ports_def)

lemma score_asset_closed_form:
  "score_asset fs ps = min (sum_list (map weight fs) + min (sum_list (map port_weight ps)) 25) 100"
  unfolding score_asset_def Let_def max_risk_score_def
  by (rule round1_half_integral) (intro half_integral_min half_integral_add half_integral_sum_list; simp)

lemma sum_weights_nonneg: "0 \<le> sum_list (map weight fs)"
  by (rule sum_list_nonneg) auto

lemma sum_port_weights_nonneg: "0 \<le> sum_list (map port_weight ps)"
  by (rule sum_list_nonneg) (auto intro: less_imp_le port_weight_pos)

lemma sum_list_mset_mono:
  fixes f :: "'a \<Rightarrow> rat"
  assumes "mset xs \<subseteq># mset ys" and "\<And>x. 0 \<le> f x"
  shows "sum_list (map f xs) \<le> sum_list (map f ys)"
proof -
  obtain d where d: "mset ys = mset xs + d" using assms(1) by (auto simp: subset_mset.le_iff_add)
  have "0 \<le> sum_mset (image_mset f d)" by (induction d) (simp_all add: assms(2))
  moreover have "sum_list (map f ys) = sum_mset (image_mset f (mset ys))"
    and "sum_list (map f xs) = sum_mset (image_mset f (mset xs))"
    by (simp_all flip: sum_mset_sum_list)
  ultimately show ?thesis by (simp add: d)
qed

lemma severity_breakdown_lookup:
  "map_of (severity_breakdown ss) s = Some (count_where (\<lambda>x. x = s) ss)"
  by (cases s) (simp_all add: severity_breakdown_def all_severities_def)

lemma severity_breakdown_total: "sum_list (map snd (severity_breakdown ss)) = length ss"
proof (induction ss)
  case (Cons s ss)
  then show ?case by (cases s) (simp_all add: severity_breakdown_def all_severities_def)
qed (simp add: severity_breakdown_def all_severities_def)

section \<open>Properties\<close>

text \<open>
  C25: the composite risk score of an asset lies between 0 and 100, whatever its findings
  and ports; it does not depend on the order in which they are listed; and it never goes
  down when findings or open ports are added.
\<close>

theorem score_asset_bounded_monotone:
  "0 \<le> score_asset fs ps \<and> score_asset fs ps \<le> 100 \<and>
   (mset fs \<subseteq># mset fs' \<and> mset ps \<subseteq># mset ps' \<longrightarrow> score_asset fs ps \<le> score_asset fs' ps')"
proof (intro conjI impI)
  show "0 \<le> score_asset fs ps"
    using sum_weights_nonneg [of fs] sum_port_weights_nonneg [of ps]
    by (simp add: score_asset_closed_form)
  show "score_asset fs ps \<le> 100"
    by (simp add: score_asset_closed_form)
  assume "mset fs \<subseteq># mset fs' \<and> mset ps \<subseteq># mset ps'"
  then have "sum_list (map weight fs) \<le> sum_list (map weight fs')"
    and "sum_list (map port_weight ps) \<le> sum_list (map port_weight ps')"
    by (auto intro!: sum_list_mset_mono simp: less_imp_le [OF port_weight_pos])
  then show "score_asset fs ps \<le> score_asset fs' ps'"
    unfolding score_asset_closed_form by (intro min.mono add_mono) auto
qed

theorem score_asset_bounded_monotone_witness:
  "score_asset [HIGH] [80] \<le> score_asset [LOW, HIGH] [23, 80]"
  using score_asset_bounded_monotone [of "[HIGH]" "[80]" "[LOW, HIGH]" "[23, 80]"] by simp

end
