(* ===== verification/IpAddress.thy ===== *)
theory IpAddress
  imports PyString
begin

text \<open>
  What the program uses of Python's standard \<open>ipaddress\<close> module: \<open>ip_address(s)\<close> on a
  string (None for the \<open>ValueError\<close>), \<open>ipv4_mapped\<close>, the classification properties, and
  membership in a network. The tables are those of Python 3.12 (and of the 3.11 releases
  that carry the same correction). An address is its integer; the scope id of an IPv6
  literal plays no part in any of these properties and is only checked for its syntax.
\<close>

datatype ip_addr = IPv4 int | IPv6 int

definition v4 :: "int \<Rightarrow> int \<Rightarrow> int \<Rightarrow> int \<Rightarrow> int" where
  "v4 a b c d = ((a * 256 + b) * 256 + c) * 256 + d"

definition v6_of_groups :: "int list \<Rightarrow> int" where
  "v6_of_groups gs = foldl (\<lambda>acc g. acc * 65536 + g) 0 gs"

section \<open>Parsing\<close>

definition parse_octet :: "string \<Rightarrow> int option" where
  "parse_octet s =
    (if s = [] \<or> \<not> list_all is_ascii_digit s \<or> 3 < length s \<or> (s \<noteq> ''0'' \<and> hd s = CHR ''0'')
        \<or> 255 < undec 0 s
     then None else Some (undec 0 s))"

definition parse_v4 :: "string \<Rightarrow> int option" where
  "parse_v4 s =
    (case map parse_octet (split_on (CHR ''.'') s) of
       [Some a, Some b, Some c, Some d] \<Rightarrow> Some (v4 a b c d)
     | _ \<Rightarrow> None)"

definition hex_digit :: "char \<Rightarrow> int option" where
  "hex_digit c = (let n = ord c in
     if 48 \<le> n \<and> n \<le> 57 then Some (n - 48)
     else if 97 \<le> n \<and> n \<le> 102 then Some (n - 87)
     else if 65 \<le> n \<and> n \<le> 70 then Some (n - 55)
     else None)"

fun those :: "'a option list \<Rightarrow> 'a list option" where
  "those [] = Some []"
| "those (None # xs) = None"
| "those (Some x # xs) = map_option (Cons x) (those xs)"

definition parse_hextet :: "string \<Rightarrow> int option" where
  "parse_hextet s =
    (if s = [] \<or> 4 < length s then None
     else map_option (foldl (\<lambda>acc d. acc * 16 + d) 0) (those (map hex_digit s)))"

text \<open>The parts between the colons; an empty part is \<open>None\<close>, the whole is None on a bad one.\<close>

definition parse_part :: "string \<Rightarrow> int option option" where
  "parse_part s = (if s = [] then Some None else map_option Some (parse_hextet s))"

definition hex_parts :: "string \<Rightarrow> int option list option" where
  "hex_parts s =
    (let parts = split_on (CHR '':'') s in
     if CHR ''.'' \<in> set (last parts)
     then (case (those (map parse_part (butlast parts)), parse_v4 (last parts)) of
             (Some gs, Some a) \<Rightarrow> Some (gs @ [Some (a div 65536 mod 65536), Some (a mod 65536)])
           | _ \<Rightarrow> None)
     else those (map parse_part parts))"

text \<open>
  \<open>_ip_int_from_string\<close>: at most one inner empty part, which stands for the run of zero
  groups; an empty part at an end only together with it.
\<close>

definition trim_gap :: "int option list \<Rightarrow> int list option" where
  "trim_gap gs = (if gs = [None] then Some [] else those gs)"

definition expand_parts :: "int option list \<Rightarrow> int list option" where
  "expand_parts gs =
    (let inner = butlast (tl gs); gaps = length (filter (\<lambda>g. g = None) inner) in
     if 9 < length gs \<or> 1 < gaps then None
     else if gaps = 1 then
       (let k = length (takeWhile (\<lambda>g. g \<noteq> None) inner) in
        case (trim_gap (take (k + 1) gs), trim_gap (drop (k + 2) gs)) of
          (Some hi, Some lo) \<Rightarrow>
            (if length hi + length lo < 8 then Some (hi @ replicate (8 - (length hi + length lo)) 0 @ lo)
             else None)
        | _ \<Rightarrow> None)
     else if length gs = 8 then those gs
     else None)"

definition drop_scope :: "string \<Rightarrow> string option" where
  "drop_scope s =
    (case cut ''%'' s of
       None \<Rightarrow> Some s
     | Some (addr, scope) \<Rightarrow> (if scope = [] \<or> CHR ''%'' \<in> set scope then None else Some addr))"

definition parse_v6 :: "string \<Rightarrow> int option" where
  "parse_v6 s =
    (if CHR ''/'' \<in> set s then None
     else case drop_scope s of
       None \<Rightarrow> None
     | Some addr \<Rightarrow>
         (if length (split_on (CHR '':'') addr) < 3 then None
          else case hex_parts addr of
            None \<Rightarrow> None
          | Some gs \<Rightarrow> map_option v6_of_groups (expand_parts gs)))"

definition ip_address :: "string \<Rightarrow> ip_addr option" where
  "ip_address s =
    (case parse_v4 s of
       Some a \<Rightarrow> Some (IPv4 a)
     | None \<Rightarrow> map_option IPv6 (parse_v6 s))"

section \<open>Classification\<close>

definition in_net :: "nat \<Rightarrow> int \<times> nat \<Rightarrow> int \<Rightarrow> bool" where
  "in_net width net a = (case net of (base, plen) \<Rightarrow> a div 2 ^ (width - plen) = base div 2 ^ (width - plen))"

definition in_nets :: "nat \<Rightarrow> (int \<times> nat) list \<Rightarrow> int \<Rightarrow> bool" where
  "in_nets width nets a = list_ex (\<lambda>net. in_net width net a) nets"

definition v4_private :: "(int \<times> nat) list" where
  "v4_private =
    [(v4 0 0 0 0, 8), (v4 10 0 0 0, 8), (v4 127 0 0 0, 8), (v4 169 254 0 0, 16), (v4 172 16 0 0, 12),
     (v4 192 0 0 0, 24), (v4 192 0 0 170, 31), (v4 192 0 2 0, 24), (v4 192 168 0 0, 16),
     (v4 198 18 0 0, 15), (v4 198 51 100 0, 24), (v4 203 0 113 0, 24), (v4 240 0 0 0, 4),
     (v4 255 255 255 255, 32)]"

definition v4_private_exceptions :: "(int \<times> nat) list" where
  "v4_private_exceptions = [(v4 192 0 0 9, 32), (v4 192 0 0 10, 32)]"

definition v6_hi :: "int \<Rightarrow> int \<Rightarrow> int" where
  "v6_hi g h = g * 2 ^ 112 + h * 2 ^ 96"

definition v6_private :: "(int \<times> nat) list" where
  "v6_private =
    [(1, 128), (0, 128), (0xFFFF * 2 ^ 32, 96), (v6_hi 0x64 0xFF9B + 2 ^ 80, 48), (v6_hi 0x100 0, 64),
     (v6_hi 0x2001 0, 23), (v6_hi 0x2001 0xDB8, 32), (v6_hi 0x2002 0, 16), (v6_hi 0xFC00 0, 7),
     (v6_hi 0xFE80 0, 10)]"

definition v6_private_exceptions :: "(int \<times> nat) list" where
  "v6_private_exceptions =
    [(v6_hi 0x2001 1 + 1, 128), (v6_hi 0x2001 1 + 2, 128), (v6_hi 0x2001 3, 32),
     (v6_hi 0x2001 4 + 0x112 * 2 ^ 80, 48), (v6_hi 0x2001 0x20, 28), (v6_hi 0x2001 0x30, 28)]"

definition v6_reserved :: "(int \<times> nat) list" where
  "v6_reserved =
    [(v6_hi 0 0, 8), (v6_hi 0x100 0, 8), (v6_hi 0x200 0, 7), (v6_hi 0x400 0, 6), (v6_hi 0x800 0, 5),
     (v6_hi 0x1000 0, 4), (v6_hi 0x4000 0, 3), (v6_hi 0x6000 0, 3), (v6_hi 0x8000 0, 3),
     (v6_hi 0xA000 0, 3), (v6_hi 0xC000 0, 3), (v6_hi 0xE000 0, 4), (v6_hi 0xF000 0, 5),
     (v6_hi 0xF800 0, 6), (v6_hi 0xFE00 0, 9)]"

fun ipv4_mapped :: "ip_addr \<Rightarrow> ip_addr option" where
  "ipv4_mapped (IPv4 a) = None"
| "ipv4_mapped (IPv6 a) = (if a div 2 ^ 32 = 0xFFFF then Some (IPv4 (a mod 2 ^ 32)) else None)"

fun is_loopback :: "ip_addr \<Rightarrow> bool" where
  "is_loopback (IPv4 a) = in_net 32 (v4 127 0 0 0, 8) a"
| "is_loopback (IPv6 a) = (a = 1)"

fun is_unspecified :: "ip_addr \<Rightarrow> bool" where
  "is_unspecified (IPv4 a) = (a = 0)"
| "is_unspecified (IPv6 a) = (a = 0)"

fun is_link_local :: "ip_addr \<Rightarrow> bool" where
  "is_link_local (IPv4 a) = in_net 32 (v4 169 254 0 0, 16) a"
| "is_link_local (IPv6 a) = in_net 128 (v6_hi 0xFE80 0, 10) a"

fun is_multicast :: "ip_addr \<Rightarrow> bool" where
  "is_multicast (IPv4 a) = in_net 32 (v4 224 0 0 0, 4) a"
| "is_multicast (IPv6 a) = in_net 128 (v6_hi 0xFF00 0, 8) a"

fun is_reserved :: "ip_addr \<Rightarrow> bool" where
  "is_reserved (IPv4 a) = in_net 32 (v4 240 0 0 0, 4) a"
| "is_reserved (IPv6 a) = in_nets 128 v6_reserved a"

fun is_private :: "ip_addr \<Rightarrow> bool" where
  "is_private (IPv4 a) = (in_nets 32 v4_private a \<and> \<not> in_nets 32 v4_private_exceptions a)"
| "is_private (IPv6 a) =
     (if a div 2 ^ 32 = 0xFFFF
      then in_nets 32 v4_private (a mod 2 ^ 32) \<and> \<not> in_nets 32 v4_private_exceptions (a mod 2 ^ 32)
      else in_nets 128 v6_private a \<and> \<not> in_nets 128 v6_private_exceptions a)"

fun is_global :: "ip_addr \<Rightarrow> bool" where
  "is_global (IPv4 a) = (\<not> in_net 32 (v4 100 64 0 0, 10) a \<and> \<not> is_private (IPv4 a))"
| "is_global (IPv6 a) = (\<not> is_private (IPv6 a))"

section \<open>Facts\<close>

definition dotted :: "int \<Rightarrow> int \<Rightarrow> int \<Rightarrow> int \<Rightarrow> string" where
  "dotted a b c d = join ''.'' [dec a, dec b, dec c, dec d]"

lemma dec_no_dot: "0 \<le> n \<Longrightarrow> CHR ''.'' \<notin> set (dec n)"
  using dec_digits [of n "CHR ''.''"] by (auto simp: is_ascii_digit_def ord_def)

lemma length_dec_octet: "n < 256 \<Longrightarrow> length (dec n) \<le> 3"
  by (subst dec.simps, subst dec.simps, subst dec.simps) auto

lemma hd_dec: "0 < n \<Longrightarrow> hd (dec n) \<noteq> CHR ''0''"
proof (induction n rule: dec.induct)
  case (1 n)
  show ?case
  proof (cases "n < 10")
    case True
    with 1(2) have "ord (char_of (48 + n)) \<noteq> ord CHR ''0''" by (simp add: ord_def)
    then have "char_of (48 + n) \<noteq> CHR ''0''" by metis
    with True show ?thesis by (subst dec.simps) auto
  next
    case False
    with 1 show ?thesis by (subst dec.simps) simp
  qed
qed

lemma parse_octet_dec: "0 \<le> n \<Longrightarrow> n < 256 \<Longrightarrow> parse_octet (dec n) = Some n"
  using length_dec_octet [of n] hd_dec [of n] dec_digits [of n] dec.simps [of 0]
  by (cases "n = 0") (auto simp: parse_octet_def list_all_iff not_less is_ascii_digit_def ord_def)

definition octet :: "int \<Rightarrow> bool" where
  "octet n = (0 \<le> n \<and> n < 256)"

lemma parse_dotted:
  assumes "octet a" "octet b" "octet c" "octet d"
  shows "ip_address (dotted a b c d) = Some (IPv4 (v4 a b c d))"
proof -
  have "split_on (CHR ''.'') (dotted a b c d) = [dec a, dec b, dec c, dec d]"
    unfolding dotted_def using assms by (intro split_join) (auto simp: dec_no_dot octet_def)
  with assms show ?thesis by (simp add: ip_address_def parse_v4_def parse_octet_dec octet_def)
qed

lemma v4_div24: "octet b \<Longrightarrow> octet c \<Longrightarrow> octet d \<Longrightarrow> v4 a b c d div 16777216 = a"
  by (intro int_div_pos_eq [of _ _ _ "v4 0 b c d"]) (simp_all add: v4_def octet_def)

lemma v4_div16: "octet c \<Longrightarrow> octet d \<Longrightarrow> v4 a b c d div 65536 = a * 256 + b"
  by (intro int_div_pos_eq [of _ _ _ "v4 0 0 c d"]) (simp_all add: v4_def octet_def)

lemma v4_lt: "octet a \<Longrightarrow> octet b \<Longrightarrow> octet c \<Longrightarrow> octet d \<Longrightarrow> 0 \<le> v4 a b c d \<and> v4 a b c d < 2 ^ 32"
  unfolding v4_def octet_def by simp

lemma undec_nonneg: "0 \<le> a \<Longrightarrow> list_all is_ascii_digit s \<Longrightarrow> 0 \<le> undec a s"
  by (induction s arbitrary: a) (auto simp: is_ascii_digit_def Let_def)

lemma parse_octet_octet: "parse_octet s = Some n \<Longrightarrow> octet n"
  using undec_nonneg [of 0 s] by (auto simp: parse_octet_def octet_def ord_def split: if_splits)

lemma parse_v4_SomeE:
  assumes "parse_v4 s = Some a"
  obtains w x y z where "map parse_octet (split_on (CHR ''.'') s) = [Some w, Some x, Some y, Some z]"
    and "a = v4 w x y z"
  using assms by (auto simp: parse_v4_def split: list.splits option.splits)

lemma parse_v4_lt: "parse_v4 s = Some a \<Longrightarrow> 0 \<le> a \<and> a < 2 ^ 32"
proof (erule parse_v4_SomeE)
  fix w x y z
  assume "map parse_octet (split_on (CHR ''.'') s) = [Some w, Some x, Some y, Some z]" and a: "a = v4 w x y z"
  then have "octet w \<and> octet x \<and> octet y \<and> octet z"
    by (auto simp: Cons_eq_map_conv dest: parse_octet_octet)
  then show ?thesis using a v4_lt by blast
qed

end
