(* ===== verification/Scope.thy ===== *)
theory Scope
  imports IpAddress "HOL-Library.List_Lexorder"
begin

text \<open>
  The scan-scope guard of \<open>core/scoring.py\<close>: which names and addresses the scanner may
  contact. The first group of definitions checks a name (\<open>normalise_host\<close>,
  \<open>is_private_address\<close>, \<open>in_scope\<close>, \<open>assert_in_scope\<close>), the second what the name
  resolves to (\<open>resolve_public_addresses\<close>, \<open>assert_public_host\<close>).
  \<open>socket.getaddrinfo\<close> is a parameter: the host and the port asked for give the
  addresses of the answer, or None for a \<open>gaierror\<close>.
\<close>

section \<open>The guard on names\<close>

datatype scope_error =
    Empty_target
  | Private_target string
  | Not_covered string "string list"
  | Empty_host
  | Private_literal string
  | Unresolvable string
  | No_addresses string
  | Private_answers string "string list"

definition forbidden_hostnames :: "string list" where
  "forbidden_hostnames =
    [''localhost'', ''localhost.localdomain'', ''ip6-localhost'', ''ip6-loopback'', ''0'']"

definition forbidden_suffixes :: "string list" where
  "forbidden_suffixes = [''.localhost'', ''.local'', ''.internal'', ''.localdomain'', ''.home.arpa'']"

definition extra_unsafe_v4 :: "(int \<times> nat) list" where
  "extra_unsafe_v4 =
    [(v4 0 0 0 0, 8), (v4 100 64 0 0, 10), (v4 192 0 0 0, 24), (v4 192 0 2 0, 24), (v4 198 18 0 0, 15),
     (v4 198 51 100 0, 24), (v4 203 0 113 0, 24)]"

definition extra_unsafe_v6 :: "(int \<times> nat) list" where
  "extra_unsafe_v6 =
    [(v6_hi 0x2001 0xDB8, 32), (v6_hi 0x2001 0x10, 28), (v6_hi 0x2002 0, 16), (v6_hi 0x5F00 0, 16)]"

fun extra_unsafe :: "ip_addr \<Rightarrow> bool" where
  "extra_unsafe (IPv4 a) = in_nets 32 extra_unsafe_v4 a"
| "extra_unsafe (IPv6 a) = in_nets 128 extra_unsafe_v6 a"

definition unsafe_ip :: "ip_addr \<Rightarrow> bool" where
  "unsafe_ip ip =
    (let addr = (case ipv4_mapped ip of Some m \<Rightarrow> m | None \<Rightarrow> ip) in
     if is_loopback addr \<or> is_unspecified addr \<or> is_link_local addr \<or> is_multicast addr
        \<or> is_reserved addr \<or> is_private addr \<or> \<not> is_global addr
     then True
     else extra_unsafe addr)"

definition is_private_address :: "string \<Rightarrow> bool" where
  "is_private_address s =
    (let host = strip_dots (lower (strip s)) in
     if host = [] then False
     else if host \<in> set forbidden_hostnames \<or> list_ex (\<lambda>e. suffix e host) forbidden_suffixes then True
     else case ip_address host of None \<Rightarrow> False | Some addr \<Rightarrow> unsafe_ip addr)"

definition after_scheme :: "string \<Rightarrow> string" where
  "after_scheme s = (case cut ''://'' s of None \<Rightarrow> s | Some (_, rest) \<Rightarrow> rest)"

definition normalise_host :: "string \<Rightarrow> string" where
  "normalise_host target =
    (let host = after_scheme (lower (strip target));
         host = before (CHR ''#'') (before (CHR ''?'') (before (CHR ''/'') host));
         host = after_last (CHR ''@'') host
     in if prefix ''['' host then strip_dots (before (CHR '']'') (tl host))
        else if count_list host (CHR '':'') = 1 then strip_dots (before (CHR '':'') host)
        else strip_dots host)"

definition in_scope :: "string \<Rightarrow> string list \<Rightarrow> bool" where
  "in_scope host allowed_domains =
    (let host = normalise_host host in
     host \<noteq> [] \<and>
     list_ex (\<lambda>domain. let d = strip_dots (lower domain) in
       d \<noteq> [] \<and> (host = d \<or> suffix (CHR ''.'' # d) host)) allowed_domains)"

definition assert_in_scope :: "string \<Rightarrow> string list \<Rightarrow> bool \<Rightarrow> scope_error + string" where
  "assert_in_scope target allowed_domains allow_arbitrary =
    (let host = normalise_host target in
     if host = [] then Inl Empty_target
     else if is_private_address host then Inl (Private_target host)
     else if allow_arbitrary then Inr host
     else if \<not> in_scope host allowed_domains then Inl (Not_covered host allowed_domains)
     else Inr host)"

section \<open>The guard on what a name resolves to\<close>

type_synonym lookup = "string \<Rightarrow> int option \<Rightarrow> string list option"

definition resolve_public_addresses :: "lookup \<Rightarrow> string \<Rightarrow> int \<Rightarrow> scope_error + string list" where
  "resolve_public_addresses getaddrinfo target port =
    (let host = normalise_host target in
     if host = [] then Inl Empty_host
     else case ip_address host of
       Some _ \<Rightarrow> (if is_private_address host then Inl (Private_literal host) else Inr [host])
     | None \<Rightarrow>
         (case getaddrinfo host (if port = 0 then None else Some port) of
            None \<Rightarrow> Inl (Unresolvable host)
          | Some infos \<Rightarrow>
              (let addresses = sort (remdups infos);
                   unsafe = filter is_private_address addresses
               in if addresses = [] then Inl (No_addresses host)
                  else if unsafe \<noteq> [] then Inl (Private_answers host unsafe)
                  else Inr addresses)))"

definition assert_public_host :: "lookup \<Rightarrow> string \<Rightarrow> int \<Rightarrow> scope_error + string" where
  "assert_public_host getaddrinfo target port =
    (case resolve_public_addresses getaddrinfo target port of
       Inl e \<Rightarrow> Inl e
     | Inr _ \<Rightarrow> Inr (normalise_host target))"

section \<open>Labels\<close>

text \<open>The specification of coverage: the labels of the domain are the last labels of the host.\<close>

definition covers :: "string \<Rightarrow> string \<Rightarrow> bool" where
  "covers d h = suffix (split_on (CHR ''.'') d) (split_on (CHR ''.'') h)"

lemma join_append: "us \<noteq> [] \<Longrightarrow> vs \<noteq> [] \<Longrightarrow> join s (us @ vs) = join s us @ s @ join s vs"
proof (induction us)
  case (Cons u us)
  then show ?case by (cases "us = []") (simp_all add: join_Cons)
qed simp

lemma covers_iff: "covers d h \<longleftrightarrow> h = d \<or> suffix (CHR ''.'' # d) h"
proof
  assume "covers d h"
  then obtain us where us: "split_on (CHR ''.'') h = us @ split_on (CHR ''.'') d"
    by (auto simp: covers_def suffix_def)
  show "h = d \<or> suffix (CHR ''.'' # d) h"
  proof (cases "us = []")
    case True
    then show ?thesis using us join_split by (metis append_Nil)
  next
    case False
    then have "h = join ''.'' us @ CHR ''.'' # d"
      using us join_append [OF False, of "split_on (CHR ''.'') d" "''.''"] join_split [of "CHR ''.''"]
      by (metis append_Cons append_Nil split_on_ne)
    then show ?thesis by (auto simp: suffix_def)
  qed
next
  assume "h = d \<or> suffix (CHR ''.'' # d) h"
  then show "covers d h" by (auto simp: covers_def suffix_def split_on_append)
qed

lemma in_scope_covers:
  "in_scope host ds \<longleftrightarrow> normalise_host host \<noteq> [] \<and>
     (\<exists>d \<in> set ds. strip_dots (lower d) \<noteq> [] \<and> covers (strip_dots (lower d)) (normalise_host host))"
  by (auto simp: in_scope_def Let_def list_ex_iff covers_iff)

section \<open>Normalised hosts\<close>

lemma lower_char_fixed_of_lower: "lower s = s \<Longrightarrow> set t \<subseteq> set s \<Longrightarrow> lower t = t"
  by (auto simp: lower_fixed_iff)

lemma after_scheme_subset: "set (after_scheme s) \<subseteq> set s"
  by (auto simp: after_scheme_def split: option.splits dest: cut_SomeD)

lemma strip_dots_subset: "set (strip_dots s) \<subseteq> set s"
  unfolding strip_dots_def by (rule set_strip_if)

lemma normalise_host_cases:
  obtains (core) core where "set core \<subseteq> set (lower (strip target))"
    and "CHR ''/'' \<notin> set core" and "CHR ''?'' \<notin> set core" and "CHR ''#'' \<notin> set core"
    and "CHR ''@'' \<notin> set core" and "normalise_host target = strip_dots core"
proof -
  define a where "a = before (CHR ''#'') (before (CHR ''?'') (before (CHR ''/'') (after_scheme (lower (strip target)))))"
  define b where "b = after_last (CHR ''@'') a"
  have a: "set a \<subseteq> set (lower (strip target))" "CHR ''/'' \<notin> set a" "CHR ''?'' \<notin> set a" "CHR ''#'' \<notin> set a"
    unfolding a_def using set_before after_scheme_subset by blast+
  have b: "set b \<subseteq> set a" "CHR ''@'' \<notin> set b"
    unfolding b_def using set_after_last by blast+
  have n: "normalise_host target =
      (if prefix ''['' b then strip_dots (before (CHR '']'') (tl b))
       else if count_list b (CHR '':'') = 1 then strip_dots (before (CHR '':'') b) else strip_dots b)"
    unfolding normalise_host_def Let_def b_def a_def by simp
  have tl: "set (tl b) \<subseteq> set b" by (cases b) auto
  define core where "core = (if prefix ''['' b then before (CHR '']'') (tl b)
      else if count_list b (CHR '':'') = 1 then before (CHR '':'') b else b)"
  have "set core \<subseteq> set b"
    unfolding core_def using tl set_before(1) [of "CHR '']''" "tl b"] set_before(1) [of "CHR '':''" b] by auto
  moreover have "normalise_host target = strip_dots core" unfolding n core_def by simp
  ultimately show thesis using that [of core] a b by blast
qed

lemma normalise_host_lower: "lower (normalise_host target) = normalise_host target"
proof (cases rule: normalise_host_cases [of target])
  case (core c)
  then have "set (normalise_host target) \<subseteq> set (lower (strip target))"
    using strip_dots_subset [of c] by simp
  then show ?thesis by (rule lower_char_fixed_of_lower [rotated]) simp
qed

lemma normalise_host_chars:
  "c \<in> set (normalise_host target) \<Longrightarrow> c \<noteq> CHR ''/'' \<and> c \<noteq> CHR ''?'' \<and> c \<noteq> CHR ''#'' \<and> c \<noteq> CHR ''@''"
  by (cases rule: normalise_host_cases [of target]) (use strip_dots_subset in \<open>auto\<close>)

lemma normalise_host_strip_dots [simp]: "strip_dots (normalise_host target) = normalise_host target"
  by (cases rule: normalise_host_cases [of target]) (simp add: strip_dots_def)

text \<open>A clean host name: only the characters of host names, no dot at either end.\<close>

definition host_char :: "char \<Rightarrow> bool" where
  "host_char c = (is_ascii_digit c \<or> is_ascii_lower c \<or> c = CHR ''-'' \<or> c = CHR ''.'')"

definition clean_host :: "string \<Rightarrow> bool" where
  "clean_host h = (list_all host_char h \<and> h \<noteq> [] \<and> hd h \<noteq> CHR ''.'' \<and> last h \<noteq> CHR ''.'')"

lemma host_charD:
  assumes "host_char c"
  shows "lower_char c = c" "\<not> is_space c" "c \<noteq> CHR ''/''" "c \<noteq> CHR ''?''" "c \<noteq> CHR ''#''" "c \<noteq> CHR ''@''"
    "c \<noteq> CHR '':''" "c \<noteq> CHR ''[''"
  using assms by (auto simp: host_char_def is_ascii_digit_def is_ascii_lower_def lower_char_def is_space_def Let_def ord_def)

lemma clean_hostD:
  assumes "clean_host h"
  shows "lower h = h" "strip h = h" "strip_dots h = h"
    "set h \<inter> {CHR ''/'', CHR ''?'', CHR ''#'', CHR ''@'', CHR '':'', CHR ''[''} = {}"
proof -
  have all: "\<And>c. c \<in> set h \<Longrightarrow> host_char c" using assms by (simp add: clean_host_def list_all_iff)
  show "lower h = h" by (rule lower_fixed) (use all host_charD in blast)
  show "strip h = h" unfolding strip_def by (rule strip_if_free) (use all host_charD in blast)
  show "strip_dots h = h"
    unfolding strip_dots_def by (rule strip_if_clean) (use assms in \<open>auto simp: clean_host_def\<close>)
  show "set h \<inter> {CHR ''/'', CHR ''?'', CHR ''#'', CHR ''@'', CHR '':'', CHR ''[''} = {}"
    using all host_charD by blast
qed

lemma after_scheme_free: "CHR '':'' \<notin> set s \<Longrightarrow> after_scheme s = s"
  by (auto simp: after_scheme_def split: option.splits dest: cut_SomeD)

lemma normalise_clean: "clean_host h \<Longrightarrow> normalise_host h = h"
  using clean_hostD [of h]
  by (auto simp: normalise_host_def after_scheme_free before_free after_last_free count_notin prefix_def Let_def)

section \<open>The classification of IPv4 addresses\<close>

text \<open>The special-use IPv4 ranges, octet by octet.\<close>

definition special_v4 :: "int \<Rightarrow> int \<Rightarrow> int \<Rightarrow> int \<Rightarrow> bool" where
  "special_v4 a b c d =
    (a = 0 \<or> a = 10 \<or> a = 127 \<or> 224 \<le> a \<or> (a = 100 \<and> 64 \<le> b \<and> b \<le> 127) \<or> (a = 169 \<and> b = 254)
     \<or> (a = 172 \<and> 16 \<le> b \<and> b \<le> 31) \<or> (a = 192 \<and> b = 168) \<or> (a = 192 \<and> b = 0 \<and> (c = 0 \<or> c = 2))
     \<or> (a = 198 \<and> (b = 18 \<or> b = 19)) \<or> (a = 198 \<and> b = 51 \<and> c = 100) \<or> (a = 203 \<and> b = 0 \<and> c = 113))"

lemma base256: "octet b \<Longrightarrow> octet x \<Longrightarrow> a * 256 + b = w * 256 + x \<longleftrightarrow> a = w \<and> b = x"
  by (cases a w rule: linorder_cases) (auto simp: octet_def)

lemma range256:
  assumes "octet b" "octet lo" "octet hi"
  shows "w * 256 + lo \<le> a * 256 + b \<and> a * 256 + b \<le> w * 256 + hi \<longleftrightarrow> a = w \<and> lo \<le> b \<and> b \<le> hi"
  using assms by (cases a w rule: linorder_cases) (auto simp: octet_def)

lemma int_div_eq_iff: "0 < k \<Longrightarrow> x div k = q \<longleftrightarrow> q * k \<le> x \<and> x \<le> q * k + (k - 1)" for x :: int
proof
  assume k: "0 < k" and "x div k = q"
  then have "q * k + x mod k = x" by (metis div_mult_mod_eq)
  then show "q * k \<le> x \<and> x \<le> q * k + (k - 1)"
    using pos_mod_bound [OF k, of x] pos_mod_sign [OF k, of x] by linarith
next
  assume "0 < k" and "q * k \<le> x \<and> x \<le> q * k + (k - 1)"
  then show "x div k = q" by (intro int_div_pos_eq [of _ _ _ "x - q * k"]) (simp_all add: mult.commute)
qed

lemma v4_eq_iff:
  "octet b \<Longrightarrow> octet c \<Longrightarrow> octet d \<Longrightarrow> octet x \<Longrightarrow> octet y \<Longrightarrow> octet z \<Longrightarrow>
    v4 a b c d = v4 w x y z \<longleftrightarrow> a = w \<and> b = x \<and> c = y \<and> d = z"
  unfolding v4_def by (simp only: base256) blast

lemma v4_shift:
  "octet d \<Longrightarrow> v4 a b c d div 256 = v4 0 a b c"
  "octet c \<Longrightarrow> octet d \<Longrightarrow> v4 a b c d div 65536 = v4 0 0 a b"
  "octet b \<Longrightarrow> octet c \<Longrightarrow> octet d \<Longrightarrow> v4 a b c d div 16777216 = v4 0 0 0 a"
proof -
  show "octet d \<Longrightarrow> v4 a b c d div 256 = v4 0 a b c"
    by (intro int_div_pos_eq [of _ _ _ d]) (simp_all add: v4_def octet_def)
qed (simp_all add: v4_div16 v4_div24, simp_all add: v4_def)

lemma in_net_v4:
  assumes "octet a" "octet b" "octet c" "octet d" "octet w" "octet x" "octet y" "octet z"
  shows "in_net 32 (v4 w x y z, 8) (v4 a b c d) \<longleftrightarrow> a = w"
    "in_net 32 (v4 w x y z, 16) (v4 a b c d) \<longleftrightarrow> a = w \<and> b = x"
    "in_net 32 (v4 w x y z, 24) (v4 a b c d) \<longleftrightarrow> a = w \<and> b = x \<and> c = y"
    "in_net 32 (v4 w x y z, 32) (v4 a b c d) \<longleftrightarrow> a = w \<and> b = x \<and> c = y \<and> d = z"
proof -
  have z: "octet 0" by (simp add: octet_def)
  show "in_net 32 (v4 w x y z, 8) (v4 a b c d) \<longleftrightarrow> a = w"
    "in_net 32 (v4 w x y z, 16) (v4 a b c d) \<longleftrightarrow> a = w \<and> b = x"
    "in_net 32 (v4 w x y z, 24) (v4 a b c d) \<longleftrightarrow> a = w \<and> b = x \<and> c = y"
    "in_net 32 (v4 w x y z, 32) (v4 a b c d) \<longleftrightarrow> a = w \<and> b = x \<and> c = y \<and> d = z"
    using assms z by (simp_all add: in_net_def v4_shift v4_eq_iff)
qed

lemma v4_div_div:
  assumes "octet b" "octet c" "octet d"
  shows "v4 a b c d div 268435456 = a div 16" "v4 a b c d div 1048576 = (a * 256 + b) div 16"
    "v4 a b c d div 4194304 = (a * 256 + b) div 64" "v4 a b c d div 131072 = (a * 256 + b) div 2"
    "v4 a b c d div 2 = ((a * 256 + b) * 256 + c) * 128 + d div 2"
proof -
  show "v4 a b c d div 268435456 = a div 16"
    using assms zdiv_zmult2_eq [of 16 "v4 a b c d" 16777216] by (simp add: v4_div24)
  show "v4 a b c d div 1048576 = (a * 256 + b) div 16"
    using assms zdiv_zmult2_eq [of 16 "v4 a b c d" 65536] by (simp add: v4_div16)
  show "v4 a b c d div 4194304 = (a * 256 + b) div 64"
    using assms zdiv_zmult2_eq [of 64 "v4 a b c d" 65536] by (simp add: v4_div16)
  show "v4 a b c d div 131072 = (a * 256 + b) div 2"
    using assms zdiv_zmult2_eq [of 2 "v4 a b c d" 65536] by (simp add: v4_div16)
  show "v4 a b c d div 2 = ((a * 256 + b) * 256 + c) * 128 + d div 2"
    by (simp add: v4_def)
qed

lemma in_net_v4_odd:
  assumes o: "octet a" "octet b" "octet c" "octet d"
  shows "in_net 32 (v4 172 16 0 0, 12) (v4 a b c d) \<longleftrightarrow> a = 172 \<and> 16 \<le> b \<and> b \<le> 31"
    "in_net 32 (v4 100 64 0 0, 10) (v4 a b c d) \<longleftrightarrow> a = 100 \<and> 64 \<le> b \<and> b \<le> 127"
    "in_net 32 (v4 198 18 0 0, 15) (v4 a b c d) \<longleftrightarrow> a = 198 \<and> (b = 18 \<or> b = 19)"
    "in_net 32 (v4 240 0 0 0, 4) (v4 a b c d) \<longleftrightarrow> 240 \<le> a"
    "in_net 32 (v4 224 0 0 0, 4) (v4 a b c d) \<longleftrightarrow> 224 \<le> a \<and> a \<le> 239"
    "in_net 32 (v4 192 0 0 170, 31) (v4 a b c d) \<longleftrightarrow> a = 192 \<and> b = 0 \<and> c = 0 \<and> (d = 170 \<or> d = 171)"
proof -
  have z: "octet 0" "octet 16" "octet 64" "octet 18" "octet 170" "octet 31" "octet 127" "octet 19"
    by (simp_all add: octet_def)
  note net = in_net_def v4_div_div
  show "in_net 32 (v4 172 16 0 0, 12) (v4 a b c d) \<longleftrightarrow> a = 172 \<and> 16 \<le> b \<and> b \<le> 31"
    using z o range256 [of b 16 31 172 a] by (simp add: net) (simp add: int_div_eq_iff)
  show "in_net 32 (v4 100 64 0 0, 10) (v4 a b c d) \<longleftrightarrow> a = 100 \<and> 64 \<le> b \<and> b \<le> 127"
    using z o range256 [of b 64 127 100 a] by (simp add: net) (simp add: int_div_eq_iff)
  have "in_net 32 (v4 198 18 0 0, 15) (v4 a b c d) \<longleftrightarrow> a = 198 \<and> 18 \<le> b \<and> b \<le> 19"
    using z o range256 [of b 18 19 198 a] by (simp add: net) (simp add: int_div_eq_iff)
  then show "in_net 32 (v4 198 18 0 0, 15) (v4 a b c d) \<longleftrightarrow> a = 198 \<and> (b = 18 \<or> b = 19)"
    by linarith
  show "in_net 32 (v4 240 0 0 0, 4) (v4 a b c d) \<longleftrightarrow> 240 \<le> a"
    "in_net 32 (v4 224 0 0 0, 4) (v4 a b c d) \<longleftrightarrow> 224 \<le> a \<and> a \<le> 239"
    using z o by (simp_all add: net) (auto simp: int_div_eq_iff octet_def)
  have "in_net 32 (v4 192 0 0 170, 31) (v4 a b c d) \<longleftrightarrow>
      v4 a b c d div 2 = ((192 * 256 + 0) * 256 + 0) * 128 + 85"
    using z by (simp add: in_net_def v4_div_div)
  also have "\<dots> \<longleftrightarrow> (v4 a b c d = v4 192 0 0 170 \<or> v4 a b c d = v4 192 0 0 171)"
    by (auto simp: v4_def)
  also have "\<dots> \<longleftrightarrow> a = 192 \<and> b = 0 \<and> c = 0 \<and> (d = 170 \<or> d = 171)"
    using o by (subst v4_eq_iff; (simp add: octet_def)?)+ auto
  finally show "in_net 32 (v4 192 0 0 170, 31) (v4 a b c d) \<longleftrightarrow> a = 192 \<and> b = 0 \<and> c = 0 \<and> (d = 170 \<or> d = 171)" .
qed

lemma unsafe_ip_v4:
  assumes o: "octet a" "octet b" "octet c" "octet d"
  shows "unsafe_ip (IPv4 (v4 a b c d)) \<longleftrightarrow> special_v4 a b c d"
proof -
  have lit: "octet 0" "octet 2" "octet 10" "octet 127" "octet 169" "octet 254" "octet 192" "octet 168"
      "octet 198" "octet 51" "octet 100" "octet 203" "octet 113" "octet 255" "octet 9"
    by (simp_all add: octet_def)
  note net = in_net_v4 [OF o] in_net_v4_odd [OF o] lit
  have z: "v4 a b c d = 0 \<longrightarrow> a = 0"
    using o v4_eq_iff [of b c d 0 0 0 a 0] lit by (simp add: v4_def)
  have p: "in_nets 32 v4_private (v4 a b c d) \<longleftrightarrow>
      a = 0 \<or> a = 10 \<or> a = 127 \<or> (a = 169 \<and> b = 254) \<or> (a = 172 \<and> 16 \<le> b \<and> b \<le> 31)
      \<or> (a = 192 \<and> b = 0 \<and> c = 0) \<or> (a = 192 \<and> b = 0 \<and> c = 0 \<and> (d = 170 \<or> d = 171))
      \<or> (a = 192 \<and> b = 0 \<and> c = 2) \<or> (a = 192 \<and> b = 168) \<or> (a = 198 \<and> (b = 18 \<or> b = 19))
      \<or> (a = 198 \<and> b = 51 \<and> c = 100) \<or> (a = 203 \<and> b = 0 \<and> c = 113) \<or> 240 \<le> a
      \<or> (a = 255 \<and> b = 255 \<and> c = 255 \<and> d = 255)"
    by (simp add: in_nets_def v4_private_def net)
  have e: "in_nets 32 v4_private_exceptions (v4 a b c d) \<longrightarrow> a = 192 \<and> b = 0 \<and> c = 0"
    by (auto simp: in_nets_def v4_private_exceptions_def net)
  have x: "in_nets 32 extra_unsafe_v4 (v4 a b c d) \<longleftrightarrow>
      a = 0 \<or> (a = 100 \<and> 64 \<le> b \<and> b \<le> 127) \<or> (a = 192 \<and> b = 0 \<and> c = 0) \<or> (a = 192 \<and> b = 0 \<and> c = 2)
      \<or> (a = 198 \<and> (b = 18 \<or> b = 19)) \<or> (a = 198 \<and> b = 51 \<and> c = 100) \<or> (a = 203 \<and> b = 0 \<and> c = 113)"
    by (simp add: in_nets_def extra_unsafe_v4_def net)
  have u: "unsafe_ip (IPv4 (v4 a b c d)) \<longleftrightarrow>
      a = 127 \<or> v4 a b c d = 0 \<or> (a = 169 \<and> b = 254) \<or> (224 \<le> a \<and> a \<le> 239) \<or> 240 \<le> a
      \<or> in_nets 32 v4_private (v4 a b c d) \<and> \<not> in_nets 32 v4_private_exceptions (v4 a b c d)
      \<or> (a = 100 \<and> 64 \<le> b \<and> b \<le> 127) \<or> in_nets 32 extra_unsafe_v4 (v4 a b c d)"
    by (simp only: unsafe_ip_def ipv4_mapped.simps option.simps Let_def is_loopback.simps is_unspecified.simps
        is_link_local.simps is_multicast.simps is_reserved.simps is_private.simps is_global.simps
        extra_unsafe.simps net if_True if_False simp_thms if_bool_eq_disj) blast
  show ?thesis
  proof
    assume "unsafe_ip (IPv4 (v4 a b c d))"
    then show "special_v4 a b c d"
      unfolding u p x using z by (elim disjE conjE) (simp_all add: special_v4_def)
  next
    assume "special_v4 a b c d"
    then show "unsafe_ip (IPv4 (v4 a b c d))"
      unfolding u p x special_v4_def using e by (elim disjE conjE) (simp_all, linarith?)
  qed
qed

lemma dotted_chars: "octet a \<Longrightarrow> octet b \<Longrightarrow> octet c \<Longrightarrow> octet d \<Longrightarrow>
    ch \<in> set (dotted a b c d) \<Longrightarrow> is_ascii_digit ch \<or> ch = CHR ''.''"
  unfolding dotted_def octet_def using dec_digits by auto

lemma hd_dotted: "hd (dotted a b c d) \<in> set (dec a)" "last (dotted a b c d) \<in> set (dec d)"
  by (simp_all add: dotted_def last_append)

lemma clean_dotted: "octet a \<Longrightarrow> octet b \<Longrightarrow> octet c \<Longrightarrow> octet d \<Longrightarrow> clean_host (dotted a b c d)"
  using dotted_chars [of a b c d] hd_dotted [of a b c d] dec_no_dot [of a] dec_no_dot [of d]
  by (auto simp: clean_host_def list_all_iff host_char_def octet_def) (simp add: dotted_def)

lemma dotted_no_suffix:
  assumes "octet a" "octet b" "octet c" "octet d" and "ch \<in> set e" and "is_ascii_lower ch"
  shows "\<not> suffix e (dotted a b c d)" "dotted a b c d \<noteq> e"
proof -
  have "\<not> (is_ascii_digit ch \<or> ch = CHR ''.'')"
    using assms(6) by (auto simp: is_ascii_lower_def is_ascii_digit_def ord_def Let_def)
  then have "ch \<notin> set (dotted a b c d)" using dotted_chars assms(1-4) by blast
  then show "\<not> suffix e (dotted a b c d)" "dotted a b c d \<noteq> e"
    using assms(5) by (auto simp: suffix_def)
qed

lemma is_private_dotted:
  assumes o: "octet a" "octet b" "octet c" "octet d"
  shows "is_private_address (dotted a b c d) \<longleftrightarrow> unsafe_ip (IPv4 (v4 a b c d))"
proof -
  have l: "is_ascii_lower (CHR ''l'')" "is_ascii_lower (CHR ''a'')"
    by (simp_all add: is_ascii_lower_def ord_def)
  have n: "dotted a b c d \<noteq> ''0''" "dotted a b c d \<noteq> []"
    by (auto simp: dotted_def append_eq_Cons_conv)
  note no = dotted_no_suffix [OF o, of "CHR ''l''"] dotted_no_suffix [OF o, of "CHR ''a''"]
  have "\<not> (dotted a b c d \<in> set forbidden_hostnames \<or> list_ex (\<lambda>e. suffix e (dotted a b c d)) forbidden_suffixes)"
    using n l by (simp add: forbidden_hostnames_def forbidden_suffixes_def no)
  then show ?thesis
    using clean_hostD [OF clean_dotted [OF o]] n
    by (simp add: is_private_address_def Let_def parse_dotted [OF o])
qed

lemma unsafe_ip_mapped:
  assumes "0 \<le> a" and "a < 2 ^ 32"
  shows "unsafe_ip (IPv6 (0xFFFF * 2 ^ 32 + a)) = unsafe_ip (IPv4 a)"
proof -
  have "(0xFFFF * 2 ^ 32 + a) div 2 ^ 32 = 0xFFFF" "(0xFFFF * 2 ^ 32 + a) mod 2 ^ 32 = a"
    using assms by (simp_all only: mod_mult_self3 mod_pos_pos_trivial) (simp add: int_div_eq_iff)
  then have "ipv4_mapped (IPv6 (0xFFFF * 2 ^ 32 + a)) = Some (IPv4 a)"
    by (simp only: ipv4_mapped.simps if_True refl)
  then show ?thesis by (simp only: unsafe_ip_def ipv4_mapped.simps option.simps)
qed

section \<open>Properties\<close>


text \<open>
  A dotted IPv4 literal is refused exactly when its octets are in a special-use range
  (this network, RFC 1918, loopback, link-local with the cloud metadata address, CGNAT,
  protocol assignments, documentation, benchmarking, multicast, reserved), and the
  IPv4-mapped IPv6 form of an address is classified as the address itself.
\<close>

lemma ipv4_literal_classification:
  "octet a \<and> octet b \<and> octet c \<and> octet d \<longrightarrow>
     is_private_address (dotted a b c d) = special_v4 a b c d \<and>
     unsafe_ip (IPv6 (0xFFFF * 2 ^ 32 + v4 a b c d)) = special_v4 a b c d"
  using is_private_dotted unsafe_ip_v4 unsafe_ip_mapped v4_lt by metis

lemma ipv4_literal_classification_witness:
  "is_private_address (dotted 169 254 169 254) \<and> \<not> is_private_address (dotted 172 32 0 1) \<and>
   unsafe_ip (IPv6 (0xFFFF * 2 ^ 32 + v4 100 64 0 1))"
  using ipv4_literal_classification [of 169 254 169 254] ipv4_literal_classification [of 172 32 0 1]
    ipv4_literal_classification [of 100 64 0 1]
  by (simp add: octet_def special_v4_def)

text \<open>
  What people paste is reduced to its host. A scheme, credentials, a port and a path
  around a clean host name are all removed, whatever the path and the credentials hold,
  and the result of any input is lower case, has no dot at either end, and has none of
  the characters that delimit the parts of a URL.
\<close>

lemma normalise_host_url:
  assumes "clean_host h" and "CHR '':'' \<notin> set scheme" and "scheme = [] \<or> \<not> is_space (hd scheme)"
    and "set creds \<inter> {CHR ''/'', CHR ''?'', CHR ''#''} = {}" and "0 \<le> port"
  shows "normalise_host (scheme @ ''://'' @ creds @ ''@'' @ h @ '':'' @ dec port @ ''/'' @ path) = h"
proof -
  define host where "host = h @ '':'' @ dec port"
  define s where "s = scheme @ ''://'' @ creds @ ''@'' @ host @ ''/''"
  define rest where "rest = lower (rev (dropWhile is_space (rev path)))"
  have digits: "\<And>c. c \<in> set (dec port) \<Longrightarrow> host_char c \<and> c \<noteq> CHR ''.''"
    using dec_digits [OF assms(5)] dec_no_dot [OF assms(5)] by (auto simp: host_char_def)
  have port_free: "set (dec port) \<inter> {CHR ''/'', CHR ''?'', CHR ''#'', CHR ''@'', CHR '':''} = {}"
    using digits host_charD by blast
  have strip: "strip (s @ path) = s @ rev (dropWhile is_space (rev path))"
  proof -
    have "\<not> is_space (hd s)" "s \<noteq> []" using assms(3) by (cases scheme; simp add: s_def is_space_def ord_def)+
    then have "dropWhile is_space (s @ path) = s @ path" by (cases s) auto
    moreover have "\<not> is_space (CHR ''/'')" by (simp add: is_space_def ord_def)
    ultimately show ?thesis
      by (simp add: strip_def strip_if_def dropWhile_append s_def)
  qed
  have lc: "lower [x] = [x]" if "x \<in> {CHR '':'', CHR ''/'', CHR ''@''}" for x
    using that by (auto simp: lower_def lower_char_def ord_def)
  have "lower (dec port) = dec port" by (rule lower_fixed) (use digits host_charD in blast)
  then have "lower host = host" unfolding host_def lower_append by (simp only: clean_hostD [OF assms(1)] lc insertI1)
  moreover have "lower ''://'' = ''://''" by (simp add: lower_def lower_char_def ord_def)
  ultimately have low: "lower (strip (s @ path)) =
      lower scheme @ ''://'' @ (lower creds @ ''@'' @ host) @ CHR ''/'' # rest"
    unfolding strip unfolding s_def lower_append rest_def by (simp only: lc insertI1 insertI2 append_assoc append.simps)
  have host_free: "CHR ''/'' \<notin> set host" "CHR ''?'' \<notin> set host" "CHR ''#'' \<notin> set host" "CHR ''@'' \<notin> set host"
    unfolding host_def using clean_hostD(4) [OF assms(1)] port_free by auto
  have creds: "CHR ''/'' \<notin> set (lower creds)" "CHR ''?'' \<notin> set (lower creds)" "CHR ''#'' \<notin> set (lower creds)"
    using assms(4) by (simp_all add: notin_lower ord_def)
  have "CHR '':'' \<notin> set (lower scheme)" using assms(2) by (intro notin_lower) (simp_all add: ord_def)
  then have "after_scheme (lower (strip (s @ path))) = (lower creds @ ''@'' @ host) @ CHR ''/'' # rest"
    unfolding low after_scheme_def by (subst cut_first) simp_all
  then have parts: "before (CHR ''#'') (before (CHR ''?'') (before (CHR ''/'') (after_scheme (lower (strip (s @ path))))))
      = lower creds @ ''@'' @ host"
    using creds host_free by (simp add: before_first [of _ "lower creds @ ''@'' @ host", simplified] before_free)
  have "after_last (CHR ''@'') (lower creds @ ''@'' @ host) = host"
    using after_last_last [OF host_free(4)] by simp
  moreover have "\<not> prefix ''['' host" "count_list host (CHR '':'') = 1" "before (CHR '':'') host = h"
  proof -
    have "CHR '':'' \<notin> set h" "CHR '':'' \<notin> set (dec port)"
      using clean_hostD(4) [OF assms(1)] port_free by auto
    then show "count_list host (CHR '':'') = 1" "before (CHR '':'') host = h"
      by (simp_all add: host_def before_first)
    show "\<not> prefix ''['' host"
      using clean_hostD(4) [OF assms(1)] assms(1) by (cases h) (auto simp: host_def clean_host_def)
  qed
  ultimately have "normalise_host (s @ path) = h"
    unfolding normalise_host_def Let_def parts by (simp add: clean_hostD [OF assms(1)])
  then show ?thesis by (simp add: s_def host_def)
qed

lemma normalise_host_url_witness:
  "normalise_host ''HTTPS://Ann:pw@shop.example.com:8443/a@b?c'' = ''shop.example.com''"
  using normalise_host_url [of "''shop.example.com''" "''HTTPS''" "''Ann:pw''" 8443 "''a@b?c''"]
  by (simp add: clean_host_def host_char_def is_ascii_digit_def is_ascii_lower_def is_space_def ord_def Let_def
      dec.simps char_of_def)

section \<open>Literals and resolution\<close>

lemma those_SomeD: "those xs = Some ys \<Longrightarrow> None \<notin> set xs"
  by (induction xs arbitrary: ys rule: those.induct) auto

lemma parse_octet_chars: "parse_octet s = Some n \<Longrightarrow> c \<in> set s \<Longrightarrow> is_ascii_digit c"
  by (auto simp: parse_octet_def list_all_iff split: if_splits)

lemma split_chars: "c \<in> set s \<Longrightarrow> c = d \<or> (\<exists>w \<in> set (split_on d s). c \<in> set w)"
proof (induction s)
  case (Cons x s)
  obtain w ws where "split_on d s = w # ws" by (cases "split_on d s") auto
  with Cons show ?case by auto
qed simp

lemma parse_v4_chars:
  assumes "parse_v4 s = Some a" and "c \<in> set s"
  shows "is_ascii_digit c \<or> c = CHR ''.''"
proof -
  obtain w x y z where ns: "map parse_octet (split_on (CHR ''.'') s) = [Some w, Some x, Some y, Some z]"
    using assms(1) by (rule parse_v4_SomeE)
  have "\<exists>n. parse_octet v = Some n" if "v \<in> set (split_on (CHR ''.'') s)" for v
  proof -
    have "parse_octet v \<in> set (map parse_octet (split_on (CHR ''.'') s))" using that by simp
    then show ?thesis unfolding ns by auto
  qed
  then show ?thesis using split_chars [OF assms(2), of "CHR ''.''"] parse_octet_chars by blast
qed

lemma hex_part_chars:
  assumes "those (map parse_part ws) = Some gs" and "w \<in> set ws" and "c \<in> set w"
  shows "hex_digit c \<noteq> None"
proof -
  have "parse_part w \<noteq> None" using those_SomeD [OF assms(1)] assms(2) by (metis image_eqI image_set)
  then obtain ds where "those (map hex_digit w) = Some ds" using assms(3)
    by (auto simp: parse_part_def parse_hextet_def split: if_splits)
  from those_SomeD [OF this] assms(3) show ?thesis by (metis image_eqI image_set)
qed

definition literal_char :: "char \<Rightarrow> bool" where
  "literal_char c = (hex_digit c \<noteq> None \<or> c = CHR '':'' \<or> c = CHR ''.'')"

lemma digit_hex: "is_ascii_digit c \<Longrightarrow> hex_digit c \<noteq> None"
  by (auto simp: is_ascii_digit_def hex_digit_def Let_def)

lemma hex_parts_chars:
  assumes "hex_parts s = Some gs" and "c \<in> set s"
  shows "literal_char c"
proof -
  let ?ws = "split_on (CHR '':'') s"
  consider "c = CHR '':''" | w where "w \<in> set ?ws" "c \<in> set w"
    using split_chars [OF assms(2)] by blast
  then show ?thesis
  proof cases
    case 1
    then show ?thesis by (simp add: literal_char_def)
  next
    case 2
    show ?thesis
    proof (cases "CHR ''.'' \<in> set (last ?ws)")
      case False
      with assms(1) have "those (map parse_part ?ws) = Some gs" by (simp add: hex_parts_def Let_def)
      from hex_part_chars [OF this 2] show ?thesis by (simp add: literal_char_def)
    next
      case True
      with assms(1) obtain hs a where h: "those (map parse_part (butlast ?ws)) = Some hs" "parse_v4 (last ?ws) = Some a"
        by (auto simp: hex_parts_def Let_def split: option.splits)
      have "w \<in> set (butlast ?ws) \<or> w = last ?ws"
        using 2(1) append_butlast_last_id [OF split_on_ne, of "CHR '':''" s] by (metis in_set_conv_decomp rotate1.simps(2) set_ConsD set_rotate1)
      then show ?thesis
        using hex_part_chars [OF h(1) _ 2(2)] parse_v4_chars [OF h(2)] digit_hex 2(2)
        by (auto simp: literal_char_def)
    qed
  qed
qed

lemma ip_address_chars:
  assumes "ip_address s = Some ip" and "CHR ''%'' \<notin> set s" and "c \<in> set s"
  shows "literal_char c"
proof (cases "parse_v4 s")
  case (Some a)
  then show ?thesis using parse_v4_chars [OF Some assms(3)] digit_hex by (auto simp: literal_char_def)
next
  case None
  have "drop_scope s = Some s"
    using assms(2) by (auto simp: drop_scope_def split: option.splits dest: cut_SomeD)
  with assms(1) None obtain gs where "hex_parts s = Some gs"
    by (auto simp: ip_address_def parse_v6_def split: option.splits if_splits)
  then show ?thesis using hex_parts_chars assms(3) by blast
qed

lemma literal_char_no_space: "literal_char c \<Longrightarrow> \<not> is_space c"
  by (auto simp: literal_char_def is_space_def hex_digit_def Let_def ord_def split: if_splits)

text \<open>
  The form in which \<open>getaddrinfo\<close> writes an address: a literal, lower case, without
  surrounding white space or dots. And what it is for an address to be safe to contact.
\<close>

definition numeric_address :: "string \<Rightarrow> bool" where
  "numeric_address a = (strip_dots (lower (strip a)) = a \<and> ip_address a \<noteq> None)"

definition safe_address :: "string \<Rightarrow> bool" where
  "safe_address a = (case ip_address a of None \<Rightarrow> False | Some ip \<Rightarrow> \<not> unsafe_ip ip)"

lemma numeric_safe: "numeric_address a \<Longrightarrow> \<not> is_private_address a \<Longrightarrow> safe_address a"
  by (auto simp: numeric_address_def is_private_address_def safe_address_def Let_def ip_address_def parse_v4_def
      parse_octet_def parse_v6_def drop_scope_def split: if_splits option.splits)

lemma normalise_literal_numeric:
  assumes "CHR ''%'' \<notin> set target" and "ip_address (normalise_host target) = Some ip"
  shows "numeric_address (normalise_host target)"
proof -
  have "CHR ''%'' \<notin> set (lower (strip target))"
    using assms(1) set_strip_if [of is_space target]
    by (intro notin_lower) (auto simp: strip_def ord_def)
  moreover have "set (normalise_host target) \<subseteq> set (lower (strip target))"
    by (cases rule: normalise_host_cases [of target]) (use strip_dots_subset in \<open>auto\<close>)
  ultimately have "CHR ''%'' \<notin> set (normalise_host target)" by blast
  from ip_address_chars [OF assms(2) this] literal_char_no_space
  have "strip (normalise_host target) = normalise_host target"
    unfolding strip_def by (intro strip_if_free) blast
  then show ?thesis using assms(2) by (simp add: numeric_address_def normalise_host_lower)
qed

lemma resolve_cases:
  assumes "resolve_public_addresses getaddrinfo target port = Inr as"
  obtains (literal) ip where "ip_address (normalise_host target) = Some ip"
      and "\<not> is_private_address (normalise_host target)" and "as = [normalise_host target]"
    | (name) answer where "ip_address (normalise_host target) = None"
      and "getaddrinfo (normalise_host target) (if port = 0 then None else Some port) = Some answer"
      and "answer \<noteq> []" and "as = sort (remdups answer)" and "\<And>a. a \<in> set answer \<Longrightarrow> \<not> is_private_address a"
proof (cases "ip_address (normalise_host target)")
  case (Some ip)
  with assms show thesis
    by (intro literal) (auto simp: resolve_public_addresses_def Let_def split: if_splits)
next
  case None
  with assms obtain answer where a: "getaddrinfo (normalise_host target) (if port = 0 then None else Some port) = Some answer"
    by (auto simp: resolve_public_addresses_def Let_def split: if_splits option.splits)
  with assms None have e: "filter is_private_address (sort (remdups answer)) = []" "as = sort (remdups answer)"
      "sort (remdups answer) \<noteq> []"
    by (auto simp: resolve_public_addresses_def Let_def split: if_splits)
  then show thesis
    using None a by (intro name) (auto simp: filter_empty_conv)
qed

text \<open>
  C16: an accepted resolution holds only safe addresses. If \<open>getaddrinfo\<close> answers with
  numeric addresses, as documented, every address returned is a literal outside all the
  special-use ranges, the list is not empty, sorted and free of duplicates, and for a
  name it is the whole answer: a mixed answer is refused, never filtered.
\<close>

theorem resolve_public_addresses_safe:
  assumes "\<And>h p answer a. getaddrinfo h p = Some answer \<Longrightarrow> a \<in> set answer \<Longrightarrow> numeric_address a"
    and "CHR ''%'' \<notin> set target"
    and "resolve_public_addresses getaddrinfo target port = Inr as"
  shows "as \<noteq> [] \<and> sorted as \<and> distinct as \<and> list_all safe_address as \<and>
    (ip_address (normalise_host target) = None \<longrightarrow>
       map_option set (getaddrinfo (normalise_host target) (if port = 0 then None else Some port)) = Some (set as))"
  using assms(3)
proof (cases rule: resolve_cases)
  case (literal ip)
  with normalise_literal_numeric [OF assms(2) literal(1)] show ?thesis
    by (simp add: numeric_safe)
next
  case (name answer)
  then have "list_all safe_address as"
    using assms(1) [OF name(2)] numeric_safe by (auto simp: list_all_iff)
  moreover have "as \<noteq> []" using name(3,4) by (metis set_empty set_remdups set_sort)
  ultimately show ?thesis using name by simp
qed

theorem resolve_public_addresses_safe_witness:
  "list_all safe_address [''1.1.1.1'', ''8.8.8.8'']"
proof -
  let ?g = "(\<lambda>h p. if h = ''dns.example'' then Some [''8.8.8.8'', ''1.1.1.1'', ''8.8.8.8''] else None) :: lookup"
  have "numeric_address ''8.8.8.8''" "numeric_address ''1.1.1.1''" by code_simp+
  then have n: "\<And>h p answer a. ?g h p = Some answer \<Longrightarrow> a \<in> set answer \<Longrightarrow> numeric_address a"
    by (auto split: if_splits)
  have r: "resolve_public_addresses ?g ''https://DNS.example/q'' 443 = Inr [''1.1.1.1'', ''8.8.8.8'']" by code_simp
  have p: "CHR ''%'' \<notin> set ''https://DNS.example/q''" by simp
  show ?thesis
    by (rule resolve_public_addresses_safe [THEN conjunct2, THEN conjunct2, THEN conjunct2, THEN conjunct1, OF _ p r])
      (rule n)
qed

text \<open>
  The two places where the guard falls short of its comments. A scoped IPv6 literal whose
  scope id ends in white space parses as an address, but \<open>is_private_address\<close> strips
  the white space first, no longer parses it, and calls the loopback address public. And
  \<open>normalise_host\<close> is not idempotent: the host that \<open>assert_in_scope\<close> returns can
  differ from the one whose coverage it checked.
\<close>

lemma scoped_loopback_is_accepted:
  "ip_address ''::1% '' = Some (IPv6 1) \<and> unsafe_ip (IPv6 1) \<and>
   resolve_public_addresses (\<lambda>h p. None) ''[::1% ]'' 443 = Inr [''::1% '']"
  by code_simp

lemma normalise_host_not_idempotent:
  "assert_in_scope ''[good.com:evil'' [''good.com''] False = Inr ''good.com:evil'' \<and>
   normalise_host ''good.com:evil'' = ''good.com''"
  by code_simp

end
