(* ===== verification/SafeHttp.thy ===== *)
theory SafeHttp
  imports Scope
begin

text \<open>
  The HTTP client that cannot be redirected into a private network
  (\<open>workers/safe_http.py\<close>), with the choice of the address to connect to, which the port
  scanner and the TLS fingerprinter share. A request is its URL, its Host header and the
  TLS server name; \<open>httpx\<close> calls the request hook once for the initial request and once for
  each redirect hop.
\<close>

record http_url =
  url_scheme :: string
  url_host :: string
  url_port :: "int option"
  url_path :: string

record http_request =
  req_url :: http_url
  req_host_header :: "string option"
  req_sni :: "string option"

definition is_v4_literal :: "string \<Rightarrow> bool" where
  "is_v4_literal a = (case ip_address a of Some (IPv4 _) \<Rightarrow> True | _ \<Rightarrow> False)"

definition preferred_address :: "string list \<Rightarrow> string" where
  "preferred_address addresses =
    (case find is_v4_literal addresses of Some a \<Rightarrow> a | None \<Rightarrow> hd addresses)"

definition py_str_port :: "int option \<Rightarrow> string" where
  "py_str_port p = (case p of None \<Rightarrow> ''None'' | Some n \<Rightarrow> dec n)"

definition authority :: "http_url \<Rightarrow> string" where
  "authority url =
    (let host = (if CHR '':'' \<in> set (url_host url) then ''['' @ url_host url @ '']'' else url_host url);
         default = (url_scheme url = ''http'' \<and> url_port url \<in> {None, Some 80}) \<or>
                   (url_scheme url = ''https'' \<and> url_port url \<in> {None, Some 443})
     in if default then host else host @ '':'' @ py_str_port (url_port url))"

definition pin :: "http_request \<Rightarrow> string list \<Rightarrow> http_request" where
  "pin request addresses =
    (let original = authority (req_url request); sni = url_host (req_url request)
     in request\<lparr>req_url := (req_url request)\<lparr>url_host := preferred_address addresses\<rparr>,
                req_host_header := Some original, req_sni := Some sni\<rparr>)"

definition guard_request :: "lookup \<Rightarrow> http_request \<Rightarrow> scope_error + string list option" where
  "guard_request getaddrinfo request =
    (let host = url_host (req_url request) in
     case ip_address host of
       Some _ \<Rightarrow> (case resolve_public_addresses getaddrinfo host 0 of Inl e \<Rightarrow> Inl e | Inr _ \<Rightarrow> Inr None)
     | None \<Rightarrow>
         (case resolve_public_addresses getaddrinfo host
                 (case url_port (req_url request) of None \<Rightarrow> 0 | Some p \<Rightarrow> p) of
            Inl e \<Rightarrow> Inl e
          | Inr as \<Rightarrow> Inr (Some as)))"

definition request_hook :: "lookup \<Rightarrow> http_request \<Rightarrow> scope_error + http_request" where
  "request_hook getaddrinfo request =
    (case guard_request getaddrinfo request of
       Inl e \<Rightarrow> Inl e
     | Inr None \<Rightarrow> Inr request
     | Inr (Some as) \<Rightarrow> Inr (if as = [] then request else pin request as))"

text \<open>\<open>_with_hook\<close>: the guard runs before any hook the caller passed.\<close>

type_synonym http_hook = "http_request \<Rightarrow> scope_error + http_request"

definition with_hook :: "http_hook list \<Rightarrow> http_hook \<Rightarrow> http_hook list" where
  "with_hook caller_hooks hook = hook # caller_hooks"

fun run_hooks :: "http_hook list \<Rightarrow> http_request \<Rightarrow> scope_error + http_request" where
  "run_hooks [] request = Inr request"
| "run_hooks (h # hs) request = (case h request of Inl e \<Rightarrow> Inl e | Inr r \<Rightarrow> run_hooks hs r)"

text \<open>The address \<open>port_scanner._scan_host\<close> connects its probes to.\<close>

definition scan_address :: "lookup \<Rightarrow> string \<Rightarrow> int list \<Rightarrow> scope_error + string" where
  "scan_address getaddrinfo host ports =
    (case resolve_public_addresses getaddrinfo host (case ports of [] \<Rightarrow> 0 | p # _ \<Rightarrow> p) of
       Inl e \<Rightarrow> Inl e
     | Inr as \<Rightarrow> Inr (preferred_address as))"

section \<open>The interface of a guarded resolver\<close>

text \<open>
  What the clients rely on: an accepted resolution is not empty and holds no refused
  address. Whatever address a client then picks from it is not a refused one.
\<close>

lemma preferred_address_in: "as \<noteq> [] \<Longrightarrow> preferred_address as \<in> set as"
  by (auto simp: preferred_address_def dest: find_SomeD split: option.splits)

lemma preferred_address_v4:
  "a \<in> set as \<Longrightarrow> is_v4_literal a \<Longrightarrow> is_v4_literal (preferred_address as)"
  by (auto simp: preferred_address_def find_None_iff dest: find_SomeD split: option.splits)

locale guarded_resolver =
  fixes resolve :: "string \<Rightarrow> int \<Rightarrow> 'e + string list"
    and refused :: "string \<Rightarrow> bool"
  assumes accepted_nonempty: "resolve host port = Inr as \<Longrightarrow> as \<noteq> []"
    and accepted_public: "resolve host port = Inr as \<Longrightarrow> a \<in> set as \<Longrightarrow> \<not> refused a"
begin

lemma pick_public: "resolve host port = Inr as \<Longrightarrow> \<not> refused (preferred_address as)"
  using accepted_nonempty accepted_public preferred_address_in by blast

lemma pick_answer: "resolve host port = Inr as \<Longrightarrow> preferred_address as \<in> set as"
  using accepted_nonempty preferred_address_in by blast

end

lemma resolve_nonempty: "resolve_public_addresses g host port = Inr as \<Longrightarrow> as \<noteq> []"
  by (erule resolve_cases) (auto dest: arg_cong [of _ "[]" set])

lemma resolve_public: "resolve_public_addresses g host port = Inr as \<Longrightarrow> a \<in> set as \<Longrightarrow> \<not> is_private_address a"
  by (erule resolve_cases) auto

interpretation public: guarded_resolver "resolve_public_addresses g" is_private_address for g
  by unfold_locales (auto dest: resolve_nonempty resolve_public)

section \<open>The hook\<close>

lemma guard_request_literal:
  "ip_address (url_host (req_url r)) = Some ip \<Longrightarrow> request_hook g r = Inr r' \<Longrightarrow>
    r' = r \<and> (\<exists>as. resolve_public_addresses g (url_host (req_url r)) 0 = Inr as)"
  by (auto simp: request_hook_def guard_request_def split: sum.splits)

lemma guard_request_name:
  assumes "ip_address (url_host (req_url r)) = None" and "request_hook g r = Inr r'"
  obtains as where "resolve_public_addresses g (url_host (req_url r))
      (case url_port (req_url r) of None \<Rightarrow> 0 | Some p \<Rightarrow> p) = Inr as" and "r' = pin r as"
  using assms resolve_nonempty
  by (auto simp: request_hook_def guard_request_def split: sum.splits if_splits)

lemma last_split_on: "s \<noteq> [] \<Longrightarrow> last s \<noteq> c \<Longrightarrow> last (split_on c s) \<noteq> [] \<and> last (last (split_on c s)) = last s"
proof (induction s)
  case (Cons x s)
  obtain w ws where w: "split_on c s = w # ws" by (cases "split_on c s") auto
  show ?case
  proof (cases "s = []")
    case False
    with Cons have "last (split_on c s) \<noteq> []" "last (last (split_on c s)) = last s" by auto
    then show ?thesis using False w by (cases ws) auto
  qed (use Cons in auto)
qed simp

lemma parse_v4_ends:
  assumes "parse_v4 s = Some a"
  shows "s \<noteq> []" "hd s \<noteq> CHR ''.''" "last s \<noteq> CHR ''.''"
proof -
  obtain m n q r where "map parse_octet (split_on (CHR ''.'') s) = [Some m, Some n, Some q, Some r]"
    using assms by (rule parse_v4_SomeE)
  then obtain w x y z where sp: "split_on (CHR ''.'') s = [w, x, y, z]"
    and "parse_octet w = Some m" "parse_octet z = Some r"
    by (auto simp: Cons_eq_map_conv)
  then have ne: "w \<noteq> []" "z \<noteq> []" by (auto simp: parse_octet_def)
  have s: "s = w @ CHR ''.'' # x @ CHR ''.'' # y @ CHR ''.'' # z"
    using join_split [of "CHR ''.''" s] by (simp add: sp)
  have "CHR ''.'' \<notin> set w" "CHR ''.'' \<notin> set z"
    using split_on_parts [of _ "CHR ''.''" s] by (simp_all add: sp)
  then show "s \<noteq> []" "hd s \<noteq> CHR ''.''" "last s \<noteq> CHR ''.''"
    unfolding s using ne last_in_set [OF ne(2)] hd_in_set [OF ne(1)] by (auto simp del: hd_in_set last_in_set)
qed

lemma not_hex_dot: "hex_digit (CHR ''.'') = None"
  by (simp add: hex_digit_def ord_def)

lemma parse_v6_ends:
  assumes "hex_parts s = Some gs" and "3 \<le> length (split_on (CHR '':'') s)"
  shows "s \<noteq> []" "hd s \<noteq> CHR ''.''" "last s \<noteq> CHR ''.''"
proof -
  let ?ws = "split_on (CHR '':'') s"
  have parsed: "\<exists>hs. those (map parse_part (butlast ?ws)) = Some hs"
    and lastp: "CHR ''.'' \<in> set (last ?ws) \<Longrightarrow> \<exists>a. parse_v4 (last ?ws) = Some a"
  proof -
    have those_butlast: "\<exists>hs. those (butlast xs) = Some hs" if "those xs = Some ys" for xs :: "'x option list" and ys
      using that by (induction xs arbitrary: ys rule: those.induct) auto
    show "\<exists>hs. those (map parse_part (butlast ?ws)) = Some hs"
      using assms(1) those_butlast [of "map parse_part ?ws"]
      by (auto simp: hex_parts_def Let_def map_butlast split: if_splits option.splits)
    show "CHR ''.'' \<in> set (last ?ws) \<Longrightarrow> \<exists>a. parse_v4 (last ?ws) = Some a"
      using assms(1) by (auto simp: hex_parts_def Let_def split: option.splits)
  qed
  show ne: "s \<noteq> []" using assms(2) by (cases s) auto
  show "hd s \<noteq> CHR ''.''"
  proof
    assume "hd s = CHR ''.''"
    with ne obtain t where "s = CHR ''.'' # t" by (cases s) auto
    then obtain w ws where "?ws = (CHR ''.'' # w) # ws"
      by (cases "split_on (CHR '':'') t") auto
    moreover from this assms(2) have "ws \<noteq> []" by auto
    ultimately have "CHR ''.'' # w \<in> set (butlast ?ws)" by simp
    then show False using parsed hex_part_chars [of "butlast ?ws" _ "CHR ''.'' # w" "CHR ''.''"] not_hex_dot by auto
  qed
  show "last s \<noteq> CHR ''.''"
  proof
    assume l: "last s = CHR ''.''"
    then have "last ?ws \<noteq> []" "last (last ?ws) = CHR ''.''" using last_split_on [OF ne, of "CHR '':''"] by auto
    then have "CHR ''.'' \<in> set (last ?ws)" using last_in_set by metis
    then show False using lastp parse_v4_ends(3) \<open>last (last ?ws) = CHR ''.''\<close> by blast
  qed
qed

lemma literal_normalised:
  assumes "ip_address h = Some ip" and "CHR ''%'' \<notin> set h" and "lower h = h"
  shows "normalise_host h = h"
proof -
  have chars: "\<And>c. c \<in> set h \<Longrightarrow> literal_char c" using ip_address_chars assms(1,2) by blast
  have strip: "strip h = h" unfolding strip_def by (rule strip_if_free) (use chars literal_char_no_space in blast)
  have no: "\<not> literal_char c" if "c \<in> {CHR ''/'', CHR ''?'', CHR ''#'', CHR ''@'', CHR ''['' }" for c
    using that by (auto simp: literal_char_def hex_digit_def ord_def)
  then have free: "set h \<inter> {CHR ''/'', CHR ''?'', CHR ''#'', CHR ''@'', CHR ''['' } = {}" using chars by blast
  then have "after_scheme h = h"
    by (auto simp: after_scheme_def split: option.splits dest: cut_SomeD)
  have scope: "drop_scope h = Some h"
    using assms(2) by (auto simp: drop_scope_def split: option.splits dest: cut_SomeD)
  have "h \<noteq> [] \<and> hd h \<noteq> CHR ''.'' \<and> last h \<noteq> CHR ''.'' \<and> count_list h (CHR '':'') \<noteq> 1"
  proof (cases "parse_v4 h")
    case (Some a)
    have "CHR '':'' \<notin> set h" using parse_v4_chars [OF Some, of "CHR '':''"] by (auto simp: is_ascii_digit_def ord_def Let_def)
    then show ?thesis using parse_v4_ends [OF Some] by (simp add: count_notin)
  next
    case None
    with assms(1) scope obtain gs where "hex_parts h = Some gs" and "3 \<le> length (split_on (CHR '':'') h)"
      by (auto simp: ip_address_def parse_v6_def split: option.splits if_splits)
    then show ?thesis using parse_v6_ends length_split_on [of "CHR '':''" h] by auto
  qed
  moreover have "\<not> prefix ''['' h" using free by (cases h) auto
  moreover from calculation have "strip_dots h = h" unfolding strip_dots_def by (intro strip_if_clean) auto
  ultimately show ?thesis
    using free \<open>after_scheme h = h\<close> strip assms(3)
    by (simp add: normalise_host_def before_free after_last_free)
qed

section \<open>Properties\<close>

text \<open>
  C17: a request that passes the hook goes to a safe address, on the first request and on
  every redirect hop alike: the URL's host is then an address literal outside the
  special-use ranges, while scheme, port and path are untouched. For a name, the Host
  header and the TLS server name carry the original authority and host, and IPv4 is
  chosen when the answer has one; a literal is left as it is.
\<close>

theorem request_hook_pins_safe_address:
  assumes "\<And>h p answer a. getaddrinfo h p = Some answer \<Longrightarrow> a \<in> set answer \<Longrightarrow> numeric_address a"
    and "CHR ''%'' \<notin> set (url_host (req_url r))" and "lower (url_host (req_url r)) = url_host (req_url r)"
    and "request_hook getaddrinfo r = Inr r'"
  shows "safe_address (url_host (req_url r')) \<and>
    req_url r' = (req_url r)\<lparr>url_host := url_host (req_url r')\<rparr> \<and>
    (if ip_address (url_host (req_url r)) = None
     then req_host_header r' = Some (authority (req_url r)) \<and> req_sni r' = Some (url_host (req_url r))
     else r' = r)"
proof (cases "ip_address (url_host (req_url r))")
  case (Some ip)
  with assms(4) obtain as where r: "r' = r" and "resolve_public_addresses getaddrinfo (url_host (req_url r)) 0 = Inr as"
    using guard_request_literal by blast
  then have "\<not> is_private_address (url_host (req_url r))"
    using Some literal_normalised [OF Some assms(2,3)] by (auto elim: resolve_cases)
  moreover have "numeric_address (url_host (req_url r))"
    using normalise_literal_numeric [OF assms(2)] literal_normalised [OF Some assms(2,3)] Some by metis
  ultimately show ?thesis using r Some numeric_safe by auto
next
  case None
  from None assms(4) obtain as where as: "resolve_public_addresses getaddrinfo (url_host (req_url r))
      (case url_port (req_url r) of None \<Rightarrow> 0 | Some p \<Rightarrow> p) = Inr as" and r: "r' = pin r as"
    by (rule guard_request_name)
  have p: "\<not> is_private_address (preferred_address as)" "preferred_address as \<in> set as"
    using public.pick_public [OF as] public.pick_answer [OF as] by auto
  have "numeric_address (preferred_address as)"
    using as
  proof (cases rule: resolve_cases)
    case (literal ip)
    with normalise_literal_numeric [OF assms(2) literal(1)] show ?thesis
      using p(2) by simp
  next
    case (name answer)
    then show ?thesis using assms(1) [OF name(2)] p(2) by simp
  qed
  with p show ?thesis using r None numeric_safe by (simp add: pin_def Let_def)
qed

theorem request_hook_pins_safe_address_witness:
  "safe_address ''8.8.8.8''"
proof -
  let ?g = "(\<lambda>h p. if h = ''dns.example'' then Some [''8.8.8.8'', ''2001:4860:4860::8888''] else None) :: lookup"
  let ?u = "\<lparr>url_scheme = ''https'', url_host = ''dns.example'', url_port = None, url_path = ''/''\<rparr>"
  let ?r = "\<lparr>req_url = ?u, req_host_header = None, req_sni = None\<rparr>"
  let ?r' = "\<lparr>req_url = ?u\<lparr>url_host := ''8.8.8.8''\<rparr>, req_host_header = Some ''dns.example'', req_sni = Some ''dns.example''\<rparr>"
  have "numeric_address ''8.8.8.8''" "numeric_address ''2001:4860:4860::8888''" by code_simp+
  then have n: "\<And>h p answer a. ?g h p = Some answer \<Longrightarrow> a \<in> set answer \<Longrightarrow> numeric_address a"
    by (auto split: if_splits)
  have h: "request_hook ?g ?r = Inr ?r'" by code_simp
  have l: "CHR ''%'' \<notin> set (url_host (req_url ?r))" "lower (url_host (req_url ?r)) = url_host (req_url ?r)"
    by (simp, code_simp)
  have "safe_address (url_host (req_url ?r'))"
    by (rule request_hook_pins_safe_address [THEN conjunct1, OF _ l h]) (rule n)
  then show ?thesis by simp
qed

end
