(* ===== verification/Domains.thy ===== *)
theory Domains
  imports Scope
begin

text \<open>
  What counts as a domain an organisation may claim (\<open>core/domains.py\<close>). The label
  pattern \<open>^[a-z0-9]([a-z0-9-]{0,61}[a-z0-9])?$\<close> is written out as the regular-expression
  engine matches it: \<open>$\<close> also matches just before a final newline.
\<close>

definition max_domain_length :: nat where
  "max_domain_length = 253"

definition max_label_length :: nat where
  "max_label_length = 63"

definition public_suffixes :: "string list" where
  "public_suffixes =
    [''com'', ''net'', ''org'', ''info'', ''biz'', ''int'', ''edu'', ''gov'', ''mil'',
     ''io'', ''co'', ''ai'', ''app'', ''dev'', ''me'', ''tv'', ''cc'', ''xyz'', ''online'',
     ''site'', ''top'', ''shop'', ''cloud'', ''tech'', ''store'', ''blog'',
     ''uk'', ''us'', ''eu'', ''de'', ''fr'', ''nl'', ''es'', ''it'', ''se'', ''no'', ''fi'',
     ''dk'', ''pl'', ''ch'', ''at'', ''be'', ''ie'', ''pt'', ''gr'', ''cz'', ''ro'',
     ''ca'', ''au'', ''nz'', ''jp'', ''cn'', ''in'', ''br'', ''mx'', ''ru'', ''za'', ''kr'',
     ''sg'', ''hk'', ''tr'', ''ae'', ''il'', ''ar'', ''cl'', ''id'', ''my'', ''th'', ''vn'',
     ''co.uk'', ''org.uk'', ''ac.uk'', ''gov.uk'', ''net.uk'', ''me.uk'', ''ltd.uk'',
     ''com.au'', ''net.au'', ''org.au'', ''edu.au'', ''gov.au'',
     ''co.nz'', ''net.nz'', ''org.nz'', ''co.za'', ''org.za'', ''web.za'',
     ''co.jp'', ''or.jp'', ''ne.jp'', ''ac.jp'', ''go.jp'',
     ''com.br'', ''net.br'', ''org.br'', ''gov.br'', ''com.cn'', ''net.cn'', ''org.cn'', ''gov.cn'',
     ''co.in'', ''net.in'', ''org.in'', ''gov.in'', ''com.mx'', ''com.tr'', ''com.ar'', ''com.sg'',
     ''com.hk'', ''com.my'', ''com.tw'', ''com.pl'', ''com.ua'', ''com.ph'', ''com.vn'', ''com.co'']"

definition newline :: char where
  "newline = char_of (10 :: int)"

definition label_alnum :: "char \<Rightarrow> bool" where
  "label_alnum c = (is_ascii_digit c \<or> is_ascii_lower c)"

definition label_body :: "string \<Rightarrow> bool" where
  "label_body s =
    (s \<noteq> [] \<and> length s \<le> 63 \<and> label_alnum (hd s) \<and> label_alnum (last s)
     \<and> list_all (\<lambda>c. label_alnum c \<or> c = CHR ''-'') s)"

definition label_match :: "string \<Rightarrow> bool" where
  "label_match s = (label_body s \<or> (s \<noteq> [] \<and> last s = newline \<and> label_body (butlast s)))"

datatype domain_error =
    No_domain | Domain_too_long | Ip_literal | Not_qualified | Private_name string
  | Public_suffix string | Empty_label string | Label_too_long string | Bad_label string

fun check_labels :: "string \<Rightarrow> string list \<Rightarrow> domain_error option" where
  "check_labels domain [] = None"
| "check_labels domain (label # rest) =
     (if label = [] then Some (Empty_label domain)
      else if max_label_length < length label then Some (Label_too_long label)
      else if \<not> label_match label then Some (Bad_label label)
      else check_labels domain rest)"

definition normalise_claimable_domain :: "string \<Rightarrow> domain_error + string" where
  "normalise_claimable_domain s =
    (let domain = normalise_host s in
     if domain = [] then Inl No_domain
     else if max_domain_length < length domain then Inl Domain_too_long
     else if ip_address domain \<noteq> None then Inl Ip_literal
     else if CHR ''.'' \<notin> set domain then Inl Not_qualified
     else if is_private_address domain then Inl (Private_name domain)
     else if domain \<in> set public_suffixes then Inl (Public_suffix domain)
     else case check_labels domain (split_on (CHR ''.'') domain) of
            Some e \<Rightarrow> Inl e
          | None \<Rightarrow> Inr domain)"

section \<open>Facts\<close>

lemma check_labels_None:
  "check_labels d ls = None \<longleftrightarrow>
    (\<forall>l \<in> set ls. l \<noteq> [] \<and> length l \<le> max_label_length \<and> label_match l)"
  by (induction ls) auto

lemma claimable_iff:
  "normalise_claimable_domain s = Inr d \<longleftrightarrow>
    d = normalise_host s \<and> d \<noteq> [] \<and> length d \<le> max_domain_length \<and> ip_address d = None \<and> CHR ''.'' \<in> set d
    \<and> \<not> is_private_address d \<and> d \<notin> set public_suffixes \<and> check_labels d (split_on (CHR ''.'') d) = None"
  by (cases "d = normalise_host s") (auto simp: normalise_claimable_domain_def Let_def split: option.splits)

lemma label_body_chars: "label_body s \<Longrightarrow> c \<in> set s \<Longrightarrow> host_char c"
  by (auto simp: label_body_def list_all_iff label_alnum_def host_char_def)

lemma normalise_host_subset: "set (normalise_host s) \<subseteq> set (lower s)"
proof -
  have "set (normalise_host s) \<subseteq> set (lower (strip s))"
    by (cases rule: normalise_host_cases [of s]) (use strip_dots_subset in \<open>auto\<close>)
  also have "\<dots> \<subseteq> set (lower s)"
    using set_strip_if [of is_space s] by (auto simp: lower_def strip_def)
  finally show ?thesis .
qed

lemma newline_free: "newline \<notin> set s \<Longrightarrow> newline \<notin> set (normalise_host s)"
  using normalise_host_subset [of s] notin_lower [of newline s]
  by (auto simp: newline_def)

lemma claimable_clean:
  assumes "normalise_claimable_domain s = Inr d" and "newline \<notin> set s"
  shows "clean_host d" and "l \<in> set (split_on (CHR ''.'') d) \<Longrightarrow> label_body l"
proof -
  have d: "d = normalise_host s" "d \<noteq> []" "check_labels d (split_on (CHR ''.'') d) = None"
    using assms(1) unfolding claimable_iff by blast+
  have body: "label_body l" if "l \<in> set (split_on (CHR ''.'') d)" for l
  proof -
    have "newline \<notin> set l" using split_on_parts [OF that] newline_free [OF assms(2)] d(1) by auto
    moreover have "label_match l" using that d(3) by (auto simp: check_labels_None)
    ultimately show ?thesis by (auto simp: label_match_def dest: last_in_set)
  qed
  then show "l \<in> set (split_on (CHR ''.'') d) \<Longrightarrow> label_body l" .
  have "host_char c" if "c \<in> set d" for c
    using split_chars [OF that, of "CHR ''.''"] body label_body_chars by (auto simp: host_char_def)
  moreover have "strip_dots d = d" using d(1) by simp
  then have "hd d \<noteq> CHR ''.''" "last d \<noteq> CHR ''.''"
    using strip_if_ends [of "\<lambda>c. c = CHR ''.''" d] d(2) by (simp_all add: strip_dots_def)
  ultimately show "clean_host d" using d(2) by (simp add: clean_host_def list_all_iff)
qed

section \<open>Properties\<close>

text \<open>
  C24: a domain accepted for a claim (from an input without a newline) is a lower-case host
  name of at least two labels, each a letter-digit-hyphen label of at most 63 characters
  that neither starts nor ends with a hyphen, at most 253 characters in all; it is no IP
  literal, no private name and no listed public suffix. Claiming it again gives the same
  domain, and once verified it covers itself.
\<close>

theorem claimable_domain_sound:
  assumes "normalise_claimable_domain s = Inr d" and "newline \<notin> set s"
  shows "clean_host d \<and> length d \<le> 253 \<and> 2 \<le> length (split_on (CHR ''.'') d) \<and>
    list_all label_body (split_on (CHR ''.'') d) \<and> ip_address d = None \<and> \<not> is_private_address d \<and>
    d \<notin> set public_suffixes \<and> normalise_claimable_domain d = Inr d \<and> assert_in_scope d [d] False = Inr d"
proof -
  have c: "clean_host d" "list_all label_body (split_on (CHR ''.'') d)"
    using claimable_clean [OF assms] by (auto simp: list_all_iff)
  have n: "normalise_host d = d" using c(1) by (rule normalise_clean)
  have d: "d \<noteq> []" "length d \<le> max_domain_length" "ip_address d = None" "CHR ''.'' \<in> set d"
    "\<not> is_private_address d" "d \<notin> set public_suffixes" "check_labels d (split_on (CHR ''.'') d) = None"
    using assms(1) unfolding claimable_iff by blast+
  then have "0 < count_list d (CHR ''.'')" by (meson count_list_0_iff neq0_conv)
  then have "2 \<le> length (split_on (CHR ''.'') d)" by (simp add: length_split_on)
  moreover have "normalise_claimable_domain d = Inr d" using d n by (simp add: claimable_iff)
  moreover have "assert_in_scope d [d] False = Inr d"
    using d n clean_hostD [OF c(1)] by (auto simp: assert_in_scope_def in_scope_def Let_def)
  ultimately show ?thesis using c d by (simp add: max_domain_length_def)
qed

theorem claimable_domain_sound_witness:
  "normalise_claimable_domain ''example.com'' = Inr ''example.com''"
proof -
  have "normalise_claimable_domain ''https://Example.COM/path'' = Inr ''example.com''" by code_simp
  moreover have "newline \<notin> set ''https://Example.COM/path''" by code_simp
  ultimately show ?thesis using claimable_domain_sound [of "''https://Example.COM/path''" "''example.com''"] by blast
qed

text \<open>
  The pattern's \<open>$\<close> lets a label end with a newline: a domain that no zone can hold is
  accepted, and a public suffix followed by a newline passes the suffix check.
\<close>

lemma newline_label_is_accepted:
  "normalise_claimable_domain (''foo'' @ newline # ''.com'') = Inr (''foo'' @ newline # ''.com'') \<and>
   normalise_claimable_domain (''co.uk'' @ newline # ''.'') = Inr (''co.uk'' @ [newline])"
  by code_simp

end
