(* ===== verification/Passwords.thy ===== *)
theory Passwords
  imports Domains
begin

text \<open>
  Password strength (\<open>core/passwords.py\<close>): the offline check and the breach lookup. The
  float comparisons with 0.7 and 0.3 are written as the integer comparisons they are
  equal to for every length that occurs (at most 72). The SHA-1 digest in upper-case
  hexadecimal and the range query of the breach service are parameters.
\<close>

section \<open>Definitions\<close>

definition min_length :: nat where
  "min_length = 12"

definition max_bytes :: nat where
  "max_bytes = 72"

definition common_words :: "string list" where
  "common_words =
    [''password'', ''passwd'', ''pass'', ''secret'', ''letmein'', ''welcome'', ''admin'', ''administrator'', ''root'', ''toor'', ''login'',
     ''logon'', ''user'', ''username'', ''guest'', ''test'', ''testing'', ''demo'', ''sample'', ''example'', ''default'', ''changeme'',
     ''change'', ''qwerty'', ''qwertyuiop'', ''asdf'', ''asdfgh'', ''asdfghjkl'', ''zxcvbn'', ''zxcvbnm'', ''qazwsx'', ''qwe'', ''abc'',
     ''abcd'', ''abcde'', ''abcdef'', ''abcdefg'', ''monkey'', ''dragon'', ''master'', ''shadow'', ''superman'', ''batman'', ''spiderman'',
     ''football'', ''baseball'', ''basketball'', ''soccer'', ''hockey'', ''tennis'', ''golf'', ''cricket'', ''sunshine'', ''princess'',
     ''flower'', ''iloveyou'', ''loveyou'', ''love'', ''lovely'', ''forever'', ''angel'', ''diamond'', ''butterfly'', ''summer'',
     ''winter'', ''spring'', ''autumn'', ''january'', ''february'', ''march'', ''april'', ''june'', ''july'', ''august'', ''september'',
     ''october'', ''november'', ''december'', ''monday'', ''friday'', ''hello'', ''helloworld'', ''whatever'', ''trustno'',
     ''freedom'', ''starwars'', ''startrek'', ''pokemon'', ''minecraft'', ''fortnite'', ''computer'', ''internet'',
     ''microsoft'', ''windows'', ''google'', ''facebook'', ''twitter'', ''instagram'', ''samsung'', ''apple'', ''android'',
     ''linux'', ''ubuntu'', ''oracle'', ''amazon'', ''netflix'', ''spotify'', ''yahoo'', ''hotmail'', ''gmail'', ''school'', ''college'',
     ''university'', ''student'', ''teacher'', ''soccer'', ''money'', ''cash'', ''bank'', ''access'', ''phoenix'', ''ranger'', ''hunter'',
     ''killer'', ''ninja'', ''hacker'', ''matrix'', ''trinity'', ''neo'', ''cheese'', ''chocolate'', ''cookie'', ''pepper'', ''ginger'',
     ''jordan'', ''michael'', ''jennifer'', ''jessica'', ''ashley'', ''amanda'', ''joshua'', ''daniel'', ''matthew'', ''andrew'',
     ''david'', ''john'', ''james'', ''robert'', ''william'', ''richard'', ''thomas'', ''charlie'', ''george'', ''harry'', ''oliver'',
     ''jack'', ''sophie'', ''emma'', ''olivia'', ''liverpool'', ''arsenal'', ''chelsea'', ''barcelona'', ''madrid'', ''juventus'',
     ''manchester'', ''bayern'', ''dallas'', ''cowboys'', ''yankees'', ''lakers'', ''surfacewatch'', ''scanner'', ''security'',
     ''firewall'', ''network'', ''server'', ''database'', ''sysadmin'', ''support'', ''helpdesk'', ''service'', ''backup'',
     ''temporary'', ''temp'', ''public'', ''private'', ''secure'', ''insecure'', ''unknown'', ''nothing'', ''anything'',
     ''something'', ''nobody'', ''somebody'', ''everybody'', ''princess1'', ''sunshine1'', ''baby'', ''angel'', ''iloveu'',
     ''qwerty1'', ''monkey1'', ''dragon1'', ''asshole'', ''fuckyou'', ''fuckoff'', ''bullshit'']"

definition leet :: "char \<Rightarrow> char" where
  "leet c = (case map_of
     [(CHR ''0'', CHR ''o''), (CHR ''1'', CHR ''i''), (CHR ''3'', CHR ''e''), (CHR ''4'', CHR ''a''),
      (CHR ''5'', CHR ''s''), (CHR ''6'', CHR ''g''), (CHR ''7'', CHR ''t''), (CHR ''8'', CHR ''b''),
      (CHR ''9'', CHR ''g''), (CHR ''@'', CHR ''a''), (CHR ''$'', CHR ''s''), (CHR ''!'', CHR ''i''),
      (CHR ''|'', CHR ''i''), (CHR ''+'', CHR ''t'')] c of Some d \<Rightarrow> d | None \<Rightarrow> c)"

definition reduce :: "string \<Rightarrow> string" where
  "reduce s = filter is_ascii_lower (map leet (lower s))"

definition strip_non_alpha :: "string \<Rightarrow> string" where
  "strip_non_alpha s = filter is_ascii_lower (lower s)"

definition bases :: "string \<Rightarrow> string list" where
  "bases s = remdups [strip_non_alpha s, reduce s]"

definition keyboard_rows :: "string list" where
  "keyboard_rows =
    [''qwertyuiop'', ''asdfghjkl'', ''zxcvbnm'', ''1234567890'', ''abcdefghijklmnopqrstuvwxyz'']"

definition adjacent_pairs :: "(char \<times> char) list" where
  "adjacent_pairs =
    concat (map (\<lambda>row. zip row (tl row) @ zip (rev row) (tl (rev row))) keyboard_rows)"

definition adjacent :: "char \<Rightarrow> char \<Rightarrow> bool" where
  "adjacent c d = ((c, d) \<in> set adjacent_pairs)"

definition min_run :: nat where
  "min_run = 4"

text \<open>The loop of \<open>_keyboard_coverage\<close>: the current run ends in \<open>c\<close> and has \<open>run\<close> characters.\<close>

fun cover_from :: "nat \<Rightarrow> char \<Rightarrow> string \<Rightarrow> nat" where
  "cover_from run c [] = (if min_run \<le> run then run else 0)"
| "cover_from run c (d # s) =
     (if adjacent c d then cover_from (run + 1) d s
      else (if min_run \<le> run then run else 0) + cover_from 1 d s)"

definition fold_alnum :: "string \<Rightarrow> string" where
  "fold_alnum s = filter (\<lambda>c. is_ascii_lower c \<or> is_ascii_digit c) (lower s)"

definition covered :: "string \<Rightarrow> nat" where
  "covered folded = (case folded of [] \<Rightarrow> 0 | c # s \<Rightarrow> cover_from 1 c s)"

definition is_keyboard_run :: "string \<Rightarrow> bool" where
  "is_keyboard_run s =
    (let folded = fold_alnum s in
     if length folded < min_run then False else 7 * length folded \<le> 10 * covered folded)"

definition few_distinct :: "string \<Rightarrow> bool" where
  "few_distinct s = (10 * length (remdups s) < 3 * length s)"

definition has_repeated_unit :: "string \<Rightarrow> bool" where
  "has_repeated_unit s =
    (let folded = lower s; n = length folded in
     list_ex (\<lambda>size. concat (replicate (n div size) (take size folded)) = take (n div size * size) folded
       \<and> 3 \<le> n div size) [1..<n div 2 + 1])"

definition utf8_length :: "string \<Rightarrow> nat" where
  "utf8_length s = sum_list (map (\<lambda>c. if ord c < 128 then 1 else 2) s)"

datatype rejection =
    Too_short | Too_many_bytes | Outer_whitespace | Few_distinct | Repeated_unit | Keyboard_run
  | Common_password | Common_based | Context_based

definition common_based :: "string \<Rightarrow> bool" where
  "common_based base =
    list_ex (\<lambda>common. \<not> (length common < 4 \<or> 10 * length common < 7 * length base)
       \<and> (prefix common base \<or> suffix common base)) common_words"

definition context_based :: "string \<Rightarrow> string \<Rightarrow> bool" where
  "context_based token base =
    (base \<noteq> [] \<and> (token = base \<or> (contains token base \<and> 7 * length base \<le> 10 * length token)))"

definition check_password :: "string \<Rightarrow> string list \<Rightarrow> rejection option" where
  "check_password password ctx =
    (if length password < min_length then Some Too_short
     else if max_bytes < utf8_length password then Some Too_many_bytes
     else if password \<noteq> strip password then Some Outer_whitespace
     else if few_distinct password then Some Few_distinct
     else if has_repeated_unit password then Some Repeated_unit
     else if is_keyboard_run password then Some Keyboard_run
     else let candidates = bases password in
       if list_ex (\<lambda>base. base \<in> set common_words) candidates then Some Common_password
       else if list_ex common_based candidates then Some Common_based
       else if list_ex (\<lambda>item. let token = strip_non_alpha item in
                 \<not> length token < 4 \<and> list_ex (context_based token) candidates) ctx
            then Some Context_based
       else None)"

subsection \<open>The breach lookup\<close>

text \<open>\<open>str.splitlines\<close> and \<open>int(str)\<close>, on the characters below 256.\<close>

definition is_line_break :: "char \<Rightarrow> bool" where
  "is_line_break c = (let n = ord c in (10 \<le> n \<and> n \<le> 13) \<or> (28 \<le> n \<and> n \<le> 30) \<or> n = 133)"

definition after_break :: "char \<Rightarrow> string \<Rightarrow> string" where
  "after_break c s = (if ord c = 13 \<and> s \<noteq> [] \<and> ord (hd s) = 10 then tl s else s)"

function splitlines_from :: "string \<Rightarrow> string \<Rightarrow> string list" where
  "splitlines_from acc [] = (if acc = [] then [] else [acc])"
| "splitlines_from acc (c # s) =
     (if is_line_break c then acc # splitlines_from [] (after_break c s)
      else splitlines_from (acc @ [c]) s)"
  by pat_completeness auto
termination
  by (relation "measure (length \<circ> snd)") (auto simp: after_break_def)

fun digit_groups :: "bool \<Rightarrow> string \<Rightarrow> bool" where
  "digit_groups after_digit [] = after_digit"
| "digit_groups after_digit (c # s) =
     (if is_ascii_digit c then digit_groups True s
      else c = CHR ''_'' \<and> after_digit \<and> s \<noteq> [] \<and> digit_groups False s)"

definition py_int :: "string \<Rightarrow> int option" where
  "py_int text =
    (let s = strip text;
         neg = prefix ''-'' s;
         body = (if neg \<or> prefix ''+'' s then tl s else s)
     in if digit_groups False body
        then Some ((if neg then -1 else 1) * undec 0 (filter is_ascii_digit body))
        else None)"

fun find_suffix :: "string \<Rightarrow> string list \<Rightarrow> int" where
  "find_suffix sfx [] = 0"
| "find_suffix sfx (line # rest) =
     (let (candidate, count) = (case cut '':'' line of None \<Rightarrow> (line, []) | Some p \<Rightarrow> p) in
      if strip candidate = sfx then (case py_int count of Some n \<Rightarrow> n | None \<Rightarrow> 1)
      else find_suffix sfx rest)"

definition pwned_count :: "(string \<Rightarrow> string) \<Rightarrow> (string \<Rightarrow> string option) \<Rightarrow> string \<Rightarrow> int" where
  "pwned_count sha1_hex range_query password =
    (let digest = sha1_hex password in
     case range_query (take 5 digest) of
       None \<Rightarrow> 0
     | Some body \<Rightarrow> find_suffix (drop 5 digest) (splitlines_from [] body))"

text \<open>True when the request is refused with status 400.\<close>

definition assert_not_breached ::
    "bool \<Rightarrow> int \<Rightarrow> (string \<Rightarrow> string) \<Rightarrow> (string \<Rightarrow> string option) \<Rightarrow> string \<Rightarrow> bool" where
  "assert_not_breached enabled max_appearances sha1_hex range_query password =
    (enabled \<and> max_appearances \<le> pwned_count sha1_hex range_query password)"

subsection \<open>The payloads of \<open>schemas/auth.py\<close>\<close>

text \<open>\<open>re.split(r"[^a-z0-9]+", s)\<close> without its empty pieces.\<close>

fun alnum_pieces :: "string \<Rightarrow> string \<Rightarrow> string list" where
  "alnum_pieces acc [] = (if acc = [] then [] else [acc])"
| "alnum_pieces acc (c # s) =
     (if is_ascii_lower c \<or> is_ascii_digit c then alnum_pieces (acc @ [c]) s
      else if acc = [] then alnum_pieces [] s else acc # alnum_pieces [] s)"

definition account_context :: "string option list \<Rightarrow> string list" where
  "account_context vs =
    concat (map (\<lambda>v. case v of None \<Rightarrow> [] | Some text \<Rightarrow>
      (if text = [] then []
       else let (local, domain) = (case cut ''@'' text of None \<Rightarrow> (text, []) | Some p \<Rightarrow> p) in
         filter (\<lambda>p. 3 \<le> length p) (alnum_pieces [] (lower local)) @
         filter (\<lambda>p. 3 < length p) (alnum_pieces [] (lower domain)))) vs)"

datatype payload_error = Bad_domain domain_error | Weak_password rejection | Same_password

text \<open>The registration payload: the domain is normalised first, then the password is checked.\<close>

definition validate_register ::
    "string \<Rightarrow> string \<Rightarrow> string \<Rightarrow> string \<Rightarrow> string option \<Rightarrow> payload_error + string" where
  "validate_register email org_name domain password full_name =
    (case normalise_claimable_domain domain of
       Inl e \<Rightarrow> Inl (Bad_domain e)
     | Inr d \<Rightarrow>
         (case check_password password (account_context [Some email, Some org_name, Some d, full_name]) of
            Some problem \<Rightarrow> Inl (Weak_password problem)
          | None \<Rightarrow> Inr d))"

definition validate_invite :: "string \<Rightarrow> string \<Rightarrow> string option \<Rightarrow> payload_error option" where
  "validate_invite email password full_name =
    map_option Weak_password (check_password password (account_context [Some email, full_name]))"

definition validate_password_change :: "string \<Rightarrow> string \<Rightarrow> payload_error option" where
  "validate_password_change current new =
    (case check_password new [] of
       Some problem \<Rightarrow> Some (Weak_password problem)
     | None \<Rightarrow> if new = current then Some Same_password else None)"

section \<open>Facts\<close>

lemma check_password_None_iff:
  "check_password p ctx = None \<longleftrightarrow>
    min_length \<le> length p \<and> utf8_length p \<le> max_bytes \<and> strip p = p \<and> \<not> few_distinct p \<and> \<not> has_repeated_unit p
    \<and> \<not> is_keyboard_run p \<and> (\<forall>b \<in> set (bases p). b \<notin> set common_words \<and> \<not> common_based b)
    \<and> (\<forall>i \<in> set ctx. 4 \<le> length (strip_non_alpha i) \<longrightarrow>
          (\<forall>b \<in> set (bases p). \<not> context_based (strip_non_alpha i) b))"
  by (auto simp: check_password_def Let_def list_ex_iff not_less)

subsection \<open>Repeated units\<close>

lemma length_concat_replicate: "length (concat (replicate k u)) = k * length u"
  by (induction k) auto

text \<open>A repeated unit, as one would state it: three or more copies of a unit, then less than a unit.\<close>

lemma has_repeated_unit_iff:
  "has_repeated_unit s \<longleftrightarrow>
    (\<exists>u k r. lower s = concat (replicate k u) @ r \<and> 3 \<le> k \<and> length r < length u)"
proof
  assume "has_repeated_unit s"
  then obtain size where size: "size \<in> set [1..<length (lower s) div 2 + 1]" "3 \<le> length (lower s) div size"
    and eq: "concat (replicate (length (lower s) div size) (take size (lower s)))
      = take (length (lower s) div size * size) (lower s)"
    by (auto simp: has_repeated_unit_def Let_def list_ex_iff)
  let ?n = "length (lower s)" let ?k = "?n div size"
  have "0 < size" using size(1) by auto
  then have "?n mod size < size" by simp
  moreover have "size \<le> ?n" using size(1) by auto
  ultimately have "length (drop (?k * size) (lower s)) < length (take size (lower s))"
    by (simp add: minus_div_mult_eq_mod min_absorb2)
  moreover have "lower s = concat (replicate ?k (take size (lower s))) @ drop (?k * size) (lower s)"
    unfolding eq by simp
  ultimately show "\<exists>u k r. lower s = concat (replicate k u) @ r \<and> 3 \<le> k \<and> length r < length u"
    using size(2) by blast
next
  assume "\<exists>u k r. lower s = concat (replicate k u) @ r \<and> 3 \<le> k \<and> length r < length u"
  then obtain u k r where eq: "lower s = concat (replicate k u) @ r" and k: "3 \<le> k" and r: "length r < length u"
    by blast
  have n: "length (lower s) = k * length u + length r" by (simp add: eq length_concat_replicate)
  have d: "length (lower s) div length u = k" unfolding n using r by (intro div_nat_eqI) simp_all
  have t: "take (length u) (lower s) = u"
    using k by (cases k) (simp_all add: eq)
  have "length u \<in> set [1..<length (lower s) div 2 + 1]"
  proof -
    have "2 * length u \<le> length (lower s)" unfolding n using k by (simp add: trans_le_add1)
    then show ?thesis using r by auto
  qed
  moreover have "take (k * length u) (lower s) = concat (replicate k u)"
    by (simp add: eq length_concat_replicate)
  ultimately show "has_repeated_unit s"
    unfolding has_repeated_unit_def Let_def list_ex_iff using k d t by (intro bexI [of _ "length u"]) simp_all
qed

subsection \<open>Keyboard runs\<close>

lemma cover_from_chain:
  "successively adjacent (c # w) \<Longrightarrow> cover_from run c (w @ t) = cover_from (run + length w) (last (c # w)) t"
  by (induction w arbitrary: c run) auto

lemma cover_from_chunks:
  assumes "\<And>w. w \<in> set ws \<Longrightarrow> successively adjacent w \<and> min_run \<le> length w" and "min_run \<le> run"
  shows "cover_from run c (concat ws) = run + length (concat ws)"
  using assms
proof (induction ws arbitrary: c run)
  case (Cons w ws)
  then have "4 \<le> length w" by (simp add: min_run_def)
  then obtain d v where w: "w = d # v" by (cases w) auto
  have ch: "successively adjacent (d # v)" "min_run \<le> Suc (length v)" using Cons.prems(1) [of w] w by auto
  have "cover_from (run + 1) d (v @ concat ws) = run + 1 + length v + length (concat ws)"
    "cover_from 1 d (v @ concat ws) = 1 + length v + length (concat ws)"
    using Cons.prems Cons.IH ch by (simp_all add: cover_from_chain [OF ch(1)])
  then show ?case using Cons.prems(2) by (auto simp: w)
qed simp

lemma covered_chunks:
  assumes "\<And>w. w \<in> set ws \<Longrightarrow> successively adjacent w \<and> min_run \<le> length w"
  shows "covered (concat ws) = length (concat ws)"
proof (cases ws)
  case (Cons w vs)
  with assms have "4 \<le> length w" by (simp add: min_run_def)
  then obtain d v where w: "w = d # v" by (cases w) auto
  have ch: "successively adjacent (d # v)" "min_run \<le> Suc (length v)" using assms [of w] w Cons by auto
  then show ?thesis using assms Cons
    by (simp add: w covered_def cover_from_chain [OF ch(1)] cover_from_chunks)
qed (simp add: covered_def)

lemma cover_from_le: "cover_from run c s \<le> run + length s"
proof (induction s arbitrary: run c)
  case (Cons d s)
  from Cons [of "run + 1" d] Cons [of 1 d] show ?case by auto
qed simp

lemma covered_le: "covered folded \<le> length folded"
  using cover_from_le [of 1] by (auto simp: covered_def split: list.splits)

lemma keyboard_chunks:
  assumes "fold_alnum p = concat ws" and "ws \<noteq> []"
    and "\<And>w. w \<in> set ws \<Longrightarrow> successively adjacent w \<and> min_run \<le> length w"
  shows "is_keyboard_run p"
proof -
  obtain w where "w \<in> set ws" using assms(2) by (cases ws) auto
  then have "min_run \<le> length (concat ws)"
    using assms(3) [of w] member_le_sum_list [of "length w" "map length ws"] by (auto simp: length_concat)
  then show ?thesis using assms(1,3) covered_chunks [of ws] by (simp add: is_keyboard_run_def)
qed

section \<open>Properties\<close>

text \<open>
  An accepted password has at least 12 characters and at most 72 bytes, no white space
  at its ends, at least three distinct characters in ten, is not three or more copies of a
  unit, is neither a common word nor (seven tenths of it) decoration of one, and is not
  the letters of a context item of four letters or more.
\<close>

lemma accepted_password_facts:
  assumes "check_password p ctx = None"
  shows "12 \<le> length p \<and> utf8_length p \<le> 72 \<and> strip p = p \<and> 3 * length p \<le> 10 * card (set p) \<and>
    (\<nexists>u k r. lower p = concat (replicate k u) @ r \<and> 3 \<le> k \<and> length r < length u) \<and>
    strip_non_alpha p \<notin> set common_words \<and> reduce p \<notin> set common_words \<and>
    \<not> common_based (strip_non_alpha p) \<and> \<not> common_based (reduce p) \<and>
    strip_non_alpha p \<notin> {t \<in> strip_non_alpha ` set ctx. 4 \<le> length t}"
proof -
  have b: "set (bases p) = {strip_non_alpha p, reduce p}" by (simp add: bases_def)
  note all = assms [unfolded check_password_None_iff b]
  have common: "strip_non_alpha p \<notin> set common_words \<and> \<not> common_based (strip_non_alpha p) \<and>
      reduce p \<notin> set common_words \<and> \<not> common_based (reduce p)"
    using all by (elim conjE) (simp only: ball_simps simp_thms)
  have ctx: "\<not> context_based (strip_non_alpha i) (strip_non_alpha p)"
    if "i \<in> set ctx" and "4 \<le> length (strip_non_alpha i)" for i
    using all that by (elim conjE) (simp only: ball_simps simp_thms)
  have "strip_non_alpha p \<notin> {t \<in> strip_non_alpha ` set ctx. 4 \<le> length t}"
  proof
    assume "strip_non_alpha p \<in> {t \<in> strip_non_alpha ` set ctx. 4 \<le> length t}"
    then obtain i where i: "i \<in> set ctx" "strip_non_alpha p = strip_non_alpha i" "4 \<le> length (strip_non_alpha i)"
      by auto
    then have "\<not> context_based (strip_non_alpha i) (strip_non_alpha i)" using ctx [OF i(1,3)] by simp
    with i(3) show False by (cases "strip_non_alpha i") (auto simp: context_based_def)
  qed
  moreover have "3 * length p \<le> 10 * card (set p)"
    using all by (elim conjE) (simp add: few_distinct_def not_less length_remdups_card_conv)
  moreover have "12 \<le> length p" "utf8_length p \<le> 72" "strip p = p"
    using all by (simp_all add: min_length_def max_bytes_def)
  moreover have "\<not> has_repeated_unit p" using all by (elim conjE)
  ultimately show ?thesis using common unfolding has_repeated_unit_iff by blast
qed

lemma accepted_password_facts_witness:
  "12 \<le> length ''my-glacier-vault-42'' \<and> reduce ''my-glacier-vault-42'' \<notin> set common_words"
proof -
  have "check_password ''my-glacier-vault-42'' [''Vault Corp''] = None" by code_simp
  from accepted_password_facts [OF this] show ?thesis by blast
qed

text \<open>
  Keyboard and alphabet runs are rejected however many are put together. If the letters
  and digits of a password are a concatenation of runs of at least four keys, each a walk
  along keyboard rows, the password is refused, whatever its length.
\<close>

lemma keyboard_runs_rejected:
  assumes "fold_alnum p = concat ws" and "ws \<noteq> []"
    and "\<And>w. w \<in> set ws \<Longrightarrow> successively adjacent w \<and> min_run \<le> length w"
  shows "check_password p ctx \<noteq> None"
  using keyboard_chunks [OF assms] by (auto simp: check_password_None_iff)

lemma keyboard_runs_rejected_witness:
  "check_password ''Qwertyuiop-1234567890-qwertyuiop-1234567890'' [] \<noteq> None"
proof (rule keyboard_runs_rejected)
  show "fold_alnum ''Qwertyuiop-1234567890-qwertyuiop-1234567890''
      = concat [''qwertyuiop'', ''1234567890'', ''qwertyuiop'', ''1234567890'']" by code_simp
  show "[''qwertyuiop'', ''1234567890'', ''qwertyuiop'', ''1234567890''] \<noteq> []" by simp
  have "successively adjacent ''qwertyuiop''" "successively adjacent ''1234567890''" by code_simp+
  then show "\<And>w. w \<in> set [''qwertyuiop'', ''1234567890'', ''qwertyuiop'', ''1234567890''] \<Longrightarrow>
      successively adjacent w \<and> min_run \<le> length w"
    by (auto simp: min_run_def)
qed

text \<open>The example in the docstring of \<open>_reduce\<close> is off by one letter: the zero folds to an o.\<close>

lemma reduce_docstring_example: "reduce ''P@ssw0rd!2024'' = ''passwordioa''"
  by code_simp

end
