(* ===== verification/RateLimit.thy ===== *)
theory RateLimit
  imports PyString
begin

text \<open>
  The rate limiter of the authentication endpoints (\<open>core/ratelimit.py\<close>). Redis is a
  parameter: a record of the commands the limiter sends, each of which may fail, on a
  store of any type. What the limiter relies on is stated by the locale
  \<open>counter_store\<close> (the documented behaviour of INCR, TTL, EXPIRE, GET and DEL on one
  window) and interpreted on a store with values, expiry times, a clock and an outage
  flag.
\<close>

section \<open>Definitions\<close>

record rate_limit_rule =
  rule_bucket :: string
  rule_limit :: int
  rule_window :: int

text \<open>
  The commands: the pipelines INCR and TTL, GET and TTL, then EXPIRE and DEL. None and False
  are the exception of a client that cannot reach the server; TTL is -1 for a key without
  an expiry and -2 for a missing one.
\<close>

record 'r redis_client =
  rc_incr_ttl :: "string \<Rightarrow> 'r \<Rightarrow> (int \<times> int) option \<times> 'r"
  rc_get_ttl :: "string \<Rightarrow> 'r \<Rightarrow> (int option \<times> int) option"
  rc_expire :: "string \<Rightarrow> int \<Rightarrow> 'r \<Rightarrow> bool \<times> 'r"
  rc_delete :: "string \<Rightarrow> 'r \<Rightarrow> bool \<times> 'r"

definition forwarded_parts :: "string \<Rightarrow> string list" where
  "forwarded_parts forwarded =
    map strip (filter (\<lambda>p. strip p \<noteq> []) (split_on (CHR '','') forwarded))"

definition client_ip :: "int \<Rightarrow> string option \<Rightarrow> string option \<Rightarrow> string" where
  "client_ip hops forwarded peer =
    (let direct = (case peer of Some host \<Rightarrow> host | None \<Rightarrow> ''unknown'') in
     if 0 < hops then
       (case forwarded of
          None \<Rightarrow> direct
        | Some header \<Rightarrow>
            (let parts = forwarded_parts header; index = int (length parts) - hops in
             if header = [] \<or> parts = [] then direct
             else if 0 \<le> index \<and> index < int (length parts) then parts ! nat index
             else hd parts))
     else direct)"

definition hash_identity :: "(string \<Rightarrow> string) \<Rightarrow> string \<Rightarrow> string" where
  "hash_identity sha256_hex text = take 32 (sha256_hex (lower (strip text)))"

definition rate_key :: "rate_limit_rule \<Rightarrow> string \<Rightarrow> string" where
  "rate_key rule identity = ''ratelimit:'' @ rule_bucket rule @ '':'' @ identity"

definition incr_counter :: "'r redis_client \<Rightarrow> string \<Rightarrow> int \<Rightarrow> 'r \<Rightarrow> int option \<times> 'r" where
  "incr_counter client key window st =
    (case rc_incr_ttl client key st of
       (None, st') \<Rightarrow> (None, st')
     | (Some (count, ttl), st') \<Rightarrow>
         (if ttl < 0
          then (case rc_expire client key window st' of
                  (False, st'') \<Rightarrow> (None, st'')
                | (True, st'') \<Rightarrow> (Some count, st''))
          else (Some count, st')))"

definition peek_counter :: "'r redis_client \<Rightarrow> string \<Rightarrow> 'r \<Rightarrow> int \<times> int" where
  "peek_counter client key st =
    (case rc_get_ttl client key st of
       None \<Rightarrow> (0, 0)
     | Some (raw, ttl) \<Rightarrow> (case raw of None \<Rightarrow> 0 | Some n \<Rightarrow> n, max ttl 0))"

text \<open>The 429 response: its Retry-After header.\<close>

datatype verdict = Allowed | Too_many int

definition too_many :: "int \<Rightarrow> verdict" where
  "too_many retry_after = Too_many (max retry_after 1)"

definition enforce :: "bool \<Rightarrow> 'r redis_client \<Rightarrow> rate_limit_rule \<Rightarrow> string \<Rightarrow> 'r \<Rightarrow> verdict \<times> 'r" where
  "enforce enabled client rule identity st =
    (if \<not> enabled then (Allowed, st)
     else let key = rate_key rule identity in
       case incr_counter client key (rule_window rule) st of
         (None, st') \<Rightarrow> (Allowed, st')
       | (Some count, st') \<Rightarrow>
           (if count \<le> rule_limit rule then (Allowed, st')
            else let ttl = snd (peek_counter client key st') in
              (too_many (if ttl = 0 then rule_window rule else ttl), st')))"

definition assert_under :: "bool \<Rightarrow> 'r redis_client \<Rightarrow> rate_limit_rule \<Rightarrow> string \<Rightarrow> 'r \<Rightarrow> verdict" where
  "assert_under enabled client rule identity st =
    (if \<not> enabled then Allowed
     else let (count, ttl) = peek_counter client (rate_key rule identity) st in
       if rule_limit rule < count then too_many (if ttl = 0 then rule_window rule else ttl)
       else Allowed)"

definition record_failure :: "bool \<Rightarrow> 'r redis_client \<Rightarrow> rate_limit_rule \<Rightarrow> string \<Rightarrow> 'r \<Rightarrow> 'r" where
  "record_failure enabled client rule identity st =
    (if \<not> enabled then st
     else snd (incr_counter client (rate_key rule identity) (rule_window rule) st))"

definition clear_failures :: "bool \<Rightarrow> 'r redis_client \<Rightarrow> rate_limit_rule \<Rightarrow> string \<Rightarrow> 'r \<Rightarrow> 'r" where
  "clear_failures enabled client rule identity st =
    (if \<not> enabled then st else snd (rc_delete client (rate_key rule identity) st))"

text \<open>The rules of the program, over the configured thresholds.\<close>

record rate_settings =
  rs_enabled :: bool
  rs_window :: int
  rs_login_per_ip :: int
  rs_login_failures :: int
  rs_register_per_ip :: int
  rs_refresh_per_ip :: int
  rs_domain_verify_per_org :: int

definition default_rate_settings :: rate_settings where
  "default_rate_settings =
    \<lparr>rs_enabled = True, rs_window = 900, rs_login_per_ip = 30, rs_login_failures = 10,
     rs_register_per_ip = 5, rs_refresh_per_ip = 60, rs_domain_verify_per_org = 20\<rparr>"

definition rate_rules :: "rate_settings \<Rightarrow> rate_limit_rule list" where
  "rate_rules s =
    [\<lparr>rule_bucket = ''login:ip'', rule_limit = rs_login_per_ip s, rule_window = rs_window s\<rparr>,
     \<lparr>rule_bucket = ''login:account'', rule_limit = rs_login_failures s, rule_window = rs_window s\<rparr>,
     \<lparr>rule_bucket = ''register:ip'', rule_limit = rs_register_per_ip s, rule_window = rs_window s\<rparr>,
     \<lparr>rule_bucket = ''refresh:ip'', rule_limit = rs_refresh_per_ip s, rule_window = rs_window s\<rparr>,
     \<lparr>rule_bucket = ''password:user'', rule_limit = rs_login_failures s, rule_window = rs_window s\<rparr>,
     \<lparr>rule_bucket = ''domain_verify:org'', rule_limit = rs_domain_verify_per_org s, rule_window = rs_window s\<rparr>]"

definition login_account_rule :: "rate_settings \<Rightarrow> rate_limit_rule" where
  "login_account_rule s = rate_rules s ! 1"

text \<open>A sequence of charged requests, each under its rule and identity.\<close>

fun run_enforce :: "'r redis_client \<Rightarrow> (rate_limit_rule \<times> string) list \<Rightarrow> 'r \<Rightarrow> verdict list" where
  "run_enforce client [] st = []"
| "run_enforce client ((rule, identity) # qs) st =
     (case enforce True client rule identity st of (v, st') \<Rightarrow> v # run_enforce client qs st')"

fun run_failures :: "'r redis_client \<Rightarrow> rate_limit_rule \<Rightarrow> string \<Rightarrow> nat \<Rightarrow> 'r \<Rightarrow> 'r" where
  "run_failures client rule identity 0 st = st"
| "run_failures client rule identity (Suc n) st =
     run_failures client rule identity n (record_failure True client rule identity st)"

abbreviation request_key :: "rate_limit_rule \<times> string \<Rightarrow> string" where
  "request_key q \<equiv> rate_key (fst q) (snd q)"

section \<open>The interface of a counter store\<close>

text \<open>
  \<open>up st\<close>: the server answers, and answers until the run ends. \<open>counter st k\<close>: the
  value under \<open>k\<close> in the current window, 0 for a missing key.
\<close>

locale counter_store =
  fixes client :: "'r redis_client"
    and up :: "'r \<Rightarrow> bool"
    and counter :: "'r \<Rightarrow> string \<Rightarrow> int"
  assumes incr_law: "up st \<Longrightarrow> \<exists>ttl st'. rc_incr_ttl client k st = (Some (counter st k + 1, ttl), st') \<and> up st'
      \<and> counter st' = (counter st)(k := counter st k + 1)"
    and expire_law: "up st \<Longrightarrow> 0 < w \<Longrightarrow> \<exists>st'. rc_expire client k w st = (True, st') \<and> up st' \<and> counter st' = counter st"
    and get_law: "up st \<Longrightarrow> \<exists>raw ttl. rc_get_ttl client k st = Some (raw, ttl) \<and> counter st k = (case raw of None \<Rightarrow> 0 | Some n \<Rightarrow> n)"
    and delete_law: "up st \<Longrightarrow> \<exists>b st'. rc_delete client k st = (b, st') \<and> up st' \<and> counter st' = (counter st)(k := 0)"
begin

lemma incr_counter_step:
  assumes "up st" and "0 < w"
  shows "\<exists>st'. incr_counter client k w st = (Some (counter st k + 1), st') \<and> up st'
    \<and> counter st' = (counter st)(k := counter st k + 1)"
proof -
  obtain ttl st1 where s1: "rc_incr_ttl client k st = (Some (counter st k + 1, ttl), st1)" "up st1"
      "counter st1 = (counter st)(k := counter st k + 1)"
    using incr_law [OF assms(1)] by blast
  obtain st2 where "rc_expire client k w st1 = (True, st2)" "up st2" "counter st2 = counter st1"
    using expire_law [OF s1(2) assms(2)] by blast
  with s1 show ?thesis by (simp add: incr_counter_def)
qed

lemma peek_count: "up st \<Longrightarrow> fst (peek_counter client k st) = counter st k"
  using get_law [of st k] by (auto simp: peek_counter_def)

lemma enforce_step:
  assumes "up st" and "0 < rule_window r"
  obtains v st' where "enforce True client r i st = (v, st')" and "up st'"
    and "counter st' = (counter st)(rate_key r i := counter st (rate_key r i) + 1)"
    and "v = Allowed \<longleftrightarrow> counter st (rate_key r i) < rule_limit r"
proof -
  obtain st' where s: "incr_counter client (rate_key r i) (rule_window r) st = (Some (counter st (rate_key r i) + 1), st')"
      "up st'" "counter st' = (counter st)(rate_key r i := counter st (rate_key r i) + 1)"
    using incr_counter_step [OF assms, of "rate_key r i"] by blast
  have "snd (enforce True client r i st) = st'"
    "fst (enforce True client r i st) = Allowed \<longleftrightarrow> counter st (rate_key r i) < rule_limit r"
    by (simp_all add: enforce_def Let_def too_many_def s(1))
  then show thesis by (intro that [OF _ s(2,3)]) (auto simp: prod_eq_iff)
qed

lemma assert_under_iff:
  "up st \<Longrightarrow> assert_under True client r i st = Allowed \<longleftrightarrow> counter st (rate_key r i) \<le> rule_limit r"
  using peek_count [of st "rate_key r i"]
  by (auto simp: assert_under_def too_many_def split: prod.splits)

lemma run_enforce_nth:
  assumes "up st" and "\<And>q. q \<in> set qs \<Longrightarrow> 0 < rule_window (fst q)" and "n < length qs"
  shows "run_enforce client qs st ! n = Allowed \<longleftrightarrow>
    counter st (request_key (qs ! n)) + int (count_where (\<lambda>q. request_key q = request_key (qs ! n)) (take n qs))
      < rule_limit (fst (qs ! n))"
  using assms
proof (induction qs arbitrary: st n)
  case (Cons q qs)
  obtain r i where q: "q = (r, i)" by (cases q)
  have w: "0 < rule_window r" using Cons.prems(2) [of q] by (simp add: q)
  obtain v st' where e: "enforce True client r i st = (v, st')" "up st'"
      "counter st' = (counter st)(rate_key r i := counter st (rate_key r i) + 1)"
      "v = Allowed \<longleftrightarrow> counter st (rate_key r i) < rule_limit r"
    using enforce_step [OF Cons.prems(1) w] by blast
  show ?case
  proof (cases n)
    case 0
    then show ?thesis using e by (simp add: q)
  next
    case (Suc m)
    then have "m < length qs" using Cons.prems(3) by simp
    from Cons.IH [OF e(2) _ this] Cons.prems(2) show ?thesis
      by (simp add: Suc q e(1,3) algebra_simps)
  qed
qed simp

lemma run_failures_counter:
  assumes "up st" and "0 < rule_window r"
  shows "up (run_failures client r i n st) \<and>
    counter (run_failures client r i n st) = (counter st)(rate_key r i := counter st (rate_key r i) + int n)"
  using assms(1)
proof (induction n arbitrary: st)
  case (Suc n)
  obtain st' where s: "incr_counter client (rate_key r i) (rule_window r) st = (Some (counter st (rate_key r i) + 1), st')"
      "up st'" "counter st' = (counter st)(rate_key r i := counter st (rate_key r i) + 1)"
    using incr_counter_step [OF Suc.prems assms(2), of "rate_key r i"] by blast
  with Suc.IH [OF s(2)] show ?case by (simp add: record_failure_def fun_eq_iff)
qed simp

lemma clear_failures_counter:
  "up st \<Longrightarrow> up (clear_failures True client r i st) \<and>
    counter (clear_failures True client r i st) = (counter st)(rate_key r i := 0)"
  using delete_law [of st "rate_key r i"] by (auto simp: clear_failures_def)

end

section \<open>A store with a clock\<close>

text \<open>
  The documented semantics of the commands: a key holds a number and possibly the time at
  which it expires, INCR starts a missing key at 1 without an expiry, EXPIRE sets it, an
  expired key is missing. \<open>rs_down\<close> is an outage.
\<close>

record redis_store =
  rd_now :: int
  rd_down :: bool
  rd_keys :: "string \<Rightarrow> (int \<times> int option) option"

definition rd_live :: "redis_store \<Rightarrow> string \<Rightarrow> (int \<times> int option) option" where
  "rd_live st k =
    (case rd_keys st k of
       None \<Rightarrow> None
     | Some (n, e) \<Rightarrow> (if (case e of None \<Rightarrow> False | Some t \<Rightarrow> t \<le> rd_now st) then None else Some (n, e)))"

definition rd_count :: "redis_store \<Rightarrow> string \<Rightarrow> int" where
  "rd_count st k = (case rd_live st k of None \<Rightarrow> 0 | Some (n, e) \<Rightarrow> n)"

definition rd_ttl :: "redis_store \<Rightarrow> string \<Rightarrow> int" where
  "rd_ttl st k = (case rd_live st k of None \<Rightarrow> -2 | Some (n, None) \<Rightarrow> -1 | Some (n, Some t) \<Rightarrow> t - rd_now st)"

definition rd_client :: "redis_store redis_client" where
  "rd_client =
    \<lparr>rc_incr_ttl = (\<lambda>k st. if rd_down st then (None, st) else
        let e = (case rd_live st k of None \<Rightarrow> None | Some (n, e) \<Rightarrow> e);
            st' = st\<lparr>rd_keys := (rd_keys st)(k := Some (rd_count st k + 1, e))\<rparr>
        in (Some (rd_count st k + 1, rd_ttl st' k), st')),
     rc_get_ttl = (\<lambda>k st. if rd_down st then None else Some (map_option fst (rd_live st k), rd_ttl st k)),
     rc_expire = (\<lambda>k w st. if rd_down st then (False, st) else
        (True, case rd_live st k of None \<Rightarrow> st
               | Some (n, e) \<Rightarrow> st\<lparr>rd_keys := (rd_keys st)(k := Some (n, Some (rd_now st + w)))\<rparr>)),
     rc_delete = (\<lambda>k st. if rd_down st then (False, st) else (True, st\<lparr>rd_keys := (rd_keys st)(k := None)\<rparr>))\<rparr>"

definition rd_empty :: redis_store where
  "rd_empty = \<lparr>rd_now = 0, rd_down = False, rd_keys = (\<lambda>k. None)\<rparr>"

definition rd_advance :: "int \<Rightarrow> redis_store \<Rightarrow> redis_store" where
  "rd_advance d st = st\<lparr>rd_now := rd_now st + d\<rparr>"

interpretation redis: counter_store rd_client "\<lambda>st. \<not> rd_down st" rd_count
proof
  fix st :: redis_store and k
  assume up: "\<not> rd_down st"
  show "\<exists>ttl st'. rc_incr_ttl rd_client k st = (Some (rd_count st k + 1, ttl), st') \<and> \<not> rd_down st'
      \<and> rd_count st' = (rd_count st)(k := rd_count st k + 1)"
    using up by (auto simp: rd_client_def Let_def fun_eq_iff rd_count_def rd_live_def split: option.splits prod.splits)
  show "\<exists>raw ttl. rc_get_ttl rd_client k st = Some (raw, ttl) \<and> rd_count st k = (case raw of None \<Rightarrow> 0 | Some n \<Rightarrow> n)"
    using up by (auto simp: rd_client_def rd_count_def split: option.splits)
  show "\<exists>b st'. rc_delete rd_client k st = (b, st') \<and> \<not> rd_down st' \<and> rd_count st' = (rd_count st)(k := 0)"
    using up by (auto simp: rd_client_def fun_eq_iff rd_count_def rd_live_def split: option.splits)
next
  fix st :: redis_store and w k
  assume "\<not> rd_down st" and "(0 :: int) < w"
  then show "\<exists>st'. rc_expire rd_client k w st = (True, st') \<and> \<not> rd_down st' \<and> rd_count st' = rd_count st"
    by (auto simp: rd_client_def fun_eq_iff rd_count_def rd_live_def split: option.splits if_splits)
qed

section \<open>Keys\<close>

definition rate_buckets :: "string list" where
  "rate_buckets = [''login:ip'', ''login:account'', ''register:ip'', ''refresh:ip'', ''password:user'', ''domain_verify:org'']"

lemma rule_buckets: "map rule_bucket (rate_rules s) = rate_buckets"
  by (simp add: rate_rules_def rate_buckets_def)

lemma rate_buckets_prefix_free:
  "b \<in> set rate_buckets \<Longrightarrow> c \<in> set rate_buckets \<Longrightarrow> prefix (b @ '':'') (c @ '':'') \<Longrightarrow> b = c"
proof -
  have "list_all (\<lambda>b. list_all (\<lambda>c. prefix (b @ '':'') (c @ '':'') \<longrightarrow> b = c) rate_buckets) rate_buckets"
    by code_simp
  then show "b \<in> set rate_buckets \<Longrightarrow> c \<in> set rate_buckets \<Longrightarrow> prefix (b @ '':'') (c @ '':'') \<Longrightarrow> b = c"
    unfolding list_all_iff by blast
qed

text \<open>Two rules never charge the same key: no bucket followed by a colon begins another one.\<close>

lemma rate_key_inj:
  assumes "r \<in> set (rate_rules s)" and "q \<in> set (rate_rules s)" and "rate_key r i = rate_key q j"
  shows "r = q \<and> i = j"
proof -
  have b: "rule_bucket r \<in> set rate_buckets" "rule_bucket q \<in> set rate_buckets"
    using assms(1,2) by (simp_all flip: rule_buckets [of s])
  have eq: "(rule_bucket r @ '':'') @ i = (rule_bucket q @ '':'') @ j" using assms(3) by (simp add: rate_key_def)
  then have "prefix (rule_bucket r @ '':'') (rule_bucket q @ '':'') \<or> prefix (rule_bucket q @ '':'') (rule_bucket r @ '':'')"
    by (metis prefix_same_cases prefixI)
  then have same: "rule_bucket r = rule_bucket q" using rate_buckets_prefix_free b by metis
  have "distinct (map rule_bucket (rate_rules s))" unfolding rule_buckets by code_simp
  with same assms(1,2) eq show ?thesis by (auto dest: keyed_unique)
qed

section \<open>Properties\<close>

text \<open>
  C22: within a window, on any store that behaves as documented, a charged request is allowed
  exactly when fewer than \<open>limit\<close> requests with its key came before it, however the
  requests of different rules and identities are interleaved.
\<close>

theorem enforce_admits_exactly_limit:
  assumes "counter_store client up counter" and "up st" and "\<And>k. counter st k = 0"
    and "\<And>q. q \<in> set qs \<Longrightarrow> 0 < rule_window (fst q)" and "n < length qs"
  shows "run_enforce client qs st ! n = Allowed \<longleftrightarrow>
    int (count_where (\<lambda>q. request_key q = request_key (qs ! n)) (take n qs)) < rule_limit (fst (qs ! n))"
  using counter_store.run_enforce_nth [OF assms(1,2,4,5)] assms(3) by simp

theorem enforce_admits_exactly_limit_witness:
  "let r = \<lparr>rule_bucket = ''register:ip'', rule_limit = 2, rule_window = 900\<rparr> in
   run_enforce rd_client [(r, ''a''), (r, ''b''), (r, ''a''), (r, ''a'')] rd_empty ! 2 = Allowed \<and>
   run_enforce rd_client [(r, ''a''), (r, ''b''), (r, ''a''), (r, ''a'')] rd_empty ! 3 \<noteq> Allowed"
proof -
  let ?r = "\<lparr>rule_bucket = ''register:ip'', rule_limit = 2, rule_window = 900\<rparr>"
  let ?qs = "[(?r, ''a''), (?r, ''b''), (?r, ''a''), (?r, ''a'')]"
  have e: "\<not> rd_down rd_empty" "\<And>k. rd_count rd_empty k = 0"
    by (simp_all add: rd_empty_def rd_count_def rd_live_def)
  have w: "\<And>q. q \<in> set ?qs \<Longrightarrow> 0 < rule_window (fst q)" by auto
  note t = enforce_admits_exactly_limit [OF redis.counter_store_axioms e, of ?qs, OF w]
  have "run_enforce rd_client ?qs rd_empty ! 2 = Allowed" "run_enforce rd_client ?qs rd_empty ! 3 \<noteq> Allowed"
    using t [of 2] t [of 3]
    by (simp_all del: run_enforce.simps add: rate_key_def numeral_2_eq_2 numeral_3_eq_3)
  then show ?thesis unfolding Let_def by blast
qed

text \<open>
  The failure counter of an account locks it after \<open>limit + 1\<close> failures, not
  \<open>limit\<close>: \<open>assert_under\<close> still lets a request through when the counter stands at the
  limit. A success that clears the counter restores the whole budget.
\<close>

lemma lockout_after_limit_plus_one_failures:
  assumes "counter_store client up counter" and "up st" and "counter st (rate_key r i) = 0" and "0 < rule_window r"
  shows "(assert_under True client r i (run_failures client r i n st) = Allowed \<longleftrightarrow> int n \<le> rule_limit r) \<and>
    (0 \<le> rule_limit r \<longrightarrow>
      assert_under True client r i (clear_failures True client r i (run_failures client r i n st)) = Allowed)"
  using counter_store.run_failures_counter [OF assms(1,2,4), of i n] assms(3)
    counter_store.clear_failures_counter [OF assms(1), of "run_failures client r i n st" r i]
  by (simp add: counter_store.assert_under_iff [OF assms(1)])

lemma lockout_after_limit_plus_one_failures_witness:
  "let r = login_account_rule default_rate_settings in
   assert_under True rd_client r ''x'' (run_failures rd_client r ''x'' 10 rd_empty) = Allowed \<and>
   assert_under True rd_client r ''x'' (run_failures rd_client r ''x'' 11 rd_empty) \<noteq> Allowed"
proof -
  let ?r = "login_account_rule default_rate_settings"
  have e: "\<not> rd_down rd_empty" "rd_count rd_empty (rate_key ?r ''x'') = 0" "0 < rule_window ?r" "rule_limit ?r = 10"
    by (simp_all add: rd_empty_def rd_count_def rd_live_def login_account_rule_def rate_rules_def default_rate_settings_def)
  note t = lockout_after_limit_plus_one_failures [OF redis.counter_store_axioms e(1-3)]
  show ?thesis using t [where n = 10] t [where n = 11] e(4) by simp
qed



end
