(* ===== verification/Calendar.thy ===== *)
theory Calendar
  imports Enums
begin

text \<open>
  The arithmetic of recurring scans: \<open>next_occurrence\<close> and \<open>initial_next_run\<close> of
  \<open>models/scan_schedule.py\<close>. An instant is an integer, the microseconds since
  1970-01-01 00:00 UTC (a Thursday); a \<open>datetime\<close> is a wall-clock reading with or without
  an offset from UTC. The end of the calendar in the year 9999 is not modelled.
\<close>

datatype date_time = Naive int | Aware int int

definition us_hour :: int where
  "us_hour = 3600000000"

definition us_day :: int where
  "us_day = 24 * us_hour"

definition us_week :: int where
  "us_week = 7 * us_day"

text \<open>\<open>datetime.weekday()\<close>: Monday is 0.\<close>

definition weekday_of :: "int \<Rightarrow> int" where
  "weekday_of t = (t div us_day + 3) mod 7"

datatype schedule_error = Naive_time | Hour_out_of_range | No_weekday

text \<open>\<open>after.replace(hour=h, minute=0, second=0, microsecond=0)\<close>.\<close>

definition at_hour :: "int \<Rightarrow> int \<Rightarrow> int" where
  "at_hour hour t = t div us_day * us_day + hour * us_hour"

definition next_utc :: "cadence \<Rightarrow> int \<Rightarrow> int option \<Rightarrow> int \<Rightarrow> schedule_error + int" where
  "next_utc cadence hour_utc weekday after =
    (case cadence of
       HOURLY \<Rightarrow> Inr (after div us_hour * us_hour + us_hour)
     | DAILY \<Rightarrow>
         (if hour_utc < 0 \<or> 23 < hour_utc then Inl Hour_out_of_range
          else let candidate = at_hour hour_utc after in
            Inr (if candidate \<le> after then candidate + us_day else candidate))
     | WEEKLY \<Rightarrow>
         (case weekday of
            None \<Rightarrow> Inl No_weekday
          | Some day \<Rightarrow>
              (if hour_utc < 0 \<or> 23 < hour_utc then Inl Hour_out_of_range
               else let candidate = at_hour hour_utc after;
                        candidate = candidate + ((day - weekday_of candidate) mod 7) * us_day
                    in Inr (if candidate \<le> after then candidate + us_week else candidate))))"

definition next_occurrence :: "cadence \<Rightarrow> int \<Rightarrow> int option \<Rightarrow> date_time \<Rightarrow> schedule_error + int" where
  "next_occurrence cadence hour_utc weekday after =
    (case after of
       Naive _ \<Rightarrow> Inl Naive_time
     | Aware wall offset \<Rightarrow> next_utc cadence hour_utc weekday (wall - offset))"

definition initial_next_run :: "cadence \<Rightarrow> int \<Rightarrow> int option \<Rightarrow> int \<Rightarrow> schedule_error + int" where
  "initial_next_run cadence hour_utc weekday now = next_occurrence cadence hour_utc weekday (Aware now 0)"

section \<open>Slots\<close>

text \<open>
  The specification: the instants at which a cadence fires, and the constraints the
  database puts on the columns.
\<close>

definition is_slot :: "cadence \<Rightarrow> int \<Rightarrow> int option \<Rightarrow> int \<Rightarrow> bool" where
  "is_slot cadence hour_utc weekday t =
    (case cadence of
       HOURLY \<Rightarrow> t mod us_hour = 0
     | DAILY \<Rightarrow> t mod us_day = hour_utc * us_hour
     | WEEKLY \<Rightarrow> t mod us_day = hour_utc * us_hour \<and> weekday = Some (weekday_of t))"

definition runnable :: "cadence \<Rightarrow> int \<Rightarrow> int option \<Rightarrow> bool" where
  "runnable cadence hour_utc weekday =
    (0 \<le> hour_utc \<and> hour_utc \<le> 23 \<and> (case weekday of None \<Rightarrow> cadence \<noteq> WEEKLY | Some d \<Rightarrow> 0 \<le> d \<and> d \<le> 6))"

definition period :: "cadence \<Rightarrow> int" where
  "period cadence = (case cadence of HOURLY \<Rightarrow> us_hour | DAILY \<Rightarrow> us_day | WEEKLY \<Rightarrow> us_week)"

lemma units: "us_hour = 3600000000" "us_day = 86400000000" "us_week = 604800000000"
  by (simp_all add: us_hour_def us_day_def us_week_def)

text \<open>An instant as its day and the microseconds into it.\<close>

lemma day_cases:
  obtains d u where "t = d * us_day + u" and "0 \<le> u" and "u < us_day"
  by (rule that [of "t div us_day" "t mod us_day"]) (simp_all add: units)

lemma day_of: "0 \<le> u \<Longrightarrow> u < us_day \<Longrightarrow> (d * us_day + u) div us_day = d"
  "0 \<le> u \<Longrightarrow> u < us_day \<Longrightarrow> (d * us_day + u) mod us_day = u"
  by (simp_all add: units)

lemma slot_at_hour: "0 \<le> h \<Longrightarrow> h \<le> 23 \<Longrightarrow> 0 \<le> h * us_hour \<and> h * us_hour < us_day"
  by (simp add: units)

lemma at_hour_day: "0 \<le> u \<Longrightarrow> u < us_day \<Longrightarrow> at_hour h (d * us_day + u) = d * us_day + h * us_hour"
  by (simp add: at_hour_def day_of)

lemma weekday_of_day: "0 \<le> u \<Longrightarrow> u < us_day \<Longrightarrow> weekday_of (d * us_day + u) = (d + 3) mod 7"
  by (simp add: weekday_of_def day_of)

text \<open>Two instants of one residue modulo a period, if distinct, are a period apart.\<close>

lemma residue_gap:
  assumes "s mod p = t mod p" and "s < t" and "(0 :: int) < p"
  shows "s + p \<le> t"
proof -
  have "p dvd t - s" using assms(1) by (metis mod_eq_dvd_iff)
  then have "p \<le> t - s" using assms(2) by (intro zdvd_imp_le) simp_all
  then show ?thesis by simp
qed

lemma weekly_gap:
  assumes "is_slot WEEKLY h w s" and "is_slot WEEKLY h w t" and "s < t" and "0 \<le> h" "h \<le> 23"
  shows "s + us_week \<le> t"
proof -
  obtain d u where s: "s = d * us_day + u" "0 \<le> u" "u < us_day" by (rule day_cases)
  obtain e v where t: "t = e * us_day + v" "0 \<le> v" "v < us_day" by (rule day_cases)
  have uv: "u = h * us_hour" "v = h * us_hour" and "(d + 3) mod 7 = (e + 3) mod 7"
    using assms(1,2) s t by (auto simp: is_slot_def day_of weekday_of_day)
  then have "(d + 3) mod 7 = (e + 3) mod 7" "d + 3 < e + 3"
    using assms(3) s t by (auto simp: units)
  from residue_gap [OF this] have "d + 7 \<le> e" by simp
  then show ?thesis using s t uv by (simp add: units)
qed

lemma slot_gap:
  assumes "is_slot c h w s" and "is_slot c h w t" and "s < t" and "0 \<le> h" "h \<le> 23"
  shows "s + period c \<le> t"
proof (cases c)
  case WEEKLY
  then show ?thesis using weekly_gap assms by (simp add: period_def)
qed (use assms residue_gap in \<open>auto simp: is_slot_def period_def units\<close>)

text \<open>What \<open>next_utc\<close> computes: a slot, within one period after \<open>after\<close>.\<close>

definition next_slot :: "cadence \<Rightarrow> int \<Rightarrow> int option \<Rightarrow> int \<Rightarrow> int \<Rightarrow> bool" where
  "next_slot c h w after t \<longleftrightarrow> next_utc c h w after = Inr t \<and> is_slot c h w t \<and> after < t \<and> t \<le> after + period c"

lemma next_hourly: "next_slot HOURLY h w after (after div us_hour * us_hour + us_hour)"
  by (auto simp: next_slot_def next_utc_def is_slot_def period_def units)

lemma next_daily:
  assumes h: "0 \<le> h" "h \<le> 23"
  shows "next_slot DAILY h w after (if at_hour h after \<le> after then at_hour h after + us_day else at_hour h after)" (is "next_slot _ _ _ _ ?t")
proof -
  have c: "0 \<le> h * us_hour" "h * us_hour < us_day" using slot_at_hour [OF h] by simp_all
  obtain d u where a: "after = d * us_day + u" "0 \<le> u" "u < us_day" by (rule day_cases)
  have at: "at_hour h after = d * us_day + h * us_hour" using a at_hour_day by simp
  have nx: "next_utc DAILY h w after = Inr ?t" using h by (simp add: next_utc_def Let_def)
  have "?t mod us_day = h * us_hour"
    using c day_of(2) [of "h * us_hour" d] day_of(2) [of "h * us_hour" "d + 1"] distrib_right [of d 1 us_day]
    unfolding at by (auto simp: algebra_simps)
  then have "is_slot DAILY h w ?t" by (simp add: is_slot_def)
  moreover have "after < ?t" "?t \<le> after + us_day" using a c unfolding at by auto
  ultimately show ?thesis using nx by (simp add: next_slot_def period_def)
qed

text \<open>The days from a weekday to the next day of the week asked for.\<close>

lemma days_ahead:
  fixes d day :: int
  assumes "0 \<le> day" "day \<le> 6"
  defines "k \<equiv> (day - (d + 3) mod 7) mod 7"
  shows "0 \<le> k" "k \<le> 6" "(d + k + 3) mod 7 = day" "(d + (k + 7) + 3) mod 7 = day"
proof -
  show "0 \<le> k" "k \<le> 6" by (simp_all add: k_def pos_mod_bound [of 7, simplified] zmod_le_nonneg_dividend)
  have "(d + k + 3) mod 7 = ((d + 3) + (day - (d + 3)) mod 7) mod 7" by (simp add: k_def mod_simps algebra_simps)
  also have "\<dots> = ((d + 3) + (day - (d + 3))) mod 7" by (rule mod_add_right_eq)
  finally show k: "(d + k + 3) mod 7 = day" using assms(1,2) by simp
  have "d + (k + 7) + 3 = d + k + 3 + 7" by simp
  then show "(d + (k + 7) + 3) mod 7 = day" using k by (metis mod_add_self2)
qed

lemma next_weekly:
  assumes h: "0 \<le> h" "h \<le> 23" and day: "0 \<le> day" "day \<le> 6"
  shows "\<exists>t. next_slot WEEKLY h (Some day) after t"
proof -
  have c: "0 \<le> h * us_hour" "h * us_hour < us_day" using slot_at_hour [OF h] by simp_all
  obtain d u where a: "after = d * us_day + u" "0 \<le> u" "u < us_day" by (rule day_cases)
  have at: "at_hour h after = d * us_day + h * us_hour" using a at_hour_day by simp
  define k where "k = (day - (d + 3) mod 7) mod 7"
  note k = days_ahead [OF day, of d, folded k_def]
  have up: "(d + k) * us_day = d * us_day + k * us_day" by (simp add: distrib_right)
  define cand where "cand = (d + k) * us_day + h * us_hour"
  let ?t = "if cand \<le> after then cand + us_week else cand"
  have wd: "weekday_of (at_hour h after) = (d + 3) mod 7" using c weekday_of_day by (simp add: at)
  have nx: "next_utc WEEKLY h (Some day) after = Inr ?t"
    using day h by (simp add: next_utc_def Let_def cand_def wd flip: k_def) (simp add: at up)
  have t: "?t = (d + (if cand \<le> after then k + 7 else k)) * us_day + h * us_hour"
    by (simp add: cand_def units)
  have "weekday_of ?t = day"
    unfolding t weekday_of_day [OF c] using k(3,4) by (cases "cand \<le> after") simp_all
  moreover have "?t mod us_day = h * us_hour" unfolding t by (rule day_of(2) [OF c])
  ultimately have sl: "is_slot WEEKLY h (Some day) ?t" using day by (simp add: is_slot_def)
  have kb: "0 \<le> k * us_day" "k * us_day \<le> 6 * us_day"
    using k by (intro mult_nonneg_nonneg mult_right_mono; simp add: units)+
  have ce: "cand = d * us_day + k * us_day + h * us_hour" by (simp add: cand_def up)
  have "cand \<le> after \<Longrightarrow> after < cand + us_week" "cand \<le> after + us_week"
    using a c kb unfolding us_week_def ce by linarith+
  then have "after < ?t" "?t \<le> after + us_week" by auto
  then show ?thesis using nx sl by (auto simp: next_slot_def period_def)
qed

lemma next_utc_slot:
  assumes "runnable c h w"
  obtains t where "next_utc c h w after = Inr t" and "is_slot c h w t" and "after < t" and "t \<le> after + period c"
proof -
  have h: "0 \<le> h" "h \<le> 23" using assms by (simp_all add: runnable_def)
  have "\<exists>t. next_slot c h w after t"
  proof (cases c)
    case WEEKLY
    with assms obtain day where "w = Some day" "0 \<le> day" "day \<le> 6" by (auto simp: runnable_def split: option.splits)
    then show ?thesis using next_weekly [OF h] WEEKLY by simp
  qed (use next_hourly next_daily [OF h] in blast)+
  then show thesis using that by (auto simp: next_slot_def)
qed

text \<open>
  C19: for every schedule the database can hold, \<open>next_occurrence\<close> returns the first slot of
  the cadence strictly after the given instant: it is on the hour, at the right hour and
  weekday in UTC, no slot lies between, and it is at most one period away. The offset of
  the argument plays no part beyond naming the instant.
\<close>

theorem next_occurrence_is_least_slot:
  assumes "runnable cad h w"
  shows "next_occurrence cad h w (Aware wall offset) = Inr t \<longleftrightarrow>
    is_slot cad h w t \<and> wall - offset < t \<and> t \<le> wall - offset + period cad \<and>
    (\<nexists>s. is_slot cad h w s \<and> wall - offset < s \<and> s < t)"
proof -
  have h: "0 \<le> h" "h \<le> 23" using assms by (simp_all add: runnable_def)
  obtain n where n: "next_utc cad h w (wall - offset) = Inr n" "is_slot cad h w n" "wall - offset < n"
      "n \<le> wall - offset + period cad"
    using assms by (rule next_utc_slot)
  have least: "n \<le> s" if "is_slot cad h w s" "wall - offset < s" for s
    using slot_gap [OF that(1) n(2) _ h] n(4) that(2) by force
  show ?thesis
  proof
    assume "next_occurrence cad h w (Aware wall offset) = Inr t"
    then show "is_slot cad h w t \<and> wall - offset < t \<and> t \<le> wall - offset + period cad \<and>
        (\<nexists>s. is_slot cad h w s \<and> wall - offset < s \<and> s < t)"
      using n least by (auto simp: next_occurrence_def dest: leD)
  next
    assume t: "is_slot cad h w t \<and> wall - offset < t \<and> t \<le> wall - offset + period cad \<and>
        (\<nexists>s. is_slot cad h w s \<and> wall - offset < s \<and> s < t)"
    then have "n = t" using n(2,3) least [of t] by (meson antisym not_less)
    then show "next_occurrence cad h w (Aware wall offset) = Inr t" using n(1) by (simp add: next_occurrence_def)
  qed
qed

theorem next_occurrence_is_least_slot_witness:
  "next_occurrence WEEKLY 3 (Some 0) (Aware 1700000000000000 3600000000) = Inr 1700449200000000 \<and>
   is_slot WEEKLY 3 (Some 0) 1700449200000000"
proof -
  have "runnable WEEKLY 3 (Some 0)" by (simp add: runnable_def)
  moreover have n: "next_occurrence WEEKLY 3 (Some 0) (Aware 1700000000000000 3600000000) = Inr 1700449200000000"
    by code_simp
  ultimately show ?thesis
    using next_occurrence_is_least_slot [of WEEKLY 3 "Some 0" 1700000000000000 3600000000 1700449200000000] by blast
qed

end
