(* ===== verification/Tables.thy ===== *)
theory Tables
  imports Calendar Scope
begin

text \<open>
  The database: one record per table of \<open>models/\<close>, the session state \<open>db\<close> that holds the
  tables, and the settings the handlers read (\<open>config.py\<close>). Primary keys are numbers
  taken from a counter that only grows, in place of random UUIDs. Times are the
  microseconds of theory Calendar. A JSON column is a value of \<open>json\<close>.

  A handler of the API takes the database and returns the committed database together
  with an error or a result, so that what an error path has already committed is part of
  its outcome.
\<close>

datatype json = JNull | JBool bool | JNum rat | JStr string | JList "json list" | JObj "(string \<times> json) list"

type_synonym json_object = "(string \<times> json) list"

datatype http_error = Http_error int string

text \<open>An exception that no handler catches is a 500, a payload that does not validate a 422.\<close>

definition server_error :: http_error where
  "server_error = Http_error 500 ''Internal server error''"

definition unprocessable :: http_error where
  "unprocessable = Http_error 422 ''Unprocessable Entity''"

definition not_found :: "string \<Rightarrow> http_error" where
  "not_found what = Http_error 404 (what @ '' not found'')"

section \<open>Rows\<close>

record org_row =
  og_id :: nat
  og_name :: string
  og_domain :: string
  og_verified :: "string list"
  og_active :: bool
  og_webhook :: "string option"

record user_row =
  us_id :: nat
  us_org :: nat
  us_email :: string
  us_name :: "string option"
  us_role :: user_role
  us_password_hash :: string
  us_active :: bool
  us_last_login :: "int option"
  us_token_version :: int

record session_row =
  se_id :: nat
  se_user :: nat
  se_org :: nat
  se_token_hash :: string
  se_family :: nat
  se_expires :: int
  se_revoked :: "int option"
  se_replaced_by :: "nat option"
  se_last_used :: "int option"

record claim_row =
  cl_id :: nat
  cl_org :: nat
  cl_created_by :: "nat option"
  cl_domain :: string
  cl_token :: string
  cl_token_expires :: "int option"
  cl_status :: claim_status
  cl_verified_at :: "int option"
  cl_last_checked :: "int option"
  cl_last_error :: "string option"
  cl_failures :: int

record scan_row =
  sn_id :: nat
  sn_org :: nat
  sn_created_by :: "nat option"
  sn_target :: string
  sn_status :: scan_status
  sn_started :: "int option"
  sn_completed :: "int option"
  sn_config :: json_object
  sn_stage :: "string option"
  sn_progress :: int
  sn_assets :: int
  sn_findings :: int
  sn_error :: "string option"
  sn_task :: "string option"
  sn_created :: int

record log_row =
  lg_scan :: nat
  lg_time :: int
  lg_message :: string
  lg_stage :: "string option"

record schedule_row =
  sc_id :: nat
  sc_org :: nat
  sc_created_by :: "nat option"
  sc_name :: string
  sc_target :: string
  sc_config :: json_object
  sc_cadence :: cadence
  sc_hour :: int
  sc_weekday :: "int option"
  sc_enabled :: bool
  sc_next_run :: int
  sc_last_run :: "int option"
  sc_last_scan :: "nat option"
  sc_failures :: int
  sc_disabled_reason :: "string option"

record report_row =
  rp_id :: nat
  rp_org :: nat
  rp_created :: int
  rp_file :: "string option"
  rp_author :: "nat option"
  rp_generated :: int
  rp_title :: "string option"
  rp_format :: string
  rp_status :: string
  rp_size :: "int option"
  rp_summary :: json_object

record db =
  db_next :: nat
  db_orgs :: "org_row list"
  db_users :: "user_row list"
  db_sessions :: "session_row list"
  db_claims :: "claim_row list"
  db_scans :: "scan_row list"
  db_logs :: "log_row list"
  db_schedules :: "schedule_row list"
  db_reports :: "report_row list"

section \<open>Settings\<close>

record settings =
  st_allow_arbitrary :: bool
  st_max_concurrent :: nat
  st_schedule_max_failures :: int
  st_max_domains :: nat
  st_reverify_enabled :: bool
  st_reverify_threshold :: int
  st_log_days :: int
  st_scan_days :: int
  st_report_days :: int

definition default_settings :: settings where
  "default_settings =
    \<lparr>st_allow_arbitrary = False, st_max_concurrent = 5, st_schedule_max_failures = 5, st_max_domains = 25,
     st_reverify_enabled = True, st_reverify_threshold = 0, st_log_days = 30, st_scan_days = 0,
     st_report_days = 0\<rparr>"

section \<open>Organisations\<close>

text \<open>
  \<open>Organisation.all_domains\<close>: the verified domains, normalised, the first of equal ones
  kept. Their order is the order of the list.
\<close>

fun dedup :: "'a list \<Rightarrow> 'a list \<Rightarrow> 'a list" where
  "dedup seen [] = []"
| "dedup seen (x # xs) = (if x \<in> set seen then dedup seen xs else x # dedup (x # seen) xs)"

definition all_domains :: "org_row \<Rightarrow> string list" where
  "all_domains org = dedup [] (map (\<lambda>d. strip_dots (lower d)) (filter (\<lambda>d. d \<noteq> []) (og_verified org)))"

lemma set_dedup: "set (dedup seen xs) = set xs - set seen"
  by (induction xs arbitrary: seen) auto

lemma distinct_dedup: "distinct (dedup seen xs)"
  by (induction xs arbitrary: seen) (auto simp: set_dedup)

lemma set_all_domains: "set (all_domains org) = {strip_dots (lower d) | d. d \<in> set (og_verified org) \<and> d \<noteq> []}"
  by (auto simp: all_domains_def set_dedup)

lemma strip_dots_lower [simp]: "lower (strip_dots (lower d)) = strip_dots (lower d)"
  by (rule lower_char_fixed_of_lower [of "lower d"]) (simp_all add: strip_dots_subset)

lemma strip_dots_idem [simp]: "strip_dots (strip_dots d) = strip_dots d"
  by (simp add: strip_dots_def)

lemma all_domains_normal: "d \<in> set (all_domains org) \<Longrightarrow> strip_dots (lower d) = d"
  by (auto simp: set_all_domains)

definition org_by_id :: "db \<Rightarrow> nat \<Rightarrow> org_row option" where
  "org_by_id db i = row_by og_id i (db_orgs db)"

definition org_domains :: "db \<Rightarrow> nat \<Rightarrow> string list" where
  "org_domains db i = (case org_by_id db i of None \<Rightarrow> [] | Some org \<Rightarrow> all_domains org)"

section \<open>Active scans\<close>

definition is_active_scan :: "scan_row \<Rightarrow> bool" where
  "is_active_scan s = (sn_status s \<in> {QUEUED, RUNNING})"

definition active_count :: "nat \<Rightarrow> scan_row list \<Rightarrow> nat" where
  "active_count org scans = count_where (\<lambda>s. sn_org s = org \<and> is_active_scan s) scans"

lemma active_count_append [simp]: "active_count org (xs @ ys) = active_count org xs + active_count org ys"
  by (simp add: active_count_def)

lemma active_count_Nil [simp]: "active_count org [] = 0"
  by (simp add: active_count_def)

lemma active_count_Cons:
  "active_count org (s # ss) = (if sn_org s = org \<and> is_active_scan s then 1 else 0) + active_count org ss"
  by (simp add: active_count_def)

lemma is_active_not_terminal: "is_active_scan s \<longleftrightarrow> \<not> is_terminal (sn_status s)"
  by (cases "sn_status s") (auto simp: is_active_scan_def is_terminal_def)

end
