(* ===== verification/DomainClaims.thy ===== *)
theory DomainClaims
  imports Tables Domains RateLimit
begin

text \<open>
  Domain ownership: the DNS challenge (\<open>core/dns_verify.py\<close>,
  \<open>models/domain_verification.py\<close>), the handlers of \<open>routes/domains.py\<close>, and the weekly
  re-verification of \<open>workers/scheduler.py\<close>. The DNS resolver is a parameter: the answer
  to a TXT query at a name. New tokens come from the caller, in place of
  \<open>secrets.token_urlsafe\<close>.
\<close>

section \<open>The DNS challenge\<close>

text \<open>A TXT answer: each record is the sequence of its character-strings.\<close>

datatype dns_answer =
    Txt_records "string list list"
  | No_such_record
  | No_nameservers string
  | Dns_timeout
  | Dns_failed string

type_synonym resolver = "string \<Rightarrow> dns_answer"

record txt_lookup =
  tl_name :: string
  tl_values :: "string list"
  tl_error :: "string option"

record dns_check =
  dc_ok :: bool
  dc_error :: "string option"

definition challenge_label :: string where
  "challenge_label = ''_surfacewatch-challenge''"

definition apex_prefix :: string where
  "apex_prefix = ''surfacewatch-verification=''"

definition token_ttl :: int where
  "token_ttl = 7 * us_day"

definition lookup_txt :: "string \<Rightarrow> resolver \<Rightarrow> txt_lookup" where
  "lookup_txt name resolver =
    (case resolver name of
       No_such_record \<Rightarrow> \<lparr>tl_name = name, tl_values = [], tl_error = None\<rparr>
     | No_nameservers exc \<Rightarrow> \<lparr>tl_name = name, tl_values = [],
         tl_error = Some (''the nameservers for '' @ name @ '' did not answer ('' @ exc @ '')'')\<rparr>
     | Dns_timeout \<Rightarrow> \<lparr>tl_name = name, tl_values = [],
         tl_error = Some (''the DNS lookup for '' @ name @ '' timed out'')\<rparr>
     | Dns_failed exc \<Rightarrow> \<lparr>tl_name = name, tl_values = [],
         tl_error = Some (''the DNS lookup for '' @ name @ '' failed ('' @ exc @ '')'')\<rparr>
     | Txt_records answer \<Rightarrow> \<lparr>tl_name = name,
         tl_values = filter (\<lambda>v. v \<noteq> []) (map (\<lambda>strings. strip (concat strings)) answer), tl_error = None\<rparr>)"

definition resolved :: "txt_lookup \<Rightarrow> bool" where
  "resolved lk = (tl_error lk = None)"

definition explain :: "string \<Rightarrow> txt_lookup \<Rightarrow> txt_lookup \<Rightarrow> string" where
  "explain domain dedicated apex =
    (if \<not> resolved dedicated \<and> \<not> resolved apex
     then ''Could not check DNS for '' @ domain @ '': '' @ (case tl_error dedicated of Some e \<Rightarrow> e | None \<Rightarrow> ''None'')
          @ ''. This is a lookup failure, not a missing record - try again shortly.''
     else let found = tl_values dedicated @ tl_values apex in
       if found = []
       then ''No TXT record found at '' @ tl_name dedicated @ '' (or on '' @ domain @ '' itself). ''
            @ ''If you have just added it, DNS can take a few minutes to propagate.''
       else ''Found '' @ dec (int (length found)) @ '' TXT record(s) for '' @ domain @ '', but none matched the ''
            @ ''expected value. A stale record from an earlier attempt is the usual ''
            @ ''cause - check the value matches exactly, with no quotes or spaces.'')"

definition check_domain_token :: "string \<Rightarrow> string \<Rightarrow> resolver \<Rightarrow> dns_check" where
  "check_domain_token domain token resolver =
    (let dedicated = lookup_txt (challenge_label @ ''.'' @ domain) resolver in
     if token \<in> set (tl_values dedicated) then \<lparr>dc_ok = True, dc_error = None\<rparr>
     else let apex = lookup_txt domain resolver in
       if apex_prefix @ token \<in> set (tl_values apex) then \<lparr>dc_ok = True, dc_error = None\<rparr>
       else \<lparr>dc_ok = False, dc_error = Some (explain domain dedicated apex)\<rparr>)"

section \<open>The handlers\<close>

definition load_org :: "db \<Rightarrow> nat \<Rightarrow> http_error + org_row" where
  "load_org db org_id = (case org_by_id db org_id of None \<Rightarrow> Inl (not_found ''Organisation'') | Some o' \<Rightarrow> Inr o')"

definition find_claim :: "db \<Rightarrow> nat \<Rightarrow> nat \<Rightarrow> claim_row option" where
  "find_claim db claim_id org_id = find (\<lambda>c. cl_id c = claim_id \<and> cl_org c = org_id) (db_claims db)"

definition load_claim :: "db \<Rightarrow> nat \<Rightarrow> nat \<Rightarrow> http_error + claim_row" where
  "load_claim db claim_id org_id =
    (case find_claim db claim_id org_id of None \<Rightarrow> Inl (not_found ''Domain'') | Some c \<Rightarrow> Inr c)"

definition grant :: "string \<Rightarrow> org_row \<Rightarrow> org_row" where
  "grant domain org =
    (let current = filter (\<lambda>d. d \<noteq> []) (og_verified org) in
     if domain \<in> set current then org else org\<lparr>og_verified := current @ [domain]\<rparr>)"

definition revoke :: "string \<Rightarrow> org_row \<Rightarrow> org_row" where
  "revoke domain org = org\<lparr>og_verified := filter (\<lambda>d. d \<noteq> [] \<and> d \<noteq> domain) (og_verified org)\<rparr>"

abbreviation update_claim :: "nat \<Rightarrow> (claim_row \<Rightarrow> claim_row) \<Rightarrow> db \<Rightarrow> db" where
  "update_claim i f db \<equiv> db\<lparr>db_claims := update_where (\<lambda>c. cl_id c = i) f (db_claims db)\<rparr>"

abbreviation update_org :: "nat \<Rightarrow> (org_row \<Rightarrow> org_row) \<Rightarrow> db \<Rightarrow> db" where
  "update_org i f db \<equiv> db\<lparr>db_orgs := update_where (\<lambda>org. og_id org = i) f (db_orgs db)\<rparr>"

definition list_domains :: "db \<Rightarrow> nat \<Rightarrow> claim_row list" where
  "list_domains db org_id = filter (\<lambda>c. cl_org c = org_id) (db_claims db)"

definition new_claim :: "nat \<Rightarrow> nat \<Rightarrow> nat option \<Rightarrow> string \<Rightarrow> string \<Rightarrow> int \<Rightarrow> claim_row" where
  "new_claim i org_id user_id domain token now =
    \<lparr>cl_id = i, cl_org = org_id, cl_created_by = user_id, cl_domain = domain, cl_token = token,
     cl_token_expires = Some (now + token_ttl), cl_status = CLAIM_PENDING, cl_verified_at = None,
     cl_last_checked = None, cl_last_error = None, cl_failures = 0\<rparr>"

definition add_domain :: "settings \<Rightarrow> int \<Rightarrow> string \<Rightarrow> nat \<Rightarrow> nat \<Rightarrow> string \<Rightarrow> db \<Rightarrow> db \<times> (http_error + claim_row)" where
  "add_domain cfg now token org_id user_id domain db =
    (case load_org db org_id of
       Inl e \<Rightarrow> (db, Inl e)
     | Inr org \<Rightarrow>
         (case find (\<lambda>c. cl_org c = org_id \<and> cl_domain c = domain) (db_claims db) of
            Some existing \<Rightarrow> (db, Inr existing)
          | None \<Rightarrow>
              (let held = count_where (\<lambda>c. cl_org c = org_id) (db_claims db) in
               if st_max_domains cfg \<le> held then (db, Inl (Http_error 409
                 (''This organisation already holds '' @ dec (int held) @ '' domains, the maximum of ''
                  @ dec (int (st_max_domains cfg)) @ ''. Remove one first.'')))
               else let claim = new_claim (db_next db) (og_id org) (Some user_id) domain token now in
                 (db\<lparr>db_claims := db_claims db @ [claim], db_next := db_next db + 1\<rparr>, Inr claim))))"

text \<open>The \<open>DomainAdd\<close> payload and the handler behind it; 422 is the validation error.\<close>

definition post_domain :: "settings \<Rightarrow> int \<Rightarrow> string \<Rightarrow> nat \<Rightarrow> nat \<Rightarrow> string \<Rightarrow> db \<Rightarrow> db \<times> (http_error + claim_row)" where
  "post_domain cfg now token org_id user_id text db =
    (case normalise_claimable_domain text of
       Inl _ \<Rightarrow> (db, Inl (Http_error 422 ''invalid domain''))
     | Inr domain \<Rightarrow> add_domain cfg now token org_id user_id domain db)"

datatype verify_result = Verified | Token_rotated | Not_verified "string option"

definition rotate_claim :: "string \<Rightarrow> int \<Rightarrow> claim_row \<Rightarrow> claim_row" where
  "rotate_claim token now c =
    c\<lparr>cl_token := token, cl_token_expires := Some (now + token_ttl), cl_status := CLAIM_PENDING,
      cl_last_checked := Some now, 
      cl_last_error := Some (''The verification token expired before the check ran. A new token ''
        @ ''has been issued - publish the new record value and verify again.'')\<rparr>"

definition fail_claim :: "int \<Rightarrow> string option \<Rightarrow> claim_row \<Rightarrow> claim_row" where
  "fail_claim now err c =
    c\<lparr>cl_last_checked := Some now, cl_status := CLAIM_FAILED, cl_last_error := err, cl_failures := cl_failures c + 1\<rparr>"

definition verify_claim :: "int \<Rightarrow> claim_row \<Rightarrow> claim_row" where
  "verify_claim now c =
    c\<lparr>cl_last_checked := Some now, cl_status := CLAIM_VERIFIED, cl_verified_at := Some now,
      cl_last_error := None, cl_failures := 0\<rparr>"

definition token_expired :: "int \<Rightarrow> claim_row \<Rightarrow> bool" where
  "token_expired now c = (case cl_token_expires c of None \<Rightarrow> True | Some t \<Rightarrow> t \<le> now)"

definition domain_verify_rule :: "rate_settings \<Rightarrow> rate_limit_rule" where
  "domain_verify_rule rs = rate_rules rs ! 5"

definition verify_domain ::
    "rate_settings \<Rightarrow> 'r redis_client \<Rightarrow> resolver \<Rightarrow> int \<Rightarrow> string \<Rightarrow> nat \<Rightarrow> nat \<Rightarrow> 'r \<times> db
      \<Rightarrow> ('r \<times> db) \<times> (http_error + verify_result)" where
  "verify_domain rs client resolver now token claim_id org_id st =
    (case st of (redis, db) \<Rightarrow>
     (case load_claim db claim_id org_id of
        Inl e \<Rightarrow> (st, Inl e)
      | Inr claim \<Rightarrow>
          if cl_status claim = CLAIM_VERIFIED then (st, Inr Verified)
          else if token_expired now claim
          then ((redis, update_claim claim_id (rotate_claim token now) db), Inr Token_rotated)
          else (case enforce (rs_enabled rs) client (domain_verify_rule rs) (dec (int org_id)) redis of
             (Too_many n, redis') \<Rightarrow> ((redis', db), Inl (Http_error 429 ''Too many attempts. Please wait and try again.''))
           | (Allowed, redis') \<Rightarrow>
               (let result = check_domain_token (cl_domain claim) (cl_token claim) resolver in
                if \<not> dc_ok result
                then ((redis', update_claim claim_id (fail_claim now (dc_error result)) db), Inr (Not_verified (dc_error result)))
                else (case load_org db org_id of
                   Inl e \<Rightarrow> ((redis', db), Inl e)
                 | Inr org \<Rightarrow>
                     ((redis', update_org org_id (grant (cl_domain claim)) (update_claim claim_id (verify_claim now) db)),
                      Inr Verified))))))"

definition delete_domain :: "nat \<Rightarrow> nat \<Rightarrow> db \<Rightarrow> db \<times> (http_error + string)" where
  "delete_domain claim_id org_id db =
    (case load_claim db claim_id org_id of
       Inl e \<Rightarrow> (db, Inl e)
     | Inr claim \<Rightarrow>
         (case load_org db org_id of
            Inl e \<Rightarrow> (db, Inl e)
          | Inr org \<Rightarrow>
              ((update_org org_id (revoke (cl_domain claim)) db)
                 \<lparr>db_claims := delete_where (\<lambda>c. cl_id c = claim_id) (db_claims db)\<rparr>, Inr (cl_domain claim))))"

section \<open>Re-verification\<close>

text \<open>
  The sweep reads the verified claims in one transaction, checks DNS, and writes the
  results in a second one. A check that raises gives no result. The schedules a revoked
  domain covered are switched off.
\<close>

definition verified_pairs :: "db \<Rightarrow> (nat \<times> string \<times> string) list" where
  "verified_pairs db =
    map (\<lambda>c. (cl_id c, cl_domain c, cl_token c)) (filter (\<lambda>c. cl_status c = CLAIM_VERIFIED) (db_claims db))"

definition recheck :: "(string \<Rightarrow> string \<Rightarrow> dns_check option) \<Rightarrow> (nat \<times> string \<times> string) list
    \<Rightarrow> (nat \<times> bool \<times> string option) list" where
  "recheck check pairs =
    List.map_filter (\<lambda>(i, domain, token). map_option (\<lambda>r. (i, dc_ok r, dc_error r)) (check domain token)) pairs"

definition should_revoke :: "settings \<Rightarrow> claim_row \<Rightarrow> bool" where
  "should_revoke cfg claim =
    (0 < st_reverify_threshold cfg \<and> st_reverify_threshold cfg \<le> cl_failures claim)"

definition disable_schedule :: "string \<Rightarrow> schedule_row \<Rightarrow> schedule_row" where
  "disable_schedule reason s = s\<lparr>sc_enabled := False, sc_disabled_reason := Some reason\<rparr>"

definition revoke_reason :: "claim_row \<Rightarrow> string" where
  "revoke_reason claim =
    ''The domain '' @ cl_domain claim @ '' failed '' @ dec (cl_failures claim) @ '' consecutive ''
    @ ''DNS re-checks and is no longer verified. Re-verify it to resume.''"

definition revoke_claim :: "claim_row \<Rightarrow> db \<Rightarrow> db" where
  "revoke_claim claim db =
    (let db1 = update_claim (cl_id claim) (\<lambda>c. c\<lparr>cl_status := CLAIM_FAILED, cl_verified_at := None\<rparr>) db in
     case org_by_id db (cl_org claim) of
       None \<Rightarrow> db1
     | Some org \<Rightarrow>
         (update_org (cl_org claim) (revoke (cl_domain claim)) db1)
           \<lparr>db_schedules := update_where
              (\<lambda>s. sc_org s = cl_org claim \<and> sc_enabled s \<and>
                 (sc_target s = cl_domain claim \<or> suffix (CHR ''.'' # cl_domain claim) (sc_target s)))
              (disable_schedule (revoke_reason claim)) (db_schedules db)\<rparr>)"

record sweep_counters =
  sw_checked :: nat
  sw_failed :: nat
  sw_revoked :: nat
  sw_unresolved :: nat

definition no_sweep :: sweep_counters where
  "no_sweep = \<lparr>sw_checked = 0, sw_failed = 0, sw_revoked = 0, sw_unresolved = 0\<rparr>"

definition pass_claim :: "int \<Rightarrow> claim_row \<Rightarrow> claim_row" where
  "pass_claim now c = c\<lparr>cl_last_checked := Some now, cl_failures := 0, cl_last_error := None\<rparr>"

definition miss_claim :: "int \<Rightarrow> string option \<Rightarrow> claim_row \<Rightarrow> claim_row" where
  "miss_claim now err c =
    c\<lparr>cl_last_checked := Some now, cl_failures := cl_failures c + 1, cl_last_error := err\<rparr>"

definition dns_unresolved :: "string option \<Rightarrow> bool" where
  "dns_unresolved err = (case err of None \<Rightarrow> False | Some e \<Rightarrow> e \<noteq> [] \<and> contains ''Could not check DNS'' e)"

definition apply_recheck :: "settings \<Rightarrow> int \<Rightarrow> nat \<times> bool \<times> string option
    \<Rightarrow> sweep_counters \<times> db \<Rightarrow> sweep_counters \<times> db" where
  "apply_recheck cfg now result st =
    (case result of (claim_id, ok, err) \<Rightarrow> case st of (n, db) \<Rightarrow>
      (case row_by cl_id claim_id (db_claims db) of
         None \<Rightarrow> st
       | Some claim \<Rightarrow>
           let n1 = n\<lparr>sw_checked := sw_checked n + 1\<rparr> in
           if ok then (n1, update_claim claim_id (pass_claim now) db)
           else let n2 = n1\<lparr>sw_failed := sw_failed n1 + 1\<rparr>;
                    claim' = miss_claim now err claim;
                    db1 = update_claim claim_id (miss_claim now err) db
             in if dns_unresolved err then (n2\<lparr>sw_unresolved := sw_unresolved n2 + 1\<rparr>, db1)
                else if \<not> should_revoke cfg claim' then (n2, db1)
                else (n2\<lparr>sw_revoked := sw_revoked n2 + 1\<rparr>, revoke_claim claim' db1)))"

definition reverify_domains :: "settings \<Rightarrow> int \<Rightarrow> (string \<Rightarrow> string \<Rightarrow> dns_check option) \<Rightarrow> db \<Rightarrow> sweep_counters \<times> db" where
  "reverify_domains cfg now check db =
    (if \<not> st_reverify_enabled cfg then (no_sweep, db)
     else let pairs = verified_pairs db in
       if pairs = [] then (no_sweep, db)
       else foldl (\<lambda>st r. apply_recheck cfg now r st) (no_sweep, db) (recheck check pairs))"

section \<open>The invariant\<close>

text \<open>
  The scanning authority and its proof agree: in every organisation, a domain is in
  \<open>verified_domains\<close> exactly when there is a claim on it with status VERIFIED. Rows are
  identified by their keys, and a claim by its organisation and domain.
\<close>

definition claim_key :: "claim_row \<Rightarrow> nat \<times> string" where
  "claim_key c = (cl_org c, cl_domain c)"

definition verified_claim :: "db \<Rightarrow> nat \<Rightarrow> string \<Rightarrow> bool" where
  "verified_claim db org d = list_ex (\<lambda>c. claim_key c = (org, d) \<and> cl_status c = CLAIM_VERIFIED) (db_claims db)"

definition claims_ok :: "db \<Rightarrow> bool" where
  "claims_ok db =
    (keyed og_id (db_orgs db) \<and> keyed cl_id (db_claims db) \<and> keyed claim_key (db_claims db) \<and>
     list_all (\<lambda>c. cl_id c < db_next db \<and> cl_domain c \<noteq> []) (db_claims db) \<and>
     list_all (\<lambda>org. list_all (\<lambda>d. verified_claim db (og_id org) d) (og_verified org)) (db_orgs db) \<and>
     list_all (\<lambda>org. list_all (\<lambda>c. cl_org c = og_id org \<and> cl_status c = CLAIM_VERIFIED \<longrightarrow> cl_domain c \<in> set (og_verified org))
       (db_claims db)) (db_orgs db))"

lemma claims_okI:
  assumes "keyed og_id (db_orgs db)" "keyed cl_id (db_claims db)" "keyed claim_key (db_claims db)"
    and "\<And>c. c \<in> set (db_claims db) \<Longrightarrow> cl_id c < db_next db \<and> cl_domain c \<noteq> []"
    and "\<And>org d. org \<in> set (db_orgs db) \<Longrightarrow> d \<in> set (og_verified org) \<longleftrightarrow> verified_claim db (og_id org) d"
  shows "claims_ok db"
  using assms by (auto simp: claims_ok_def list_all_iff verified_claim_def list_ex_iff claim_key_def)

lemma claims_okD:
  assumes "claims_ok db"
  shows "keyed og_id (db_orgs db)" "keyed cl_id (db_claims db)" "keyed claim_key (db_claims db)"
    and "c \<in> set (db_claims db) \<Longrightarrow> cl_id c < db_next db \<and> cl_domain c \<noteq> []"
    and "org \<in> set (db_orgs db) \<Longrightarrow> d \<in> set (og_verified org) \<longleftrightarrow> verified_claim db (og_id org) d"
  using assms by (auto simp: claims_ok_def list_all_iff verified_claim_def list_ex_iff claim_key_def)

lemma find_claimD: "find_claim db i org = Some c \<Longrightarrow> c \<in> set (db_claims db) \<and> cl_id c = i \<and> cl_org c = org"
  unfolding find_claim_def by (auto dest: find_SomeD)

lemma load_claimD: "load_claim db i org = Inr c \<Longrightarrow> c \<in> set (db_claims db) \<and> cl_id c = i \<and> cl_org c = org"
  by (auto simp: load_claim_def dest: find_claimD split: option.splits)

lemma load_orgD: "load_org db i = Inr org \<Longrightarrow> org \<in> set (db_orgs db) \<and> og_id org = i"
  by (auto simp: load_org_def org_by_id_def dest: row_by_SomeD split: option.splits)

lemma claims_ok_cong:
  assumes ok: "claims_ok db" and eq: "db_orgs db' = db_orgs db" "db_claims db' = db_claims db" "db_next db \<le> db_next db'"
  shows "claims_ok db'"
proof (rule claims_okI)
  have v: "verified_claim db' = verified_claim db" by (simp add: fun_eq_iff verified_claim_def eq)
  show "d \<in> set (og_verified org) \<longleftrightarrow> verified_claim db' (og_id org) d" if "org \<in> set (db_orgs db')" for org d
    using that claims_okD(5) [OF ok] by (simp add: v eq)
  show "c \<in> set (db_claims db') \<Longrightarrow> cl_id c < db_next db' \<and> cl_domain c \<noteq> []" for c
    using claims_okD(4) [OF ok, of c] eq by simp
qed (use claims_okD(1-3) [OF ok] in \<open>simp_all add: eq\<close>)

lemma verified_claim_orgs [simp]: "verified_claim (db\<lparr>db_orgs := orgs\<rparr>) = verified_claim db"
  by (simp add: fun_eq_iff verified_claim_def)

text \<open>Changing one claim and the list of its organisation together.\<close>

lemma verified_claim_status:
  assumes "claims_ok db" and "c \<in> set (db_claims db)"
  shows "verified_claim db (cl_org c) (cl_domain c) \<longleftrightarrow> cl_status c = CLAIM_VERIFIED"
proof -
  have "x = c" if "x \<in> set (db_claims db)" "claim_key x = (cl_org c, cl_domain c)" for x
    using keyed_unique [OF claims_okD(3) [OF assms(1)] that(1) assms(2)] that(2) by (simp add: claim_key_def)
  then show ?thesis
    using assms(2) by (auto simp: verified_claim_def list_ex_iff claim_key_def)
qed

lemma verified_after_update:
  assumes "claims_ok db" and "c \<in> set (db_claims db)"
    and "\<And>x. cl_id (f x) = cl_id x \<and> claim_key (f x) = claim_key x"
  shows "verified_claim (update_claim (cl_id c) f db) org d =
    (if (org, d) = claim_key c then cl_status (f c) = CLAIM_VERIFIED else verified_claim db org d)"
proof -
  have same_id: "cl_id x = cl_id c \<longleftrightarrow> x = c" if "x \<in> set (db_claims db)" for x
    using that assms(2) keyed_unique [OF claims_okD(2) [OF assms(1)]] by blast
  have same_key: "claim_key x = claim_key c \<longleftrightarrow> x = c" if "x \<in> set (db_claims db)" for x
    using that assms(2) keyed_unique [OF claims_okD(3) [OF assms(1)]] by blast
  have "verified_claim (update_claim (cl_id c) f db) org d \<longleftrightarrow>
      (\<exists>x \<in> set (db_claims db). claim_key x = (org, d) \<and> cl_status (if x = c then f x else x) = CLAIM_VERIFIED)"
  proof -
    have "verified_claim (update_claim (cl_id c) f db) org d \<longleftrightarrow> (\<exists>x \<in> set (db_claims db).
        claim_key (if cl_id x = cl_id c then f x else x) = (org, d)
        \<and> cl_status (if cl_id x = cl_id c then f x else x) = CLAIM_VERIFIED)"
      by (simp add: verified_claim_def list_ex_update_where)
    also have "\<dots> \<longleftrightarrow> (\<exists>x \<in> set (db_claims db). claim_key x = (org, d)
        \<and> cl_status (if x = c then f x else x) = CLAIM_VERIFIED)"
      by (rule bex_cong) (use assms(3) same_id in auto)
    finally show ?thesis .
  qed
  also have "\<dots> \<longleftrightarrow> (if (org, d) = claim_key c then cl_status (f c) = CLAIM_VERIFIED else verified_claim db org d)"
  proof (cases "(org, d) = claim_key c")
    case True
    then have "claim_key x = (org, d) \<longleftrightarrow> x = c" if "x \<in> set (db_claims db)" for x using same_key that by simp
    with True assms(2) show ?thesis by (simp cong: bex_cong)
  next
    case False
    then have "claim_key x = (org, d) \<longrightarrow> x \<noteq> c" for x by auto
    with False show ?thesis by (auto simp: verified_claim_def list_ex_iff)
  qed
  finally show ?thesis .
qed

lemma claims_ok_update:
  assumes ok: "claims_ok db" and c: "c \<in> set (db_claims db)"
    and f: "\<And>x. cl_id (f x) = cl_id x \<and> cl_org (f x) = cl_org x \<and> cl_domain (f x) = cl_domain x"
    and g: "\<And>x. og_id (g x) = og_id x"
    and gf: "\<And>org d. org \<in> set (db_orgs db) \<Longrightarrow> og_id org = cl_org c \<Longrightarrow>
      d \<in> set (og_verified (g org)) \<longleftrightarrow>
        (if d = cl_domain c then cl_status (f c) = CLAIM_VERIFIED else d \<in> set (og_verified org))"
  shows "claims_ok (update_org (cl_org c) g (update_claim (cl_id c) f db))"
proof (rule claims_okI)
  let ?db = "update_org (cl_org c) g (update_claim (cl_id c) f db)"
  have key: "claim_key (f x) = claim_key x" for x using f by (simp add: claim_key_def)
  show "keyed og_id (db_orgs ?db)" using claims_okD(1) [OF ok] by (simp add: map_update_where g)
  show "keyed cl_id (db_claims ?db)" using claims_okD(2) [OF ok] by (simp add: map_update_where f)
  show "keyed claim_key (db_claims ?db)" using claims_okD(3) [OF ok] by (simp add: map_update_where key)
  show "cl_id x < db_next ?db \<and> cl_domain x \<noteq> []" if "x \<in> set (db_claims ?db)" for x
  proof -
    have "x \<in> (\<lambda>r. if cl_id r = cl_id c then f r else r) ` set (db_claims db)"
      using that by (simp add: set_update_where)
    then obtain y where "y \<in> set (db_claims db)" "x = (if cl_id y = cl_id c then f y else y)" by blast
    then show ?thesis using claims_okD(4) [OF ok, of y] f by simp
  qed
  have v: "verified_claim ?db org d =
      (if (org, d) = claim_key c then cl_status (f c) = CLAIM_VERIFIED else verified_claim db org d)" for org d
    using verified_after_update [OF ok c, of f org d] f key by (simp add: verified_claim_def)
  show "d \<in> set (og_verified org) \<longleftrightarrow> verified_claim ?db (og_id org) d" if "org \<in> set (db_orgs ?db)" for org d
    using that unfolding v
    by (auto simp: set_update_where claim_key_def g gf claims_okD(5) [OF ok] split: if_splits)
qed

lemma claims_ok_update_claim:
  assumes ok: "claims_ok db" and c: "c \<in> set (db_claims db)"
    and f: "\<And>x. cl_id (f x) = cl_id x \<and> cl_org (f x) = cl_org x \<and> cl_domain (f x) = cl_domain x"
    and s: "cl_status (f c) = CLAIM_VERIFIED \<longleftrightarrow> cl_status c = CLAIM_VERIFIED"
  shows "claims_ok (update_claim (cl_id c) f db)"
proof -
  have "d \<in> set (og_verified org) \<longleftrightarrow>
      (if d = cl_domain c then cl_status (f c) = CLAIM_VERIFIED else d \<in> set (og_verified org))"
    if "org \<in> set (db_orgs db)" "og_id org = cl_org c" for org d
  proof -
    have "d \<in> set (og_verified org) \<longleftrightarrow> verified_claim db (cl_org c) d" using claims_okD(5) [OF ok that(1)] that(2) by simp
    moreover have "verified_claim db (cl_org c) (cl_domain c) \<longleftrightarrow> cl_status c = CLAIM_VERIFIED"
      by (rule verified_claim_status [OF ok c])
    ultimately show ?thesis using s by auto
  qed
  from claims_ok_update [where g = "\<lambda>x. x", OF ok c f _ this] show ?thesis
    by (rule claims_ok_cong) (simp_all add: update_where_def)
qed

lemma set_grant: "domain \<noteq> [] \<Longrightarrow> set (og_verified (grant domain org)) - {[]} = (set (og_verified org) - {[]}) \<union> {domain}"
  by (auto simp: grant_def Let_def)

lemma set_revoke: "set (og_verified (revoke domain org)) = set (og_verified org) - {[], domain}"
  by (auto simp: revoke_def)

section \<open>The operations keep the invariant\<close>

lemma claims_ok_add:
  assumes "claims_ok db" and "domain \<noteq> []"
  shows "claims_ok (fst (add_domain cfg now token org_id user_id domain db))"
proof -
  have cl: "claims_ok (db\<lparr>db_claims := db_claims db @ [new_claim (db_next db) org_id u domain token now], db_next := db_next db + 1\<rparr>)"
    if none: "find (\<lambda>c. cl_org c = org_id \<and> cl_domain c = domain) (db_claims db) = None" for u
  proof (rule claims_okI)
    let ?c = "new_claim (db_next db) org_id u domain token now"
    let ?db = "db\<lparr>db_claims := db_claims db @ [?c], db_next := db_next db + 1\<rparr>"
    have "db_next db \<notin> cl_id ` set (db_claims db)" using claims_okD(4) [OF assms(1)] by force
    then show "keyed cl_id (db_claims ?db)"
      using claims_okD(2) [OF assms(1)] by (simp add: new_claim_def)
    show "keyed claim_key (db_claims ?db)"
      using claims_okD(3) [OF assms(1)] none by (auto simp: new_claim_def claim_key_def find_None_iff)
    show "c \<in> set (db_claims ?db) \<Longrightarrow> cl_id c < db_next ?db \<and> cl_domain c \<noteq> []" for c
      using claims_okD(4) [OF assms(1), of c] \<open>domain \<noteq> []\<close> by (auto simp: new_claim_def)
    show "d \<in> set (og_verified org) \<longleftrightarrow> verified_claim ?db (og_id org) d" if "org \<in> set (db_orgs ?db)" for org d
      using claims_okD(5) [OF assms(1)] that by (simp add: verified_claim_def new_claim_def)
  qed (use claims_okD(1) [OF assms(1)] in simp)
  show ?thesis
    using assms(1) cl by (auto simp: add_domain_def Let_def dest: load_orgD split: sum.splits option.splits)
qed

lemma claims_ok_post:
  assumes "claims_ok db"
  shows "claims_ok (fst (post_domain cfg now token org_id user_id text db))"
  using assms claims_ok_add [OF assms]
  by (auto simp: post_domain_def split: sum.splits) (simp add: claimable_iff)

lemma org_verified_nonempty:
  assumes "claims_ok db" and "org \<in> set (db_orgs db)" and "d \<in> set (og_verified org)"
  shows "d \<noteq> []"
  using claims_okD(4,5) [OF assms(1)] assms(2,3) by (auto simp: verified_claim_def list_ex_iff claim_key_def)

lemma set_grant_ok: "[] \<notin> set (og_verified org) \<Longrightarrow> set (og_verified (grant d org)) = insert d (set (og_verified org))"
  by (auto simp: grant_def Let_def)

lemma claims_ok_verify:
  assumes ok: "claims_ok db"
  shows "claims_ok (snd (fst (verify_domain rs client resolver now token claim_id org_id (r, db))))"
proof (cases "load_claim db claim_id org_id")
  case (Inr c)
  then have c: "c \<in> set (db_claims db)" "cl_id c = claim_id" "cl_org c = org_id" by (auto dest: load_claimD)
  have rotate: "claims_ok (update_claim claim_id (rotate_claim token now) db)" if "cl_status c \<noteq> CLAIM_VERIFIED"
    using claims_ok_update_claim [OF ok c(1), of "rotate_claim token now"] that c(2) by (simp add: rotate_claim_def)
  have fail: "claims_ok (update_claim claim_id (fail_claim now e) db)" if "cl_status c \<noteq> CLAIM_VERIFIED" for e
    using claims_ok_update_claim [OF ok c(1), of "fail_claim now e"] that c(2) by (simp add: fail_claim_def)
  have succeed: "claims_ok (update_org org_id (grant (cl_domain c)) (update_claim claim_id (verify_claim now) db))"
  proof -
    have "claims_ok (update_org (cl_org c) (grant (cl_domain c)) (update_claim (cl_id c) (verify_claim now) db))"
    proof (rule claims_ok_update [OF ok c(1)])
      show "d \<in> set (og_verified (grant (cl_domain c) org)) \<longleftrightarrow>
          (if d = cl_domain c then cl_status (verify_claim now c) = CLAIM_VERIFIED else d \<in> set (og_verified org))"
        if "org \<in> set (db_orgs db)" for org d
        using set_grant_ok [of org] org_verified_nonempty [OF ok that] by (auto simp: verify_claim_def)
    qed (simp_all add: verify_claim_def grant_def Let_def)
    then show ?thesis using c(2,3) by simp
  qed
  show ?thesis
    using ok rotate fail succeed unfolding verify_domain_def
    by (simp add: Inr Let_def split: sum.splits prod.splits verdict.splits)
qed (simp add: verify_domain_def ok)

lemma revoke_iff:
  assumes "claims_ok db" and "org \<in> set (db_orgs db)"
  shows "d \<in> set (og_verified (revoke domain org)) \<longleftrightarrow> d \<noteq> domain \<and> d \<in> set (og_verified org)"
  using org_verified_nonempty [OF assms] by (auto simp: set_revoke)

lemma og_id_revoke [simp]: "og_id (revoke d org) = og_id org"
  by (simp add: revoke_def)

lemma claims_ok_delete:
  assumes ok: "claims_ok db"
  shows "claims_ok (fst (delete_domain claim_id org_id db))"
proof (cases "load_claim db claim_id org_id")
  case (Inr c)
  then have c: "c \<in> set (db_claims db)" "cl_id c = claim_id" "cl_org c = org_id" by (auto dest: load_claimD)
  let ?db = "(update_org org_id (revoke (cl_domain c)) db)\<lparr>db_claims := delete_where (\<lambda>x. cl_id x = claim_id) (db_claims db)\<rparr>"
  have same_key: "cl_id x = claim_id \<longleftrightarrow> claim_key x = claim_key c" if "x \<in> set (db_claims db)" for x
    using that c keyed_unique [OF claims_okD(2) [OF ok]] keyed_unique [OF claims_okD(3) [OF ok]] by blast
  have v: "verified_claim ?db o' d \<longleftrightarrow> (o', d) \<noteq> claim_key c \<and> verified_claim db o' d" for o' d
    by (auto simp: verified_claim_def list_ex_iff same_key) (metis same_key)
  have "claims_ok ?db"
  proof (rule claims_okI)
    show "keyed og_id (db_orgs ?db)" using claims_okD(1) [OF ok] by (simp add: map_update_where revoke_def)
    show "d \<in> set (og_verified org) \<longleftrightarrow> verified_claim ?db (og_id org) d" if mem: "org \<in> set (db_orgs ?db)" for org d
    proof -
      obtain o' where o': "o' \<in> set (db_orgs db)" "org = (if og_id o' = org_id then revoke (cl_domain c) o' else o')"
        using mem by (auto simp: in_update_where_iff)
      have "og_id org = og_id o'" using o'(2) by (simp add: revoke_def)
      then show ?thesis
        using o' c revoke_iff [OF ok o'(1)] claims_okD(5) [OF ok o'(1)] unfolding v by (auto simp: claim_key_def)
    qed
  qed (use claims_okD(2-4) [OF ok] in \<open>auto intro: distinct_map_delete_where\<close>)
  then show ?thesis using ok by (simp add: delete_domain_def Inr split: sum.splits)
qed (simp add: delete_domain_def ok)

lemma claims_ok_revoke:
  assumes ok: "claims_ok db" and c: "c \<in> set (db_claims db)"
  shows "claims_ok (revoke_claim c db)"
proof -
  let ?f = "\<lambda>c. c\<lparr>cl_status := CLAIM_FAILED, cl_verified_at := None\<rparr>"
  show ?thesis
  proof (cases "org_by_id db (cl_org c)")
    case None
    then have no: "\<And>org. org \<in> set (db_orgs db) \<Longrightarrow> og_id org \<noteq> cl_org c"
      by (metis image_eqI org_by_id_def row_by_None_iff)
    have "claims_ok (update_org (cl_org c) (\<lambda>x. x) (update_claim (cl_id c) ?f db))"
      by (rule claims_ok_update [OF ok c]) (use no in auto)
    then show ?thesis by (rule claims_ok_cong) (simp_all add: revoke_claim_def Let_def None update_where_def)
  next
    case (Some org)
    have "claims_ok (update_org (cl_org c) (revoke (cl_domain c)) (update_claim (cl_id c) ?f db))"
      by (rule claims_ok_update [OF ok c]) (simp_all add: revoke_iff [OF ok])
    then show ?thesis by (rule claims_ok_cong) (simp_all add: revoke_claim_def Let_def Some)
  qed
qed

lemma claims_ok_recheck:
  assumes ok: "claims_ok (snd st)"
  shows "claims_ok (snd (apply_recheck cfg now result st))"
proof -
  obtain claim_id b err n db where eq: "result = (claim_id, b, err)" "st = (n, db)" by (metis prod_cases3 surj_pair)
  show ?thesis
  proof (cases "row_by cl_id claim_id (db_claims db)")
    case (Some c)
    then have c: "c \<in> set (db_claims db)" "cl_id c = claim_id" by (auto dest: row_by_SomeD)
    have okd: "claims_ok db" using ok eq by simp
    have pass: "claims_ok (update_claim claim_id (pass_claim now) db)"
      using claims_ok_update_claim [OF okd c(1), of "pass_claim now"] c(2) by (simp add: pass_claim_def)
    have miss: "claims_ok (update_claim claim_id (miss_claim now err) db)"
      using claims_ok_update_claim [OF okd c(1), of "miss_claim now err"] c(2) by (simp add: miss_claim_def)
    have "miss_claim now err c \<in> set (db_claims (update_claim claim_id (miss_claim now err) db))"
      using c by (auto simp: set_update_where)
    from claims_ok_revoke [OF miss this]
    show ?thesis using pass miss by (simp add: apply_recheck_def eq Some Let_def)
  qed (use ok in \<open>simp add: apply_recheck_def eq\<close>)
qed

lemma claims_ok_reverify:
  assumes "claims_ok db"
  shows "claims_ok (snd (reverify_domains cfg now check db))"
proof -
  have "claims_ok (snd (foldl (\<lambda>st r. apply_recheck cfg now r st) st rs))" if "claims_ok (snd st)" for st rs
    using that by (induction rs arbitrary: st) (simp_all add: claims_ok_recheck)
  then show ?thesis using assms by (simp add: reverify_domains_def Let_def)
qed

section \<open>Histories\<close>

datatype domain_event =
    Post_domain int string nat nat string
  | Verify_domain int string resolver nat nat
  | Delete_domain nat nat
  | Reverify int "string \<Rightarrow> string \<Rightarrow> dns_check option"

fun domain_step :: "settings \<Rightarrow> rate_settings \<Rightarrow> 'r redis_client \<Rightarrow> 'r \<times> db \<Rightarrow> domain_event \<Rightarrow> 'r \<times> db" where
  "domain_step cfg rs client (r, db) (Post_domain now token org_id user_id text) =
     (r, fst (post_domain cfg now token org_id user_id text db))"
| "domain_step cfg rs client (r, db) (Verify_domain now token resolver claim_id org_id) =
     fst (verify_domain rs client resolver now token claim_id org_id (r, db))"
| "domain_step cfg rs client (r, db) (Delete_domain claim_id org_id) =
     (r, fst (delete_domain claim_id org_id db))"
| "domain_step cfg rs client (r, db) (Reverify now check) =
     (r, snd (reverify_domains cfg now check db))"

interpretation claims: kept_system "domain_step cfg rs client" "\<lambda>st. claims_ok (snd st)" for cfg rs client
proof
  fix st e
  assume "claims_ok (snd (st :: 'a \<times> db))"
  then show "claims_ok (snd (domain_step cfg rs client st e))"
    by (cases st; cases e) (simp_all add: claims_ok_post claims_ok_verify claims_ok_delete claims_ok_reverify)
qed

section \<open>Where authority comes from and how it ends\<close>

definition published :: "resolver \<Rightarrow> string \<Rightarrow> string \<Rightarrow> bool" where
  "published resolver domain token =
    (token \<in> set (tl_values (lookup_txt (challenge_label @ ''.'' @ domain) resolver)) \<or>
     apex_prefix @ token \<in> set (tl_values (lookup_txt domain resolver)))"

lemma check_ok_iff: "dc_ok (check_domain_token domain token resolver) \<longleftrightarrow> published resolver domain token"
  by (simp add: check_domain_token_def published_def Let_def)

lemma verified_update_keep:
  assumes "claims_ok db" and "c \<in> set (db_claims db)"
    and "\<And>x. cl_id (f x) = cl_id x \<and> claim_key (f x) = claim_key x" and "cl_status (f c) = cl_status c"
  shows "verified_claim (update_claim (cl_id c) f db) o' d \<longleftrightarrow> verified_claim db o' d"
  using verified_after_update [OF assms(1-3)] verified_claim_status [OF assms(1,2)] assms(4)
  by (auto simp: claim_key_def)

lemma verified_revoke:
  assumes "claims_ok db" and "c \<in> set (db_claims db)"
  shows "verified_claim (revoke_claim c db) o' d \<longleftrightarrow> (o', d) \<noteq> claim_key c \<and> verified_claim db o' d"
proof -
  have "verified_claim (revoke_claim c db) o' d
      = verified_claim (update_claim (cl_id c) (\<lambda>c. c\<lparr>cl_status := CLAIM_FAILED, cl_verified_at := None\<rparr>) db) o' d"
    by (simp add: revoke_claim_def Let_def verified_claim_def split: option.splits)
  also have "\<dots> \<longleftrightarrow> (o', d) \<noteq> claim_key c \<and> verified_claim db o' d"
    by (subst verified_after_update [OF assms]) (simp_all add: claim_key_def)
  finally show ?thesis .
qed

text \<open>One result of the sweep: what happens to the verified claims, and why.\<close>

lemma recheck_cases:
  assumes "claims_ok db"
  obtains (same) n' db' where "apply_recheck cfg now (i, b, err) (n, db) = (n', db')"
      and "\<And>o' d. verified_claim db' o' d \<longleftrightarrow> verified_claim db o' d"
      and "db_orgs db' = db_orgs db" and "db_schedules db' = db_schedules db"
  | (revoked) n' c db1 where "apply_recheck cfg now (i, b, err) (n, db) = (n', revoke_claim c db1)"
      and "claims_ok db1" and "c \<in> set (db_claims db1)" and "0 < st_reverify_threshold cfg"
      and "\<And>o' d. verified_claim db1 o' d \<longleftrightarrow> verified_claim db o' d"
      and "db_orgs db1 = db_orgs db" and "db_schedules db1 = db_schedules db"
proof (cases "row_by cl_id i (db_claims db)")
  case None
  then show thesis by (intro same [of n db]) (simp_all add: apply_recheck_def)
next
  case (Some c)
  then have c: "c \<in> set (db_claims db)" "cl_id c = i" by (auto dest: row_by_SomeD)
  let ?miss = "update_claim i (miss_claim now err) db"
  have pass: "verified_claim (update_claim i (pass_claim now) db) o' d \<longleftrightarrow> verified_claim db o' d" for o' d
    using verified_update_keep [OF assms c(1), of "pass_claim now"] c(2) by (simp add: pass_claim_def claim_key_def)
  have miss: "verified_claim ?miss o' d \<longleftrightarrow> verified_claim db o' d" for o' d
    using verified_update_keep [OF assms c(1), of "miss_claim now err"] c(2) by (simp add: miss_claim_def claim_key_def)
  have okm: "claims_ok ?miss"
    using claims_ok_update_claim [OF assms c(1), of "miss_claim now err"] c(2) by (simp add: miss_claim_def)
  have mem: "miss_claim now err c \<in> set (db_claims ?miss)" using c by (auto simp: in_update_where_iff)
  show thesis
  proof (cases "\<not> b \<and> \<not> dns_unresolved err \<and> should_revoke cfg (miss_claim now err c)")
    case True
    then have "apply_recheck cfg now (i, b, err) (n, db)
        = (fst (apply_recheck cfg now (i, b, err) (n, db)), revoke_claim (miss_claim now err c) ?miss)"
      by (simp add: apply_recheck_def Some Let_def)
    from revoked [OF this okm mem] True miss show thesis by (simp add: should_revoke_def)
  next
    case False
    show thesis
    proof (cases b)
      case True
      show thesis
        by (rule same [of "fst (apply_recheck cfg now (i, b, err) (n, db))" "update_claim i (pass_claim now) db"])
          (use True pass in \<open>simp_all add: apply_recheck_def Some Let_def\<close>)
    next
      case nb: False
      show thesis
        by (rule same [of "fst (apply_recheck cfg now (i, b, err) (n, db))" ?miss])
          (use False nb miss in \<open>auto simp: apply_recheck_def Some Let_def\<close>)
    qed
  qed
qed

text \<open>
  After a sweep no domain is newly verified, and where a domain was withdrawn no schedule
  it covers is still enabled.
\<close>

definition withdrawn_disabled :: "db \<Rightarrow> db \<Rightarrow> bool" where
  "withdrawn_disabled db0 db =
    (\<forall>o' d s. o' \<in> og_id ` set (db_orgs db0) \<longrightarrow> verified_claim db0 o' d \<longrightarrow> \<not> verified_claim db o' d \<longrightarrow>
      s \<in> set (db_schedules db) \<longrightarrow> sc_org s = o' \<longrightarrow> covers d (sc_target s) \<longrightarrow> \<not> sc_enabled s)"

lemma revoke_schedules:
  assumes "org_by_id db (cl_org c) \<noteq> None" and "s \<in> set (db_schedules (revoke_claim c db))"
  shows "(sc_org s = cl_org c \<and> covers (cl_domain c) (sc_target s) \<longrightarrow> \<not> sc_enabled s) \<and>
    (\<exists>s0 \<in> set (db_schedules db). sc_org s0 = sc_org s \<and> sc_target s0 = sc_target s \<and> (sc_enabled s \<longrightarrow> sc_enabled s0))"
  using assms
  by (auto simp: revoke_claim_def Let_def covers_iff in_update_where_iff disable_schedule_def split: option.splits if_splits)
    (auto dest: arg_cong [where f = sc_enabled])

definition sweep_good :: "db \<Rightarrow> db \<Rightarrow> bool" where
  "sweep_good db0 db =
    (claims_ok db \<and> (\<forall>o' d. verified_claim db o' d \<longrightarrow> verified_claim db0 o' d) \<and> withdrawn_disabled db0 db \<and>
     og_id ` set (db_orgs db) = og_id ` set (db_orgs db0))"

lemma org_ids_revoke: "og_id ` set (db_orgs (revoke_claim c db)) = og_id ` set (db_orgs db)"
proof -
  have "og_id ` set (update_where p (revoke d) rows) = og_id ` set rows" for p d and rows :: "org_row list"
    by (simp flip: set_map add: map_update_where)
  then show ?thesis by (simp add: revoke_claim_def Let_def split: option.splits)
qed

text \<open>Revoking one more claim keeps the schedules under everything withdrawn since the start disabled.\<close>

lemma withdrawn_disabled_revoke:
  assumes g: "withdrawn_disabled db0 db" "og_id ` set (db_orgs db) = og_id ` set (db_orgs db0)"
    and same: "map og_id (db_orgs db1) = map og_id (db_orgs db)" "db_schedules db1 = db_schedules db"
    and v: "\<And>o' d. verified_claim (revoke_claim c db1) o' d \<longleftrightarrow> (o', d) \<noteq> claim_key c \<and> verified_claim db o' d"
  shows "withdrawn_disabled db0 (revoke_claim c db1)"
  unfolding withdrawn_disabled_def
proof (intro allI impI)
  fix o' d s
  assume h: "o' \<in> og_id ` set (db_orgs db0)" "verified_claim db0 o' d" "\<not> verified_claim (revoke_claim c db1) o' d"
    "s \<in> set (db_schedules (revoke_claim c db1))" "sc_org s = o'" "covers d (sc_target s)"
  have ids: "og_id ` set (db_orgs db1) = og_id ` set (db_orgs db)" using arg_cong [OF same(1), of set] by simp
  show "\<not> sc_enabled s"
  proof (cases "org_by_id db1 (cl_org c)")
    case None
    then have "cl_org c \<notin> og_id ` set (db_orgs db0)" using g(2) ids by (simp add: org_by_id_def row_by_None_iff)
    then have "o' \<noteq> cl_org c" using h(1) by metis
    then have "\<not> verified_claim db o' d" using h(3) by (simp add: v claim_key_def)
    moreover have "s \<in> set (db_schedules db)" using h(4) same(2) by (simp add: revoke_claim_def Let_def None)
    ultimately show ?thesis using g(1) h unfolding withdrawn_disabled_def by blast
  next
    case (Some org)
    then have ne: "org_by_id db1 (cl_org c) \<noteq> None" by simp
    from revoke_schedules [OF this h(4)] obtain s0 where
      s0: "s0 \<in> set (db_schedules db)" "sc_org s0 = o'" "sc_target s0 = sc_target s" "sc_enabled s \<longrightarrow> sc_enabled s0"
      using same(2) h(5) by auto
    show ?thesis
    proof (cases "(o', d) = claim_key c")
      case True
      then show ?thesis using revoke_schedules [OF ne h(4)] h(5,6) by (auto simp: claim_key_def)
    next
      case False
      then have "\<not> verified_claim db o' d" using h(3) v by simp
      then show ?thesis using g(1) h s0 unfolding withdrawn_disabled_def by metis
    qed
  qed
qed

lemma sweep_good_step:
  assumes "sweep_good db0 (snd st)"
  shows "sweep_good db0 (snd (apply_recheck cfg now result st))"
proof -
  obtain i b err n db where eq: "result = (i, b, err)" "st = (n, db)" by (metis prod_cases3 surj_pair)
  have g: "claims_ok db" "\<And>o' d. verified_claim db o' d \<Longrightarrow> verified_claim db0 o' d" "withdrawn_disabled db0 db"
    "og_id ` set (db_orgs db) = og_id ` set (db_orgs db0)"
    using assms by (auto simp: sweep_good_def eq)
  have ok: "claims_ok (snd (apply_recheck cfg now result st))"
    using assms by (intro claims_ok_recheck) (simp add: sweep_good_def)
  show ?thesis
    using g(1)
  proof (cases rule: recheck_cases [where cfg = cfg and now = now and i = i and b = b and err = err and n = n])
    case (same n' db')
    then show ?thesis using g ok by (auto simp: sweep_good_def withdrawn_disabled_def eq)
  next
    case (revoked n' c db1)
    have v: "verified_claim (revoke_claim c db1) o' d \<longleftrightarrow> (o', d) \<noteq> claim_key c \<and> verified_claim db o' d" for o' d
      using verified_revoke [OF revoked(2,3)] revoked(5) by simp
    have "withdrawn_disabled db0 (revoke_claim c db1)"
      by (rule withdrawn_disabled_revoke [OF g(3,4) _ _ v]) (use revoked in simp_all)
    then show ?thesis using g ok v revoked by (auto simp: sweep_good_def eq org_ids_revoke)
  qed
qed

lemma sweep_good_reverify:
  assumes "claims_ok db"
  shows "sweep_good db (snd (reverify_domains cfg now check db))"
proof -
  have "sweep_good db (snd (foldl (\<lambda>st r. apply_recheck cfg now r st) st rs))" if "sweep_good db (snd st)" for st rs
    using that by (induction rs arbitrary: st) (simp_all add: sweep_good_step)
  moreover have "sweep_good db db" using assms by (simp add: sweep_good_def withdrawn_disabled_def)
  ultimately show ?thesis by (simp add: reverify_domains_def Let_def)
qed

lemma reverify_threshold_zero:
  assumes "claims_ok db" and "st_reverify_threshold cfg \<le> 0"
  shows "db_orgs (snd (reverify_domains cfg now check db)) = db_orgs db \<and>
    db_schedules (snd (reverify_domains cfg now check db)) = db_schedules db"
proof -
  have step: "claims_ok (snd (apply_recheck cfg now r st)) \<and> db_orgs (snd (apply_recheck cfg now r st)) = db_orgs (snd st) \<and>
      db_schedules (snd (apply_recheck cfg now r st)) = db_schedules (snd st)" if "claims_ok (snd st)" for r st
  proof -
    obtain i b err n db where eq: "r = (i, b, err)" "st = (n, db)" by (metis prod_cases3 surj_pair)
    have "claims_ok db" using that eq by simp
    then have "db_orgs (snd (apply_recheck cfg now r st)) = db_orgs (snd st) \<and>
        db_schedules (snd (apply_recheck cfg now r st)) = db_schedules (snd st)"
      using assms(2)
      by (cases rule: recheck_cases [where cfg = cfg and now = now and i = i and b = b and err = err and n = n])
        (auto simp: eq)
    then show ?thesis using claims_ok_recheck [OF that] by blast
  qed
  have "claims_ok (snd (foldl (\<lambda>st r. apply_recheck cfg now r st) st rs)) \<and>
      db_orgs (snd (foldl (\<lambda>st r. apply_recheck cfg now r st) st rs)) = db_orgs (snd st) \<and>
      db_schedules (snd (foldl (\<lambda>st r. apply_recheck cfg now r st) st rs)) = db_schedules (snd st)"
    if "claims_ok (snd st)" for st rs
    using that
  proof (induction rs arbitrary: st)
    case (Cons r rs)
    from Cons.IH [of "apply_recheck cfg now r st"] step [OF Cons.prems, of r] show ?case by simp
  qed simp
  from this [of "(no_sweep, db)"] assms(1) show ?thesis by (simp add: reverify_domains_def Let_def)
qed

section \<open>Properties\<close>

text \<open>A database with one organisation and its pending claim, for the witnesses.\<close>

definition sample_db :: db where
  "sample_db =
    \<lparr>db_next = 10,
     db_orgs = [\<lparr>og_id = 1, og_name = ''Acme'', og_domain = ''acme.com'', og_verified = [], og_active = True, og_webhook = None\<rparr>],
     db_users = [], db_sessions = [],
     db_claims = [new_claim 2 1 None ''acme.com'' ''tok'' 0],
     db_scans = [], db_logs = [],
     db_schedules = [\<lparr>sc_id = 3, sc_org = 1, sc_created_by = None, sc_name = ''n'', sc_target = ''www.acme.com'', sc_config = [],
       sc_cadence = DAILY, sc_hour = 3, sc_weekday = None, sc_enabled = True, sc_next_run = 0, sc_last_run = None,
       sc_last_scan = None, sc_failures = 0, sc_disabled_reason = None\<rparr>],
     db_reports = []\<rparr>"

definition sample_resolver :: resolver where
  "sample_resolver name =
    (if name = ''_surfacewatch-challenge.acme.com'' then Txt_records [[''to'', ''k'']] else No_such_record)"

lemma sample_claims_ok: "claims_ok sample_db"
  by (simp add: claims_ok_def sample_db_def new_claim_def verified_claim_def claim_key_def)

text \<open>
  C1: in every history of claiming, verifying, deleting and re-checking domains, an
  organisation is authorised to scan a domain exactly when it holds a claim on it whose
  status is VERIFIED. The list the scope checks read and the record of proof never diverge.
\<close>

theorem authority_is_proof:
  assumes "claims_ok db" and "org \<in> set (db_orgs (snd (foldl (domain_step cfg rs client) (r, db) es)))"
  shows "d \<in> set (og_verified org) \<longleftrightarrow>
    verified_claim (snd (foldl (domain_step cfg rs client) (r, db) es)) (og_id org) d"
  using claims.run_good [of "(r, db)" cfg rs client es] assms claims_okD(5) by auto

theorem authority_is_proof_witness:
  "let db' = snd (foldl (domain_step default_settings default_rate_settings rd_client) (rd_empty, sample_db)
       [Verify_domain 5 ''new'' sample_resolver 2 1]) in
   map og_verified (db_orgs db') = [[''acme.com'']] \<and> verified_claim db' 1 ''acme.com''"
proof -
  let ?db = "snd (foldl (domain_step default_settings default_rate_settings rd_client) (rd_empty, sample_db)
       [Verify_domain 5 ''new'' sample_resolver 2 1])"
  have o': "map og_verified (db_orgs ?db) = [[''acme.com'']]" "map og_id (db_orgs ?db) = [1]" by code_simp+
  then obtain org where "org \<in> set (db_orgs ?db)" "og_verified org = [''acme.com'']" "og_id org = 1" by auto
  with authority_is_proof [OF sample_claims_ok, of org default_settings default_rate_settings rd_client rd_empty
      "[Verify_domain 5 ''new'' sample_resolver 2 1]" "''acme.com''"] o'
  show ?thesis by simp
qed

text \<open>
  C2: a domain becomes scannable in one way only: a request to verify the organisation's own
  claim on it, with a token that has not expired, while DNS publishes that token under the
  challenge label or at the apex. No other operation, by anyone, adds authority.
\<close>

theorem authority_needs_published_token:
  assumes "claims_ok db" and "verified_claim (snd (domain_step cfg rs client (r, db) e)) org d"
    and "\<not> verified_claim db org d"
  shows "\<exists>now token resolver c. e = Verify_domain now token resolver (cl_id c) org \<and> c \<in> set (db_claims db) \<and>
    claim_key c = (org, d) \<and> \<not> token_expired now c \<and> published resolver d (cl_token c)"
proof (cases e)
  case (Post_domain now token org_id user_id txt0)
  then show ?thesis using assms(2,3)
    by (auto simp: post_domain_def add_domain_def Let_def verified_claim_def new_claim_def split: sum.splits option.splits if_splits)
next
  case (Delete_domain claim_id org_id)
  then show ?thesis using assms(2,3)
    by (auto simp: delete_domain_def verified_claim_def list_ex_iff split: sum.splits)
next
  case (Reverify now check)
  then show ?thesis using assms(2,3) sweep_good_reverify [OF assms(1)] by (auto simp: sweep_good_def)
next
  case (Verify_domain now token resolver claim_id org_id)
  have v: "verified_claim (snd (fst (verify_domain rs client resolver now token claim_id org_id (r, db)))) org d"
    using assms(2) Verify_domain by simp
  show ?thesis
  proof (cases "load_claim db claim_id org_id")
    case (Inl err)
    with v assms(3) show ?thesis by (simp add: verify_domain_def)
  next
    case (Inr c)
    then have c: "c \<in> set (db_claims db)" "cl_id c = claim_id" "cl_org c = org_id" by (auto dest: load_claimD)
    have up: "verified_claim (update_claim claim_id f db) org d \<longleftrightarrow>
        (if (org, d) = claim_key c then cl_status (f c) = CLAIM_VERIFIED else verified_claim db org d)"
      if "\<And>x. cl_id (f x) = cl_id x \<and> claim_key (f x) = claim_key x" for f
      using verified_after_update [OF assms(1) c(1) that] c(2) by simp
    have "(org, d) = claim_key c \<and> \<not> token_expired now c \<and> dc_ok (check_domain_token (cl_domain c) (cl_token c) resolver)"
      using v assms(3) unfolding verify_domain_def
      by (auto simp: Inr Let_def up rotate_claim_def fail_claim_def verify_claim_def claim_key_def
          split: if_splits prod.splits verdict.splits sum.splits)
    then show ?thesis using c Verify_domain check_ok_iff by (auto simp: claim_key_def)
  qed
qed

theorem authority_needs_published_token_witness:
  "published sample_resolver ''acme.com'' ''tok''"
proof -
  let ?e = "Verify_domain 5 ''new'' sample_resolver 2 1"
  have "verified_claim (snd (domain_step default_settings default_rate_settings rd_client (rd_empty, sample_db) ?e)) 1 ''acme.com''"
    "\<not> verified_claim sample_db 1 ''acme.com''" by code_simp+
  from authority_needs_published_token [OF sample_claims_ok this]
  obtain c where "?e = Verify_domain 5 ''new'' sample_resolver (cl_id c) 1" "c \<in> set (db_claims sample_db)"
    "published sample_resolver ''acme.com'' (cl_token c)" by auto
  then show ?thesis by (auto simp: sample_db_def new_claim_def)
qed

text \<open>
  C20: the weekly sweep never adds authority; with the threshold at 0, its default, it
  withdraws none and touches no organisation and no schedule; and wherever it does withdraw
  a domain, every schedule of the organisation aimed at the domain or below it is left
  disabled.
\<close>

theorem sweep_withdraws_safely:
  assumes "claims_ok db" and "db' = snd (reverify_domains cfg now check db)"
  shows "(verified_claim db' org d \<longrightarrow> verified_claim db org d) \<and>
    (st_reverify_threshold cfg \<le> 0 \<longrightarrow> db_orgs db' = db_orgs db \<and> db_schedules db' = db_schedules db) \<and>
    (org \<in> og_id ` set (db_orgs db) \<and> verified_claim db org d \<and> \<not> verified_claim db' org d \<and>
     s \<in> set (db_schedules db') \<and> sc_org s = org \<and> covers d (sc_target s) \<longrightarrow> \<not> sc_enabled s)"
proof -
  have "sweep_good db db'" using sweep_good_reverify [OF assms(1)] assms(2) by simp
  moreover have "st_reverify_threshold cfg \<le> 0 \<longrightarrow> db_orgs db' = db_orgs db \<and> db_schedules db' = db_schedules db"
    using reverify_threshold_zero [OF assms(1)] assms(2) by blast
  ultimately show ?thesis unfolding sweep_good_def withdrawn_disabled_def by blast
qed

definition verified_db :: db where
  "verified_db = snd (fst (verify_domain default_rate_settings rd_client sample_resolver 5 ''new'' 2 1 (rd_empty, sample_db)))"

theorem sweep_withdraws_safely_witness:
  "let db' = snd (reverify_domains (default_settings\<lparr>st_reverify_threshold := 1\<rparr>) 9
       (\<lambda>d t. Some (check_domain_token d t (\<lambda>n. No_such_record))) verified_db) in
   verified_claim verified_db 1 ''acme.com'' \<and> \<not> verified_claim db' 1 ''acme.com'' \<and>
   list_all (\<lambda>s. \<not> sc_enabled s) (db_schedules db')"
proof -
  let ?cfg = "default_settings\<lparr>st_reverify_threshold := 1\<rparr>"
  let ?check = "\<lambda>d t. Some (check_domain_token d t (\<lambda>n. No_such_record))"
  let ?db = "snd (reverify_domains ?cfg 9 ?check verified_db)"
  have ok: "claims_ok verified_db" unfolding verified_db_def by (rule claims_ok_verify [OF sample_claims_ok])
  have v: "verified_claim verified_db 1 ''acme.com''" "\<not> verified_claim ?db 1 ''acme.com''" by code_simp+
  have m: "map sc_org (db_schedules ?db) = [1]" "map sc_target (db_schedules ?db) = [''www.acme.com'']" by code_simp+
  have "map og_id (db_orgs verified_db) = [1]" by code_simp
  then have o': "1 \<in> og_id ` set (db_orgs verified_db)" by (metis list.set_intros(1) list.set_map)
  have "covers ''acme.com'' ''www.acme.com''" by code_simp
  then have "\<not> sc_enabled s" if "s \<in> set (db_schedules ?db)" for s
    using sweep_withdraws_safely [OF ok refl, of ?cfg 9 ?check 1 "''acme.com''" s] that v o' m
    by (cases "db_schedules ?db") auto
  then show ?thesis using v by (simp add: list_all_iff Let_def)
qed

text \<open>
  The comment on the unresolved case says a lookup failure never accumulates toward
  revocation. It does: the failure counter is raised before the case is told apart, so
  with a threshold of 2 one lookup failure and one missing record revoke the domain. And
  a failure of one of the two lookups is not seen as unresolved at all when the other one
  answers without a record.
\<close>

lemma unresolved_lookups_accumulate:
  "let cfg = default_settings\<lparr>st_reverify_threshold := 2\<rparr>;
       sweep = (\<lambda>answer db. snd (reverify_domains cfg 9 (\<lambda>d t. Some (check_domain_token d t (\<lambda>n. answer))) db))
   in verified_claim (sweep Dns_timeout verified_db) 1 ''acme.com'' \<and>
      verified_claim (sweep No_such_record verified_db) 1 ''acme.com'' \<and>
      \<not> verified_claim (sweep No_such_record (sweep Dns_timeout verified_db)) 1 ''acme.com''"
  by code_simp

lemma half_failed_lookup_counts_as_missing:
  "dc_error (check_domain_token ''a.com'' ''t'' (\<lambda>n. if n = ''a.com'' then No_such_record else Dns_timeout))
    = Some (''No TXT record found at _surfacewatch-challenge.a.com (or on a.com itself). ''
        @ ''If you have just added it, DNS can take a few minutes to propagate.'')"
  by code_simp

end
