(* ===== verification/Scans.thy ===== *)
theory Scans
  imports Tables
begin

text \<open>
  The scan lifecycle: the payloads of \<open>schemas/scan.py\<close>, the handlers of
  \<open>routes/scans.py\<close>, the worker side (\<open>workers/orchestrator.py\<close>, \<open>workers/context.py\<close>) and
  the event stream (\<open>core/events.py\<close>). The broker is a parameter: publishing a task gives
  its id or the class name of the exception. Two tasks of one scan may run in any order
  and any number of times, as an at-least-once broker delivers them.
\<close>

section \<open>Payloads\<close>

definition all_modules :: "string list" where
  "all_modules = [''subdomain_enum'', ''port_scanner'', ''fingerprinter'', ''cve_correlator'', ''change_detector'']"

definition port_profiles :: "string list" where
  "port_profiles = [''top-100'', ''top-1000'', ''web'', ''full'', ''custom'']"

record scan_config =
  cf_modules :: "string list"
  cf_profile :: string
  cf_ports :: "int list"
  cf_max_subdomains :: int
  cf_passive :: bool
  cf_timeout :: rat
  cf_rate :: int
  cf_wildcards :: bool

definition default_config :: scan_config where
  "default_config =
    \<lparr>cf_modules = all_modules, cf_profile = ''top-1000'', cf_ports = [], cf_max_subdomains = 500,
     cf_passive = False, cf_timeout = 2, cf_rate = 50, cf_wildcards = False\<rparr>"

text \<open>None is the validation error. Modules come out in pipeline order, ports sorted and distinct.\<close>

definition validate_config :: "scan_config \<Rightarrow> scan_config option" where
  "validate_config c =
    (if cf_modules c = [] \<or> \<not> list_all (\<lambda>m. m \<in> set all_modules) (cf_modules c)
        \<or> cf_profile c \<notin> set port_profiles
        \<or> \<not> list_all (\<lambda>p. 1 \<le> p \<and> p \<le> 65535) (cf_ports c)
        \<or> \<not> (1 \<le> cf_max_subdomains c \<and> cf_max_subdomains c \<le> 10000)
        \<or> \<not> (0 < cf_timeout c \<and> cf_timeout c \<le> 30)
        \<or> \<not> (1 \<le> cf_rate c \<and> cf_rate c \<le> 1000)
     then None
     else Some (c\<lparr>cf_modules := filter (\<lambda>m. m \<in> set (cf_modules c)) all_modules,
                  cf_ports := sort (remdups (cf_ports c))\<rparr>))"

definition dump_config :: "scan_config \<Rightarrow> json_object" where
  "dump_config c =
    [(''modules'', JList (map JStr (cf_modules c))), (''port_profile'', JStr (cf_profile c)),
     (''ports'', JList (map (\<lambda>p. JNum (of_int p)) (cf_ports c))), (''max_subdomains'', JNum (of_int (cf_max_subdomains c))),
     (''passive_only'', JBool (cf_passive c)), (''connect_timeout'', JNum (cf_timeout c)),
     (''rate_limit'', JNum (of_int (cf_rate c))), (''include_wildcards'', JBool (cf_wildcards c))]"

definition clean_target :: "string \<Rightarrow> string option" where
  "clean_target v =
    (if length v < 3 \<or> 253 < length v then None
     else let host = normalise_host v in
       if host = [] \<or> CHR ''.'' \<notin> set host then None else Some host)"

section \<open>The event stream\<close>

text \<open>The replay list of a scan: RPUSH, then LTRIM to the last events; LRANGE from the end.\<close>

definition history_max :: nat where
  "history_max = 2000"

definition push_event :: "'e list \<Rightarrow> 'e \<Rightarrow> 'e list" where
  "push_event history e = (let h = history @ [e] in drop (length h - history_max) h)"

definition read_history :: "'e list \<Rightarrow> nat \<Rightarrow> 'e list" where
  "read_history history limit = (if limit = 0 then history else drop (length history - limit) history)"

section \<open>The handlers\<close>

type_synonym broker = "string + string"

definition scope_message :: "scope_error \<Rightarrow> string" where
  "scope_message e =
    (case e of
       Empty_target \<Rightarrow> ''Empty target''
     | Private_target h \<Rightarrow> h @ '' is a private/reserved address and cannot be scanned''
     | Not_covered h ds \<Rightarrow> h @ '' is not covered by this organisation's verified domains (''
         @ (if ds = [] then ''none configured'' else join '', '' ds)
         @ ''). Add and verify the domain before scanning it.''
     | Empty_host \<Rightarrow> ''Empty host''
     | Private_literal h \<Rightarrow> h @ '' is a private/reserved address''
     | Unresolvable h \<Rightarrow> h @ '' could not be resolved''
     | No_addresses h \<Rightarrow> h @ '' resolved to no addresses''
     | Private_answers h as \<Rightarrow> h @ '' resolves to a private/reserved address ('' @ join '', '' as
         @ '') and will not be contacted'')"

definition find_scan :: "db \<Rightarrow> nat \<Rightarrow> nat \<Rightarrow> scan_row option" where
  "find_scan db scan_id org_id = find (\<lambda>s. sn_id s = scan_id \<and> sn_org s = org_id) (db_scans db)"

abbreviation update_scan :: "nat \<Rightarrow> (scan_row \<Rightarrow> scan_row) \<Rightarrow> db \<Rightarrow> db" where
  "update_scan i f db \<equiv> db\<lparr>db_scans := update_where (\<lambda>s. sn_id s = i) f (db_scans db)\<rparr>"

definition new_scan :: "nat \<Rightarrow> nat \<Rightarrow> nat option \<Rightarrow> string \<Rightarrow> json_object \<Rightarrow> int \<Rightarrow> scan_row" where
  "new_scan i org_id user_id target config now =
    \<lparr>sn_id = i, sn_org = org_id, sn_created_by = user_id, sn_target = target, sn_status = QUEUED,
     sn_started = None, sn_completed = None, sn_config = config, sn_stage = None, sn_progress = 0,
     sn_assets = 0, sn_findings = 0, sn_error = None, sn_task = None, sn_created = now\<rparr>"

definition insert_scan :: "nat \<Rightarrow> nat option \<Rightarrow> string \<Rightarrow> json_object \<Rightarrow> int \<Rightarrow> db \<Rightarrow> db" where
  "insert_scan org_id user_id target config now db =
    db\<lparr>db_scans := db_scans db @ [new_scan (db_next db) org_id user_id target config now],
       db_next := db_next db + 1\<rparr>"

text \<open>The scan of a publish that failed, and of one that succeeded.\<close>

definition unqueue :: "int \<Rightarrow> string \<Rightarrow> scan_row \<Rightarrow> scan_row" where
  "unqueue now exc s =
    s\<lparr>sn_status := FAILED, sn_completed := Some now, sn_error := Some (''Could not queue the scan: '' @ exc)\<rparr>"

definition set_task :: "string \<Rightarrow> scan_row \<Rightarrow> scan_row" where
  "set_task task s = s\<lparr>sn_task := Some task\<rparr>"

definition queue_unavailable :: http_error where
  "queue_unavailable = Http_error 503 ''The scan queue is unavailable right now. Please try again shortly.''"

definition create_scan ::
    "settings \<Rightarrow> int \<Rightarrow> broker \<Rightarrow> nat \<Rightarrow> nat \<Rightarrow> string \<Rightarrow> json_object \<Rightarrow> db \<Rightarrow> db \<times> (http_error + nat)" where
  "create_scan cfg now broker org_id user_id body_target config db =
    (case org_by_id db org_id of
       None \<Rightarrow> (db, Inl (Http_error 404 ''Organisation not found''))
     | Some org \<Rightarrow>
         (case assert_in_scope body_target (all_domains org) (st_allow_arbitrary cfg) of
            Inl e \<Rightarrow> (db, Inl (Http_error 403 (scope_message e)))
          | Inr target \<Rightarrow>
              (let active = active_count org_id (db_scans db) in
               if st_max_concurrent cfg \<le> active
               then (db, Inl (Http_error 429 (''You already have '' @ dec (int active) @ '' scans queued or running (limit ''
                       @ dec (int (st_max_concurrent cfg)) @ ''). Wait for one to finish.'')))
               else let i = db_next db; db1 = insert_scan org_id (Some user_id) target config now db in
                 case broker of
                   Inl exc \<Rightarrow> (update_scan i (unqueue now exc) db1, Inl queue_unavailable)
                 | Inr task \<Rightarrow> (update_scan i (set_task task) db1, Inr i))))"

text \<open>SQL \<open>ILIKE\<close>: both sides in lower case; \<open>%\<close> any run, \<open>_\<close> any character, backslash quotes.\<close>

fun like :: "string \<Rightarrow> string \<Rightarrow> bool" where
  "like [] s = (s = [])"
| "like (p # ps) s =
     (if p = CHR ''%'' then list_ex (\<lambda>k. like ps (drop k s)) [0..<length s + 1]
      else if p = CHR ''_'' then s \<noteq> [] \<and> like ps (tl s)
      else if ord p = 92 \<and> ps \<noteq> [] then s \<noteq> [] \<and> hd s = hd ps \<and> like (tl ps) (tl s)
      else s \<noteq> [] \<and> hd s = p \<and> like ps (tl s))"

definition list_scans :: "db \<Rightarrow> nat \<Rightarrow> scan_status option \<Rightarrow> string option \<Rightarrow> nat \<Rightarrow> nat \<Rightarrow> scan_row list \<times> nat" where
  "list_scans db org_id status_filter target limit offset =
    (let rows = filter (\<lambda>s. sn_org s = org_id
           \<and> (case status_filter of None \<Rightarrow> True | Some st \<Rightarrow> sn_status s = st)
           \<and> (case target of None \<Rightarrow> True
              | Some t \<Rightarrow> t = [] \<or> like (lower (''%'' @ t @ ''%'')) (lower (sn_target s)))) (db_scans db)
     in (take limit (drop offset (sort_key (\<lambda>s. - sn_created s) rows)), length rows))"

record scan_stats =
  ss_by_status :: "(scan_status \<times> nat) list"
  ss_total :: nat
  ss_last_7d :: nat
  ss_active :: nat

definition scan_stats_of :: "db \<Rightarrow> nat \<Rightarrow> int \<Rightarrow> scan_stats" where
  "scan_stats_of db org_id now =
    (let n = (\<lambda>st. count_where (\<lambda>s. sn_org s = org_id \<and> sn_status s = st) (db_scans db));
         statuses = [QUEUED, RUNNING, COMPLETED, FAILED, CANCELLED]
     in \<lparr>ss_by_status = map (\<lambda>st. (st, n st)) statuses,
         ss_total = sum_list (map n statuses),
         ss_last_7d = count_where (\<lambda>s. sn_org s = org_id \<and> now - 7 * us_day \<le> sn_created s) (db_scans db),
         ss_active = n QUEUED + n RUNNING\<rparr>)"

definition get_scan :: "db \<Rightarrow> nat \<Rightarrow> nat \<Rightarrow> http_error + scan_row" where
  "get_scan db scan_id org_id =
    (case find_scan db scan_id org_id of None \<Rightarrow> Inl (Http_error 404 ''Scan not found'') | Some s \<Rightarrow> Inr s)"

definition get_scan_logs :: "db \<Rightarrow> nat \<Rightarrow> nat \<Rightarrow> nat \<Rightarrow> nat \<Rightarrow> http_error + (log_row list \<times> nat)" where
  "get_scan_logs db scan_id org_id limit offset =
    (case get_scan db scan_id org_id of
       Inl e \<Rightarrow> Inl e
     | Inr _ \<Rightarrow>
         (let rows = filter (\<lambda>l. lg_scan l = scan_id) (db_logs db)
          in Inr (take limit (drop offset (sort_key lg_time rows)), length rows)))"

fun status_name :: "scan_status \<Rightarrow> string" where
  "status_name QUEUED = ''queued''"
| "status_name RUNNING = ''running''"
| "status_name COMPLETED = ''completed''"
| "status_name FAILED = ''failed''"
| "status_name CANCELLED = ''cancelled''"

definition cancel_row :: "int \<Rightarrow> scan_row \<Rightarrow> scan_row" where
  "cancel_row now s = s\<lparr>sn_status := CANCELLED, sn_completed := Some now, sn_stage := None\<rparr>"

text \<open>The second component of the result is the task that is revoked at the broker, if any.\<close>

definition cancel_scan :: "int \<Rightarrow> nat \<Rightarrow> nat \<Rightarrow> db \<Rightarrow> db \<times> (http_error + string option)" where
  "cancel_scan now scan_id org_id db =
    (case get_scan db scan_id org_id of
       Inl e \<Rightarrow> (db, Inl e)
     | Inr s \<Rightarrow>
         (if is_terminal (sn_status s) then (db, Inl (Http_error 409 (''Scan is already '' @ status_name (sn_status s))))
          else (update_scan scan_id (cancel_row now) db, Inr (sn_task s))))"

text \<open>Deleting a scan takes its log lines with it; a schedule that pointed at it points nowhere.\<close>

definition drop_scan :: "nat \<Rightarrow> db \<Rightarrow> db" where
  "drop_scan i db =
    db\<lparr>db_scans := delete_where (\<lambda>s. sn_id s = i) (db_scans db),
       db_logs := delete_where (\<lambda>l. lg_scan l = i) (db_logs db),
       db_schedules := update_where (\<lambda>s. sc_last_scan s = Some i) (\<lambda>s. s\<lparr>sc_last_scan := None\<rparr>) (db_schedules db)\<rparr>"

definition delete_scan :: "nat \<Rightarrow> nat \<Rightarrow> db \<Rightarrow> db \<times> (http_error + unit)" where
  "delete_scan scan_id org_id db =
    (case get_scan db scan_id org_id of
       Inl e \<Rightarrow> (db, Inl e)
     | Inr s \<Rightarrow>
         (if is_active_scan s then (db, Inl (Http_error 409 ''Cancel the scan before deleting it''))
          else (drop_scan scan_id db, Inr ())))"

section \<open>The workers\<close>

definition module_order :: "string list" where
  "module_order = [''subdomain_enum'', ''port_scanner'', ''fingerprinter'', ''cve_correlator'', ''change_detector'']"

definition task_name :: "string \<Rightarrow> string" where
  "task_name m = ''workers.'' @ m @ ''.run''"

fun json_strings :: "json list \<Rightarrow> string list" where
  "json_strings [] = []"
| "json_strings (JStr s # js) = s # json_strings js"
| "json_strings (_ # js) = json_strings js"

definition config_modules :: "json_object \<Rightarrow> string list" where
  "config_modules config = (case map_of config ''modules'' of Some (JList js) \<Rightarrow> json_strings js | _ \<Rightarrow> [])"

definition requested_modules :: "json_object \<Rightarrow> string list" where
  "requested_modules config =
    (let wanted = (if config_modules config = [] then module_order else config_modules config);
         requested = filter (\<lambda>m. m \<in> set wanted) module_order
     in if requested = [] then module_order else requested)"

text \<open>
  \<open>ScanContext.log\<close>: a line is stored only while its scan exists (the foreign key), and a
  failure to store it never stops the scan.
\<close>

definition ctx_log :: "nat \<Rightarrow> string option \<Rightarrow> int \<Rightarrow> string \<Rightarrow> db \<Rightarrow> db" where
  "ctx_log scan_id stage now message db =
    (if row_by sn_id scan_id (db_scans db) = None then db
     else db\<lparr>db_logs := db_logs db @ [\<lparr>lg_scan = scan_id, lg_time = now, lg_message = slice_to 8000 message, lg_stage = stage\<rparr>]\<rparr>)"

definition set_stage :: "nat \<Rightarrow> string \<Rightarrow> int \<Rightarrow> db \<Rightarrow> db" where
  "set_stage scan_id stage progress db =
    update_scan scan_id (\<lambda>s. s\<lparr>sn_stage := Some stage, sn_progress := progress\<rparr>) db"

definition bump_counters :: "nat \<Rightarrow> int \<Rightarrow> int \<Rightarrow> db \<Rightarrow> db" where
  "bump_counters scan_id assets findings db =
    (if assets = 0 \<and> findings = 0 then db
     else update_scan scan_id (\<lambda>s. s\<lparr>sn_assets := sn_assets s + assets, sn_findings := sn_findings s + findings\<rparr>) db)"

definition is_cancelled :: "nat \<Rightarrow> db \<Rightarrow> bool" where
  "is_cancelled scan_id db = (map_option sn_status (row_by sn_id scan_id (db_scans db)) = Some CANCELLED)"

definition allowed_domains :: "nat \<Rightarrow> db \<Rightarrow> string list" where
  "allowed_domains org_id db = org_domains db org_id"

datatype pipeline_result = Scan_missing | Scan_was_cancelled | Dispatched "string list"

definition start_row :: "int \<Rightarrow> scan_row \<Rightarrow> scan_row" where
  "start_row now s =
    s\<lparr>sn_status := RUNNING, sn_started := Some now, sn_stage := Some ''orchestrator'', sn_progress := 5\<rparr>"

definition run_pipeline :: "int \<Rightarrow> nat \<Rightarrow> string \<Rightarrow> json_object \<Rightarrow> db \<Rightarrow> db \<times> pipeline_result" where
  "run_pipeline now scan_id target config db =
    (case row_by sn_id scan_id (db_scans db) of
       None \<Rightarrow> (db, Scan_missing)
     | Some s \<Rightarrow>
         (if sn_status s = CANCELLED then (db, Scan_was_cancelled)
          else let db1 = update_scan scan_id (start_row now) db;
                   db2 = ctx_log scan_id (Some ''orchestrator'') now (''Scan started for '' @ target) db1;
                   requested = requested_modules config;
                   db3 = ctx_log scan_id (Some ''orchestrator'') now (''Pipeline: '' @ join '' -> '' requested) db2
               in (db3, Dispatched (map task_name requested))))"

text \<open>The format \<open>.0f\<close> of a number of microseconds as seconds: round half to even.\<close>

definition round_seconds :: "int \<Rightarrow> int" where
  "round_seconds us =
    (let q = us div 1000000; r = us mod 1000000 in
     if 2 * r < 1000000 \<or> (2 * r = 1000000 \<and> even q) then q else q + 1)"

definition complete_row :: "int \<Rightarrow> scan_row \<Rightarrow> scan_row" where
  "complete_row now s =
    (if sn_status s \<noteq> CANCELLED
     then s\<lparr>sn_status := COMPLETED, sn_progress := 100, sn_stage := None, sn_completed := Some now\<rparr>
     else s\<lparr>sn_completed := Some now\<rparr>)"

definition finalise_scan :: "int \<Rightarrow> nat \<Rightarrow> db \<Rightarrow> db \<times> scan_status option" where
  "finalise_scan now scan_id db =
    (case row_by sn_id scan_id (db_scans db) of
       None \<Rightarrow> (db, None)
     | Some s \<Rightarrow>
         (let s' = complete_row now s;
              summary = ''Scan '' @ status_name (sn_status s') @ '': '' @ dec (sn_assets s') @ '' new asset(s), ''
                @ dec (sn_findings s') @ '' finding(s)''
                @ (case sn_started s' of None \<Rightarrow> [] | Some t \<Rightarrow> '' in '' @ dec (round_seconds (now - t)) @ ''s'')
          in (ctx_log scan_id (Some ''orchestrator'') now summary (update_scan scan_id (complete_row now) db),
              Some (sn_status s'))))"

definition fail_row :: "int \<Rightarrow> string \<Rightarrow> scan_row \<Rightarrow> scan_row" where
  "fail_row now message s =
    (if sn_status s \<noteq> CANCELLED
     then s\<lparr>sn_status := FAILED, sn_error := Some message, sn_stage := None, sn_completed := Some now\<rparr>
     else s\<lparr>sn_completed := Some now\<rparr>)"

definition fail_scan :: "int \<Rightarrow> nat \<Rightarrow> string option \<Rightarrow> db \<Rightarrow> db \<times> scan_status option" where
  "fail_scan now scan_id exc db =
    (let message = (case exc of None \<Rightarrow> ''Unknown error'' | Some e \<Rightarrow> slice_to 4000 e) in
     case row_by sn_id scan_id (db_scans db) of
       None \<Rightarrow> (db, None)
     | Some s \<Rightarrow>
         (ctx_log scan_id (Some ''orchestrator'') now (''Scan failed: '' @ message) (update_scan scan_id (fail_row now message) db),
          Some (sn_status (fail_row now message s))))"

section \<open>Facts about one operation\<close>

text \<open>Rows are found by their key, and keys are below the counter.\<close>

definition scans_ok :: "db \<Rightarrow> bool" where
  "scans_ok db = (keyed sn_id (db_scans db) \<and> list_all (\<lambda>s. sn_id s < db_next db) (db_scans db))"

lemma scans_okD:
  "scans_ok db \<Longrightarrow> keyed sn_id (db_scans db)"
  "scans_ok db \<Longrightarrow> s \<in> set (db_scans db) \<Longrightarrow> sn_id s < db_next db"
  by (auto simp: scans_ok_def list_all_iff)

lemma ctx_log_simps [simp]:
  "db_scans (ctx_log i st now m db) = db_scans db" "db_next (ctx_log i st now m db) = db_next db"
  "db_schedules (ctx_log i st now m db) = db_schedules db" "db_orgs (ctx_log i st now m db) = db_orgs db"
  by (simp_all add: ctx_log_def)

lemma scans_ok_insert: "scans_ok db \<Longrightarrow> scans_ok (insert_scan org u t c now db)"
  by (fastforce simp: scans_ok_def insert_scan_def new_scan_def list_all_iff)

text \<open>A scan that is cancelled or gone, for good: no later row can have its key.\<close>

definition finished :: "nat \<Rightarrow> db \<Rightarrow> bool" where
  "finished i db = (i < db_next db \<and> list_all (\<lambda>s. sn_id s = i \<longrightarrow> sn_status s = CANCELLED) (db_scans db))"

end
