(* ===== verification/Schedules.thy ===== *)
theory Schedules
  imports Scans DomainClaims "HOL-Library.Multiset"
begin

text \<open>
  Recurring scans: the payloads of \<open>schemas/schedule.py\<close>, the handlers of
  \<open>routes/schedules.py\<close>, the dispatcher and the retention sweep of
  \<open>workers/scheduler.py\<close>, and the histories in which they run together with the scan
  handlers and the workers. One dispatcher runs at a time; the row locks that keep a
  second one off the same rows are not modelled.
\<close>

section \<open>Payloads\<close>

record schedule_create =
  sx_name :: string
  sx_target :: string
  sx_config :: scan_config
  sx_cadence :: cadence
  sx_hour :: int
  sx_weekday :: "int option"

record schedule_update =
  up_name :: "string option"
  up_config :: "scan_config option"
  up_cadence :: "cadence option"
  up_hour :: "int option"
  up_weekday :: "int option"
  up_enabled :: "bool option"

definition clean_name :: "string \<Rightarrow> string option" where
  "clean_name v =
    (if length v < 1 \<or> 120 < length v then None else let name = strip v in if name = [] then None else Some name)"

definition hour_ok :: "int \<Rightarrow> bool" where
  "hour_ok h = (0 \<le> h \<and> h \<le> 23)"

definition weekday_ok :: "int option \<Rightarrow> bool" where
  "weekday_ok w = (case w of None \<Rightarrow> True | Some d \<Rightarrow> 0 \<le> d \<and> d \<le> 6)"

definition validate_create :: "schedule_create \<Rightarrow> schedule_create option" where
  "validate_create b =
    (case (clean_name (sx_name b), clean_target (sx_target b), validate_config (sx_config b)) of
       (Some name, Some target, Some config) \<Rightarrow>
         (if \<not> hour_ok (sx_hour b) \<or> \<not> weekday_ok (sx_weekday b) then None
          else if sx_cadence b = WEEKLY \<and> sx_weekday b = None then None
          else Some (b\<lparr>sx_name := name, sx_target := target, sx_config := config,
            sx_weekday := if sx_cadence b = WEEKLY then sx_weekday b else None\<rparr>))
     | _ \<Rightarrow> None)"

text \<open>A field that may be absent: its validator runs only when it is given.\<close>

definition optionally :: "('a \<Rightarrow> 'b option) \<Rightarrow> 'a option \<Rightarrow> 'b option option" where
  "optionally f x = (case x of None \<Rightarrow> Some None | Some v \<Rightarrow> map_option Some (f v))"

definition validate_update :: "schedule_update \<Rightarrow> schedule_update option" where
  "validate_update b =
    (case (optionally clean_name (up_name b), optionally validate_config (up_config b)) of
       (Some name, Some config) \<Rightarrow>
         (if (case up_hour b of None \<Rightarrow> True | Some h \<Rightarrow> hour_ok h) \<and> weekday_ok (up_weekday b)
          then Some (b\<lparr>up_name := name, up_config := config\<rparr>) else None)
     | _ \<Rightarrow> None)"

definition weekday_names :: "string list" where
  "weekday_names = [''Monday'', ''Tuesday'', ''Wednesday'', ''Thursday'', ''Friday'', ''Saturday'', ''Sunday'']"

definition two_digits :: "int \<Rightarrow> string" where
  "two_digits n = (if 0 \<le> n \<and> n < 10 then CHR ''0'' # dec n else dec n)"

definition describe :: "schedule_row \<Rightarrow> string" where
  "describe s =
    (case sc_cadence s of
       HOURLY \<Rightarrow> ''every hour''
     | DAILY \<Rightarrow> ''every day at '' @ two_digits (sc_hour s) @ '':00 UTC''
     | WEEKLY \<Rightarrow> (case sc_weekday s of
           None \<Rightarrow> ''weekly at '' @ two_digits (sc_hour s) @ '':00 UTC''
         | Some d \<Rightarrow> ''every '' @ weekday_names ! nat d @ '' at '' @ two_digits (sc_hour s) @ '':00 UTC''))"

section \<open>The handlers\<close>

definition find_schedule :: "db \<Rightarrow> nat \<Rightarrow> nat \<Rightarrow> schedule_row option" where
  "find_schedule db i org_id = find (\<lambda>s. sc_id s = i \<and> sc_org s = org_id) (db_schedules db)"

definition load_schedule :: "db \<Rightarrow> nat \<Rightarrow> nat \<Rightarrow> http_error + schedule_row" where
  "load_schedule db i org_id =
    (case find_schedule db i org_id of None \<Rightarrow> Inl (not_found ''Schedule'') | Some s \<Rightarrow> Inr s)"

definition authorise_target :: "settings \<Rightarrow> db \<Rightarrow> nat \<Rightarrow> string \<Rightarrow> http_error + string" where
  "authorise_target cfg db org_id target =
    (case load_org db org_id of
       Inl e \<Rightarrow> Inl e
     | Inr org \<Rightarrow>
         (case assert_in_scope target (all_domains org) (st_allow_arbitrary cfg) of
            Inl e \<Rightarrow> Inl (Http_error 403 (scope_message e))
          | Inr t \<Rightarrow> Inr t))"

abbreviation update_schedules :: "nat \<Rightarrow> (schedule_row \<Rightarrow> schedule_row) \<Rightarrow> db \<Rightarrow> db" where
  "update_schedules i f db \<equiv> db\<lparr>db_schedules := update_where (\<lambda>s. sc_id s = i) f (db_schedules db)\<rparr>"

definition list_schedules :: "db \<Rightarrow> nat \<Rightarrow> schedule_row list" where
  "list_schedules db org_id = sort_key sc_next_run (filter (\<lambda>s. sc_org s = org_id) (db_schedules db))"

definition new_schedule :: "nat \<Rightarrow> nat \<Rightarrow> nat \<Rightarrow> schedule_create \<Rightarrow> string \<Rightarrow> int \<Rightarrow> schedule_row" where
  "new_schedule i org_id user_id body target next =
    \<lparr>sc_id = i, sc_org = org_id, sc_created_by = Some user_id, sc_name = sx_name body, sc_target = target,
     sc_config = dump_config (sx_config body), sc_cadence = sx_cadence body, sc_hour = sx_hour body,
     sc_weekday = sx_weekday body, sc_enabled = True, sc_next_run = next, sc_last_run = None,
     sc_last_scan = None, sc_failures = 0, sc_disabled_reason = None\<rparr>"

definition create_schedule ::
    "settings \<Rightarrow> int \<Rightarrow> nat \<Rightarrow> nat \<Rightarrow> schedule_create \<Rightarrow> db \<Rightarrow> db \<times> (http_error + schedule_row)" where
  "create_schedule cfg now org_id user_id body db =
    (case authorise_target cfg db org_id (sx_target body) of
       Inl e \<Rightarrow> (db, Inl e)
     | Inr target \<Rightarrow>
         (case initial_next_run (sx_cadence body) (sx_hour body) (sx_weekday body) now of
            Inl _ \<Rightarrow> (db, Inl server_error)
          | Inr next \<Rightarrow>
              (let row = new_schedule (db_next db) org_id user_id body target next in
               (db\<lparr>db_schedules := db_schedules db @ [row], db_next := db_next db + 1\<rparr>, Inr row))))"

definition get_schedule :: "db \<Rightarrow> nat \<Rightarrow> nat \<Rightarrow> http_error + schedule_row" where
  "get_schedule db i org_id = load_schedule db i org_id"

text \<open>The edit in memory, before the checks that may refuse it.\<close>

definition edit_row :: "schedule_update \<Rightarrow> schedule_row \<Rightarrow> schedule_row" where
  "edit_row b s0 =
    (let s1 = (case up_name b of None \<Rightarrow> s0 | Some n \<Rightarrow> s0\<lparr>sc_name := n\<rparr>);
         s2 = (case up_config b of None \<Rightarrow> s1 | Some c \<Rightarrow> s1\<lparr>sc_config := dump_config c\<rparr>);
         s3 = (case up_cadence b of None \<Rightarrow> s2
               | Some c \<Rightarrow> if c \<noteq> WEEKLY then s2\<lparr>sc_cadence := c, sc_weekday := None\<rparr> else s2\<lparr>sc_cadence := c\<rparr>);
         s4 = (case up_hour b of None \<Rightarrow> s3 | Some h \<Rightarrow> s3\<lparr>sc_hour := h\<rparr>);
         s5 = (case up_weekday b of None \<Rightarrow> s4 | Some d \<Rightarrow> s4\<lparr>sc_weekday := Some d\<rparr>)
     in case up_enabled b of
          None \<Rightarrow> s5
        | Some on \<Rightarrow>
            (if on = sc_enabled s5 then s5
             else if on then s5\<lparr>sc_enabled := True, sc_failures := 0, sc_disabled_reason := None\<rparr>
             else s5\<lparr>sc_enabled := False\<rparr>))"

definition update_schedule ::
    "int \<Rightarrow> nat \<Rightarrow> nat \<Rightarrow> schedule_update \<Rightarrow> db \<Rightarrow> db \<times> (http_error + schedule_row)" where
  "update_schedule now i org_id body db =
    (case load_schedule db i org_id of
       Inl e \<Rightarrow> (db, Inl e)
     | Inr s0 \<Rightarrow>
         (let s = edit_row body s0 in
          if sc_cadence s = WEEKLY \<and> sc_weekday s = None
          then (db, Inl (Http_error 422 ''Choose a day of the week for a weekly schedule''))
          else case next_occurrence (sc_cadence s) (sc_hour s) (sc_weekday s) (Aware now 0) of
            Inl _ \<Rightarrow> (db, Inl server_error)
          | Inr next \<Rightarrow> (let row = s\<lparr>sc_next_run := next\<rparr> in (update_schedules i (\<lambda>_. row) db, Inr row))))"

text \<open>\<open>run_schedule_now\<close>: the row and its schedule are committed before the broker is called.\<close>

definition run_schedule_now ::
    "settings \<Rightarrow> int \<Rightarrow> broker \<Rightarrow> nat \<Rightarrow> nat \<Rightarrow> nat \<Rightarrow> db \<Rightarrow> db \<times> (http_error + nat)" where
  "run_schedule_now cfg now broker i org_id user_id db =
    (case load_schedule db i org_id of
       Inl e \<Rightarrow> (db, Inl e)
     | Inr s \<Rightarrow>
         (case authorise_target cfg db org_id (sc_target s) of
            Inl e \<Rightarrow> (db, Inl e)
          | Inr target \<Rightarrow>
              (if st_max_concurrent cfg \<le> active_count org_id (db_scans db)
               then (db, Inl (Http_error 429 (''You already have the maximum number of scans queued or running (limit ''
                       @ dec (int (st_max_concurrent cfg)) @ ''). Wait for one to finish.'')))
               else let k = db_next db;
                        db1 = update_schedules i (\<lambda>s. s\<lparr>sc_last_scan := Some k, sc_last_run := Some now\<rparr>)
                                (insert_scan org_id (Some user_id) target (sc_config s) now db)
                    in case broker of
                         Inl exc \<Rightarrow> (update_scan k (unqueue now exc) db1, Inl queue_unavailable)
                       | Inr task \<Rightarrow> (update_scan k (set_task task) db1, Inr k))))"

definition delete_schedule :: "nat \<Rightarrow> nat \<Rightarrow> db \<Rightarrow> db \<times> (http_error + unit)" where
  "delete_schedule i org_id db =
    (case load_schedule db i org_id of
       Inl e \<Rightarrow> (db, Inl e)
     | Inr _ \<Rightarrow> (db\<lparr>db_schedules := delete_where (\<lambda>s. sc_id s = i) (db_schedules db)\<rparr>, Inr ()))"

text \<open>The handlers behind their payloads; 422 is the validation error.\<close>

definition post_scan ::
    "settings \<Rightarrow> int \<Rightarrow> broker \<Rightarrow> nat \<Rightarrow> nat \<Rightarrow> string \<Rightarrow> scan_config \<Rightarrow> db \<Rightarrow> db \<times> (http_error + nat)" where
  "post_scan cfg now broker org_id user_id target config db =
    (case (clean_target target, validate_config config) of
       (Some t, Some c) \<Rightarrow> create_scan cfg now broker org_id user_id t (dump_config c) db
     | _ \<Rightarrow> (db, Inl unprocessable))"

definition post_schedule ::
    "settings \<Rightarrow> int \<Rightarrow> nat \<Rightarrow> nat \<Rightarrow> schedule_create \<Rightarrow> db \<Rightarrow> db \<times> (http_error + schedule_row)" where
  "post_schedule cfg now org_id user_id body db =
    (case validate_create body of
       None \<Rightarrow> (db, Inl unprocessable)
     | Some b \<Rightarrow> create_schedule cfg now org_id user_id b db)"

definition patch_schedule ::
    "int \<Rightarrow> nat \<Rightarrow> nat \<Rightarrow> schedule_update \<Rightarrow> db \<Rightarrow> db \<times> (http_error + schedule_row)" where
  "patch_schedule now i org_id body db =
    (case validate_update body of
       None \<Rightarrow> (db, Inl unprocessable)
     | Some b \<Rightarrow> update_schedule now i org_id b db)"

section \<open>The dispatcher\<close>

definition max_per_tick :: nat where
  "max_per_tick = 100"

definition is_due :: "int \<Rightarrow> schedule_row \<Rightarrow> bool" where
  "is_due moment s = (sc_enabled s \<and> sc_next_run s \<le> moment)"

definition due_schedules :: "int \<Rightarrow> db \<Rightarrow> schedule_row list" where
  "due_schedules moment db = take max_per_tick (sort_key sc_next_run (filter (is_due moment) (db_schedules db)))"

record tick_counters =
  tk_due :: nat
  tk_queued :: nat
  tk_skipped :: nat
  tk_disabled :: nat
  tk_failed :: nat

text \<open>A scan to publish: its schedule, its key, its organisation, target and configuration.\<close>

record pending_scan =
  pd_schedule :: nat
  pd_scan :: nat
  pd_org :: nat
  pd_target :: string
  pd_config :: json_object

record tick =
  ti_db :: db
  ti_counters :: tick_counters
  ti_active :: "nat \<Rightarrow> nat option"
  ti_pending :: "pending_scan list"

definition advance_row :: "int \<Rightarrow> int \<Rightarrow> schedule_row \<Rightarrow> schedule_row" where
  "advance_row next moment s = s\<lparr>sc_next_run := next, sc_last_run := Some moment\<rparr>"

text \<open>\<open>_disable\<close> of a schedule, and its place in the counters.\<close>

definition tick_disable :: "nat \<Rightarrow> string \<Rightarrow> tick \<Rightarrow> tick" where
  "tick_disable i reason t =
    t\<lparr>ti_db := update_schedules i (disable_schedule reason) (ti_db t),
      ti_counters := (ti_counters t)\<lparr>tk_disabled := tk_disabled (ti_counters t) + 1\<rparr>\<rparr>"

definition tick_skip :: "tick \<Rightarrow> tick" where
  "tick_skip t = t\<lparr>ti_counters := (ti_counters t)\<lparr>tk_skipped := tk_skipped (ti_counters t) + 1\<rparr>\<rparr>"

definition tick_active :: "nat \<Rightarrow> tick \<Rightarrow> nat" where
  "tick_active org t =
    (case ti_active t org of Some n \<Rightarrow> n | None \<Rightarrow> active_count org (db_scans (ti_db t)))"

definition tick_queue :: "schedule_row \<Rightarrow> string \<Rightarrow> int \<Rightarrow> tick \<Rightarrow> tick" where
  "tick_queue s target moment t =
    (let db = ti_db t; k = db_next db; org = sc_org s in
     t\<lparr>ti_db := update_schedules (sc_id s) (\<lambda>r. r\<lparr>sc_last_scan := Some k\<rparr>)
                 (insert_scan org None target (sc_config s) moment db),
       ti_active := (ti_active t)(org \<mapsto> tick_active org t + 1),
       ti_pending := ti_pending t @ [\<lparr>pd_schedule = sc_id s, pd_scan = k, pd_org = org, pd_target = target,
         pd_config = sc_config s\<rparr>]\<rparr>)"

text \<open>The body of the loop over the due schedules. A failing \<open>advance\<close> raises out of the tick.\<close>

definition fire :: "settings \<Rightarrow> int \<Rightarrow> schedule_row \<Rightarrow> tick \<Rightarrow> schedule_error + tick" where
  "fire cfg moment s t0 =
    (case next_occurrence (sc_cadence s) (sc_hour s) (sc_weekday s) (Aware moment 0) of
       Inl e \<Rightarrow> Inl e
     | Inr next \<Rightarrow>
         (let t = t0\<lparr>ti_db := update_schedules (sc_id s) (advance_row next moment) (ti_db t0)\<rparr> in
          case org_by_id (ti_db t) (sc_org s) of
            None \<Rightarrow> Inr (tick_disable (sc_id s) ''The organisation is no longer active.'' t)
          | Some org \<Rightarrow>
              (if \<not> og_active org then Inr (tick_disable (sc_id s) ''The organisation is no longer active.'' t)
               else case assert_in_scope (sc_target s) (all_domains org) (st_allow_arbitrary cfg) of
                 Inl e \<Rightarrow> Inr (tick_disable (sc_id s) (''Target is no longer authorised: '' @ scope_message e) t)
               | Inr target \<Rightarrow>
                   (let active = tick_active (sc_org s) t;
                        t' = t\<lparr>ti_active := (ti_active t)(sc_org s \<mapsto> active)\<rparr> in
                    if st_max_concurrent cfg \<le> active then Inr (tick_skip t')
                    else Inr (tick_queue s target moment t')))))"

fun fire_all :: "settings \<Rightarrow> int \<Rightarrow> schedule_row list \<Rightarrow> tick \<Rightarrow> schedule_error + tick" where
  "fire_all cfg moment [] t = Inr t"
| "fire_all cfg moment (s # ss) t =
    (case fire cfg moment s t of Inl e \<Rightarrow> Inl e | Inr t' \<Rightarrow> fire_all cfg moment ss t')"

definition new_tick :: "nat \<Rightarrow> db \<Rightarrow> tick" where
  "new_tick due db =
    \<lparr>ti_db = db, ti_counters = \<lparr>tk_due = due, tk_queued = 0, tk_skipped = 0, tk_disabled = 0, tk_failed = 0\<rparr>,
     ti_active = Map.empty, ti_pending = []\<rparr>"

text \<open>Phase one: one transaction. An exception rolls it back.\<close>

definition plan_tick :: "settings \<Rightarrow> int \<Rightarrow> db \<Rightarrow> schedule_error + tick" where
  "plan_tick cfg moment db =
    (let due = due_schedules moment db in fire_all cfg moment due (new_tick (length due) db))"

text \<open>Phase two: one transaction per publish.\<close>

definition reset_failures :: "schedule_row \<Rightarrow> schedule_row" where
  "reset_failures s = (if sc_failures s \<noteq> 0 then s\<lparr>sc_failures := 0\<rparr> else s)"

definition record_publish_success :: "nat \<Rightarrow> nat \<Rightarrow> string \<Rightarrow> db \<Rightarrow> db" where
  "record_publish_success schedule_id scan_id task db =
    update_schedules schedule_id reset_failures (update_scan scan_id (set_task task) db)"

definition count_failure :: "settings \<Rightarrow> schedule_row \<Rightarrow> schedule_row" where
  "count_failure cfg s0 =
    (let s = s0\<lparr>sc_failures := sc_failures s0 + 1\<rparr> in
     if st_schedule_max_failures cfg \<le> sc_failures s
     then disable_schedule (''Disabled after '' @ dec (sc_failures s) @ '' consecutive failures to ''
            @ ''queue a scan. The scan queue may be unavailable.'') s
     else s)"

definition record_publish_failure :: "settings \<Rightarrow> int \<Rightarrow> nat \<Rightarrow> nat \<Rightarrow> string \<Rightarrow> db \<Rightarrow> db" where
  "record_publish_failure cfg now schedule_id scan_id exc db =
    update_schedules schedule_id (count_failure cfg) (update_scan scan_id (unqueue now exc) db)"

text \<open>The broker's answer to each publish, by the key of the scan.\<close>

fun publish :: "settings \<Rightarrow> int \<Rightarrow> (nat \<Rightarrow> broker) \<Rightarrow> pending_scan list \<Rightarrow> db \<times> tick_counters \<Rightarrow> db \<times> tick_counters" where
  "publish cfg now broker [] st = st"
| "publish cfg now broker (p # ps) (db, n) =
    (case broker (pd_scan p) of
       Inl exc \<Rightarrow> publish cfg now broker ps
         (record_publish_failure cfg now (pd_schedule p) (pd_scan p) exc db, n\<lparr>tk_failed := tk_failed n + 1\<rparr>)
     | Inr task \<Rightarrow> publish cfg now broker ps
         (record_publish_success (pd_schedule p) (pd_scan p) task db, n\<lparr>tk_queued := tk_queued n + 1\<rparr>))"

definition dispatch_due_scans ::
    "settings \<Rightarrow> int \<Rightarrow> int \<Rightarrow> (nat \<Rightarrow> broker) \<Rightarrow> db \<Rightarrow> db \<times> (schedule_error + tick_counters)" where
  "dispatch_due_scans cfg moment later broker db =
    (case plan_tick cfg moment db of
       Inl e \<Rightarrow> (db, Inl e)
     | Inr t \<Rightarrow>
         (case publish cfg later broker (ti_pending t) (ti_db t, ti_counters t) of (db', n) \<Rightarrow> (db', Inr n)))"

section \<open>Retention\<close>

definition unlink_report_file :: "(string \<Rightarrow> bool) \<Rightarrow> string option \<Rightarrow> bool" where
  "unlink_report_file unlink path = (case path of None \<Rightarrow> True | Some p \<Rightarrow> p = [] \<or> unlink p)"

record prune_counters =
  pr_logs :: nat
  pr_scans :: nat
  pr_reports :: nat
  pr_files :: nat

definition active_ids :: "db \<Rightarrow> nat list" where
  "active_ids db = map sn_id (filter is_active_scan (db_scans db))"

definition prune_logs :: "settings \<Rightarrow> int \<Rightarrow> db \<times> prune_counters \<Rightarrow> db \<times> prune_counters" where
  "prune_logs cfg now st =
    (case st of (db, n) \<Rightarrow>
     if st_log_days cfg \<le> 0 then st
     else let cutoff = now - st_log_days cfg * us_day;
              old = (\<lambda>l. lg_time l < cutoff \<and> lg_scan l \<notin> set (active_ids db))
          in (db\<lparr>db_logs := delete_where old (db_logs db)\<rparr>, n\<lparr>pr_logs := count_where old (db_logs db)\<rparr>))"

definition prune_scans :: "settings \<Rightarrow> int \<Rightarrow> db \<times> prune_counters \<Rightarrow> db \<times> prune_counters" where
  "prune_scans cfg now st =
    (case st of (db, n) \<Rightarrow>
     if st_scan_days cfg \<le> 0 then st
     else let cutoff = now - st_scan_days cfg * us_day;
              old = filter (\<lambda>s. sn_created s < cutoff \<and> \<not> is_active_scan s) (db_scans db)
          in (foldl (\<lambda>db i. drop_scan i db) db (map sn_id old), n\<lparr>pr_scans := length old\<rparr>))"

definition prune_reports :: "settings \<Rightarrow> int \<Rightarrow> (string \<Rightarrow> bool) \<Rightarrow> db \<times> prune_counters \<Rightarrow> db \<times> prune_counters" where
  "prune_reports cfg now unlink st =
    (case st of (db, n) \<Rightarrow>
     if st_report_days cfg \<le> 0 then st
     else let cutoff = now - st_report_days cfg * us_day;
              gone = (\<lambda>r. rp_created r < cutoff \<and> unlink_report_file unlink (rp_file r))
          in (db\<lparr>db_reports := delete_where gone (db_reports db)\<rparr>,
              n\<lparr>pr_reports := count_where gone (db_reports db), pr_files := count_where gone (db_reports db)\<rparr>))"

definition prune_old_data :: "settings \<Rightarrow> int \<Rightarrow> (string \<Rightarrow> bool) \<Rightarrow> db \<Rightarrow> db \<times> prune_counters" where
  "prune_old_data cfg now unlink db =
    prune_reports cfg now unlink (prune_scans cfg now (prune_logs cfg now
      (db, \<lparr>pr_logs = 0, pr_scans = 0, pr_reports = 0, pr_files = 0\<rparr>)))"

section \<open>Rows the database can hold\<close>

text \<open>The check constraints of \<open>scan_schedules\<close>, and keys below the counter.\<close>

definition schedule_ok :: "schedule_row \<Rightarrow> bool" where
  "schedule_ok s = runnable (sc_cadence s) (sc_hour s) (sc_weekday s)"

definition schedules_ok :: "db \<Rightarrow> bool" where
  "schedules_ok db =
    (keyed sc_id (db_schedules db) \<and> list_all (\<lambda>s. sc_id s < db_next db \<and> schedule_ok s) (db_schedules db))"

lemma schedules_okD:
  assumes "schedules_ok db"
  shows "keyed sc_id (db_schedules db)"
    and "s \<in> set (db_schedules db) \<Longrightarrow> sc_id s < db_next db"
    and "s \<in> set (db_schedules db) \<Longrightarrow> schedule_ok s"
  using assms by (auto simp: schedules_ok_def list_all_iff)

lemma schedules_ok_update:
  assumes "schedules_ok db"
    and "\<And>s. s \<in> set (db_schedules db) \<Longrightarrow> p s \<Longrightarrow> sc_id (f s) = sc_id s \<and> schedule_ok (f s)"
    and "db_schedules db' = update_where p f (db_schedules db)" and "db_next db \<le> db_next db'"
  shows "schedules_ok db'"
proof -
  have "map sc_id (update_where p f (db_schedules db)) = map sc_id (db_schedules db)"
    using assms(2) by (intro map_update_where_on) simp
  moreover have "sc_id s < db_next db' \<and> schedule_ok s" if "s \<in> set (update_where p f (db_schedules db))" for s
    using that assms(2) schedules_okD(2,3) [OF assms(1)] assms(4) by (fastforce simp: in_update_where_iff)
  ultimately show ?thesis using schedules_okD(1) [OF assms(1)] assms(3) by (simp add: schedules_ok_def list_all_iff)
qed

lemma schedules_ok_same:
  assumes "schedules_ok db" and "db_schedules db' = db_schedules db" and "db_next db \<le> db_next db'"
  shows "schedules_ok db'"
  by (rule schedules_ok_update [where p = "\<lambda>_. False" and f = "\<lambda>s. s", OF assms(1)])
    (use assms in \<open>simp_all add: update_where_def\<close>)

text \<open>An edit that touches neither the timing nor the key.\<close>

definition timeless :: "(schedule_row \<Rightarrow> schedule_row) \<Rightarrow> bool" where
  "timeless f = (\<forall>s. sc_id (f s) = sc_id s \<and> sc_cadence (f s) = sc_cadence s \<and> sc_hour (f s) = sc_hour s
     \<and> sc_weekday (f s) = sc_weekday s)"

lemma schedules_ok_timeless:
  assumes "schedules_ok db" and "timeless f"
    and "db_schedules db' = update_where p f (db_schedules db)" and "db_next db \<le> db_next db'"
  shows "schedules_ok db'"
  by (rule schedules_ok_update [OF assms(1) _ assms(3,4)])
    (use assms(2) schedules_okD(3) [OF assms(1)] in \<open>simp add: timeless_def schedule_ok_def\<close>)

lemma timeless_ops:
  "timeless (disable_schedule r)" "timeless reset_failures" "timeless (count_failure cfg)"
  "timeless (advance_row n m)" "timeless (\<lambda>s. s\<lparr>sc_last_scan := k\<rparr>)"
  "timeless (\<lambda>s. s\<lparr>sc_last_scan := k, sc_last_run := l\<rparr>)"
  by (simp_all add: timeless_def disable_schedule_def reset_failures_def count_failure_def advance_row_def Let_def)

lemma runnable_iff:
  "runnable c h w \<longleftrightarrow> hour_ok h \<and> weekday_ok w \<and> (c = WEEKLY \<longrightarrow> w \<noteq> None)"
  by (auto simp: runnable_def hour_ok_def weekday_ok_def split: option.splits)

lemma next_occurrence_ok:
  assumes "runnable c h w"
  obtains n where "next_occurrence c h w (Aware now 0) = Inr n" and "now < n" and "n \<le> now + period c"
  using next_utc_slot [OF assms, of now] by (auto simp: next_occurrence_def)

lemma validate_create_runnable:
  "validate_create b = Some b' \<Longrightarrow> runnable (sx_cadence b') (sx_hour b') (sx_weekday b')"
  by (auto simp: validate_create_def runnable_iff weekday_ok_def split: option.splits if_splits)

lemma optionally_Some: "optionally f x = Some y \<Longrightarrow> (x = None \<longleftrightarrow> y = None)"
  by (auto simp: optionally_def split: option.splits)

lemma edit_row_ok:
  assumes "validate_update b0 = Some b" and "schedule_ok s"
    and "\<not> (sc_cadence (edit_row b s) = WEEKLY \<and> sc_weekday (edit_row b s) = None)"
  shows "sc_id (edit_row b s) = sc_id s \<and> schedule_ok (edit_row b s)"
proof -
  have b: "case up_hour b of None \<Rightarrow> True | Some h \<Rightarrow> hour_ok h" "weekday_ok (up_weekday b)"
    using assms(1) by (auto simp: validate_update_def split: option.splits if_splits)
  have i: "sc_id (edit_row b s) = sc_id s" by (simp add: edit_row_def Let_def split: option.splits)
  have h: "sc_hour (edit_row b s) = (case up_hour b of None \<Rightarrow> sc_hour s | Some h \<Rightarrow> h)"
    by (simp add: edit_row_def Let_def split: option.splits)
  have w: "sc_weekday (edit_row b s) = (case up_weekday b of Some d \<Rightarrow> Some d
      | None \<Rightarrow> (case up_cadence b of Some c \<Rightarrow> if c \<noteq> WEEKLY then None else sc_weekday s | None \<Rightarrow> sc_weekday s))"
    by (simp add: edit_row_def Let_def split: option.splits)
  have "hour_ok (sc_hour (edit_row b s))" using b(1) assms(2) by (auto simp: h schedule_ok_def runnable_iff split: option.splits)
  moreover have "weekday_ok (sc_weekday (edit_row b s))"
    using b(2) assms(2) by (auto simp: w schedule_ok_def runnable_iff weekday_ok_def split: option.splits)
  ultimately show ?thesis using i assms(3) by (auto simp: schedule_ok_def runnable_iff)
qed

end
