(* ===== verification/Dispatch.thy ===== *)
theory Dispatch
  imports Schedules
begin

text \<open>
  Facts about one tick of the dispatcher: what firing one schedule can do, the invariant
  of the loop, the concurrency cap, and the properties of a whole tick.
\<close>

section \<open>The concurrency cap\<close>

definition cap_ok :: "settings \<Rightarrow> db \<Rightarrow> bool" where
  "cap_ok cfg db = list_all (\<lambda>s. active_count (sn_org s) (db_scans db) \<le> st_max_concurrent cfg) (db_scans db)"

lemma cap_ok_iff: "cap_ok cfg db \<longleftrightarrow> (\<forall>org. active_count org (db_scans db) \<le> st_max_concurrent cfg)"
proof -
  have "active_count org (db_scans db) = 0" if "org \<notin> sn_org ` set (db_scans db)" for org
    using that by (auto simp: active_count_def count_where_def filter_empty_conv)
  then show ?thesis by (auto simp: cap_ok_def list_all_iff) (metis (no_types) imageE zero_le)
qed

lemma active_update_le:
  "(\<And>s. s \<in> set (db_scans db) \<Longrightarrow> sn_id s = i \<Longrightarrow> sn_org (f s) = sn_org s \<and> (is_active_scan (f s) \<longrightarrow> is_active_scan s)) \<Longrightarrow>
    active_count org (db_scans (update_scan i f db)) \<le> active_count org (db_scans db)"
  unfolding active_count_def by (simp, rule count_where_update_le) auto

lemma active_update_eq:
  "(\<And>s. sn_org (f s) = sn_org s \<and> sn_status (f s) = sn_status s) \<Longrightarrow>
    active_count org (db_scans (update_scan i f db)) = active_count org (db_scans db)"
  unfolding active_count_def by (simp, rule count_where_update_eq) (auto simp: is_active_scan_def)

lemma active_insert:
  "active_count org (db_scans (insert_scan o' u t c now db)) = active_count org (db_scans db) + (if org = o' then 1 else 0)"
  by (simp add: insert_scan_def active_count_Cons new_scan_def is_active_scan_def)

lemma cap_ok_le:
  "cap_ok cfg db \<Longrightarrow> (\<And>org. active_count org (db_scans db') \<le> active_count org (db_scans db)) \<Longrightarrow> cap_ok cfg db'"
  unfolding cap_ok_iff by (meson order_trans)

lemma cap_ok_insert:
  "cap_ok cfg db \<Longrightarrow> active_count o' (db_scans db) < st_max_concurrent cfg \<Longrightarrow> cap_ok cfg (insert_scan o' u t c now db)"
  unfolding cap_ok_iff active_insert by (simp add: Suc_leI)

section \<open>Firing one schedule\<close>

definition advanced :: "int \<Rightarrow> int \<Rightarrow> schedule_row \<Rightarrow> tick \<Rightarrow> tick" where
  "advanced nx moment s t = t\<lparr>ti_db := update_schedules (sc_id s) (advance_row nx moment) (ti_db t)\<rparr>"

lemma fire_cases:
  assumes "schedule_ok s"
  obtains (disabled) nx reason where "moment < nx"
      and "next_occurrence (sc_cadence s) (sc_hour s) (sc_weekday s) (Aware moment 0) = Inr nx"
      and "fire cfg moment s t = Inr (tick_disable (sc_id s) reason (advanced nx moment s t))"
  | (skipped) nx where "moment < nx"
      and "next_occurrence (sc_cadence s) (sc_hour s) (sc_weekday s) (Aware moment 0) = Inr nx"
      and "fire cfg moment s t = Inr (tick_skip ((advanced nx moment s t)
        \<lparr>ti_active := (ti_active t)(sc_org s \<mapsto> tick_active (sc_org s) t)\<rparr>))"
      and "st_max_concurrent cfg \<le> tick_active (sc_org s) t"
  | (queued) nx target org where "moment < nx"
      and "next_occurrence (sc_cadence s) (sc_hour s) (sc_weekday s) (Aware moment 0) = Inr nx"
      and "fire cfg moment s t = Inr (tick_queue s target moment ((advanced nx moment s t)
        \<lparr>ti_active := (ti_active t)(sc_org s \<mapsto> tick_active (sc_org s) t)\<rparr>))"
      and "tick_active (sc_org s) t < st_max_concurrent cfg"
      and "org_by_id (ti_db t) (sc_org s) = Some org" and "og_active org"
      and "assert_in_scope (sc_target s) (all_domains org) (st_allow_arbitrary cfg) = Inr target"
proof -
  obtain n where n: "next_occurrence (sc_cadence s) (sc_hour s) (sc_weekday s) (Aware moment 0) = Inr n" "moment < n"
    using assms unfolding schedule_ok_def by (rule next_occurrence_ok)
  let ?t = "advanced n moment s t"
  have o': "org_by_id (ti_db ?t) i = org_by_id (ti_db t) i" for i by (simp add: advanced_def org_by_id_def)
  have a: "tick_active (sc_org s) ?t = tick_active (sc_org s) t" "ti_active ?t = ti_active t"
    by (simp_all add: advanced_def tick_active_def split: option.splits)
  note f = fire_def n advanced_def [symmetric] Let_def o' a
  show thesis
  proof (cases "org_by_id (ti_db t) (sc_org s)")
    case None
    then show thesis using disabled [OF n(2,1)] by (simp add: f)
  next
    case (Some org)
    show thesis
    proof (cases "og_active org")
      case False
      with Some show thesis using disabled [OF n(2,1)] by (simp add: f)
    next
      case True
      show thesis
      proof (cases "assert_in_scope (sc_target s) (all_domains org) (st_allow_arbitrary cfg)")
        case (Inl e)
        with Some True show thesis using disabled [OF n(2,1)] by (simp add: f)
      next
        case (Inr target)
        with Some True show thesis
          using skipped [OF n(2,1)] queued [OF n(2,1)]
          by (cases "st_max_concurrent cfg \<le> tick_active (sc_org s) t") (simp_all add: f)
      qed
    qed
  qed
qed

text \<open>The parts of the database a firing leaves alone, and those it only extends.\<close>

lemma tick_simps [simp]:
  "ti_db (tick_skip t) = ti_db t" "ti_pending (tick_skip t) = ti_pending t" "ti_active (tick_skip t) = ti_active t"
  "ti_pending (tick_disable i r t) = ti_pending t" "ti_active (tick_disable i r t) = ti_active t"
  "db_scans (ti_db (tick_disable i r t)) = db_scans (ti_db t)" "db_next (ti_db (tick_disable i r t)) = db_next (ti_db t)"
  "db_scans (ti_db (advanced n m s t)) = db_scans (ti_db t)" "db_next (ti_db (advanced n m s t)) = db_next (ti_db t)"
  "ti_pending (advanced n m s t) = ti_pending t" "ti_active (advanced n m s t) = ti_active t"
  "db_orgs (ti_db (advanced n m s t)) = db_orgs (ti_db t)" "db_orgs (ti_db (tick_disable i r t)) = db_orgs (ti_db t)"
  "db_claims (ti_db (advanced n m s t)) = db_claims (ti_db t)" "db_claims (ti_db (tick_disable i r t)) = db_claims (ti_db t)"
  by (simp_all add: tick_skip_def tick_disable_def advanced_def)

lemma insert_scan_simps [simp]:
  "db_orgs (insert_scan org u t c now db) = db_orgs db" "db_claims (insert_scan org u t c now db) = db_claims db"
  "db_schedules (insert_scan org u t c now db) = db_schedules db" "db_next (insert_scan org u t c now db) = db_next db + 1"
  "db_users (insert_scan org u t c now db) = db_users db" "db_sessions (insert_scan org u t c now db) = db_sessions db"
  "db_logs (insert_scan org u t c now db) = db_logs db" "db_reports (insert_scan org u t c now db) = db_reports db"
  "db_scans (insert_scan org u t c now db) = db_scans db @ [new_scan (db_next db) org u t c now]"
  by (simp_all add: insert_scan_def)

lemma tick_queue_simps [simp]:
  "db_scans (ti_db (tick_queue s target m t))
    = db_scans (ti_db t) @ [new_scan (db_next (ti_db t)) (sc_org s) None target (sc_config s) m]"
  "db_next (ti_db (tick_queue s target m t)) = db_next (ti_db t) + 1"
  "db_orgs (ti_db (tick_queue s target m t)) = db_orgs (ti_db t)"
  "db_claims (ti_db (tick_queue s target m t)) = db_claims (ti_db t)"
  "ti_pending (tick_queue s target m t) = ti_pending t @ [\<lparr>pd_schedule = sc_id s, pd_scan = db_next (ti_db t),
    pd_org = sc_org s, pd_target = target, pd_config = sc_config s\<rparr>]"
  "ti_active (tick_queue s target m t) = (ti_active t)(sc_org s \<mapsto> tick_active (sc_org s) t + 1)"
  by (simp_all add: tick_queue_def Let_def)

text \<open>
  The invariant of the loop: the cached counts are the counts of the table, rows are keyed,
  the schedule table stays one the database can hold, and every organisation is within the
  cap if it was so before the tick.
\<close>

definition tick_ok :: "settings \<Rightarrow> bool \<Rightarrow> tick \<Rightarrow> bool" where
  "tick_ok cfg capped t = ((\<forall>org n. ti_active t org = Some n \<longrightarrow> n = active_count org (db_scans (ti_db t))) \<and>
    (capped \<longrightarrow> cap_ok cfg (ti_db t)) \<and> scans_ok (ti_db t) \<and> schedules_ok (ti_db t))"

lemma tick_active_ok: "tick_ok cfg c t \<Longrightarrow> tick_active org t = active_count org (db_scans (ti_db t))"
  by (simp add: tick_ok_def tick_active_def split: option.splits)

lemma schedules_ok_advanced: "schedules_ok (ti_db t) \<Longrightarrow> schedules_ok (ti_db (advanced n m s t))"
  by (rule schedules_ok_timeless [where db = "ti_db t", OF _ timeless_ops(4)]) (simp_all add: advanced_def)

lemma schedules_ok_disable: "schedules_ok (ti_db t) \<Longrightarrow> schedules_ok (ti_db (tick_disable i r t))"
  by (rule schedules_ok_timeless [where db = "ti_db t", OF _ timeless_ops(1)]) (simp_all add: tick_disable_def)

lemma schedules_ok_queue: "schedules_ok (ti_db t) \<Longrightarrow> schedules_ok (ti_db (tick_queue s target m t))"
  by (rule schedules_ok_timeless [where db = "ti_db t", OF _ timeless_ops(5)]) (simp_all add: tick_queue_def Let_def)

lemma fire_ok:
  assumes "schedule_ok s" and ok: "tick_ok cfg c t"
  obtains t' where "fire cfg moment s t = Inr t'" and "tick_ok cfg c t'"
proof -
  let ?set = "\<lambda>t'. t'\<lparr>ti_active := (ti_active t)(sc_org s \<mapsto> tick_active (sc_org s) t)\<rparr>"
  have adv: "tick_ok cfg c (advanced n moment s t)" for n
    using ok schedules_ok_advanced [of t n moment s]
    by (simp add: tick_ok_def cap_ok_def scans_ok_def)
  have set: "tick_ok cfg c (?set (advanced n moment s t))" for n
    using adv [of n] tick_active_ok [OF ok] by (simp add: tick_ok_def)
  show thesis
    using assms(1)
  proof (cases rule: fire_cases [where cfg = cfg and moment = moment and t = t])
    case (disabled nx reason)
    have "tick_ok cfg c (tick_disable (sc_id s) reason (advanced nx moment s t))"
      using adv [of nx] schedules_ok_disable [of "advanced nx moment s t"]
      by (simp add: tick_ok_def cap_ok_def scans_ok_def)
    then show thesis using disabled that by blast
  next
    case (skipped nx)
    have "tick_ok cfg c (tick_skip (?set (advanced nx moment s t)))" using set [of nx] by (simp add: tick_ok_def)
    then show thesis using skipped that by blast
  next
    case (queued nx target org)
    let ?t = "?set (advanced nx moment s t)"
    have a: "tick_active (sc_org s) ?t = active_count (sc_org s) (db_scans (ti_db t))"
      using tick_active_ok [OF ok] by (simp add: tick_active_def)
    have "c \<longrightarrow> cap_ok cfg (insert_scan (sc_org s) None target (sc_config s) moment (ti_db t))"
      using queued(4) ok tick_active_ok [OF ok] by (intro impI cap_ok_insert) (simp_all add: tick_ok_def)
    then have "c \<longrightarrow> cap_ok cfg (ti_db (tick_queue s target moment ?t))" by (simp add: cap_ok_def)
    moreover have "scans_ok (ti_db (tick_queue s target moment ?t))"
      using scans_ok_insert [of "ti_db t"] ok by (simp add: tick_ok_def scans_ok_def)
    moreover have "schedules_ok (ti_db (tick_queue s target moment ?t))"
      using schedules_ok_queue set [of nx] by (simp add: tick_ok_def)
    moreover have "n = active_count org (db_scans (ti_db (tick_queue s target moment ?t)))"
      if "ti_active (tick_queue s target moment ?t) org = Some n" for org n
      using that ok a by (auto simp: tick_ok_def active_count_Cons new_scan_def is_active_scan_def split: if_splits)
    ultimately show thesis using queued that by (simp add: tick_ok_def)
  qed
qed

lemma fire_all_ok:
  assumes "list_all schedule_ok ss" and "tick_ok cfg c t"
  obtains t' where "fire_all cfg moment ss t = Inr t'" and "tick_ok cfg c t'"
proof -
  have "\<exists>t'. fire_all cfg moment ss t = Inr t' \<and> tick_ok cfg c t'"
    using assms
  proof (induction ss arbitrary: t)
    case (Cons s ss)
    obtain t1 where "fire cfg moment s t = Inr t1" "tick_ok cfg c t1"
      using fire_ok [of s cfg c t moment] Cons.prems by auto
    then show ?case using Cons.IH [of t1] Cons.prems by simp
  qed simp
  then show thesis using that by blast
qed

lemma set_due: "s \<in> set (due_schedules moment db) \<Longrightarrow> s \<in> set (db_schedules db) \<and> is_due moment s"
  by (auto simp: due_schedules_def dest!: in_set_takeD)

lemma due_keyed: "schedules_ok db \<Longrightarrow> distinct (map sc_id (due_schedules moment db))"
proof -
  assume "schedules_ok db"
  then have "distinct (map sc_id (filter (is_due moment) (db_schedules db)))"
    by (simp add: schedules_okD distinct_map_filter)
  moreover have "mset (map sc_id (sort_key sc_next_run xs)) = mset (map sc_id xs)" for xs by simp
  ultimately have "distinct (map sc_id (sort_key sc_next_run (filter (is_due moment) (db_schedules db))))"
    by (metis mset_eq_imp_distinct_iff)
  then show ?thesis by (simp add: due_schedules_def take_map [symmetric] distinct_take)
qed

lemma plan_ok:
  assumes "c \<longrightarrow> cap_ok cfg db" and "scans_ok db" and "schedules_ok db"
  obtains t where "plan_tick cfg moment db = Inr t" and "tick_ok cfg c t"
proof -
  have "list_all schedule_ok (due_schedules moment db)"
    using schedules_okD(3) [OF assms(3)] set_due by (fastforce simp: list_all_iff)
  moreover have "tick_ok cfg c (new_tick (length (due_schedules moment db)) db)"
    using assms by (simp add: tick_ok_def new_tick_def)
  ultimately show thesis using that unfolding plan_tick_def Let_def by (rule fire_all_ok)
qed

section \<open>What a tick does\<close>

text \<open>A pending scan comes from a due schedule of an active organisation that may scan its target.\<close>

definition pending_from :: "settings \<Rightarrow> db \<Rightarrow> schedule_row list \<Rightarrow> pending_scan \<Rightarrow> bool" where
  "pending_from cfg db ss p =
    list_ex (\<lambda>s. pd_schedule p = sc_id s \<and> pd_org p = sc_org s \<and> pd_config p = sc_config s \<and>
      (case org_by_id db (sc_org s) of
         None \<Rightarrow> False
       | Some org \<Rightarrow> og_active org \<and>
           assert_in_scope (sc_target s) (all_domains org) (st_allow_arbitrary cfg) = Inr (pd_target p))) ss"

lemma pending_from_mono: "pending_from cfg db ss p \<Longrightarrow> set ss \<subseteq> set ss' \<Longrightarrow> db_orgs db' = db_orgs db \<Longrightarrow> pending_from cfg db' ss' p"
  by (auto simp: pending_from_def list_ex_iff org_by_id_def)

definition queued_row :: "int \<Rightarrow> pending_scan \<Rightarrow> scan_row" where
  "queued_row moment p = new_scan (pd_scan p) (pd_org p) None (pd_target p) (pd_config p) moment"

text \<open>The effect of firing a list of schedules on everything but the schedule table.\<close>

definition tick_effect :: "settings \<Rightarrow> int \<Rightarrow> schedule_row list \<Rightarrow> tick \<Rightarrow> tick \<Rightarrow> pending_scan list \<Rightarrow> bool" where
  "tick_effect cfg moment ss t t' ps =
    (ti_pending t' = ti_pending t @ ps \<and>
     db_scans (ti_db t') = db_scans (ti_db t) @ map (queued_row moment) ps \<and>
     map pd_scan ps = [db_next (ti_db t)..<db_next (ti_db t')] \<and> db_next (ti_db t') = db_next (ti_db t) + length ps \<and>
     db_orgs (ti_db t') = db_orgs (ti_db t) \<and> db_claims (ti_db t') = db_claims (ti_db t) \<and>
     subseq (map pd_schedule ps) (map sc_id ss) \<and> list_all (pending_from cfg (ti_db t) ss) ps \<and>
     (let n = ti_counters t; n' = ti_counters t' in
      tk_due n' = tk_due n \<and> tk_queued n' = tk_queued n \<and> tk_failed n' = tk_failed n \<and>
      tk_disabled n' + tk_skipped n' + length ps = tk_disabled n + tk_skipped n + length ss))"

lemma counters_simps [simp]:
  "ti_counters (advanced n m s t) = ti_counters t"
  "ti_counters (tick_queue s tg m t) = ti_counters t"
  "ti_counters (tick_disable i r t) = (ti_counters t)\<lparr>tk_disabled := tk_disabled (ti_counters t) + 1\<rparr>"
  "ti_counters (tick_skip t) = (ti_counters t)\<lparr>tk_skipped := tk_skipped (ti_counters t) + 1\<rparr>"
  by (simp_all add: advanced_def tick_queue_def tick_disable_def tick_skip_def Let_def)

lemma fire_effect:
  assumes "schedule_ok s" and "fire cfg moment s t = Inr t'"
  obtains ps where "tick_effect cfg moment [s] t t' ps"
  using assms(1)
proof (cases rule: fire_cases [where cfg = cfg and moment = moment and t = t])
  case (disabled nx reason)
  with assms(2) have "tick_effect cfg moment [s] t t' []" by (auto simp: tick_effect_def)
  then show thesis by (rule that)
next
  case (skipped nx)
  with assms(2) have "tick_effect cfg moment [s] t t' []" by (auto simp: tick_effect_def)
  then show thesis by (rule that)
next
  case (queued nx target org)
  let ?p = "\<lparr>pd_schedule = sc_id s, pd_scan = db_next (ti_db t), pd_org = sc_org s, pd_target = target, pd_config = sc_config s\<rparr>"
  have "pending_from cfg (ti_db t) [s] ?p" using queued(5-7) by (simp add: pending_from_def)
  with assms(2) queued(3) have "tick_effect cfg moment [s] t t' [?p]"
    by (auto simp: tick_effect_def queued_row_def Let_def)
  then show thesis by (rule that)
qed

lemma tick_effect_trans:
  assumes "tick_effect cfg moment ss t t1 ps" and "tick_effect cfg moment ss' t1 t2 qs"
  shows "tick_effect cfg moment (ss @ ss') t t2 (ps @ qs)"
proof -
  note a = assms(1) [unfolded tick_effect_def Let_def] and b = assms(2) [unfolded tick_effect_def Let_def]
  have m: "map pd_scan (ps @ qs) = [db_next (ti_db t)..<db_next (ti_db t2)]"
    using a b by (simp add: upt_add_eq_append [symmetric] del: upt_Suc)
  have p: "list_all (pending_from cfg (ti_db t) (ss @ ss')) (ps @ qs)"
    using a b pending_from_mono [where db' = "ti_db t" and ss' = "ss @ ss'"]
    by (fastforce simp: list_all_iff)
  have s: "subseq (map pd_schedule (ps @ qs)) (map sc_id (ss @ ss'))"
    using a b by (simp add: list_emb_append_mono)
  show ?thesis unfolding tick_effect_def Let_def
    using a b by (intro conjI m p s) simp_all
qed

lemma fire_all_effect:
  assumes "list_all schedule_ok ss" and "fire_all cfg moment ss t = Inr t'"
  shows "\<exists>ps. tick_effect cfg moment ss t t' ps"
  using assms
proof (induction ss arbitrary: t)
  case Nil
  then have "tick_effect cfg moment [] t t' []" by (simp add: tick_effect_def)
  then show ?case ..
next
  case (Cons s ss)
  then obtain t1 where t1: "fire cfg moment s t = Inr t1" "fire_all cfg moment ss t1 = Inr t'"
    by (auto split: sum.splits)
  obtain ps where "tick_effect cfg moment [s] t t1 ps" using fire_effect [OF _ t1(1)] Cons.prems by auto
  moreover obtain qs where "tick_effect cfg moment ss t1 t' qs" using Cons.IH t1(2) Cons.prems by auto
  ultimately have "tick_effect cfg moment ([s] @ ss) t t' (ps @ qs)" by (rule tick_effect_trans)
  then show ?case by auto
qed

text \<open>The schedule table: a fired row has moved to its next slot, every other row is untouched.\<close>

definition same_timing :: "schedule_row \<Rightarrow> schedule_row \<Rightarrow> bool" where
  "same_timing r s = (sc_id r = sc_id s \<and> sc_cadence r = sc_cadence s \<and> sc_hour r = sc_hour s \<and> sc_weekday r = sc_weekday s)"

definition at_next_slot :: "int \<Rightarrow> schedule_row \<Rightarrow> bool" where
  "at_next_slot moment s = (next_occurrence (sc_cadence s) (sc_hour s) (sc_weekday s) (Aware moment 0) = Inr (sc_next_run s))"

lemma fire_rows:
  assumes "schedule_ok s" and "fire cfg moment s t = Inr t'"
  obtains g nx where "db_schedules (ti_db t') = update_where (\<lambda>r. sc_id r = sc_id s) g (db_schedules (ti_db t))"
    and "timeless g" and "\<And>r. sc_next_run (g r) = nx"
    and "next_occurrence (sc_cadence s) (sc_hour s) (sc_weekday s) (Aware moment 0) = Inr nx"
  using assms(1)
proof (cases rule: fire_cases [where cfg = cfg and moment = moment and t = t])
  case (disabled nx reason)
  show thesis
    by (rule that [of "\<lambda>r. disable_schedule reason (advance_row nx moment r)" nx])
      (use disabled assms(2) in \<open>auto simp: tick_disable_def advanced_def update_where_twice advance_row_def
        disable_schedule_def timeless_def\<close>)
next
  case (skipped nx)
  show thesis
    by (rule that [of "advance_row nx moment" nx])
      (use skipped assms(2) in \<open>auto simp: tick_skip_def advanced_def advance_row_def timeless_def\<close>)
next
  case (queued nx target org)
  show thesis
    by (rule that [of "\<lambda>r. (advance_row nx moment r)\<lparr>sc_last_scan := Some (db_next (ti_db t))\<rparr>" nx])
      (use queued assms(2) in \<open>auto simp: tick_queue_def advanced_def update_where_twice advance_row_def timeless_def Let_def\<close>)
qed

lemma fire_all_rows:
  assumes "list_all schedule_ok ss" and "distinct (map sc_id ss)" and "fire_all cfg moment ss t = Inr t'"
    and "\<forall>s \<in> set ss. \<forall>r \<in> set (db_schedules (ti_db t)). sc_id r = sc_id s \<longrightarrow> same_timing r s"
    and "r' \<in> set (db_schedules (ti_db t'))"
  shows "if sc_id r' \<in> sc_id ` set ss then at_next_slot moment r' else r' \<in> set (db_schedules (ti_db t))"
  using assms
proof (induction ss arbitrary: t)
  case (Cons s ss)
  from Cons.prems obtain t1 where t1: "fire cfg moment s t = Inr t1" "fire_all cfg moment ss t1 = Inr t'"
    by (auto split: sum.splits)
  have "schedule_ok s" using Cons.prems by simp
  from fire_rows [OF this t1(1)] obtain g nx where
    g: "db_schedules (ti_db t1) = update_where (\<lambda>r. sc_id r = sc_id s) g (db_schedules (ti_db t))" "timeless g"
      "\<And>r. sc_next_run (g r) = nx" "next_occurrence (sc_cadence s) (sc_hour s) (sc_weekday s) (Aware moment 0) = Inr nx"
    by blast
  have t: "\<forall>s' \<in> set ss. \<forall>r \<in> set (db_schedules (ti_db t1)). sc_id r = sc_id s' \<longrightarrow> same_timing r s'"
  proof (intro ballI impI)
    fix s' r assume a: "s' \<in> set ss" "r \<in> set (db_schedules (ti_db t1))" "sc_id r = sc_id s'"
    then obtain q where q: "q \<in> set (db_schedules (ti_db t))" "r = (if sc_id q = sc_id s then g q else q)"
      by (auto simp: g(1) in_update_where_iff)
    have "sc_id s' \<in> sc_id ` set ss" using a(1) by (rule imageI)
    then have "sc_id s' \<noteq> sc_id s" using Cons.prems(2) by auto
    moreover have "sc_id r = sc_id q" using q(2) g(2) by (simp add: timeless_def)
    ultimately have "r = q" using q(2) a(3) by simp
    then show "same_timing r s'" using Cons.prems(4) a q(1) by simp
  qed
  have IH: "if sc_id r' \<in> sc_id ` set ss then at_next_slot moment r' else r' \<in> set (db_schedules (ti_db t1))"
    using Cons.IH [OF _ _ t1(2) t] Cons.prems by simp
  show ?case
  proof (cases "sc_id r' \<in> sc_id ` set ss")
    case False
    with IH obtain q where q: "q \<in> set (db_schedules (ti_db t))" "r' = (if sc_id q = sc_id s then g q else q)"
      by (auto simp: g(1) in_update_where_iff)
    show ?thesis
    proof (cases "sc_id q = sc_id s")
      case True
      then have "same_timing q s" using Cons.prems(4) q(1) by simp
      then have "at_next_slot moment r'" "sc_id r' = sc_id s"
        using q(2) True g(2-4) by (simp_all add: at_next_slot_def timeless_def same_timing_def)
      then show ?thesis by simp
    qed (use q False in auto)
  qed (use IH in auto)
qed simp

lemma next_utc_later:
  assumes "next_utc c h w after = Inr n"
  shows "after < n"
proof -
  have d: "after < after div us_day * us_day + us_day" "after < after div us_hour * us_hour + us_hour"
    by (simp_all add: units)
  have at: "0 \<le> h \<Longrightarrow> after < at_hour h after + us_day"
    using d(1) by (simp add: at_hour_def units)
  have k: "0 \<le> ((k :: int) mod 7) * us_day" for k by (simp add: units)
  show ?thesis
  proof (cases c)
    case HOURLY
    then show ?thesis using assms d(2) by (auto simp: next_utc_def)
  next
    case DAILY
    then show ?thesis using assms at by (auto simp: next_utc_def Let_def split: if_splits)
  next
    case WEEKLY
    let ?c = "\<lambda>day. at_hour h after + ((day - weekday_of (at_hour h after)) mod 7) * us_day"
    have "after < ?c day + us_week" if "0 \<le> h" for day
      using at [OF that] k [of "day - weekday_of (at_hour h after)"] by (simp add: us_week_def units)
    then show ?thesis using WEEKLY assms by (auto simp: next_utc_def Let_def split: if_splits option.splits)
  qed
qed

lemma at_next_slot_later: "at_next_slot moment s \<Longrightarrow> moment < sc_next_run s"
  by (auto simp: at_next_slot_def next_occurrence_def intro: next_utc_later)

text \<open>Phase two edits rows of scans and failure counters only.\<close>

lemma edited_row:
  assumes "r \<in> set (update_where p f rows)" and "timeless f" and "\<And>r. sc_next_run (f r) = sc_next_run r"
  shows "\<exists>q \<in> set rows. same_timing r q \<and> sc_next_run r = sc_next_run q"
  using assms by (auto simp: in_update_where_iff timeless_def same_timing_def)

lemma publish_rows:
  assumes "publish cfg now broker ps (db, n) = (db', n')" and "r' \<in> set (db_schedules db')"
  obtains r where "r \<in> set (db_schedules db)" and "same_timing r' r" and "sc_next_run r' = sc_next_run r"
proof -
  have "\<exists>r \<in> set (db_schedules db). same_timing r' r \<and> sc_next_run r' = sc_next_run r"
    using assms
  proof (induction ps arbitrary: db n)
    case (Cons p ps)
    obtain db1 n1 where 1: "publish cfg now broker ps (db1, n1) = (db', n')"
      "db1 = (case broker (pd_scan p) of Inl exc \<Rightarrow> record_publish_failure cfg now (pd_schedule p) (pd_scan p) exc db
              | Inr task \<Rightarrow> record_publish_success (pd_schedule p) (pd_scan p) task db)"
      using Cons.prems(1) by (auto split: sum.splits)
    from Cons.IH [OF 1(1) Cons.prems(2)] obtain r where r: "r \<in> set (db_schedules db1)" "same_timing r' r" "sc_next_run r' = sc_next_run r"
      by blast
    have "\<exists>q \<in> set (db_schedules db). same_timing r q \<and> sc_next_run r = sc_next_run q"
    proof (cases "broker (pd_scan p)")
      case (Inl exc)
      show ?thesis
        by (rule edited_row [where p = "\<lambda>s. sc_id s = pd_schedule p" and f = "count_failure cfg"])
          (use r(1) Inl timeless_ops in \<open>simp_all add: 1(2) record_publish_failure_def count_failure_def disable_schedule_def Let_def\<close>)
    next
      case (Inr task)
      show ?thesis
        by (rule edited_row [where p = "\<lambda>s. sc_id s = pd_schedule p" and f = reset_failures])
          (use r(1) Inr timeless_ops in \<open>simp_all add: 1(2) record_publish_success_def reset_failures_def\<close>)
    qed
    then show ?case using r(2,3) by (auto simp: same_timing_def)
  qed (auto simp: same_timing_def)
  then show thesis using that by blast
qed

text \<open>Phase two again: no scan is made, and every publish is counted.\<close>

lemma publish_counts:
  "publish cfg now broker ps (db, n) = (db', n') \<Longrightarrow>
    tk_queued n' + tk_failed n' = tk_queued n + tk_failed n + length ps \<and>
    tk_due n' = tk_due n \<and> tk_disabled n' = tk_disabled n \<and> tk_skipped n' = tk_skipped n"
proof (induction ps arbitrary: db n)
  case (Cons p ps)
  then show ?case by (cases "broker (pd_scan p)") (auto dest: Cons.IH)
qed simp

definition publish_row :: "int \<Rightarrow> (nat \<Rightarrow> broker) \<Rightarrow> scan_row \<Rightarrow> scan_row" where
  "publish_row now broker s = (case broker (sn_id s) of Inl exc \<Rightarrow> unqueue now exc s | Inr task \<Rightarrow> set_task task s)"

lemma publish_scans:
  assumes "distinct (map pd_scan ps)" and "publish cfg now broker ps (db, n) = (db', n')"
  shows "db_scans db' = update_where (\<lambda>s. sn_id s \<in> pd_scan ` set ps) (publish_row now broker) (db_scans db)"
  using assms
proof (induction ps arbitrary: db n)
  case Nil
  then show ?case by (simp add: update_where_def)
next
  case (Cons p ps)
  have id: "sn_id (publish_row now broker s) = sn_id s" for s
    by (simp add: publish_row_def unqueue_def set_task_def split: sum.splits)
  obtain db1 n1 where 1: "publish cfg now broker ps (db1, n1) = (db', n')"
    "db_scans db1 = update_where (\<lambda>s. sn_id s = pd_scan p) (publish_row now broker) (db_scans db)"
  proof (cases "broker (pd_scan p)")
    case (Inl exc)
    show thesis
      by (rule that [of "record_publish_failure cfg now (pd_schedule p) (pd_scan p) exc db" "n\<lparr>tk_failed := tk_failed n + 1\<rparr>"])
        (use Inl Cons.prems in \<open>simp_all add: record_publish_failure_def publish_row_def update_where_def\<close>)
  next
    case (Inr task)
    show thesis
      by (rule that [of "record_publish_success (pd_schedule p) (pd_scan p) task db" "n\<lparr>tk_queued := tk_queued n + 1\<rparr>"])
        (use Inr Cons.prems in \<open>simp_all add: record_publish_success_def publish_row_def update_where_def\<close>)
  qed
  have "db_scans db' = update_where (\<lambda>s. sn_id s \<in> pd_scan ` set ps) (publish_row now broker) (db_scans db1)"
    using Cons.IH [OF _ 1(1)] Cons.prems by simp
  also have "\<dots> = update_where (\<lambda>s. sn_id s \<in> pd_scan ` set (p # ps)) (publish_row now broker) (db_scans db)"
    using Cons.prems(1) id by (auto simp: 1(2) update_where_def)
  finally show ?case .
qed

lemma plan_effect:
  assumes "schedules_ok db" and "plan_tick cfg moment db = Inr t"
  obtains ps where "tick_effect cfg moment (due_schedules moment db) (new_tick (length (due_schedules moment db)) db) t ps"
proof -
  have "list_all schedule_ok (due_schedules moment db)"
    using schedules_okD(3) [OF assms(1)] set_due by (fastforce simp: list_all_iff)
  then show thesis
    using fire_all_effect assms(2) that unfolding plan_tick_def Let_def by blast
qed

lemma plan_rows:
  assumes ok: "schedules_ok db" and "plan_tick cfg moment db = Inr t" and "r \<in> set (db_schedules (ti_db t))"
  shows "if sc_id r \<in> sc_id ` set (due_schedules moment db) then at_next_slot moment r else r \<in> set (db_schedules db)"
proof -
  have same: "same_timing r s" if "s \<in> set (due_schedules moment db)" "r \<in> set (db_schedules db)" "sc_id r = sc_id s" for s r
  proof -
    have "s \<in> set (db_schedules db)" using that(1) set_due by blast
    then have "r = s" using keyed_unique [OF schedules_okD(1) [OF ok] that(2)] that(3) by blast
    then show ?thesis by (simp add: same_timing_def)
  qed
  have "list_all schedule_ok (due_schedules moment db)"
    using schedules_okD(3) [OF ok] set_due by (fastforce simp: list_all_iff)
  from fire_all_rows [OF this due_keyed [OF ok] assms(2) [unfolded plan_tick_def Let_def] _ assms(3)] same
  show ?thesis by (simp add: new_tick_def split: if_splits)
qed

section \<open>Properties\<close>

text \<open>
  A tick of the dispatcher never raises on a database the constraints allow, and its
  counters account for every due schedule: each one was queued, failed at the broker, was
  skipped at the cap, or was disabled. The scans it makes are exactly the queued and the
  failed ones, and no organisation ends above its concurrency cap.
\<close>

lemma dispatch_accounts_for_every_schedule:
  assumes "schedules_ok db" and "scans_ok db" and "cap_ok cfg db"
  shows "case dispatch_due_scans cfg moment later broker db of
      (db', Inl e) \<Rightarrow> False
    | (db', Inr n) \<Rightarrow>
        tk_due n = length (due_schedules moment db) \<and>
        tk_due n = tk_queued n + tk_failed n + tk_skipped n + tk_disabled n \<and>
        length (db_scans db') = length (db_scans db) + tk_queued n + tk_failed n \<and>
        cap_ok cfg db'"
proof -
  obtain t where t: "plan_tick cfg moment db = Inr t" "tick_ok cfg True t"
    using plan_ok [of True cfg db] assms by blast
  obtain ps where ps: "tick_effect cfg moment (due_schedules moment db) (new_tick (length (due_schedules moment db)) db) t ps"
    using plan_effect [OF assms(1) t(1)] .
  obtain db' n where p: "publish cfg later broker (ti_pending t) (ti_db t, ti_counters t) = (db', n)" by fastforce
  have e: "ti_pending t = ps" "distinct (map pd_scan ps)"
    using ps by (simp_all add: tick_effect_def new_tick_def Let_def)
  have "cap_ok cfg db'"
  proof (rule cap_ok_le [of cfg "ti_db t"])
    show "active_count org (db_scans db') \<le> active_count org (db_scans (ti_db t))" for org
      using publish_scans [OF _ p] e
      by (simp add: active_count_def, intro count_where_update_le)
        (auto simp: publish_row_def unqueue_def set_task_def is_active_scan_def split: sum.splits)
  qed (use t(2) in \<open>simp add: tick_ok_def\<close>)
  moreover have "length (db_scans db') = length (db_scans db) + length ps"
    using publish_scans [OF _ p] e ps by (simp add: tick_effect_def new_tick_def Let_def)
  ultimately show ?thesis
    using publish_counts [OF p] e ps 
    by (simp add: dispatch_due_scans_def t(1) p [unfolded e(1)] tick_effect_def new_tick_def Let_def)
qed

text \<open>A database with two schedules that are due, one slot under the cap, for the witnesses.\<close>

definition busy_db :: db where
  "busy_db = verified_db\<lparr>db_next := 20,
     db_schedules := [\<lparr>sc_id = 3, sc_org = 1, sc_created_by = None, sc_name = ''n'', sc_target = ''www.acme.com'',
         sc_config = [], sc_cadence = DAILY, sc_hour = 3, sc_weekday = None, sc_enabled = True, sc_next_run = 5,
         sc_last_run = None, sc_last_scan = None, sc_failures = 0, sc_disabled_reason = None\<rparr>,
       \<lparr>sc_id = 4, sc_org = 1, sc_created_by = None, sc_name = ''m'', sc_target = ''acme.com'',
         sc_config = [], sc_cadence = HOURLY, sc_hour = 0, sc_weekday = None, sc_enabled = True, sc_next_run = 2,
         sc_last_run = None, sc_last_scan = None, sc_failures = 0, sc_disabled_reason = None\<rparr>]\<rparr>"

definition small_cap :: settings where
  "small_cap = default_settings\<lparr>st_max_concurrent := 1\<rparr>"

lemma busy_ok: "schedules_ok busy_db" "scans_ok busy_db" "cap_ok small_cap busy_db" "claims_ok busy_db"
  by code_simp+

lemma dispatch_accounts_for_every_schedule_witness:
  "case dispatch_due_scans small_cap 10 11 (\<lambda>i. Inr ''task'') busy_db of
      (db', Inl e) \<Rightarrow> False
    | (db', Inr n) \<Rightarrow> tk_due n = 2 \<and> tk_due n = tk_queued n + tk_failed n + tk_skipped n + tk_disabled n"
proof -
  have "length (due_schedules 10 busy_db) = 2" by code_simp
  with dispatch_accounts_for_every_schedule [OF busy_ok(1-3), of 10 11 "\<lambda>i. Inr ''task''"]
  show ?thesis by (auto split: prod.splits sum.splits)
qed


lemma busy_dispatch:
  obtains db' n where "dispatch_due_scans small_cap 10 11 (\<lambda>i. Inr ''task'') busy_db = (db', Inr n)"
    and "tk_queued n = 1" and "map sn_org (db_scans db') = [1]" and "map sn_id (db_scans db') = [20]"
    and "map sc_id (db_schedules db') = [3, 4]"
proof -
  have "case dispatch_due_scans small_cap 10 11 (\<lambda>i. Inr ''task'') busy_db of
      (db', Inl _) \<Rightarrow> False
    | (db', Inr n) \<Rightarrow> tk_queued n = 1 \<and> map sn_org (db_scans db') = [1] \<and> map sn_id (db_scans db') = [20] \<and>
        map sc_id (db_schedules db') = [3, 4]"
    by code_simp
  then show thesis using that by (auto split: prod.splits sum.splits)
qed


section \<open>Authority\<close>

text \<open>The organisation holds a verified claim on a domain that covers the host.\<close>

definition authorised :: "db \<Rightarrow> nat \<Rightarrow> string \<Rightarrow> bool" where
  "authorised db org host =
    list_ex (\<lambda>c. cl_org c = org \<and> cl_status c = CLAIM_VERIFIED \<and>
      covers (strip_dots (lower (cl_domain c))) (normalise_host host)) (db_claims db)"

lemma in_scope_authorised:
  assumes "claims_ok db" and "org \<in> set (db_orgs db)" and "in_scope host (all_domains org)"
  shows "authorised db (og_id org) host"
proof -
  obtain d where d: "d \<in> set (og_verified org)" "covers (strip_dots (lower d)) (normalise_host host)"
    using assms(3) by (auto simp: in_scope_covers set_all_domains)
  then obtain c where "c \<in> set (db_claims db)" "claim_key c = (og_id org, d)" "cl_status c = CLAIM_VERIFIED"
    using claims_okD(5) [OF assms(1,2)] by (auto simp: verified_claim_def list_ex_iff)
  with d(2) show ?thesis by (auto simp: authorised_def list_ex_iff claim_key_def)
qed

lemma assert_in_scope_authorised:
  assumes "claims_ok db" and "org_by_id db i = Some org"
    and "assert_in_scope target (all_domains org) arbitrary = Inr host"
  shows "\<not> is_private_address host \<and> (arbitrary \<or> authorised db i host)"
proof -
  have "org \<in> set (db_orgs db) \<and> og_id org = i" using assms(2) row_by_SomeD unfolding org_by_id_def by metis
  then show ?thesis
    using assms(3) in_scope_authorised [OF assms(1), of org]
    by (auto simp: assert_in_scope_def Let_def split: if_splits)
qed

text \<open>
  C11: whatever the dispatcher queues is authorised at the moment it is queued. Every scan a
  tick adds comes from a schedule that was enabled and due, of the same organisation and with
  the same configuration, whose organisation is active; its target is neither private nor
  reserved and, unless arbitrary targets are allowed, is covered by a domain the organisation
  has proved; it has no author.
\<close>

theorem dispatched_scans_are_authorised:
  assumes "claims_ok db" and "schedules_ok db" and "scans_ok db"
    and "dispatch_due_scans cfg moment later broker db = (db', Inr n)"
    and "x \<in> set (db_scans db')" and "db_next db \<le> sn_id x"
  shows "sn_created_by x = None \<and> \<not> is_private_address (sn_target x) \<and>
    (st_allow_arbitrary cfg \<or> authorised db (sn_org x) (sn_target x)) \<and>
    (\<exists>org \<in> set (db_orgs db). og_id org = sn_org x \<and> og_active org) \<and>
    (\<exists>s \<in> set (db_schedules db). is_due moment s \<and> sc_org s = sn_org x \<and> sc_config s = sn_config x)"
proof -
  obtain t where t: "plan_tick cfg moment db = Inr t"
      "publish cfg later broker (ti_pending t) (ti_db t, ti_counters t) = (db', n)"
    using assms(4) by (auto simp: dispatch_due_scans_def split: sum.splits prod.splits)
  obtain ps where ps: "tick_effect cfg moment (due_schedules moment db) (new_tick (length (due_schedules moment db)) db) t ps"
    using plan_effect [OF assms(2) t(1)] .
  have e: "ti_pending t = ps" "distinct (map pd_scan ps)" "db_scans (ti_db t) = db_scans db @ map (queued_row moment) ps"
      "list_all (pending_from cfg db (due_schedules moment db)) ps"
    using ps by (simp_all add: tick_effect_def new_tick_def Let_def)
  obtain y where y: "y \<in> set (db_scans db) \<union> queued_row moment ` set ps"
      "x = (if sn_id y \<in> pd_scan ` set ps then publish_row later broker y else y)"
    using assms(5) publish_scans [OF _ t(2)] e by (auto simp: in_update_where_iff)
  have xy: "sn_id x = sn_id y" "sn_org x = sn_org y" "sn_target x = sn_target y" "sn_config x = sn_config y"
      "sn_created_by x = sn_created_by y"
    by (simp_all add: y(2) publish_row_def unqueue_def set_task_def split: sum.splits)
  have "y \<notin> set (db_scans db)" using scans_okD(2) [OF assms(3)] assms(6) xy(1) by force
  then obtain p where p: "p \<in> set ps" "y = queued_row moment p" using y(1) by blast
  then obtain s org where s: "s \<in> set (due_schedules moment db)" "pd_org p = sc_org s" "pd_config p = sc_config s"
      "org_by_id db (sc_org s) = Some org" "og_active org"
      "assert_in_scope (sc_target s) (all_domains org) (st_allow_arbitrary cfg) = Inr (pd_target p)"
    using e(4) by (auto simp: pending_from_def list_ex_iff list_all_iff split: option.splits)
  have org: "org \<in> set (db_orgs db)" "og_id org = sc_org s"
    using s(4) row_by_SomeD unfolding org_by_id_def by metis+
  have x: "sn_org x = sc_org s" "sn_config x = sc_config s" "sn_target x = pd_target p" "sn_created_by x = None"
    using xy p(2) s(2,3) by (simp_all add: queued_row_def new_scan_def)
  show ?thesis
    using assert_in_scope_authorised [OF assms(1) s(4,6)] set_due [OF s(1)] org s(5) unfolding x by blast
qed

theorem dispatched_scans_are_authorised_witness:
  "case dispatch_due_scans small_cap 10 11 (\<lambda>i. Inr ''task'') busy_db of
     (db', Inr n) \<Rightarrow> length (db_scans db') = 1 \<and> list_all (\<lambda>x. authorised busy_db 1 (sn_target x)) (db_scans db')
   | _ \<Rightarrow> False"
proof -
  obtain db' n where d: "dispatch_due_scans small_cap 10 11 (\<lambda>i. Inr ''task'') busy_db = (db', Inr n)"
    "map sn_org (db_scans db') = [1]" "map sn_id (db_scans db') = [20]" by (rule busy_dispatch)
  then obtain x where x: "db_scans db' = [x]" "sn_org x = 1" "sn_id x = 20" by auto
  have "db_next busy_db = 20" "\<not> st_allow_arbitrary small_cap" by code_simp+
  with dispatched_scans_are_authorised [OF busy_ok(4,1,2) d(1), of x] x
  show ?thesis by (simp add: d)
qed

end
