(* ===== verification/Lifecycle.thy ===== *)
theory Lifecycle
  imports Dispatch
begin

text \<open>
  Histories of the whole scanning side: requests of users, the workers' tasks, ticks of the
  scheduler, the retention sweep and the ownership of domains, interleaved in any order.
  Each event is one transaction of the code. The two phases of a tick are separate events,
  so other events may come between them.
\<close>

section \<open>Events\<close>

datatype app_event =
    Post_scan int broker nat nat string scan_config
  | Cancel_scan int nat nat
  | Delete_scan nat nat
  | Post_schedule int nat nat schedule_create
  | Patch_schedule int nat nat schedule_update
  | Run_schedule int broker nat nat nat
  | Delete_schedule nat nat
  | Plan_tick int
  | Record_success nat nat string
  | Record_failure int nat nat string
  | Prune int "string \<Rightarrow> bool"
  | Start_task int nat string json_object
  | Stage_task nat string int
  | Count_task nat int int
  | Finish_task int nat
  | Fail_task int nat "string option"

datatype event = Scanning app_event | Ownership domain_event

fun scan_step :: "settings \<Rightarrow> db \<Rightarrow> app_event \<Rightarrow> db" where
  "scan_step cfg db (Post_scan now broker org user target config) = fst (post_scan cfg now broker org user target config db)"
| "scan_step cfg db (Cancel_scan now i org) = fst (cancel_scan now i org db)"
| "scan_step cfg db (Delete_scan i org) = fst (delete_scan i org db)"
| "scan_step cfg db (Post_schedule now org user body) = fst (post_schedule cfg now org user body db)"
| "scan_step cfg db (Patch_schedule now i org body) = fst (patch_schedule now i org body db)"
| "scan_step cfg db (Run_schedule now broker i org user) = fst (run_schedule_now cfg now broker i org user db)"
| "scan_step cfg db (Delete_schedule i org) = fst (delete_schedule i org db)"
| "scan_step cfg db (Plan_tick now) = (case plan_tick cfg now db of Inl _ \<Rightarrow> db | Inr t \<Rightarrow> ti_db t)"
| "scan_step cfg db (Record_success s i task) = record_publish_success s i task db"
| "scan_step cfg db (Record_failure now s i exc) = record_publish_failure cfg now s i exc db"
| "scan_step cfg db (Prune now unlink) = fst (prune_old_data cfg now unlink db)"
| "scan_step cfg db (Start_task now i target config) = fst (run_pipeline now i target config db)"
| "scan_step cfg db (Stage_task i stage progress) = set_stage i stage progress db"
| "scan_step cfg db (Count_task i assets findings) = bump_counters i assets findings db"
| "scan_step cfg db (Finish_task now i) = fst (finalise_scan now i db)"
| "scan_step cfg db (Fail_task now i exc) = fst (fail_scan now i exc db)"

fun app_step :: "settings \<Rightarrow> rate_settings \<Rightarrow> 'r redis_client \<Rightarrow> 'r \<times> db \<Rightarrow> event \<Rightarrow> 'r \<times> db" where
  "app_step cfg rs client (r, db) (Scanning e) = (r, scan_step cfg db e)"
| "app_step cfg rs client st (Ownership e) = domain_step cfg rs client st e"

section \<open>What the handlers leave alone\<close>

lemma prune_simps [simp]:
  "db_scans (fst (prune_logs cfg now st)) = db_scans (fst st)" "db_next (fst (prune_logs cfg now st)) = db_next (fst st)"
  "db_schedules (fst (prune_logs cfg now st)) = db_schedules (fst st)" "db_orgs (fst (prune_logs cfg now st)) = db_orgs (fst st)"
  "db_claims (fst (prune_logs cfg now st)) = db_claims (fst st)"
  "db_scans (fst (prune_reports cfg now u st)) = db_scans (fst st)" "db_next (fst (prune_reports cfg now u st)) = db_next (fst st)"
  "db_schedules (fst (prune_reports cfg now u st)) = db_schedules (fst st)" "db_orgs (fst (prune_reports cfg now u st)) = db_orgs (fst st)"
  "db_claims (fst (prune_reports cfg now u st)) = db_claims (fst st)"
  by (simp_all add: prune_logs_def prune_reports_def Let_def split: prod.splits)

lemma ctx_log_claims [simp]: "db_claims (ctx_log i st now m db) = db_claims db"
  by (simp add: ctx_log_def)

lemma drop_scan_simps [simp]:
  "db_orgs (drop_scan i db) = db_orgs db" "db_claims (drop_scan i db) = db_claims db" "db_next (drop_scan i db) = db_next db"
  by (simp_all add: drop_scan_def)

text \<open>An invariant is kept by dropping rows if it is kept by dropping one.\<close>

lemma prune_scans_induct:
  assumes "\<And>i db. P db \<Longrightarrow> P (drop_scan i db)" and "P (fst st)"
  shows "P (fst (prune_scans cfg now st))"
proof -
  have "P (foldl (\<lambda>db i. drop_scan i db) db is)" if "P db" for db "is"
    using that by (induction "is" arbitrary: db) (simp_all add: assms(1))
  then show ?thesis using assms(2) by (cases st) (simp add: prune_scans_def Let_def)
qed

lemma prune_invariant:
  assumes "\<And>i db. P db \<Longrightarrow> P (drop_scan i db)" and "P db"
    and cong: "\<And>db db'. P db \<Longrightarrow> db_scans db' = db_scans db \<Longrightarrow> db_next db' = db_next db \<Longrightarrow>
      db_schedules db' = db_schedules db \<Longrightarrow> db_orgs db' = db_orgs db \<Longrightarrow> db_claims db' = db_claims db \<Longrightarrow> P db'"
  shows "P (fst (prune_old_data cfg now unlink db))"
proof -
  let ?n = "\<lparr>pr_logs = 0, pr_scans = 0, pr_reports = 0, pr_files = 0\<rparr>"
  have "P (fst (prune_logs cfg now (db, ?n)))" by (rule cong [OF assms(2)]) simp_all
  then have "P (fst (prune_scans cfg now (prune_logs cfg now (db, ?n))))"
    using prune_scans_induct [where P = P] assms(1) by blast
  then show ?thesis unfolding prune_old_data_def by (rule cong) simp_all
qed

lemma plan_tick_effect:
  assumes "schedules_ok db" and "plan_tick cfg now db = Inr t"
  obtains ps where "db_scans (ti_db t) = db_scans db @ map (queued_row now) ps"
    and "map pd_scan ps = [db_next db..<db_next (ti_db t)]" and "db_next (ti_db t) = db_next db + length ps"
    and "db_orgs (ti_db t) = db_orgs db" and "db_claims (ti_db t) = db_claims db"
proof (rule plan_effect [OF assms])
  fix ps
  assume "tick_effect cfg now (due_schedules now db) (new_tick (length (due_schedules now db)) db) t ps"
  then show thesis by (intro that [of ps]) (simp_all add: tick_effect_def new_tick_def Let_def)
qed

text \<open>The authority over domains is not the scanning side's to change.\<close>

lemma handlers_leave_authority [simp]:
  "db_orgs (fst (create_scan cfg now broker org user target config db)) = db_orgs db"
  "db_claims (fst (create_scan cfg now broker org user target config db)) = db_claims db"
  "db_orgs (fst (run_schedule_now cfg now broker i org user db)) = db_orgs db"
  "db_claims (fst (run_schedule_now cfg now broker i org user db)) = db_claims db"
  "db_orgs (fst (create_schedule cfg now org user b db)) = db_orgs db"
  "db_claims (fst (create_schedule cfg now org user b db)) = db_claims db"
  "db_orgs (fst (update_schedule now i org b' db)) = db_orgs db" "db_claims (fst (update_schedule now i org b' db)) = db_claims db"
  "db_orgs (fst (delete_schedule i org db)) = db_orgs db" "db_claims (fst (delete_schedule i org db)) = db_claims db"
  "db_orgs (fst (cancel_scan now i org db)) = db_orgs db" "db_claims (fst (cancel_scan now i org db)) = db_claims db"
  "db_orgs (fst (delete_scan i org db)) = db_orgs db" "db_claims (fst (delete_scan i org db)) = db_claims db"
  by (simp_all add: create_scan_def run_schedule_now_def create_schedule_def update_schedule_def delete_schedule_def
      cancel_scan_def delete_scan_def Let_def split: sum.splits option.splits)

lemma tasks_leave_authority [simp]:
  "db_orgs (fst (run_pipeline now i target config db)) = db_orgs db"
  "db_claims (fst (run_pipeline now i target config db)) = db_claims db"
  "db_orgs (fst (finalise_scan now i db)) = db_orgs db" "db_claims (fst (finalise_scan now i db)) = db_claims db"
  "db_orgs (fst (fail_scan now i exc db)) = db_orgs db" "db_claims (fst (fail_scan now i exc db)) = db_claims db"
  by (simp_all add: run_pipeline_def finalise_scan_def fail_scan_def Let_def split: option.splits)

lemma prune_leaves_authority [simp]:
  "db_orgs (fst (prune_old_data cfg now unlink db)) = db_orgs db \<and> db_claims (fst (prune_old_data cfg now unlink db)) = db_claims db"
  by (rule prune_invariant [where P = "\<lambda>d. db_orgs d = db_orgs db \<and> db_claims d = db_claims db"]) simp_all

lemma scan_step_authority:
  assumes "schedules_ok db"
  shows "db_orgs (scan_step cfg db e) = db_orgs db \<and> db_claims (scan_step cfg db e) = db_claims db"
proof (cases e)
  case (Plan_tick now)
  show ?thesis
  proof (cases "plan_tick cfg now db")
    case (Inr t)
    show ?thesis by (rule plan_tick_effect [OF assms Inr]) (simp add: Plan_tick Inr)
  qed (simp add: Plan_tick)
qed (simp_all add: post_scan_def post_schedule_def patch_schedule_def record_publish_success_def
    record_publish_failure_def set_stage_def bump_counters_def split: option.splits)

section \<open>The scan table under one event\<close>

lemma queued_row_id [simp]: "sn_id (queued_row now p) = pd_scan p" "sn_org (queued_row now p) = pd_org p"
    "sn_status (queued_row now p) = QUEUED"
  by (simp_all add: queued_row_def new_scan_def)

lemma row_ids [simp]:
  "sn_id (unqueue now exc s) = sn_id s" "sn_id (set_task k s) = sn_id s" "sn_id (cancel_row now s) = sn_id s"
  "sn_id (start_row now s) = sn_id s" "sn_id (complete_row now s) = sn_id s" "sn_id (fail_row now m s) = sn_id s"
  by (simp_all add: unqueue_def set_task_def cancel_row_def start_row_def complete_row_def fail_row_def)

lemma row_orgs [simp]:
  "sn_org (unqueue now exc s) = sn_org s" "sn_org (set_task k s) = sn_org s" "sn_org (cancel_row now s) = sn_org s"
  "sn_org (start_row now s) = sn_org s" "sn_org (complete_row now s) = sn_org s" "sn_org (fail_row now m s) = sn_org s"
  by (simp_all add: unqueue_def set_task_def cancel_row_def start_row_def complete_row_def fail_row_def)

lemma row_active [simp]:
  "\<not> is_active_scan (unqueue now exc s)" "is_active_scan (set_task k s) \<longleftrightarrow> is_active_scan s"
  "\<not> is_active_scan (cancel_row now s)" "is_active_scan (start_row now s)"
  "\<not> is_active_scan (complete_row now s)" "\<not> is_active_scan (fail_row now m s)"
  by (auto simp: is_active_scan_def unqueue_def set_task_def cancel_row_def start_row_def complete_row_def fail_row_def)

lemma cancelled_rows [simp]:
  "sn_status s = CANCELLED \<Longrightarrow> sn_status (complete_row now s) = CANCELLED"
  "sn_status s = CANCELLED \<Longrightarrow> sn_status (fail_row now m s) = CANCELLED"
  "sn_status (cancel_row now s) = CANCELLED" "sn_status (set_task k s) = sn_status s"
  by (simp_all add: complete_row_def fail_row_def cancel_row_def set_task_def)

fun starts :: "app_event \<Rightarrow> nat \<Rightarrow> bool" where
  "starts (Start_task now i target config) j = (i = j)"
| "starts e j = False"

fun fails_publish :: "app_event \<Rightarrow> nat \<Rightarrow> bool" where
  "fails_publish (Record_failure now s i exc) j = (i = j)"
| "fails_publish e j = False"

text \<open>
  The shape of every event: leave the rows as they are, edit the rows of one key, append a
  queued row while there is room for it and edit that, append the rows of a tick, or drop
  rows. An edit keeps key and tenant; only a started task makes a row active, and only the
  failure of a publish takes a row out of CANCELLED.
\<close>

definition row_edit :: "app_event \<Rightarrow> nat \<Rightarrow> (scan_row \<Rightarrow> scan_row) \<Rightarrow> scan_row \<Rightarrow> bool" where
  "row_edit e i f s = (sn_org (f s) = sn_org s
    \<and> (is_active_scan (f s) \<longrightarrow> is_active_scan s \<or> starts e i \<and> sn_status s \<noteq> CANCELLED)
    \<and> (sn_status s = CANCELLED \<longrightarrow> sn_status (f s) = CANCELLED \<or> fails_publish e i))"

inductive scan_effect :: "settings \<Rightarrow> app_event \<Rightarrow> db \<Rightarrow> db \<Rightarrow> bool" for cfg e db where
  Kept: "db_scans db' = db_scans db \<Longrightarrow> db_next db \<le> db_next db' \<Longrightarrow> scan_effect cfg e db db'"
| Edited: "db_scans db' = update_where (\<lambda>s. sn_id s = i) f (db_scans db) \<Longrightarrow> db_next db' = db_next db \<Longrightarrow>
    (\<And>s. sn_id (f s) = sn_id s) \<Longrightarrow> (\<And>s. s \<in> set (db_scans db) \<Longrightarrow> sn_id s = i \<Longrightarrow> row_edit e i f s) \<Longrightarrow>
    scan_effect cfg e db db'"
| Added: "db_scans db' = db_scans db @ [r] \<Longrightarrow> db_next db' = db_next db + 1 \<Longrightarrow> sn_id r = db_next db \<Longrightarrow>
    active_count (sn_org r) (db_scans db) < st_max_concurrent cfg \<Longrightarrow> scan_effect cfg e db db'"
| Ticked: "plan_tick cfg now db = Inr t \<Longrightarrow> db' = ti_db t \<Longrightarrow> scan_effect cfg e db db'"
| Dropped: "db_scans db' = filter p (db_scans db) \<Longrightarrow> db_next db' = db_next db \<Longrightarrow> scan_effect cfg e db db'"

lemma kept_refl [simp]: "scan_effect cfg e db db"
  by (rule Kept) simp_all

lemma no_row_yet: "scans_ok db \<Longrightarrow> update_where (\<lambda>s. sn_id s = db_next db) f (db_scans db) = db_scans db"
  using scans_okD(2) by (intro update_where_none) fastforce

lemma added_effect:
  assumes "scans_ok db" and "active_count org (db_scans db) < st_max_concurrent cfg"
    and "\<And>s. sn_id (f s) = sn_id s \<and> sn_org (f s) = sn_org s"
  shows "scan_effect cfg e db (update_scan (db_next db) f (insert_scan org u t c now db))"
    and "scan_effect cfg e db (update_scan (db_next db) f (update_schedules i g (insert_scan org u t c now db)))"
  by (rule Added [of _ _ "f (new_scan (db_next db) org u t c now)"],
      (use assms in \<open>simp_all add: insert_scan_def no_row_yet new_scan_def\<close>)[4])+

lemma edited_effect:
  assumes "scans_ok db" and "row_by sn_id i (db_scans db) = Some s" and "row_edit e i f s"
    and "db_scans db' = update_where (\<lambda>s. sn_id s = i) f (db_scans db)" and "db_next db' = db_next db"
    and "\<And>s. sn_id (f s) = sn_id s"
  shows "scan_effect cfg e db db'"
proof (rule Edited [OF assms(4,5,6)])
  fix x
  assume "x \<in> set (db_scans db)" "sn_id x = i"
  then have "x = s" using row_by_SomeD [OF assms(2)] keyed_unique [OF scans_okD(1) [OF assms(1)]] by metis
  then show "row_edit e i f x" using assms(3) by simp
qed

lemmas row_defs = unqueue_def set_task_def cancel_row_def start_row_def complete_row_def fail_row_def

lemma harmless_edits [simp]:
  "row_edit e i (set_task k) s" "row_edit e i (cancel_row now) s" "row_edit e i (complete_row now) s"
  "row_edit e i (fail_row now m) s" "fails_publish e i \<Longrightarrow> row_edit e i (unqueue now exc) s"
  "starts e i \<Longrightarrow> sn_status s \<noteq> CANCELLED \<Longrightarrow> row_edit e i (start_row now) s"
  "row_edit e i (\<lambda>s. s\<lparr>sn_stage := x, sn_progress := y\<rparr>) s"
  "row_edit e i (\<lambda>s. s\<lparr>sn_assets := v s, sn_findings := w s\<rparr>) s"
  by (auto simp: row_edit_def is_active_scan_def row_defs)

text \<open>Requests, one handler each.\<close>

lemma edit_any:
  assumes "\<And>s. row_edit e i f s" and "\<And>s. sn_id (f s) = sn_id s"
    and "db_scans db' = update_where (\<lambda>s. sn_id s = i) f (db_scans db)" and "db_next db' = db_next db"
  shows "scan_effect cfg e db db'"
  by (rule Edited [of _ i f]) (use assms in simp_all)

lemma create_effect:
  assumes "scans_ok db"
  shows "scan_effect cfg e db (fst (create_scan cfg now broker org user target config db))"
  using added_effect(1) [OF assms] by (simp add: create_scan_def Let_def split: sum.splits option.splits)

lemma run_schedule_effect:
  assumes "scans_ok db"
  shows "scan_effect cfg e db (fst (run_schedule_now cfg now broker i org user db))"
  using added_effect(2) [OF assms] by (simp add: run_schedule_now_def Let_def split: sum.splits)

lemma delete_effect: "scan_effect cfg e db (fst (delete_scan i org db))"
  by (auto simp: delete_scan_def drop_scan_def delete_where_def split: sum.splits intro: Dropped)

lemma cancel_effect: "scan_effect cfg e db (fst (cancel_scan now i org db))"
  by (auto simp: cancel_scan_def split: sum.splits intro!: edit_any [of e i "cancel_row now"])

lemma schedule_handlers_effect:
  "scan_effect cfg e db (fst (create_schedule cfg now org user b db))"
  "scan_effect cfg e db (fst (update_schedule now i org b' db))"
  "scan_effect cfg e db (fst (delete_schedule i org db))"
  by (auto simp: create_schedule_def update_schedule_def delete_schedule_def Let_def split: sum.splits intro: Kept)

text \<open>The workers' tasks, and the two statements of the publisher.\<close>

lemma start_effect:
  assumes "scans_ok db" and "starts e i"
  shows "scan_effect cfg e db (fst (run_pipeline now i target config db))"
  using assms(2) by (auto simp: run_pipeline_def Let_def split: option.splits intro!: edited_effect [OF assms(1), of i _ e "start_row now"])

lemma task_effect:
  "scan_effect cfg e db (fst (finalise_scan now i db))" "scan_effect cfg e db (fst (fail_scan now i exc db))"
  "scan_effect cfg e db (set_stage i stage progress db)" "scan_effect cfg e db (bump_counters i assets findings db)"
  using edit_any [of e i "complete_row now"] edit_any [of e i "fail_row now m" for m]
    edit_any [of e i "\<lambda>s. s\<lparr>sn_stage := Some stage, sn_progress := progress\<rparr>"]
    edit_any [of e i "\<lambda>s. s\<lparr>sn_assets := sn_assets s + assets, sn_findings := sn_findings s + findings\<rparr>"]
  by (simp_all add: finalise_scan_def fail_scan_def set_stage_def bump_counters_def Let_def split: option.splits)

lemma publish_effect:
  "scan_effect cfg e db (record_publish_success s i task db)"
  "fails_publish e i \<Longrightarrow> scan_effect cfg e db (record_publish_failure cfg now s i exc db)"
  using edit_any [of e i "set_task task"] edit_any [of e i "unqueue now exc"]
  by (simp_all add: record_publish_success_def record_publish_failure_def)

lemma prune_effect: "scan_effect cfg e db (fst (prune_old_data cfg now unlink db))"
proof -
  have "\<exists>p. db_scans (fst (prune_old_data cfg now unlink db)) = filter p (db_scans db) \<and>
      db_next (fst (prune_old_data cfg now unlink db)) = db_next db"
    by (rule prune_invariant [where P = "\<lambda>d. \<exists>p. db_scans d = filter p (db_scans db) \<and> db_next d = db_next db"])
      (auto simp: drop_scan_def delete_where_def intro: exI [of _ "\<lambda>_. True"])
  then show ?thesis by (blast intro: Dropped)
qed

lemmas scan_effects = create_effect run_schedule_effect delete_effect cancel_effect schedule_handlers_effect
  start_effect task_effect publish_effect prune_effect

lemma scan_step_effect:
  assumes "scans_ok db"
  shows "scan_effect cfg e db (scan_step cfg db e)"
proof (cases e)
  case (Plan_tick now)
  then show ?thesis by (auto split: sum.splits intro: Ticked)
next
  case (Post_scan now broker org user target config)
  then show ?thesis using assms by (auto simp: post_scan_def split: option.splits intro: scan_effects)
next
  case (Post_schedule now org user body)
  then show ?thesis by (auto simp: post_schedule_def split: option.splits intro: scan_effects)
next
  case (Patch_schedule now i org body)
  then show ?thesis by (auto simp: patch_schedule_def split: option.splits intro: scan_effects)
qed (use assms in \<open>auto intro: scan_effects\<close>)

section \<open>Keys\<close>

lemma tick_rows:
  assumes "schedules_ok db" and "plan_tick cfg now db = Inr t"
  obtains rows where "db_scans (ti_db t) = db_scans db @ rows" and "map sn_id rows = [db_next db..<db_next (ti_db t)]"
    and "db_next db \<le> db_next (ti_db t)"
proof (rule plan_tick_effect [OF assms])
  fix ps :: "pending_scan list"
  assume ps: "db_scans (ti_db t) = db_scans db @ map (queued_row now) ps"
    "map pd_scan ps = [db_next db..<db_next (ti_db t)]" "db_next (ti_db t) = db_next db + length ps"
  show thesis by (rule that [of "map (queued_row now) ps"]) (use ps in \<open>simp_all add: comp_def\<close>)
qed

text \<open>Every event keeps the rows keyed, and what it adds has keys of its own.\<close>

lemma scan_step_rows:
  assumes "scans_ok db" and "schedules_ok db" and "s \<in> set (db_scans (scan_step cfg db e))"
  obtains (old) r where "r \<in> set (db_scans db)" and "sn_id r = sn_id s"
      and "sn_status r = CANCELLED \<Longrightarrow> sn_status s = CANCELLED \<or> fails_publish e (sn_id s)"
    | (new) "db_next db \<le> sn_id s" and "sn_id s < db_next (scan_step cfg db e)"
  using scan_step_effect [OF assms(1), of cfg e]
proof cases
  case Kept
  then show ?thesis using assms(3) old by simp
next
  case (Edited i f)
  then show ?thesis using assms(3) old by (auto simp: update_where_def row_edit_def split: if_splits)
next
  case (Added r)
  then show ?thesis using assms(3) old new by auto
next
  case (Ticked now t)
  obtain rows where rows: "db_scans (ti_db t) = db_scans db @ rows" "map sn_id rows = [db_next db..<db_next (ti_db t)]"
    by (rule tick_rows [OF assms(2) Ticked(1)])
  have "sn_id ` set rows = {db_next db..<db_next (ti_db t)}" using rows(2) by (metis atLeastLessThan_upt list.set_map)
  then have "db_next db \<le> sn_id s \<and> sn_id s < db_next (ti_db t)" if "s \<in> set rows"
    using imageI [OF that, of sn_id] by simp
  then show ?thesis using assms(3) old new rows(1) Ticked(2) by auto
next
  case (Dropped p)
  then show ?thesis using assms(3) old by auto
qed

lemma scan_step_keyed:
  assumes "scans_ok db" and "schedules_ok db"
  shows "keyed sn_id (db_scans (scan_step cfg db e)) \<and> db_next db \<le> db_next (scan_step cfg db e)"
  using scan_step_effect [OF assms(1), of cfg e]
proof cases
  case (Edited i f)
  then show ?thesis using scans_okD(1) [OF assms(1)] by (simp add: map_update_where)
next
  case (Added r)
  then show ?thesis using scans_okD [OF assms(1)] by fastforce
next
  case (Ticked now t)
  obtain rows where rows: "db_scans (ti_db t) = db_scans db @ rows" "map sn_id rows = [db_next db..<db_next (ti_db t)]"
      "db_next db \<le> db_next (ti_db t)"
    by (rule tick_rows [OF assms(2) Ticked(1)])
  have "sn_id ` set rows = {db_next db..<db_next (ti_db t)}" using rows(2) by (metis atLeastLessThan_upt list.set_map)
  then show ?thesis using scans_okD [OF assms(1)] rows Ticked(2) by fastforce
qed (use scans_okD(1) [OF assms(1)] in \<open>simp_all add: distinct_map_filter\<close>)

lemma scans_ok_scan_step:
  assumes "scans_ok db" and "schedules_ok db"
  shows "scans_ok (scan_step cfg db e)"
proof -
  have "sn_id s < db_next (scan_step cfg db e)" if "s \<in> set (db_scans (scan_step cfg db e))" for s
    using assms that scan_step_keyed [OF assms, of cfg e]
    by (cases rule: scan_step_rows) (auto dest: scans_okD(2) [OF assms(1)])
  then show ?thesis using scan_step_keyed [OF assms, of cfg e] by (simp add: scans_ok_def list_all_iff)
qed

lemma claims_ok_scan_step: "claims_ok db \<Longrightarrow> scans_ok db \<Longrightarrow> schedules_ok db \<Longrightarrow> claims_ok (scan_step cfg db e)"
  using scan_step_authority [of db cfg e] scan_step_keyed [of db cfg e] claims_ok_cong [of db "scan_step cfg db e"] by simp

section \<open>The schedule table\<close>

text \<open>Each handler that writes the table, once.\<close>

lemma drop_schedules_ok:
  assumes "schedules_ok db"
  shows "schedules_ok (drop_scan i db)"
  by (rule schedules_ok_timeless [OF assms timeless_ops(5) [of None]]) (simp_all add: drop_scan_def)

lemma create_schedules_ok:
  assumes ok: "schedules_ok db" and "validate_create body = Some b"
  shows "schedules_ok (fst (create_schedule cfg now org user b db))"
proof -
  have "schedules_ok (db\<lparr>db_schedules := db_schedules db @ [new_schedule (db_next db) org user b target next],
      db_next := db_next db + 1\<rparr>)" for target "next"
    using validate_create_runnable [OF assms(2)] schedules_okD(1,2,3) [OF ok]
    by (fastforce simp: schedules_ok_def list_all_iff new_schedule_def schedule_ok_def)
  then show ?thesis using ok by (simp add: create_schedule_def Let_def split: sum.splits)
qed

lemma update_schedules_ok:
  assumes ok: "schedules_ok db" and "validate_update body = Some b"
  shows "schedules_ok (fst (update_schedule now i org b db))"
proof (cases "load_schedule db i org")
  case (Inr s)
  then have s: "s \<in> set (db_schedules db)" "sc_id s = i"
    by (auto simp: load_schedule_def find_schedule_def dest: find_SomeD split: option.splits)
  have "schedules_ok (update_schedules i (\<lambda>_. (edit_row b s)\<lparr>sc_next_run := n\<rparr>) db)"
    if "\<not> (sc_cadence (edit_row b s) = WEEKLY \<and> sc_weekday (edit_row b s) = None)" for n
    by (rule schedules_ok_update [OF ok])
      (use edit_row_ok [OF assms(2) schedules_okD(3) [OF ok s(1)] that] s in \<open>simp_all add: schedule_ok_def\<close>)
  then show ?thesis using ok Inr by (simp add: update_schedule_def Let_def split: sum.splits)
qed (simp add: update_schedule_def ok)

lemma run_schedule_schedules_ok:
  assumes "schedules_ok db"
  shows "schedules_ok (fst (run_schedule_now cfg now broker i org user db))"
proof -
  have "schedules_ok (update_scan (db_next db) f (update_schedules i (\<lambda>s. s\<lparr>sc_last_scan := l, sc_last_run := m\<rparr>)
      (insert_scan o' u t c now db)))" for f l m o' u t c
    by (rule schedules_ok_timeless [OF assms timeless_ops(6)]) simp_all
  then show ?thesis using assms by (simp add: run_schedule_now_def Let_def split: sum.splits)
qed

lemma delete_schedules_ok:
  assumes "schedules_ok db"
  shows "schedules_ok (fst (delete_schedule i org db))" and "schedules_ok (fst (delete_scan i org db))"
proof -
  have "schedules_ok (db\<lparr>db_schedules := delete_where (\<lambda>s. sc_id s = i) (db_schedules db)\<rparr>)"
    using assms by (auto simp: schedules_ok_def list_all_iff intro: distinct_map_delete_where)
  then show "schedules_ok (fst (delete_schedule i org db))"
    using assms by (simp add: delete_schedule_def split: sum.splits)
  show "schedules_ok (fst (delete_scan i org db))"
    using assms drop_schedules_ok by (simp add: delete_scan_def split: sum.splits)
qed

lemma publish_schedules_ok:
  assumes "schedules_ok db"
  shows "schedules_ok (record_publish_success s i task db)" and "schedules_ok (record_publish_failure cfg now s i exc db)"
  unfolding record_publish_success_def record_publish_failure_def
  by (rule schedules_ok_timeless [OF assms timeless_ops(2)], simp_all)
    (rule schedules_ok_timeless [OF assms timeless_ops(3)], simp_all)

lemma prune_schedules_ok: "schedules_ok db \<Longrightarrow> schedules_ok (fst (prune_old_data cfg now unlink db))"
  by (rule prune_invariant [where P = schedules_ok]) (erule drop_schedules_ok, assumption, erule schedules_ok_same, simp_all)

lemma plan_schedules_ok:
  assumes "schedules_ok db" and "scans_ok db" and "plan_tick cfg now db = Inr t"
  shows "schedules_ok (ti_db t)"
  using plan_ok [OF _ assms(2,1), of False cfg now] assms(3) by (auto simp: tick_ok_def)

lemma tasks_leave_schedules [simp]:
  "db_schedules (fst (create_scan cfg now broker org user target config db)) = db_schedules db"
  "db_schedules (fst (cancel_scan now i org db)) = db_schedules db"
  "db_schedules (fst (run_pipeline now i target config db)) = db_schedules db"
  "db_schedules (fst (finalise_scan now i db)) = db_schedules db"
  "db_schedules (fst (fail_scan now i exc db)) = db_schedules db"
  by (simp_all add: create_scan_def cancel_scan_def run_pipeline_def finalise_scan_def fail_scan_def Let_def
      split: sum.splits option.splits)

lemma schedules_ok_scan_step:
  assumes ok: "schedules_ok db" and "scans_ok db"
  shows "schedules_ok (scan_step cfg db e)"
proof -
  have same: ?thesis if "db_schedules (scan_step cfg db e) = db_schedules db"
    using schedules_ok_same [OF ok that] scan_step_keyed [OF assms(2,1), of cfg e] by simp
  show ?thesis
  proof (cases e)
    case (Plan_tick now)
    then show ?thesis using ok plan_schedules_ok [OF assms] by (auto split: sum.splits)
  next
    case (Post_scan now broker org user target config)
    then show ?thesis using ok same by (simp add: post_scan_def split: option.splits)
  next
    case (Post_schedule now org user body)
    then show ?thesis using ok create_schedules_ok [OF ok] by (simp add: post_schedule_def split: option.splits)
  next
    case (Patch_schedule now i org body)
    then show ?thesis using ok update_schedules_ok [OF ok] by (simp add: patch_schedule_def split: option.splits)
  qed (use ok same run_schedule_schedules_ok delete_schedules_ok publish_schedules_ok prune_schedules_ok in
      \<open>simp_all add: set_stage_def bump_counters_def\<close>)
qed

section \<open>The cap\<close>

text \<open>
  The broker starts the task of a scan only while the scan has not run to its end. The
  code itself turns away a cancelled scan and no other.
\<close>

fun delivered_once :: "db \<Rightarrow> event \<Rightarrow> bool" where
  "delivered_once db (Scanning (Start_task now i target config)) =
     list_all (\<lambda>s. sn_id s = i \<longrightarrow> sn_status s \<notin> {COMPLETED, FAILED}) (db_scans db)"
| "delivered_once db e = True"

lemma cap_ok_update:
  assumes "cap_ok cfg db"
    and "\<And>s. s \<in> set (db_scans db) \<Longrightarrow> sn_id s = i \<Longrightarrow> sn_org (f s) = sn_org s \<and> (is_active_scan (f s) \<longrightarrow> is_active_scan s)"
  shows "cap_ok cfg (update_scan i f db)"
  using active_update_le [of db i f] assms(2) by (intro cap_ok_le [OF assms(1)]) blast

lemma cap_ok_cong: "cap_ok cfg db \<Longrightarrow> db_scans db' = db_scans db \<Longrightarrow> cap_ok cfg db'"
  by (simp add: cap_ok_def)

lemma count_where_filter_le: "count_where q (filter p xs) \<le> count_where q xs"
  by (induction xs) (auto simp: count_where_def)

lemma cap_ok_scan_step:
  assumes cap: "cap_ok cfg db" and "scans_ok db" and "schedules_ok db" and "delivered_once db (Scanning e)"
  shows "cap_ok cfg (scan_step cfg db e)"
  using scan_step_effect [OF assms(2), of cfg e]
proof cases
  case Kept
  then show ?thesis using cap_ok_cong [OF cap] by simp
next
  case (Edited i f)
  have "is_active_scan s" if "s \<in> set (db_scans db)" "starts e i" "sn_id s = i" "sn_status s \<noteq> CANCELLED" for s
    using that assms(4) by (cases e; cases "sn_status s") (auto simp: list_all_iff is_active_scan_def)
  then have "cap_ok cfg (update_scan i f db)"
    using Edited(4) by (intro cap_ok_update [OF cap]) (auto simp: row_edit_def)
  then show ?thesis using Edited(1) by (simp add: cap_ok_def)
next
  case (Added r)
  then show ?thesis using cap by (auto simp: cap_ok_iff active_count_Cons)
next
  case (Ticked now t)
  obtain t' where "plan_tick cfg now db = Inr t'" "tick_ok cfg True t'"
    using plan_ok [of True cfg db now] assms(1-3) by blast
  then show ?thesis using Ticked by (simp add: tick_ok_def)
next
  case (Dropped p)
  then show ?thesis by (intro cap_ok_le [OF cap]) (simp add: active_count_def count_where_filter_le)
qed

section \<open>Ownership events\<close>

text \<open>The domain handlers leave the scans alone and can only switch schedules off.\<close>

lemma revoke_effect:
  "db_scans (revoke_claim c db) = db_scans db \<and> db_next (revoke_claim c db) = db_next db \<and>
   (schedules_ok db \<longrightarrow> schedules_ok (revoke_claim c db))"
proof (intro conjI impI)
  assume ok: "schedules_ok db"
  show "schedules_ok (revoke_claim c db)"
  proof (cases "org_by_id db (cl_org c)")
    case None
    then show ?thesis by (intro schedules_ok_same [OF ok]) (simp_all add: revoke_claim_def Let_def)
  next
    case (Some org)
    then show ?thesis
      by (intro schedules_ok_timeless [OF ok timeless_ops(1) [of "revoke_reason c"]])
        (simp_all add: revoke_claim_def Let_def)
  qed
qed (simp_all add: revoke_claim_def Let_def split: option.splits)

lemma recheck_effect:
  "db_scans (snd (apply_recheck cfg now r st)) = db_scans (snd st) \<and>
   db_next (snd (apply_recheck cfg now r st)) = db_next (snd st) \<and>
   (schedules_ok (snd st) \<longrightarrow> schedules_ok (snd (apply_recheck cfg now r st)))"
proof -
  obtain i b err n db where eq: "r = (i, b, err)" "st = (n, db)" by (metis prod_cases3 surj_pair)
  have s: "schedules_ok (update_claim i f db) \<longleftrightarrow> schedules_ok db" for f by (simp add: schedules_ok_def)
  show ?thesis
    using revoke_effect [of "miss_claim now err c" "update_claim i (miss_claim now err) db" for c]
    by (simp add: eq apply_recheck_def Let_def s split: option.splits)
qed

lemma domain_step_effect:
  "db_scans (snd (domain_step cfg rs client st e)) = db_scans (snd st) \<and>
   db_next (snd st) \<le> db_next (snd (domain_step cfg rs client st e)) \<and>
   (schedules_ok (snd st) \<longrightarrow> schedules_ok (snd (domain_step cfg rs client st e)))"
proof -
  obtain r db where st: "st = (r, db)" by fastforce
  have keep: "schedules_ok db'" if "schedules_ok db" "db_schedules db' = db_schedules db" "db_next db \<le> db_next db'" for db'
    using that schedules_ok_same by blast
  show ?thesis
  proof (cases e)
    case (Reverify now check)
    have "db_scans (snd (foldl (\<lambda>st r. apply_recheck cfg now r st) s rs)) = db_scans (snd s) \<and>
        db_next (snd (foldl (\<lambda>st r. apply_recheck cfg now r st) s rs)) = db_next (snd s) \<and>
        (schedules_ok (snd s) \<longrightarrow> schedules_ok (snd (foldl (\<lambda>st r. apply_recheck cfg now r st) s rs)))" for s rs
      using recheck_effect [of cfg now] by (induction rs arbitrary: s) simp_all
    from this [of "(no_sweep, db)"] show ?thesis by (simp add: st Reverify reverify_domains_def Let_def)
  next
    case (Post_domain now token org user text')
    then show ?thesis using keep by (simp add: st post_domain_def add_domain_def Let_def split: sum.splits option.splits)
  next
    case (Verify_domain now token resolver claim org)
    then show ?thesis using keep
      by (simp add: st verify_domain_def Let_def split: sum.splits prod.splits verdict.splits)
  next
    case (Delete_domain claim org)
    then show ?thesis using keep by (simp add: st delete_domain_def split: sum.splits)
  qed
qed

section \<open>Cancelled for good\<close>

text \<open>The publish of the scan did not fail after someone cancelled it.\<close>

fun publish_not_failing :: "nat \<Rightarrow> event \<Rightarrow> bool" where
  "publish_not_failing i (Scanning (Record_failure now s j exc)) = (j \<noteq> i)"
| "publish_not_failing i e = True"

lemma finished_scan_step:
  assumes "finished i db" and "scans_ok db" and "schedules_ok db" and "publish_not_failing i (Scanning e)"
  shows "finished i (scan_step cfg db e)"
proof -
  have alive: "\<not> fails_publish e i" using assms(4) by (cases e) simp_all
  have "sn_status s = CANCELLED" if "s \<in> set (db_scans (scan_step cfg db e))" "sn_id s = i" for s
    using assms(2,3) that(1)
  proof (cases rule: scan_step_rows)
    case (old r)
    then show ?thesis using assms(1) alive that(2) by (simp add: finished_def list_all_iff)
  next
    case new
    then show ?thesis using assms(1) that(2) by (simp add: finished_def)
  qed
  then show ?thesis
    using assms(1) scan_step_keyed [OF assms(2,3), of cfg e] by (simp add: finished_def list_all_iff)
qed

section \<open>The invariants of every history\<close>

definition sound_db :: "db \<Rightarrow> bool" where
  "sound_db db = (claims_ok db \<and> scans_ok db \<and> schedules_ok db)"

lemma app_step_sound:
  assumes "sound_db (snd st)"
  shows "sound_db (snd (app_step cfg rs client st e))"
proof (cases e)
  case (Scanning x)
  then show ?thesis
    using assms scans_ok_scan_step schedules_ok_scan_step claims_ok_scan_step by (cases st) (simp add: sound_db_def)
next
  case (Ownership x)
  have "claims_ok (snd (domain_step cfg rs client st x))"
    using claims.step_good [of st cfg rs client x] assms by (simp add: sound_db_def)
  moreover have "scans_ok (snd (domain_step cfg rs client st x))"
    using domain_step_effect [of cfg rs client st x] assms
    by (fastforce simp: sound_db_def scans_ok_def list_all_iff)
  ultimately show ?thesis
    using Ownership domain_step_effect [of cfg rs client st x] assms by (cases st) (simp add: sound_db_def)
qed

lemma app_step_cap:
  assumes "sound_db (snd st) \<and> cap_ok cfg (snd st)" and "delivered_once (snd st) e"
  shows "sound_db (snd (app_step cfg rs client st e)) \<and> cap_ok cfg (snd (app_step cfg rs client st e))"
proof (intro conjI app_step_sound)
  show "cap_ok cfg (snd (app_step cfg rs client st e))"
  proof (cases e)
    case (Scanning x)
    then show ?thesis using assms cap_ok_scan_step by (cases st) (simp add: sound_db_def)
  next
    case (Ownership x)
    then show ?thesis using assms domain_step_effect [of cfg rs client st x] cap_ok_cong by (cases st) auto
  qed
qed (use assms in simp)

lemma app_step_finished:
  assumes "sound_db (snd st) \<and> finished i (snd st)" and "publish_not_failing i e"
  shows "sound_db (snd (app_step cfg rs client st e)) \<and> finished i (snd (app_step cfg rs client st e))"
proof (intro conjI app_step_sound)
  show "finished i (snd (app_step cfg rs client st e))"
  proof (cases e)
    case (Scanning x)
    then show ?thesis using assms finished_scan_step by (cases st) (simp add: sound_db_def)
  next
    case (Ownership x)
    then show ?thesis using assms domain_step_effect [of cfg rs client st x] by (cases st) (auto simp: finished_def)
  qed
qed (use assms in simp)

interpretation app: kept_system "app_step cfg rs client" "\<lambda>st. sound_db (snd st)" for cfg rs client
  by unfold_locales (rule app_step_sound)

interpretation capped: guarded_system "app_step cfg rs client" "\<lambda>st e. delivered_once (snd st) e"
  "\<lambda>st. sound_db (snd st) \<and> cap_ok cfg (snd st)" for cfg rs client
  by unfold_locales (rule app_step_cap)

interpretation ended: guarded_system "app_step cfg rs client" "\<lambda>st e. publish_not_failing i e"
  "\<lambda>st. sound_db (snd st) \<and> finished i (snd st)" for cfg rs client i
  by unfold_locales (rule app_step_finished)

section \<open>A broker that is down\<close>

lemma new_scan_id [simp]: "sn_id (new_scan i org u t c now) = i"
  by (simp add: new_scan_def)

lemma active_unqueued [simp]: "active_count org [unqueue now exc s] = 0"
  by (simp add: active_count_def)

lemma active_tick_failed:
  assumes "schedules_ok db" and "scans_ok db"
    and "dispatch_due_scans cfg moment later (\<lambda>i. Inl (exc i)) db = (db', Inr n)"
  shows "active_count org (db_scans db') = active_count org (db_scans db)"
proof -
  obtain t where t: "plan_tick cfg moment db = Inr t"
      "publish cfg later (\<lambda>i. Inl (exc i)) (ti_pending t) (ti_db t, ti_counters t) = (db', n)"
    using assms(3) by (auto simp: dispatch_due_scans_def split: sum.splits prod.splits)
  obtain ps where ps: "tick_effect cfg moment (due_schedules moment db) (new_tick (length (due_schedules moment db)) db) t ps"
    using plan_effect [OF assms(1) t(1)] .
  have e: "ti_pending t = ps" "distinct (map pd_scan ps)" "db_scans (ti_db t) = db_scans db @ map (queued_row moment) ps"
      "map pd_scan ps = [db_next db..<db_next (ti_db t)]"
    using ps by (simp_all add: tick_effect_def new_tick_def Let_def)
  have ids: "pd_scan ` set ps = {db_next db..<db_next (ti_db t)}" using e(4) by (metis atLeastLessThan_upt list.set_map)
  let ?row = "publish_row later (\<lambda>i. Inl (exc i))"
  have "update_where (\<lambda>s. sn_id s \<in> pd_scan ` set ps) ?row (db_scans db) = db_scans db"
    using scans_okD(2) [OF assms(2)] unfolding ids by (intro update_where_none) fastforce
  moreover have "update_where (\<lambda>s. sn_id s \<in> pd_scan ` set ps) ?row (map (queued_row moment) ps) = map (\<lambda>p. ?row (queued_row moment p)) ps"
    by (simp add: update_where_def)
  ultimately have "db_scans db' = db_scans db @ map (\<lambda>p. ?row (queued_row moment p)) ps"
    using publish_scans [OF _ t(2)] e(1-3) by simp
  moreover have "active_count org (map (\<lambda>p. ?row (queued_row moment p)) ps) = 0"
    by (simp add: active_count_def count_where_def publish_row_def)
  ultimately show ?thesis by simp
qed

text \<open>
  C18: a broker that is down costs nobody a slot. When publishing fails, creating a scan,
  running a schedule now and a whole tick of the dispatcher leave the number of active scans
  of every organisation as it was; the two handlers answer an error, never a scan.
\<close>

theorem broker_failure_frees_the_slot:
  assumes "scans_ok db" and "schedules_ok db"
  shows "(\<forall>db' res. create_scan cfg now (Inl exc) org user target config db = (db', res) \<longrightarrow>
      active_count o' (db_scans db') = active_count o' (db_scans db) \<and> (\<nexists>i. res = Inr i)) \<and>
    (\<forall>db' res. run_schedule_now cfg now (Inl exc) k org user db = (db', res) \<longrightarrow>
      active_count o' (db_scans db') = active_count o' (db_scans db) \<and> (\<nexists>i. res = Inr i)) \<and>
    (\<forall>db' n. dispatch_due_scans cfg now later (\<lambda>i. Inl (excs i)) db = (db', Inr n) \<longrightarrow>
      active_count o' (db_scans db') = active_count o' (db_scans db))"
proof (intro conjI allI impI)
  note new = no_row_yet [OF assms(1)]
  show "active_count o' (db_scans db') = active_count o' (db_scans db)"
    if "create_scan cfg now (Inl exc) org user target config db = (db', res)" for db' res
    using that new by (auto simp: create_scan_def Let_def split: option.splits sum.splits if_splits)
  show "\<nexists>i. res = Inr i" if "create_scan cfg now (Inl exc) org user target config db = (db', res)" for db' res
    using that by (auto simp: create_scan_def Let_def split: option.splits sum.splits if_splits)
  show "active_count o' (db_scans db') = active_count o' (db_scans db)"
    if "run_schedule_now cfg now (Inl exc) k org user db = (db', res)" for db' res
    using that new by (auto simp: run_schedule_now_def Let_def split: sum.splits if_splits)
  show "\<nexists>i. res = Inr i" if "run_schedule_now cfg now (Inl exc) k org user db = (db', res)" for db' res
    using that by (auto simp: run_schedule_now_def Let_def split: sum.splits if_splits)
qed (rule active_tick_failed [OF assms(2,1)])

theorem broker_failure_frees_the_slot_witness:
  "case run_schedule_now small_cap 10 (Inl ''OperationalError'') 3 1 7 busy_db of
     (db', res) \<Rightarrow> length (db_scans db') = 1 \<and> active_count 1 (db_scans db') = 0 \<and> res = Inl queue_unavailable"
proof -
  let ?r = "run_schedule_now small_cap 10 (Inl ''OperationalError'') 3 1 7 busy_db"
  have "active_count 1 (db_scans busy_db) = 0" "snd ?r = Inl queue_unavailable" "length (db_scans (fst ?r)) = 1" by code_simp+
  moreover have "active_count 1 (db_scans (fst ?r)) = active_count 1 (db_scans busy_db)"
    using broker_failure_frees_the_slot [OF busy_ok(2,1), of small_cap 10 "''OperationalError''" 1 7 "[]" "[]" 1 3]
    by (metis prod.collapse)
  ultimately show ?thesis by (auto split: prod.splits)
qed

section \<open>Histories\<close>

text \<open>A small database, a cap of one, and a day in its life.\<close>

definition small_db :: db where
  "small_db =
    \<lparr>db_next = 20,
     db_orgs = [\<lparr>og_id = 1, og_name = ''Acme'', og_domain = ''a.co'', og_verified = [''a.co''], og_active = True, og_webhook = None\<rparr>],
     db_users = [], db_sessions = [],
     db_claims = [(new_claim 2 1 None ''a.co'' ''tok'' 0)\<lparr>cl_status := CLAIM_VERIFIED\<rparr>],
     db_scans = [], db_logs = [],
     db_schedules = [\<lparr>sc_id = 3, sc_org = 1, sc_created_by = None, sc_name = ''n'', sc_target = ''w.a.co'', sc_config = [],
       sc_cadence = HOURLY, sc_hour = 3, sc_weekday = None, sc_enabled = True, sc_next_run = 5, sc_last_run = None,
       sc_last_scan = None, sc_failures = 0, sc_disabled_reason = None\<rparr>],
     db_reports = []\<rparr>"

lemma small_sound: "sound_db small_db" and small_cap_ok: "cap_ok small_cap small_db"
  by code_simp+

definition busy_history :: "event list" where
  "busy_history =
    [Scanning (Plan_tick 10), Scanning (Post_scan 11 (Inr ''t'') 1 7 ''a.co'' default_config),
     Scanning (Record_success 3 20 ''u''), Scanning (Start_task 12 20 ''a.co'' []), Scanning (Finish_task 13 20),
     Scanning (Post_scan 14 (Inr ''v'') 1 7 ''https://w.a.co/login'' default_config),
     Scanning (Cancel_scan 15 21 1), Scanning (Start_task 16 21 ''w.a.co'' [])]"

abbreviation busy_run :: "event list \<Rightarrow> db" where
  "busy_run es \<equiv> snd (foldl (app_step small_cap default_rate_settings rd_client) (rd_empty, small_db) es)"

text \<open>
  C21: every interleaving of requests, tasks, ticks, sweeps and domain changes keeps the
  database sound: scanning authority agrees with the verified claims, rows are keyed, and
  every stored schedule has an hour, a weekday and a cadence that the dispatcher can run.
\<close>

theorem every_history_is_sound:
  assumes "sound_db db" and "db' = snd (foldl (app_step cfg rs client) (r, db) es)"
  shows "claims_ok db' \<and> scans_ok db' \<and> schedules_ok db'"
  using app.run_good [of "(r, db)" cfg rs client es] assms by (simp add: sound_db_def)

theorem every_history_is_sound_witness:
  "schedules_ok (busy_run busy_history) \<and> map sn_status (db_scans (busy_run busy_history)) = [COMPLETED, CANCELLED]"
  using every_history_is_sound [OF small_sound refl, of small_cap default_rate_settings rd_client rd_empty busy_history]
  by (intro conjI) (simp, code_simp)

text \<open>
  C10: in every history in which the broker does not start the task of a scan that has
  already completed or failed, no organisation ever has more scans queued or running than
  the cap, whichever of the three ways they were made.
\<close>

theorem concurrency_cap_holds:
  assumes "sound_db db" and "cap_ok cfg db"
    and "allowed_run (app_step cfg rs client) (\<lambda>st e. delivered_once (snd st) e) (r, db) es"
  shows "active_count org (db_scans (snd (foldl (app_step cfg rs client) (r, db) es))) \<le> st_max_concurrent cfg"
  using capped.run_safe [of "(r, db)" cfg rs client es] assms by (simp add: cap_ok_iff)

theorem concurrency_cap_holds_witness:
  "active_count 1 (db_scans (busy_run (take 5 busy_history))) \<le> 1 \<and> active_count 1 (db_scans (busy_run (take 4 busy_history))) = 1"
proof -
  have "allowed_run (app_step small_cap default_rate_settings rd_client) (\<lambda>st e. delivered_once (snd st) e)
      (rd_empty, small_db) (take 5 busy_history)" by code_simp
  moreover have "st_max_concurrent small_cap = 1" by (simp add: small_cap_def)
  ultimately show ?thesis using concurrency_cap_holds [OF small_sound small_cap_ok] by (intro conjI) (fastforce, code_simp)
qed

text \<open>
  Without the hypothesis the cap does not hold: the task guards only against CANCELLED, so
  a redelivered start of a failed scan makes it RUNNING again, beside the scan that has
  taken its place.
\<close>

lemma redelivered_start_revives_a_scan:
  "let es = [Scanning (Post_scan 11 (Inr ''t'') 1 7 ''a.co'' default_config), Scanning (Fail_task 12 20 None),
         Scanning (Post_scan 13 (Inr ''u'') 1 7 ''a.co'' default_config), Scanning (Start_task 14 20 ''a.co'' [])]
   in map sn_status (db_scans (busy_run es)) = [RUNNING, QUEUED] \<and>
      st_max_concurrent small_cap = 1 \<and> active_count 1 (db_scans (busy_run es)) = 2"
  by code_simp

text \<open>
  C15: cancelling is final. Once a scan is cancelled no event makes it run, complete or fail
  again: tasks that start, finish or fail late, the scheduler and every handler leave its row
  cancelled or drop it, and no later scan takes its key. The one exception the code leaves is
  a publish of that very scan that fails after the cancellation.
\<close>

theorem cancelled_scan_stays_cancelled:
  assumes "sound_db db" and "get_scan db i org = Inr s" and "sn_status s = CANCELLED"
    and "list_all (publish_not_failing i) es"
    and "x \<in> set (db_scans (snd (foldl (app_step cfg rs client) (r, db) es)))" and "sn_id x = i"
  shows "sn_status x = CANCELLED"
proof -
  have ok: "scans_ok db" using assms(1) by (simp add: sound_db_def)
  have s: "s \<in> set (db_scans db)" "sn_id s = i"
    using assms(2) find_SomeD unfolding get_scan_def find_scan_def by (fastforce split: option.splits)+
  have "y = s" if "y \<in> set (db_scans db)" "sn_id y = i" for y
    using keyed_unique [OF scans_okD(1) [OF ok] that(1) s(1)] that(2) s(2) by simp
  moreover have "i < db_next db" using scans_okD(2) [OF ok s(1)] s(2) by simp
  ultimately have "finished i db" using assms(3) by (auto simp: finished_def list_all_iff)
  then have "finished i (snd (foldl (app_step cfg rs client) (r, db) es))"
    using ended.run_safe [of "(r, db)" i cfg rs client es] assms(1,4)
    by (simp add: allowed_run_always \<open>finished i db\<close>)
  then show ?thesis using assms(5,6) by (auto simp: finished_def list_all_iff)
qed

theorem cancelled_scan_stays_cancelled_witness:
  "map sn_id (db_scans (busy_run busy_history)) = [20, 21] \<and> sn_status (db_scans (busy_run busy_history) ! 1) = CANCELLED"
proof -
  let ?st = "foldl (app_step small_cap default_rate_settings rd_client) (rd_empty, small_db) (take 7 busy_history)"
  have run: "busy_run busy_history = snd (foldl (app_step small_cap default_rate_settings rd_client) ?st (drop 7 busy_history))"
    by (metis append_take_drop_id foldl_append)
  have ids: "map sn_id (db_scans (busy_run busy_history)) = [20, 21]" by code_simp
  have "case get_scan (snd ?st) 21 1 of Inl e \<Rightarrow> False | Inr s \<Rightarrow> sn_status s = CANCELLED" by code_simp
  then obtain s where s: "get_scan (snd ?st) 21 1 = Inr s" "sn_status s = CANCELLED" by (auto split: sum.splits)
  have "list_all (publish_not_failing 21) (drop 7 busy_history)" by code_simp
  moreover have "sound_db (snd ?st)"
    using app.run_good [of "(rd_empty, small_db)" small_cap default_rate_settings rd_client "take 7 busy_history"] small_sound by simp
  moreover have "length (db_scans (busy_run busy_history)) = 2" using arg_cong [OF ids, of length] by simp
  then have "db_scans (busy_run busy_history) ! 1 \<in> set (db_scans (busy_run busy_history))" by simp
  moreover have "sn_id (db_scans (busy_run busy_history) ! 1) = 21"
    using arg_cong [OF ids, of "\<lambda>l. l ! 1"] \<open>length (db_scans (busy_run busy_history)) = 2\<close> by simp
  ultimately show ?thesis
    using cancelled_scan_stays_cancelled [OF _ s, of "drop 7 busy_history" _ small_cap default_rate_settings rd_client "fst ?st"]
      run ids by simp
qed

lemma failed_publish_overrides_cancellation:
  "map sn_status (db_scans (busy_run [Scanning (Plan_tick 10), Scanning (Cancel_scan 11 20 1),
     Scanning (Record_failure 12 3 20 ''OperationalError'')])) = [FAILED]"
  by code_simp

end
