(* ===== verification/Webhook.thy ===== *)
theory Webhook
  imports SafeHttp Tables
begin

text \<open>
  The Slack webhook URL of an organisation: its validation, the hint shown in its place and
  the request that posts to it (\<open>workers/notifier.py\<close>), with \<open>urllib.parse.urlparse\<close> as far as they use it. A webhook is a
  credential; its last path segment is the secret.
\<close>

section \<open>urlparse\<close>

text \<open>C0 control characters and space, which are dropped at the front; tab and line ends, dropped everywhere.\<close>

definition is_c0 :: "char \<Rightarrow> bool" where
  "is_c0 c = (ord c \<le> 32)"

definition is_unsafe :: "char \<Rightarrow> bool" where
  "is_unsafe c = (c \<in> {CHR 0x09, CHR 0x0A, CHR 0x0D})"

definition is_scheme_char :: "char \<Rightarrow> bool" where
  "is_scheme_char c = (is_ascii_lower c \<or> is_ascii_upper c \<or> is_ascii_digit c \<or> c \<in> {CHR ''+'', CHR ''-'', CHR ''.''})"

definition split_scheme :: "string \<Rightarrow> string \<times> string" where
  "split_scheme url =
    (case cut '':'' url of
       Some (a, rest) \<Rightarrow>
         (if a \<noteq> [] \<and> (is_ascii_lower (hd a) \<or> is_ascii_upper (hd a)) \<and> list_all is_scheme_char a then (lower a, rest) else ([], url))
     | None \<Rightarrow> ([], url))"

definition is_delimiter :: "char \<Rightarrow> bool" where
  "is_delimiter c = (c \<in> {CHR ''/'', CHR ''?'', CHR ''#''})"

definition split_netloc :: "string \<Rightarrow> string \<times> string" where
  "split_netloc url =
    (if prefix ''//'' url then (takeWhile (\<lambda>c. \<not> is_delimiter c) (drop 2 url), dropWhile (\<lambda>c. \<not> is_delimiter c) (drop 2 url))
     else ([], url))"

text \<open>A host in brackets is an IPv6 address or an IPvFuture.\<close>

definition is_hex :: "char \<Rightarrow> bool" where
  "is_hex c = (is_ascii_digit c \<or> (is_ascii_lower (lower_char c) \<and> ord (lower_char c) \<le> 102))"

definition is_future :: "string \<Rightarrow> bool" where
  "is_future h =
    (case cut ''.'' (drop 1 h) of
       Some (v, rest) \<Rightarrow> v \<noteq> [] \<and> list_all is_hex v \<and> rest \<noteq> [] \<and> CHR 0x0A \<notin> set rest
     | None \<Rightarrow> False)"

definition bracketed_ok :: "string \<Rightarrow> bool" where
  "bracketed_ok h = (if prefix ''v'' h then is_future h else case ip_address h of Some (IPv6 _) \<Rightarrow> True | _ \<Rightarrow> False)"

definition after_user :: "string \<Rightarrow> string" where
  "after_user netloc = after_last CHR ''@'' netloc"

text \<open>Nothing may stand before the bracket, and only a port after it.\<close>

definition bad_brackets :: "string \<Rightarrow> bool" where
  "bad_brackets netloc =
    (let opening = CHR ''['' \<in> set netloc; closing = CHR '']'' \<in> set netloc; info = after_user netloc in
     opening \<noteq> closing \<or>
     (opening \<and> closing \<and>
      (case cut ''['' info of
         None \<Rightarrow> \<not> bracketed_ok (before CHR '':'' info)
       | Some (a, bracketed) \<Rightarrow>
           (let port = drop 1 (dropWhile (\<lambda>c. c \<noteq> CHR '']'') bracketed) in
            a \<noteq> [] \<or> (port \<noteq> [] \<and> \<not> prefix '':'' port) \<or> \<not> bracketed_ok (before CHR '']'' bracketed)))))"

record url_parts =
  up_scheme :: string
  up_netloc :: string
  up_path :: string

text \<open>The schemes whose last path segment has parameters, of which https is one.\<close>

definition uses_params :: "string list" where
  "uses_params = ['''', ''ftp'', ''hdl'', ''prospero'', ''http'', ''https'', ''shttp'', ''rtsp'', ''rtsps'', ''rtspu'', ''sip'', ''sips'',
    ''mms'', ''sftp'', ''tel'']"

definition without_params :: "string \<Rightarrow> string" where
  "without_params path =
    (let last = after_last CHR ''/'' path in take (length path - length last) path @ before CHR '';'' last)"

text \<open>None is the ValueError of a malformed host in brackets.\<close>

definition urlparse :: "string \<Rightarrow> url_parts option" where
  "urlparse s =
    (let url = filter (\<lambda>c. \<not> is_unsafe c) (dropWhile is_c0 s);
         (scheme, rest) = split_scheme url;
         (netloc, tail) = split_netloc rest;
         path = before CHR ''?'' (before CHR ''#'' tail)
     in if bad_brackets netloc then None
        else Some \<lparr>up_scheme = scheme, up_netloc = netloc,
               up_path = (if scheme \<in> set uses_params \<and> CHR '';'' \<in> set path then without_params path else path)\<rparr>)"

text \<open>The property \<open>hostname\<close>: no user, no port, in lower case up to a zone.\<close>

definition host_part :: "string \<Rightarrow> string" where
  "host_part netloc =
    (let info = after_user netloc in
     if CHR ''['' \<in> set info then before CHR '']'' (drop 1 (dropWhile (\<lambda>c. c \<noteq> CHR ''['') info))
     else before CHR '':'' info)"

definition hostname :: "url_parts \<Rightarrow> string option" where
  "hostname u =
    (let h = host_part (up_netloc u) in
     if h = [] then None else Some (lower (before CHR ''%'' h) @ dropWhile (\<lambda>c. c \<noteq> CHR ''%'') h))"

section \<open>Validation\<close>

datatype webhook_error = Invalid_webhook string | Value_error

definition slack_host :: string where
  "slack_host = ''hooks.slack.com''"

definition validate_webhook_url :: "string \<Rightarrow> webhook_error + string" where
  "validate_webhook_url url =
    (let candidate = strip url in
     if candidate = [] then Inl (Invalid_webhook ''Webhook URL is empty'')
     else case urlparse candidate of
       None \<Rightarrow> Inl Value_error
     | Some parsed \<Rightarrow>
         (if up_scheme parsed \<noteq> ''https'' then Inl (Invalid_webhook ''Webhook URL must use https'')
          else if hostname parsed \<noteq> Some slack_host then Inl (Invalid_webhook (''Webhook URL must be on '' @ slack_host))
          else if \<not> prefix ''/services/'' (up_path parsed)
            then Inl (Invalid_webhook ''Not an incoming-webhook URL (expected /services/...)'')
          else if 512 < length candidate then Inl (Invalid_webhook ''Webhook URL is too long'')
          else Inr candidate))"

text \<open>The payload: null and blank text clear the webhook. None is a payload that is refused.\<close>

definition validate_webhook_body :: "string option \<Rightarrow> string option option" where
  "validate_webhook_body v =
    (case v of
       None \<Rightarrow> Some None
     | Some url \<Rightarrow>
         (if 512 < length url then None
          else if strip url = [] then Some None
          else case validate_webhook_url url of Inl _ \<Rightarrow> None | Inr u \<Rightarrow> Some (Some u)))"

section \<open>The hint\<close>

text \<open>The bullet and the ellipsis, in UTF-8.\<close>

definition bullet :: string where
  "bullet = [CHR 0xE2, CHR 0x80, CHR 0xA2]"

definition ellipsis :: string where
  "ellipsis = [CHR 0xE2, CHR 0x80, CHR 0xA6]"

text \<open>None of the outer option: the ValueError of \<open>urlparse\<close>.\<close>

definition redact :: "string option \<Rightarrow> string option option" where
  "redact url =
    (case url of
       None \<Rightarrow> Some None
     | Some u \<Rightarrow>
         (if u = [] then Some None
          else case urlparse u of
            None \<Rightarrow> None
          | Some parsed \<Rightarrow>
              (case split_on CHR ''/'' (strip_if (\<lambda>c. c = CHR ''/'') (up_path parsed)) of
                 services # team # channel # _ \<Rightarrow>
                   (if services = ''services''
                    then Some (Some (''hooks.slack.com/services/'' @ team @ ''/'' @ channel @ ''/'' @ concat (replicate 8 bullet)))
                    else Some (Some (''hooks.slack.com/services/'' @ ellipsis)))
               | _ \<Rightarrow> Some (Some (''hooks.slack.com/services/'' @ ellipsis)))))"

section \<open>Posting\<close>

text \<open>
  What \<open>httpx\<close> does is a parameter: the request it builds from a URL, or none for a URL it
  refuses, and the answer to a request once the hook of the safe client has pinned it.
  \<open>InvalidURL\<close> of \<open>httpx\<close> and the hook's error are not \<open>HTTPError\<close>s and pass through.
\<close>

datatype slack_answer = Slack_failed | Slack_status int

datatype post_error = Malformed_url | Invalid_url | Blocked scope_error

record slack_client =
  sc_build :: "string \<Rightarrow> http_request option"
  sc_lookup :: lookup
  sc_answer :: "http_request \<Rightarrow> json \<Rightarrow> slack_answer"

text \<open>The request that leaves for a URL: one, or none with the reason.\<close>

definition slack_request :: "slack_client \<Rightarrow> string \<Rightarrow> post_error + http_request" where
  "slack_request client url =
    (case sc_build client url of
       None \<Rightarrow> Inl Invalid_url
     | Some request \<Rightarrow> (case request_hook (sc_lookup client) request of Inl e \<Rightarrow> Inl (Blocked e) | Inr pinned \<Rightarrow> Inr pinned))"

definition post :: "slack_client \<Rightarrow> string \<Rightarrow> json \<Rightarrow> post_error + bool" where
  "post client url payload =
    (case validate_webhook_url url of
       Inl (Invalid_webhook _) \<Rightarrow> Inr False
     | Inl Value_error \<Rightarrow> Inl Malformed_url
     | Inr _ \<Rightarrow>
         (case slack_request client url of
            Inl e \<Rightarrow> Inl e
          | Inr request \<Rightarrow>
              (case sc_answer client request payload of
                 Slack_failed \<Rightarrow> Inr False
               | Slack_status code \<Rightarrow> if code = 404 then Inr False else if 400 \<le> code then Inr False else Inr True)))"

section \<open>A webhook that may be stored\<close>

definition webhook_ok :: "string option \<Rightarrow> bool" where
  "webhook_ok url = (case url of None \<Rightarrow> True | Some u \<Rightarrow> validate_webhook_url u = Inr u)"

lemma strip_idem [simp]: "strip (strip s) = strip s"
  by (simp add: strip_def strip_if_idem)

lemma validate_webhook_url_Inr: "validate_webhook_url url = Inr u \<Longrightarrow> u = strip url \<and> u \<noteq> []"
  by (auto simp: validate_webhook_url_def Let_def split: if_splits option.splits)

lemma validated_webhook_ok: "validate_webhook_body body = Some url \<Longrightarrow> webhook_ok url"
proof (cases body)
  case (Some v)
  assume a: "validate_webhook_body body = Some url"
  have "validate_webhook_url u = Inr u" if "validate_webhook_url v = Inr u" for u
    using that validate_webhook_url_Inr [OF that] by (simp add: validate_webhook_url_def Let_def)
  with a Some show ?thesis by (auto simp: validate_webhook_body_def webhook_ok_def split: if_splits sum.splits)
qed (auto simp: validate_webhook_body_def webhook_ok_def)

end
