(* ===== verification/Auth.thy ===== *)
theory Auth
  imports DomainClaims Passwords Webhook
begin

text \<open>
  Accounts and sessions: passwords and tokens (\<open>core/security.py\<close>), the authenticated
  principal and the role gates (\<open>core/deps.py\<close>), the refresh sessions
  (\<open>models/refresh_session.py\<close>) and the handlers of \<open>routes/auth.py\<close>. bcrypt, the JWT
  library, SHA-256 and the breach service are parameters, the fields of \<open>crypto\<close>. A nonce
  (a salt, a token id) is the next number of the database's counter.
\<close>

section \<open>Passwords and tokens\<close>

text \<open>The claims of a JWT the program signs; an absent claim is None.\<close>

record claims =
  cm_sub :: "string option"
  cm_org :: "string option"
  cm_role :: "string option"
  cm_tv :: "int option"
  cm_type :: "string option"
  cm_iat :: "int option"
  cm_exp :: "int option"
  cm_jti :: "string option"

record crypto =
  cy_hashpw :: "int list \<Rightarrow> nat \<Rightarrow> string"
  cy_checkpw :: "int list \<Rightarrow> string \<Rightarrow> bool option"
  cy_sign :: "claims \<Rightarrow> string"
  cy_verify :: "string \<Rightarrow> int \<Rightarrow> string + claims"
  cy_sha256 :: "string \<Rightarrow> string"
  cy_sha1 :: "string \<Rightarrow> string"
  cy_range :: "string \<Rightarrow> string option"

record auth_settings =
  as_access_minutes :: int
  as_refresh_days :: int
  as_hibp :: bool
  as_hibp_max :: int

definition default_auth_settings :: auth_settings where
  "default_auth_settings = \<lparr>as_access_minutes = 30, as_refresh_days = 14, as_hibp = False, as_hibp_max = 1\<rparr>"

text \<open>The UTF-8 bytes of a string of characters below 256.\<close>

definition utf8 :: "string \<Rightarrow> int list" where
  "utf8 s = concat (map (\<lambda>c. let n = ord c in if n < 128 then [n] else [192 + n div 64, 128 + n mod 64]) s)"

definition prepare :: "string \<Rightarrow> int list" where
  "prepare password = slice_to 72 (utf8 password)"

definition hash_password :: "crypto \<Rightarrow> string \<Rightarrow> nat \<Rightarrow> string" where
  "hash_password cy password salt = cy_hashpw cy (prepare password) salt"

definition verify_password :: "crypto \<Rightarrow> string \<Rightarrow> string \<Rightarrow> bool" where
  "verify_password cy password hash =
    (case cy_checkpw cy (prepare password) hash of None \<Rightarrow> False | Some ok \<Rightarrow> ok)"

fun role_name :: "user_role \<Rightarrow> string" where
  "role_name VIEWER = ''viewer''"
| "role_name ANALYST = ''analyst''"
| "role_name ADMIN = ''admin''"
| "role_name OWNER = ''owner''"

definition uuid_str :: "nat \<Rightarrow> string" where
  "uuid_str i = dec (int i)"

definition uuid_parse :: "string \<Rightarrow> nat option" where
  "uuid_parse s = (if s \<noteq> [] \<and> list_all is_ascii_digit s then Some (nat (undec 0 s)) else None)"

definition create_claims :: "user_row \<Rightarrow> string \<Rightarrow> int \<Rightarrow> int \<Rightarrow> nat \<Rightarrow> claims" where
  "create_claims user token_type lifetime now jti =
    \<lparr>cm_sub = Some (uuid_str (us_id user)), cm_org = Some (uuid_str (us_org user)),
     cm_role = Some (role_name (us_role user)), cm_tv = Some (us_token_version user), cm_type = Some token_type,
     cm_iat = Some (now div 1000000), cm_exp = Some ((now + lifetime) div 1000000), cm_jti = Some (uuid_str jti)\<rparr>"

definition create_access_token :: "crypto \<Rightarrow> auth_settings \<Rightarrow> user_row \<Rightarrow> int \<Rightarrow> nat \<Rightarrow> string" where
  "create_access_token cy cfg user now jti =
    cy_sign cy (create_claims user ''access'' (as_access_minutes cfg * 60000000) now jti)"

definition create_refresh_token :: "crypto \<Rightarrow> auth_settings \<Rightarrow> user_row \<Rightarrow> int \<Rightarrow> nat \<Rightarrow> string" where
  "create_refresh_token cy cfg user now jti =
    cy_sign cy (create_claims user ''refresh'' (as_refresh_days cfg * us_day) now jti)"

record token_data =
  tp_user :: nat
  tp_org :: nat
  tp_role :: string
  tp_version :: int
  tp_type :: string
  tp_jti :: "string option"
  tp_exp :: int

text \<open>
  \<open>TokenPayload\<close> of the claims: a missing key or a malformed id is None. The decoder asks
  the library for \<open>exp\<close>, \<open>sub\<close> and \<open>iat\<close>.
\<close>

definition token_payload :: "claims \<Rightarrow> token_data option" where
  "token_payload c =
    (case (Option.bind (cm_sub c) uuid_parse, Option.bind (cm_org c) uuid_parse, cm_role c, cm_exp c) of
       (Some user, Some org, Some role, Some e) \<Rightarrow>
         Some \<lparr>tp_user = user, tp_org = org, tp_role = role,
           tp_version = (case cm_tv c of None \<Rightarrow> 0 | Some v \<Rightarrow> v),
           tp_type = (case cm_type c of None \<Rightarrow> ''access'' | Some t \<Rightarrow> t), tp_jti = cm_jti c, tp_exp = e\<rparr>
     | _ \<Rightarrow> None)"

definition decode_token :: "crypto \<Rightarrow> int \<Rightarrow> string \<Rightarrow> string \<Rightarrow> string + token_data" where
  "decode_token cy now token expect =
    (case cy_verify cy token now of
       Inl e \<Rightarrow> Inl e
     | Inr c \<Rightarrow>
         (if cm_exp c = None \<or> cm_sub c = None \<or> cm_iat c = None then Inl ''Token is missing a required claim''
          else if cm_type c \<noteq> Some expect then Inl (''expected a '' @ expect @ '' token, got ''
            @ (case cm_type c of None \<Rightarrow> ''None'' | Some t \<Rightarrow> CHR 0x27 # t @ [CHR 0x27]))
          else if cm_org c = None then Inl ''token is missing the org_id claim''
          else case token_payload c of None \<Rightarrow> Inl ''malformed claims'' | Some p \<Rightarrow> Inr p))"

section \<open>The authenticated principal\<close>

record current_user =
  cu_id :: nat
  cu_org :: nat
  cu_email :: string
  cu_role :: user_role

definition unauthenticated :: http_error where
  "unauthenticated = Http_error 401 ''Not authenticated''"

definition user_by_id :: "db \<Rightarrow> nat \<Rightarrow> user_row option" where
  "user_by_id db i = row_by us_id i (db_users db)"

definition resolve_user :: "crypto \<Rightarrow> int \<Rightarrow> string \<Rightarrow> db \<Rightarrow> http_error + current_user" where
  "resolve_user cy now token db =
    (case decode_token cy now token ''access'' of
       Inl e \<Rightarrow> Inl (Http_error 401 (''Invalid token: '' @ e))
     | Inr p \<Rightarrow>
         (case user_by_id db (tp_user p) of
            None \<Rightarrow> Inl unauthenticated
          | Some user \<Rightarrow>
              (if \<not> us_active user then Inl unauthenticated
               else if us_org user \<noteq> tp_org p then Inl (Http_error 401 ''Token organisation mismatch'')
               else if us_token_version user \<noteq> tp_version p
               then Inl (Http_error 401 ''Token has been revoked; please sign in again'')
               else Inr \<lparr>cu_id = us_id user, cu_org = us_org user, cu_email = us_email user, cu_role = us_role user\<rparr>)))"

definition get_current_user :: "crypto \<Rightarrow> int \<Rightarrow> string option \<Rightarrow> db \<Rightarrow> http_error + current_user" where
  "get_current_user cy now credentials db =
    (case credentials of
       None \<Rightarrow> Inl unauthenticated
     | Some token \<Rightarrow> if token = [] then Inl unauthenticated else resolve_user cy now token db)"

definition require_role :: "user_role \<Rightarrow> current_user \<Rightarrow> http_error option" where
  "require_role minimum user =
    (if at_least (cu_role user) minimum then None
     else Some (Http_error 403 (''Requires '' @ role_name minimum @ '' role or higher'')))"

definition with_role :: "crypto \<Rightarrow> int \<Rightarrow> string option \<Rightarrow> db \<Rightarrow> user_role \<Rightarrow> http_error + current_user" where
  "with_role cy now credentials db minimum =
    (case get_current_user cy now credentials db of
       Inl e \<Rightarrow> Inl e
     | Inr user \<Rightarrow> (case require_role minimum user of Some e \<Rightarrow> Inl e | None \<Rightarrow> Inr user))"

definition authenticate_websocket :: "crypto \<Rightarrow> int \<Rightarrow> string option \<Rightarrow> db \<Rightarrow> current_user option" where
  "authenticate_websocket cy now token db =
    (case token of
       None \<Rightarrow> None
     | Some t \<Rightarrow> if t = [] then None else (case resolve_user cy now t db of Inl _ \<Rightarrow> None | Inr u \<Rightarrow> Some u))"

section \<open>Sessions\<close>

record token_pair =
  tk_access :: string
  tk_refresh :: string
  tk_expires_in :: int

abbreviation update_sessions :: "(session_row \<Rightarrow> bool) \<Rightarrow> (session_row \<Rightarrow> session_row) \<Rightarrow> db \<Rightarrow> db" where
  "update_sessions p f db \<equiv> db\<lparr>db_sessions := update_where p f (db_sessions db)\<rparr>"

abbreviation update_user :: "nat \<Rightarrow> (user_row \<Rightarrow> user_row) \<Rightarrow> db \<Rightarrow> db" where
  "update_user i f db \<equiv> db\<lparr>db_users := update_where (\<lambda>u. us_id u = i) f (db_users db)\<rparr>"

definition revoke_session :: "int \<Rightarrow> session_row \<Rightarrow> session_row" where
  "revoke_session now s = s\<lparr>se_revoked := Some now\<rparr>"

definition revoke_family :: "int \<Rightarrow> session_row \<Rightarrow> db \<Rightarrow> db" where
  "revoke_family now session db =
    update_sessions (\<lambda>s. se_family s = se_family session \<and> se_revoked s = None) (revoke_session now) db"

definition revoke_user_sessions :: "int \<Rightarrow> nat \<Rightarrow> db \<Rightarrow> db" where
  "revoke_user_sessions now user_id db =
    update_sessions (\<lambda>s. se_user s = user_id \<and> se_revoked s = None) (revoke_session now) db"

text \<open>An insert: None is the violation of the unique constraint on the token hash.\<close>

definition insert_session :: "session_row \<Rightarrow> db \<Rightarrow> db option" where
  "insert_session s db =
    (if se_token_hash s \<in> se_token_hash ` set (db_sessions db) then None
     else Some (db\<lparr>db_sessions := db_sessions db @ [s]\<rparr>))"

definition new_session :: "nat \<Rightarrow> nat \<Rightarrow> user_row \<Rightarrow> string \<Rightarrow> int \<Rightarrow> session_row" where
  "new_session i family user token_hash expires =
    \<lparr>se_id = i, se_user = us_id user, se_org = us_org user, se_token_hash = token_hash, se_family = family,
     se_expires = expires, se_revoked = None, se_replaced_by = None, se_last_used = None\<rparr>"

text \<open>
  \<open>_issue_tokens\<close> draws four numbers: the id of the refresh token, the key and the family
  of the session, the id of the access token.
\<close>

definition token_pair_of :: "crypto \<Rightarrow> auth_settings \<Rightarrow> user_row \<Rightarrow> int \<Rightarrow> nat \<Rightarrow> string \<Rightarrow> token_pair" where
  "token_pair_of cy cfg user now jti refresh_token =
    \<lparr>tk_access = create_access_token cy cfg user now jti, tk_refresh = refresh_token,
     tk_expires_in = as_access_minutes cfg * 60\<rparr>"

definition issue_tokens :: "crypto \<Rightarrow> auth_settings \<Rightarrow> int \<Rightarrow> user_row \<Rightarrow> db \<Rightarrow> db \<times> (http_error + token_pair)" where
  "issue_tokens cy cfg now user db =
    (let n = db_next db;
         refresh_token = create_refresh_token cy cfg user now n;
         session = new_session (n + 1) (n + 2) user (cy_sha256 cy refresh_token) (now + as_refresh_days cfg * us_day)
     in case insert_session session db of
          None \<Rightarrow> (db, Inl server_error)
        | Some db' \<Rightarrow> (db'\<lparr>db_next := n + 4\<rparr>, Inr (token_pair_of cy cfg user now (n + 3) refresh_token)))"

section \<open>Registration, login, refresh, logout\<close>

definition register_failed :: http_error where
  "register_failed = Http_error 409 ''Unable to register with those details''"

definition invalid_credentials :: http_error where
  "invalid_credentials = Http_error 401 ''Incorrect email or password''"

definition breached :: http_error where
  "breached = Http_error 400 (''This password has appeared in a known data breach. '' @ ''Choose one you have not used anywhere else.'')"

definition is_breached :: "crypto \<Rightarrow> auth_settings \<Rightarrow> string \<Rightarrow> bool" where
  "is_breached cy cfg password = assert_not_breached (as_hibp cfg) (as_hibp_max cfg) (cy_sha1 cy) (cy_range cy) password"

definition find_user_by_email :: "db \<Rightarrow> string \<Rightarrow> user_row option" where
  "find_user_by_email db email = find (\<lambda>u. lower (us_email u) = lower email) (db_users db)"

definition new_user :: "nat \<Rightarrow> nat \<Rightarrow> string \<Rightarrow> string option \<Rightarrow> user_role \<Rightarrow> string \<Rightarrow> user_row" where
  "new_user i org email full_name role hash =
    \<lparr>us_id = i, us_org = org, us_email = lower email, us_name = full_name, us_role = role, us_password_hash = hash,
     us_active = True, us_last_login = None, us_token_version = 0\<rparr>"

definition new_org :: "nat \<Rightarrow> string \<Rightarrow> string \<Rightarrow> org_row" where
  "new_org i name domain =
    \<lparr>og_id = i, og_name = strip name, og_domain = domain, og_verified = [], og_active = True, og_webhook = None\<rparr>"

record register_body =
  rb_org :: string
  rb_domain :: string
  rb_email :: string
  rb_password :: string
  rb_name :: "string option"

text \<open>The three rows of a registration, in one transaction: organisation, owner, pending claim.\<close>

definition add_account :: "crypto \<Rightarrow> int \<Rightarrow> string \<Rightarrow> register_body \<Rightarrow> db \<Rightarrow> db \<times> user_row" where
  "add_account cy now claim_token body db =
    (let n = db_next db;
         user = new_user (n + 1) n (rb_email body) (rb_name body) OWNER (hash_password cy (rb_password body) (n + 2))
     in (db\<lparr>db_orgs := db_orgs db @ [new_org n (rb_org body) (rb_domain body)],
            db_users := db_users db @ [user],
            db_claims := db_claims db @ [new_claim (n + 3) n (Some (n + 1)) (rb_domain body) claim_token now],
            db_next := n + 4\<rparr>, user))"

definition register ::
    "crypto \<Rightarrow> auth_settings \<Rightarrow> int \<Rightarrow> string \<Rightarrow> register_body \<Rightarrow> db \<Rightarrow> db \<times> (http_error + token_pair)" where
  "register cy cfg now claim_token body db =
    (if is_breached cy cfg (rb_password body) then (db, Inl breached)
     else if find_user_by_email db (rb_email body) \<noteq> None then (db, Inl register_failed)
     else case add_account cy now claim_token body db of (db1, user) \<Rightarrow> issue_tokens cy cfg now user db1)"

text \<open>The dummy hash that an unknown address is compared with.\<close>

definition dummy_hash :: string where
  "dummy_hash = ''$2b$12$'' @ replicate 53 (CHR ''.'')"

definition too_many_requests :: http_error where
  "too_many_requests = Http_error 429 ''Too many attempts. Please wait and try again.''"

definition login_identity :: "crypto \<Rightarrow> string \<Rightarrow> string" where
  "login_identity cy email = hash_identity (cy_sha256 cy) email"

definition login ::
    "crypto \<Rightarrow> auth_settings \<Rightarrow> rate_settings \<Rightarrow> 'r redis_client \<Rightarrow> int \<Rightarrow> string \<Rightarrow> string \<Rightarrow> 'r \<times> db
      \<Rightarrow> ('r \<times> db) \<times> (http_error + token_pair)" where
  "login cy cfg rs client now email password st =
    (case st of (redis, db) \<Rightarrow>
      let identity = login_identity cy email; rule = login_account_rule rs in
      case assert_under (rs_enabled rs) client rule identity redis of
        Too_many _ \<Rightarrow> (st, Inl too_many_requests)
      | Allowed \<Rightarrow>
          (let found = find_user_by_email db email;
               ok = verify_password cy password (case found of Some u \<Rightarrow> us_password_hash u | None \<Rightarrow> dummy_hash)
           in case (found, ok) of
                (Some user, True) \<Rightarrow>
                  (if \<not> us_active user then (st, Inl (Http_error 403 ''This account has been disabled''))
                   else let redis' = clear_failures (rs_enabled rs) client rule identity redis;
                            user' = user\<lparr>us_last_login := Some now\<rparr>;
                            db1 = update_user (us_id user) (\<lambda>u. u\<lparr>us_last_login := Some now\<rparr>) db
                        in case issue_tokens cy cfg now user' db1 of (db2, res) \<Rightarrow> ((redis', db2), res))
              | _ \<Rightarrow> ((record_failure (rs_enabled rs) client rule identity redis, db), Inl invalid_credentials)))"

definition session_by_token :: "crypto \<Rightarrow> string \<Rightarrow> db \<Rightarrow> session_row option" where
  "session_by_token cy token db = row_by se_token_hash (cy_sha256 cy token) (db_sessions db)"

text \<open>A refused refresh still kills the family of the session it named, if any.\<close>

definition kill_family :: "int \<Rightarrow> session_row option \<Rightarrow> db \<Rightarrow> db" where
  "kill_family now session db = (case session of None \<Rightarrow> db | Some s \<Rightarrow> revoke_family now s db)"

definition rotate_session :: "int \<Rightarrow> nat \<Rightarrow> session_row \<Rightarrow> session_row" where
  "rotate_session now successor s = s\<lparr>se_last_used := Some now, se_revoked := Some now, se_replaced_by := Some successor\<rparr>"

definition refresh ::
    "crypto \<Rightarrow> auth_settings \<Rightarrow> int \<Rightarrow> string \<Rightarrow> db \<Rightarrow> db \<times> (http_error + token_pair)" where
  "refresh cy cfg now token db =
    (case decode_token cy now token ''refresh'' of
       Inl e \<Rightarrow> (db, Inl (Http_error 401 (''Invalid refresh token: '' @ e)))
     | Inr p \<Rightarrow>
         (let session = session_by_token cy token db in
          case user_by_id db (tp_user p) of
            None \<Rightarrow> (kill_family now session db, Inl invalid_credentials)
          | Some user \<Rightarrow>
              (if \<not> us_active user \<or> us_org user \<noteq> tp_org p
               then (kill_family now session db, Inl invalid_credentials)
               else if us_token_version user \<noteq> tp_version p
               then (kill_family now session db, Inl (Http_error 401 ''Refresh token has been revoked; please sign in again''))
               else case session of
                 None \<Rightarrow> (db, Inl (Http_error 401 ''Invalid refresh token''))
               | Some s \<Rightarrow>
                   (if se_revoked s \<noteq> None
                    then (revoke_family now s db, Inl (Http_error 401 ''Refresh token reuse detected - this session has been revoked''))
                    else if se_expires s \<le> now
                    then (update_sessions (\<lambda>x. se_id x = se_id s) (revoke_session now) db,
                          Inl (Http_error 401 ''Refresh token has expired''))
                    else let n = db_next db;
                             new_refresh = create_refresh_token cy cfg user now n;
                             successor = new_session (n + 1) (se_family s) user (cy_sha256 cy new_refresh)
                               (now + as_refresh_days cfg * us_day)
                         in case insert_session successor db of
                              None \<Rightarrow> (db, Inl server_error)
                            | Some db1 \<Rightarrow>
                                (update_sessions (\<lambda>x. se_id x = se_id s) (rotate_session now (n + 1)) (db1\<lparr>db_next := n + 3\<rparr>),
                                 Inr (token_pair_of cy cfg user now (n + 2) new_refresh))))))"

definition logout :: "crypto \<Rightarrow> int \<Rightarrow> string \<Rightarrow> db \<Rightarrow> db" where
  "logout cy now token db =
    (case session_by_token cy token db of
       None \<Rightarrow> db
     | Some s \<Rightarrow>
         (if se_revoked s = None then update_sessions (\<lambda>x. se_id x = se_id s) (revoke_session now) db else db))"

section \<open>The signed-in handlers\<close>

definition find_user :: "db \<Rightarrow> nat \<Rightarrow> nat \<Rightarrow> user_row option" where
  "find_user db i org = find (\<lambda>u. us_id u = i \<and> us_org u = org) (db_users db)"

definition me :: "current_user \<Rightarrow> db \<Rightarrow> http_error + user_row" where
  "me cur db = (case find_user db (cu_id cur) (cu_org cur) of None \<Rightarrow> Inl (not_found ''User'') | Some u \<Rightarrow> Inr u)"

definition list_users :: "current_user \<Rightarrow> db \<Rightarrow> user_row list" where
  "list_users cur db = filter (\<lambda>u. us_org u = cu_org cur) (db_users db)"

definition password_user_rule :: "rate_settings \<Rightarrow> rate_limit_rule" where
  "password_user_rule rs = rate_rules rs ! 4"

definition change_password ::
    "crypto \<Rightarrow> auth_settings \<Rightarrow> rate_settings \<Rightarrow> 'r redis_client \<Rightarrow> int \<Rightarrow> current_user \<Rightarrow> string \<Rightarrow> string \<Rightarrow> 'r \<times> db
      \<Rightarrow> ('r \<times> db) \<times> (http_error + unit)" where
  "change_password cy cfg rs client now cur current_password new_password st =
    (case st of (redis, db) \<Rightarrow>
      let identity = login_identity cy (uuid_str (cu_id cur)); rule = password_user_rule rs in
      case assert_under (rs_enabled rs) client rule identity redis of
        Too_many _ \<Rightarrow> (st, Inl too_many_requests)
      | Allowed \<Rightarrow>
          (case find_user db (cu_id cur) (cu_org cur) of
             None \<Rightarrow> ((record_failure (rs_enabled rs) client rule identity redis, db),
                      Inl (Http_error 400 ''Current password is incorrect''))
           | Some user \<Rightarrow>
               (if \<not> verify_password cy current_password (us_password_hash user)
                then ((record_failure (rs_enabled rs) client rule identity redis, db),
                      Inl (Http_error 400 ''Current password is incorrect''))
                else if is_breached cy cfg new_password then (st, Inl breached)
                else let hash = hash_password cy new_password (db_next db);
                         db1 = (update_user (us_id user)
                           (\<lambda>u. u\<lparr>us_password_hash := hash, us_token_version := us_token_version u + 1\<rparr>) db)\<lparr>db_next := db_next db + 1\<rparr>
                     in ((clear_failures (rs_enabled rs) client rule identity redis,
                          revoke_user_sessions now (us_id user) db1), Inr ()))))"

record invite_body =
  ib_email :: string
  ib_password :: string
  ib_role :: user_role
  ib_name :: "string option"

text \<open>The unique constraint on organisation and address is the 409.\<close>

definition invite_user ::
    "crypto \<Rightarrow> auth_settings \<Rightarrow> current_user \<Rightarrow> invite_body \<Rightarrow> db \<Rightarrow> db \<times> (http_error + user_row)" where
  "invite_user cy cfg cur body db =
    (if is_breached cy cfg (ib_password body) then (db, Inl breached)
     else if ib_role body = OWNER \<and> cu_role cur \<noteq> OWNER
     then (db, Inl (Http_error 403 ''Only an owner can grant the owner role''))
     else let n = db_next db;
              user = new_user n (cu_org cur) (ib_email body) (ib_name body) (ib_role body)
                (hash_password cy (ib_password body) (n + 1))
          in if list_ex (\<lambda>u. us_org u = us_org user \<and> us_email u = us_email user) (db_users db)
             then (db, Inl (Http_error 409 ''A user with that email already exists in this organisation''))
             else (db\<lparr>db_users := db_users db @ [user], db_next := n + 2\<rparr>, Inr user))"

definition deactivate_user :: "int \<Rightarrow> nat \<Rightarrow> current_user \<Rightarrow> db \<Rightarrow> db \<times> (http_error + string)" where
  "deactivate_user now user_id cur db =
    (if user_id = cu_id cur then (db, Inl (Http_error 400 ''You cannot deactivate yourself''))
     else case find_user db user_id (cu_org cur) of
       None \<Rightarrow> (db, Inl (not_found ''User''))
     | Some user \<Rightarrow>
         (if us_role user = OWNER \<and> cu_role cur \<noteq> OWNER
          then (db, Inl (Http_error 403 ''Only an owner can remove an owner''))
          else (revoke_user_sessions now (us_id user)
                 (update_user (us_id user) (\<lambda>u. u\<lparr>us_active := False, us_token_version := us_token_version u + 1\<rparr>) db),
                Inr (us_email user @ '' has been deactivated''))))"

text \<open>What the API shows of an organisation. Without a value: \<open>redact\<close> fails on the stored URL.\<close>

record organisation_out =
  oo_id :: nat
  oo_name :: string
  oo_domain :: string
  oo_verified :: "string list"
  oo_configured :: bool
  oo_hint :: "string option"

definition from_org :: "org_row \<Rightarrow> http_error + organisation_out" where
  "from_org org =
    (case redact (og_webhook org) of
       None \<Rightarrow> Inl server_error
     | Some hint \<Rightarrow> Inr \<lparr>oo_id = og_id org, oo_name = og_name org, oo_domain = og_domain org, oo_verified = og_verified org,
         oo_configured = (case og_webhook org of None \<Rightarrow> False | Some url \<Rightarrow> url \<noteq> []), oo_hint = hint\<rparr>)"

definition my_organisation :: "current_user \<Rightarrow> db \<Rightarrow> http_error + organisation_out" where
  "my_organisation cur db = (case load_org db (cu_org cur) of Inl e \<Rightarrow> Inl e | Inr org \<Rightarrow> from_org org)"

definition set_slack_webhook :: "current_user \<Rightarrow> string option \<Rightarrow> db \<Rightarrow> db \<times> (http_error + organisation_out)" where
  "set_slack_webhook cur url db =
    (case load_org db (cu_org cur) of
       Inl e \<Rightarrow> (db, Inl e)
     | Inr org \<Rightarrow> (update_org (cu_org cur) (\<lambda>org. org\<lparr>og_webhook := url\<rparr>) db, from_org (org\<lparr>og_webhook := url\<rparr>)))"

text \<open>The test message; what \<open>post\<close> does not catch is a 500.\<close>

definition test_payload :: "string \<Rightarrow> json" where
  "test_payload name =
    JObj [(''text'', JStr (''SurfaceWatch test alert '' @ [CHR 0xE2, CHR 0x80, CHR 0x94] @ '' '' @ name)),
          (''blocks'', JList [JObj [(''type'', JStr ''section''),
             (''text'', JObj [(''type'', JStr ''mrkdwn''),
                (''text'', JStr (''*SurfaceWatch is connected.*'' @ [CHR 0x0A] @ ''Critical findings for *'' @ name
                   @ ''* will be posted here. '' @ ''This is a test message '' @ [CHR 0xE2, CHR 0x80, CHR 0x94] @ '' no action is needed.''))])]])]"

definition test_slack_webhook :: "current_user \<Rightarrow> slack_client \<Rightarrow> db \<Rightarrow> http_error + string" where
  "test_slack_webhook cur client db =
    (case load_org db (cu_org cur) of
       Inl e \<Rightarrow> Inl e
     | Inr org \<Rightarrow>
         (let url = (case og_webhook org of None \<Rightarrow> [] | Some u \<Rightarrow> u) in
          if url = [] then Inl (Http_error 400 ''No Slack webhook is configured for this organisation'')
          else case post client url (test_payload (og_name org)) of
            Inl _ \<Rightarrow> Inl server_error
          | Inr True \<Rightarrow> Inr ''Test message delivered to Slack.''
          | Inr False \<Rightarrow> Inl (Http_error 502 (''Slack rejected the message. The webhook may have been revoked '' @ [CHR 0xE2, CHR 0x80, CHR 0x94]
              @ '' generate a new one in Slack and save it again.''))))"

section \<open>Endpoints\<close>

text \<open>
  The dependencies in front of a handler: the per-address limit of the public endpoints,
  the validated payload, and the role gate of the signed-in ones.
\<close>

definition limited :: "rate_settings \<Rightarrow> 'r redis_client \<Rightarrow> rate_limit_rule \<Rightarrow> string \<Rightarrow> 'r \<times> db \<Rightarrow>
    ('r \<times> db \<Rightarrow> ('r \<times> db) \<times> (http_error + 'a)) \<Rightarrow> ('r \<times> db) \<times> (http_error + 'a)" where
  "limited rs client rule ip st handler =
    (case enforce (rs_enabled rs) client rule ip (fst st) of
       (Too_many _, redis) \<Rightarrow> ((redis, snd st), Inl too_many_requests)
     | (Allowed, redis) \<Rightarrow> handler (redis, snd st))"

definition post_register ::
    "crypto \<Rightarrow> auth_settings \<Rightarrow> rate_settings \<Rightarrow> 'r redis_client \<Rightarrow> int \<Rightarrow> string \<Rightarrow> string \<Rightarrow> register_body \<Rightarrow> 'r \<times> db
      \<Rightarrow> ('r \<times> db) \<times> (http_error + token_pair)" where
  "post_register cy cfg rs client now ip claim_token body st =
    limited rs client (rate_rules rs ! 2) ip st (\<lambda>(redis, db).
      case validate_register (rb_email body) (rb_org body) (rb_domain body) (rb_password body) (rb_name body) of
        Inl _ \<Rightarrow> ((redis, db), Inl unprocessable)
      | Inr domain \<Rightarrow>
          (case register cy cfg now claim_token (body\<lparr>rb_domain := domain\<rparr>) db of (db', res) \<Rightarrow> ((redis, db'), res)))"

definition post_login ::
    "crypto \<Rightarrow> auth_settings \<Rightarrow> rate_settings \<Rightarrow> 'r redis_client \<Rightarrow> int \<Rightarrow> string \<Rightarrow> string \<Rightarrow> string \<Rightarrow> 'r \<times> db
      \<Rightarrow> ('r \<times> db) \<times> (http_error + token_pair)" where
  "post_login cy cfg rs client now ip email password st =
    limited rs client (rate_rules rs ! 0) ip st (login cy cfg rs client now email password)"

definition post_refresh ::
    "crypto \<Rightarrow> auth_settings \<Rightarrow> rate_settings \<Rightarrow> 'r redis_client \<Rightarrow> int \<Rightarrow> string \<Rightarrow> string \<Rightarrow> 'r \<times> db
      \<Rightarrow> ('r \<times> db) \<times> (http_error + token_pair)" where
  "post_refresh cy cfg rs client now ip token st =
    limited rs client (rate_rules rs ! 3) ip st (\<lambda>(redis, db).
      case refresh cy cfg now token db of (db', res) \<Rightarrow> ((redis, db'), res))"

definition post_password ::
    "crypto \<Rightarrow> auth_settings \<Rightarrow> rate_settings \<Rightarrow> 'r redis_client \<Rightarrow> int \<Rightarrow> string option \<Rightarrow> string \<Rightarrow> string \<Rightarrow> 'r \<times> db
      \<Rightarrow> ('r \<times> db) \<times> (http_error + unit)" where
  "post_password cy cfg rs client now credentials old new st =
    (case get_current_user cy now credentials (snd st) of
       Inl e \<Rightarrow> (st, Inl e)
     | Inr cur \<Rightarrow>
         (if validate_password_change old new \<noteq> None then (st, Inl unprocessable)
          else change_password cy cfg rs client now cur old new st))"

definition post_invite ::
    "crypto \<Rightarrow> auth_settings \<Rightarrow> int \<Rightarrow> string option \<Rightarrow> invite_body \<Rightarrow> db \<Rightarrow> db \<times> (http_error + user_row)" where
  "post_invite cy cfg now credentials body db =
    (case with_role cy now credentials db ADMIN of
       Inl e \<Rightarrow> (db, Inl e)
     | Inr cur \<Rightarrow>
         (if validate_invite (ib_email body) (ib_password body) (ib_name body) \<noteq> None then (db, Inl unprocessable)
          else invite_user cy cfg cur body db))"

definition post_deactivate :: "crypto \<Rightarrow> int \<Rightarrow> string option \<Rightarrow> nat \<Rightarrow> db \<Rightarrow> db \<times> (http_error + string)" where
  "post_deactivate cy now credentials user_id db =
    (case with_role cy now credentials db ADMIN of
       Inl e \<Rightarrow> (db, Inl e)
     | Inr cur \<Rightarrow> deactivate_user now user_id cur db)"

definition put_webhook ::
    "crypto \<Rightarrow> int \<Rightarrow> string option \<Rightarrow> string option \<Rightarrow> db \<Rightarrow> db \<times> (http_error + organisation_out)" where
  "put_webhook cy now credentials body db =
    (case with_role cy now credentials db ADMIN of
       Inl e \<Rightarrow> (db, Inl e)
     | Inr cur \<Rightarrow>
         (case validate_webhook_body body of
            None \<Rightarrow> (db, Inl unprocessable)
          | Some url \<Rightarrow> set_slack_webhook cur url db))"

end
