(* ===== verification/AuthHistory.thy ===== *)
theory AuthHistory
  imports Auth
begin

text \<open>
  Histories of the account handlers, in any order, and what they keep: keys and hashes stay
  unique, a revoked session stays revoked, a dead family stays dead, a token version never
  goes back, an organisation keeps an owner.
\<close>

section \<open>Events\<close>

datatype auth_event =
    Register int string string register_body
  | Login int string string string
  | Refresh int string string
  | Logout int string
  | Change_password int "string option" string string
  | Invite int "string option" invite_body
  | Deactivate int "string option" nat
  | Set_webhook int "string option" "string option"

fun auth_step :: "crypto \<Rightarrow> auth_settings \<Rightarrow> rate_settings \<Rightarrow> 'r redis_client \<Rightarrow> 'r \<times> db \<Rightarrow> auth_event \<Rightarrow> 'r \<times> db" where
  "auth_step cy cfg rs client st (Register now ip token body) = fst (post_register cy cfg rs client now ip token body st)"
| "auth_step cy cfg rs client st (Login now ip email password) = fst (post_login cy cfg rs client now ip email password st)"
| "auth_step cy cfg rs client st (Refresh now ip token) = fst (post_refresh cy cfg rs client now ip token st)"
| "auth_step cy cfg rs client st (Logout now token) = (fst st, logout cy now token (snd st))"
| "auth_step cy cfg rs client st (Change_password now cred old new) = fst (post_password cy cfg rs client now cred old new st)"
| "auth_step cy cfg rs client st (Invite now cred body) = (fst st, fst (post_invite cy cfg now cred body (snd st)))"
| "auth_step cy cfg rs client st (Deactivate now cred i) = (fst st, fst (post_deactivate cy now cred i (snd st)))"
| "auth_step cy cfg rs client st (Set_webhook now cred url) = (fst st, fst (put_webhook cy now cred url (snd st)))"

section \<open>What an event does to the tables\<close>

text \<open>
  Every event changes the tables of users, sessions, organisations and claims in one of a
  few ways. \<open>effect\<close> lists them; the invariants are proved once for each.
\<close>

definition add_user :: "user_row \<Rightarrow> db \<Rightarrow> db" where
  "add_user u db = db\<lparr>db_users := db_users db @ [u]\<rparr>"

definition bump_next :: "nat \<Rightarrow> db \<Rightarrow> db" where
  "bump_next k db = db\<lparr>db_next := db_next db + k\<rparr>"

inductive effect :: "crypto \<Rightarrow> db \<Rightarrow> db \<Rightarrow> bool" for cy :: crypto where
  keep: "effect cy db db"
| webhook: "webhook_ok url \<Longrightarrow> effect cy db (update_org i (\<lambda>org. org\<lparr>og_webhook := url\<rparr>) db)"
| revoking: "effect cy db (update_sessions p (revoke_session now) db)"
| starting: "session = new_session (db_next db + 1) (db_next db + 2) user h e \<Longrightarrow> insert_session session db = Some db' \<Longrightarrow>
    effect cy db (db'\<lparr>db_next := db_next db + 4\<rparr>)"
| rotating: "s \<in> set (db_sessions db) \<Longrightarrow> se_revoked s = None \<Longrightarrow>
    insert_session (new_session (db_next db + 1) (se_family s) user h e) db = Some db' \<Longrightarrow>
    effect cy db (update_sessions (\<lambda>x. se_id x = se_id s) (rotate_session now (db_next db + 1)) (db'\<lparr>db_next := db_next db + 3\<rparr>))"
| login_time: "effect cy db (update_user i (\<lambda>u. u\<lparr>us_last_login := Some now\<rparr>) db)"
| new_password: "effect cy db ((update_user i (\<lambda>u. u\<lparr>us_password_hash := hash, us_token_version := us_token_version u + 1\<rparr>) db)
    \<lparr>db_next := db_next db + 1\<rparr>)"
| inviting: "effect cy db (db\<lparr>db_users := db_users db @ [new_user (db_next db) org email name role hash], db_next := db_next db + 2\<rparr>)"
| registering: "rb_domain body \<noteq> [] \<Longrightarrow> effect cy db (fst (add_account cy now token body db))"
| deactivating: "a \<in> set (db_users db) \<Longrightarrow> us_active a \<Longrightarrow> us_id a \<noteq> i \<Longrightarrow>
    (\<And>u. u \<in> set (db_users db) \<Longrightarrow> us_id u = i \<Longrightarrow> us_org u = us_org a \<and> (us_role u = OWNER \<longrightarrow> us_role a = OWNER)) \<Longrightarrow>
    effect cy db (update_user i (\<lambda>u. u\<lparr>us_active := False, us_token_version := us_token_version u + 1\<rparr>) db)"

inductive effects :: "crypto \<Rightarrow> db \<Rightarrow> db \<Rightarrow> bool" for cy :: crypto where
  none: "effects cy db db"
| more: "effects cy db db1 \<Longrightarrow> effect cy db1 db2 \<Longrightarrow> effects cy db db2"

lemma effect_effects: "effect cy db db' \<Longrightarrow> effects cy db db'"
  by (rule effects.more [OF effects.none])

lemma effects_trans: "effects cy db db1 \<Longrightarrow> effects cy db1 db2 \<Longrightarrow> effects cy db db2"
  by (rotate_tac, induction rule: effects.induct) (auto intro: effects.more)

lemma effects_invariant:
  assumes "effects cy db db'" and "P db" and "\<And>db db'. P db \<Longrightarrow> effect cy db db' \<Longrightarrow> P db'"
  shows "P db'"
  using assms by (induction rule: effects.induct) auto

section \<open>Every event is made of effects\<close>

text \<open>Keys identify users.\<close>

definition users_keyed :: "db \<Rightarrow> bool" where
  "users_keyed db = keyed us_id (db_users db)"

lemma issue_effects: "effects cy db (fst (issue_tokens cy cfg now user db))"
proof -
  let ?t = "create_refresh_token cy cfg user now (db_next db)"
  let ?s = "new_session (db_next db + 1) (db_next db + 2) user (cy_sha256 cy ?t) (now + as_refresh_days cfg * us_day)"
  show ?thesis
  proof (cases "insert_session ?s db")
    case None
    then show ?thesis by (simp add: issue_tokens_def Let_def effects.none)
  next
    case (Some db')
    then show ?thesis
      using effect.starting [OF refl Some] by (simp add: issue_tokens_def Let_def effect_effects)
  qed
qed

lemma register_effects:
  assumes "rb_domain body \<noteq> []"
  shows "effects cy db (fst (register cy cfg now token body db))"
proof -
  obtain db1 user where a: "add_account cy now token body db = (db1, user)" by fastforce
  have "effects cy db db1" using effect.registering [OF assms, of cy db now token] a by (simp add: effect_effects)
  from effects_trans [OF this issue_effects] show ?thesis
    by (simp add: register_def a effects.none)
qed

lemma login_effects: "effects cy (snd st) (snd (fst (login cy cfg rs client now email password st)))"
proof -
  obtain r db where st: "st = (r, db)" by fastforce
  have "effects cy db (update_user i (\<lambda>u. u\<lparr>us_last_login := Some now\<rparr>) db)" for i
    by (rule effect_effects [OF effect.login_time])
  from effects_trans [OF this issue_effects] show ?thesis
    by (auto simp: login_def st Let_def effects.none split: verdict.splits option.splits bool.splits prod.splits)
      (metis fst_conv)
qed

lemma session_by_tokenD: "session_by_token cy token db = Some s \<Longrightarrow> s \<in> set (db_sessions db) \<and> se_token_hash s = cy_sha256 cy token"
  unfolding session_by_token_def by (rule row_by_SomeD)

lemma kill_effects: "effects cy db (kill_family now session db)"
  unfolding kill_family_def revoke_family_def
  by (auto intro: effects.none effect_effects effect.revoking split: option.splits)

lemma refresh_effects: "effects cy db (fst (refresh cy cfg now token db))"
proof (cases "decode_token cy now token ''refresh''")
  case (Inr p)
  let ?session = "session_by_token cy token db"
  have kill: "effects cy db (kill_family now ?session db)" by (rule kill_effects)
  have family: "effects cy db (revoke_family now s db)" for s
    unfolding revoke_family_def by (rule effect_effects [OF effect.revoking])
  have expire: "effects cy db (update_sessions (\<lambda>x. se_id x = i) (revoke_session now) db)" for i
    by (rule effect_effects [OF effect.revoking])
  have rotate: "effects cy db (update_sessions (\<lambda>x. se_id x = se_id s) (rotate_session now (db_next db + 1))
      (db1\<lparr>db_next := db_next db + 3\<rparr>))"
    if "?session = Some s" "se_revoked s = None" "insert_session (new_session (db_next db + 1) (se_family s) user h e) db = Some db1"
    for s user h e db1
    using effect.rotating [OF _ that(2,3)] session_by_tokenD [OF that(1)] by (blast intro: effect_effects)
  show ?thesis
    using kill family expire rotate unfolding refresh_def Inr
    by (simp add: Let_def effects.none split: option.splits)
qed (simp add: refresh_def effects.none)

lemma logout_effects: "effects cy db (logout cy now token db)"
  by (auto simp: logout_def intro: effects.none effect_effects effect.revoking split: option.splits)

lemma change_effects: "effects cy (snd st) (snd (fst (change_password cy cfg rs client now cur old new st)))"
proof -
  obtain r db where st: "st = (r, db)" by fastforce
  have "effects cy db (revoke_user_sessions now i ((update_user i (\<lambda>u. u\<lparr>us_password_hash := hash,
      us_token_version := us_token_version u + 1\<rparr>) db)\<lparr>db_next := db_next db + 1\<rparr>))" for i hash
    using effects.more [OF effect_effects [OF effect.new_password] effect.revoking]
    unfolding revoke_user_sessions_def by blast
  then show ?thesis
    by (simp add: change_password_def st Let_def effects.none split: verdict.splits option.splits)
qed

lemma resolve_user_row:
  assumes "resolve_user cy now token db = Inr cur"
  obtains u where "u \<in> set (db_users db)" and "us_id u = cu_id cur" and "us_org u = cu_org cur"
    and "us_role u = cu_role cur" and "us_active u"
  using assms row_by_SomeD [of us_id _ "db_users db"]
  by (fastforce simp: resolve_user_def user_by_id_def split: sum.splits option.splits if_splits)

lemma with_role_row:
  assumes "with_role cy now cred db minimum = Inr cur"
  obtains u where "u \<in> set (db_users db)" and "us_id u = cu_id cur" and "us_org u = cu_org cur"
    and "us_role u = cu_role cur" and "us_active u" and "at_least (cu_role cur) minimum"
  using assms
  by (auto simp: with_role_def get_current_user_def require_role_def elim!: resolve_user_row
      split: sum.splits option.splits if_splits)

lemma find_userD: "find_user db i org = Some u \<Longrightarrow> u \<in> set (db_users db) \<and> us_id u = i \<and> us_org u = org"
  unfolding find_user_def by (drule find_SomeD) simp

lemma deactivate_effects:
  assumes "users_keyed db"
  shows "effects cy db (fst (post_deactivate cy now cred i db))"
proof (cases "with_role cy now cred db ADMIN")
  case (Inr cur)
  then obtain a where a: "a \<in> set (db_users db)" "us_id a = cu_id cur" "us_org a = cu_org cur" "us_role a = cu_role cur" "us_active a"
    by (rule with_role_row)
  let ?off = "\<lambda>u. u\<lparr>us_active := False, us_token_version := us_token_version u + 1\<rparr>"
  have "effects cy db (revoke_user_sessions now i (update_user i ?off db))"
    if u: "find_user db i (cu_org cur) = Some u" "i \<noteq> cu_id cur" "us_role u = OWNER \<longrightarrow> cu_role cur = OWNER" for u
  proof -
    have "x = u" if "x \<in> set (db_users db)" "us_id x = i" for x
      using keyed_unique assms find_userD [OF u(1)] that unfolding users_keyed_def by metis
    then have "effect cy db (update_user i ?off db)"
      using effect.deactivating [OF a(1,5), of i] find_userD [OF u(1)] u a by auto
    then have "effects cy db (update_user i ?off db)" by (rule effect_effects)
    moreover have "effect cy (update_user i ?off db) (revoke_user_sessions now i (update_user i ?off db))"
      unfolding revoke_user_sessions_def by (rule effect.revoking)
    ultimately show ?thesis by (rule effects.more)
  qed
  then show ?thesis
    using find_userD by (fastforce simp: post_deactivate_def Inr deactivate_user_def effects.none split: option.splits)
qed (simp add: post_deactivate_def effects.none)

lemma invite_effects: "effects cy db (fst (post_invite cy cfg now cred body db))"
  using effect_effects [OF effect.inviting [of cy db]]
  by (auto simp: post_invite_def invite_user_def Let_def effects.none split: sum.splits)

lemma webhook_effects: "effects cy db (fst (put_webhook cy now cred url db))"
  using effect_effects [OF effect.webhook [OF validated_webhook_ok, of _ _ cy db]]
  by (auto simp: put_webhook_def set_slack_webhook_def effects.none split: sum.splits option.splits)

lemma validate_register_domain: "validate_register email org domain password name = Inr d \<Longrightarrow> d \<noteq> []"
  by (auto simp: validate_register_def claimable_iff split: sum.splits option.splits)

lemma auth_step_effects:
  assumes "users_keyed (snd st)"
  shows "effects cy (snd st) (snd (auth_step cy cfg rs client st e))"
proof -
  obtain r db where st: "st = (r, db)" by fastforce
  show ?thesis
  proof (cases e)
    case (Register now ip token body)
    have "effects cy db (fst (register cy cfg now token (body\<lparr>rb_domain := d\<rparr>) db))"
      if "validate_register (rb_email body) (rb_org body) (rb_domain body) (rb_password body) (rb_name body) = Inr d" for d
      using validate_register_domain [OF that] by (intro register_effects) simp
    then show ?thesis
      by (auto simp: Register st post_register_def limited_def effects.none split: prod.splits verdict.splits sum.splits)
  next
    case (Login now ip email password)
    then show ?thesis
      using login_effects [of cy "(r', db)" cfg rs client now email password for r']
      by (auto simp: st post_login_def limited_def effects.none split: prod.splits verdict.splits)
  next
    case (Refresh now ip token)
    then show ?thesis
      using refresh_effects [of cy db cfg now token]
      by (auto simp: st post_refresh_def limited_def effects.none split: prod.splits verdict.splits)
  next
    case (Logout now token)
    then show ?thesis by (simp add: st logout_effects)
  next
    case (Change_password now cred old new)
    then show ?thesis
      using change_effects [of cy st] by (auto simp: st post_password_def effects.none split: sum.splits)
  next
    case (Invite now cred body)
    then show ?thesis by (simp add: st invite_effects)
  next
    case (Deactivate now cred i)
    then show ?thesis using assms by (simp add: st deactivate_effects)
  next
    case (Set_webhook now cred url)
    then show ?thesis by (simp add: st webhook_effects)
  qed
qed

section \<open>Keys\<close>

definition auth_ok :: "db \<Rightarrow> bool" where
  "auth_ok db =
    (keyed us_id (db_users db) \<and> list_all (\<lambda>u. us_id u < db_next db) (db_users db) \<and>
     keyed se_id (db_sessions db) \<and> keyed se_token_hash (db_sessions db) \<and>
     list_all (\<lambda>s. se_id s < db_next db \<and> se_family s < db_next db) (db_sessions db) \<and>
     list_all (\<lambda>org. og_id org < db_next db) (db_orgs db) \<and>
     list_all (\<lambda>c. cl_org c < db_next db) (db_claims db))"

lemma auth_okD:
  assumes "auth_ok db"
  shows "keyed us_id (db_users db)" "keyed se_id (db_sessions db)" "keyed se_token_hash (db_sessions db)"
    and "u \<in> set (db_users db) \<Longrightarrow> us_id u < db_next db"
    and "s \<in> set (db_sessions db) \<Longrightarrow> se_id s < db_next db \<and> se_family s < db_next db"
    and "org \<in> set (db_orgs db) \<Longrightarrow> og_id org < db_next db"
    and "c \<in> set (db_claims db) \<Longrightarrow> cl_org c < db_next db"
  using assms by (auto simp: auth_ok_def list_all_iff)

lemma insert_sessionD:
  "insert_session s db = Some db' \<Longrightarrow> db' = db\<lparr>db_sessions := db_sessions db @ [s]\<rparr> \<and>
    se_token_hash s \<notin> se_token_hash ` set (db_sessions db)"
  by (simp add: insert_session_def split: if_splits)

lemma session_ops [simp]:
  "se_id (revoke_session now s) = se_id s" "se_token_hash (revoke_session now s) = se_token_hash s"
  "se_family (revoke_session now s) = se_family s" "se_revoked (revoke_session now s) = Some now"
  "se_user (revoke_session now s) = se_user s" "se_user (rotate_session now k s) = se_user s"
  "se_id (rotate_session now k s) = se_id s" "se_token_hash (rotate_session now k s) = se_token_hash s"
  "se_family (rotate_session now k s) = se_family s" "se_revoked (rotate_session now k s) = Some now"
  by (simp_all add: revoke_session_def rotate_session_def)

lemma new_session_simps [simp]:
  "se_id (new_session i f u h e) = i" "se_family (new_session i f u h e) = f"
  "se_token_hash (new_session i f u h e) = h" "se_revoked (new_session i f u h e) = None"
  "se_user (new_session i f u h e) = us_id u"
  by (simp_all add: new_session_def)

lemma new_user_simps [simp]:
  "us_id (new_user i org m n r h) = i" "us_org (new_user i org m n r h) = org" "us_role (new_user i org m n r h) = r"
  "us_active (new_user i org m n r h)" "us_token_version (new_user i org m n r h) = 0"
  by (simp_all add: new_user_def)

text \<open>The tables after an edit or an insert.\<close>

lemma list_all_update: "list_all p rows \<Longrightarrow> (\<And>r. p r \<Longrightarrow> q r \<Longrightarrow> p (f r)) \<Longrightarrow> list_all p (update_where q f rows)"
  by (auto simp: list_all_iff in_update_where_iff)

lemma fresh_key:
  assumes "list_all (\<lambda>r. k r < n) rows"
  shows "(n + i :: nat) \<notin> k ` set rows"
  using assms by (auto simp: list_all_iff)

lemma list_all_less: "list_all (\<lambda>r. k r < (n :: nat)) rows \<Longrightarrow> n \<le> m \<Longrightarrow> list_all (\<lambda>r. k r < m) rows"
  by (fastforce simp: list_all_iff)

lemma auth_ok_effect:
  assumes ok: "auth_ok db" and "effect cy db db'"
  shows "auth_ok db'"
  using assms(2)
proof cases
  case (webhook url i)
  then show ?thesis using ok by (auto simp: auth_ok_def intro!: list_all_update)
next
  case (revoking p now)
  then show ?thesis using ok by (simp add: auth_ok_def map_update_where) (rule list_all_update, auto)
next
  case (starting session user h e db1)
  then have "db' = db\<lparr>db_sessions := db_sessions db @ [session], db_next := db_next db + 4\<rparr>"
    "h \<notin> se_token_hash ` set (db_sessions db)"
    using insert_sessionD [of session db db1] by simp_all
  then show ?thesis
    using ok auth_okD(5) [OF ok] starting(2) by (fastforce simp: auth_ok_def list_all_iff)
next
  case (rotating s user h e db1 now)
  let ?new = "new_session (db_next db + 1) (se_family s) user h e"
  have db1: "db1 = db\<lparr>db_sessions := db_sessions db @ [?new]\<rparr>" "h \<notin> se_token_hash ` set (db_sessions db)"
    using insert_sessionD [OF rotating(4)] by simp_all
  have "auth_ok (db1\<lparr>db_next := db_next db + 3\<rparr>)"
    using ok auth_okD(5) [OF ok] db1(2) rotating(2) by (fastforce simp: db1(1) auth_ok_def list_all_iff)
  moreover have "auth_ok (update_sessions q (rotate_session now k) d)" if "auth_ok d" for q k d
    using that by (simp add: auth_ok_def map_update_where) (rule list_all_update, auto)
  ultimately show ?thesis unfolding rotating(1) by blast
next
  case (login_time i now)
  then show ?thesis using ok by (simp add: auth_ok_def map_update_where) (rule list_all_update, auto)
next
  case (new_password i hash)
  have "auth_ok (update_user i f db)" if "\<And>u. us_id (f u) = us_id u" for f
    using ok that by (simp add: auth_ok_def map_update_where) (rule list_all_update, auto)
  from this [of "\<lambda>u. u\<lparr>us_password_hash := hash, us_token_version := us_token_version u + 1\<rparr>"]
  show ?thesis unfolding new_password by (fastforce simp: auth_ok_def list_all_iff)
next
  case (inviting org email name role hash)
  then show ?thesis using ok by (fastforce simp: auth_ok_def list_all_iff)
next
  case (registering body now token)
  then show ?thesis using ok by (fastforce simp: auth_ok_def list_all_iff add_account_def new_org_def new_claim_def Let_def)
next
  case (deactivating a i)
  have "auth_ok (update_user i f db)" if "\<And>u. us_id (f u) = us_id u" for f
    using ok that by (simp add: auth_ok_def map_update_where) (rule list_all_update, auto)
  then show ?thesis unfolding deactivating by simp
qed (use ok in simp)

section \<open>What never comes back\<close>

text \<open>A family none of whose sessions is live, and that no later session can join.\<close>

definition family_dead :: "nat \<Rightarrow> db \<Rightarrow> bool" where
  "family_dead f db = (f < db_next db \<and> list_all (\<lambda>s. se_family s = f \<longrightarrow> se_revoked s \<noteq> None) (db_sessions db))"

text \<open>The session of a token hash, revoked.\<close>

definition hash_dead :: "string \<Rightarrow> db \<Rightarrow> bool" where
  "hash_dead h db = (h \<in> se_token_hash ` set (db_sessions db) \<and>
    list_all (\<lambda>s. se_token_hash s = h \<longrightarrow> se_revoked s \<noteq> None) (db_sessions db))"

text \<open>Tokens of a user up to a version are refused.\<close>

definition version_past :: "nat \<times> int \<Rightarrow> db \<Rightarrow> bool" where
  "version_past = (\<lambda>(i, v) db. i < db_next db \<and> list_all (\<lambda>u. us_id u = i \<longrightarrow> v < us_token_version u) (db_users db))"

definition has_owner :: "nat \<Rightarrow> db \<Rightarrow> bool" where
  "has_owner org db = list_ex (\<lambda>u. us_org u = org \<and> us_role u = OWNER \<and> us_active u) (db_users db)"

lemma revoke_keeps_dead:
  "list_all (\<lambda>s. key s = k \<longrightarrow> se_revoked s \<noteq> None) rows \<Longrightarrow> (\<And>s. se_revoked (f s) \<noteq> None) \<Longrightarrow>
    list_all (\<lambda>s. key s = k \<longrightarrow> se_revoked s \<noteq> None) (update_where p f rows)"
  by (auto simp: list_all_iff in_update_where_iff)

lemma family_dead_effect:
  assumes "auth_ok db" and dead: "family_dead f db" and "effect cy db db'"
  shows "family_dead f db'"
  using assms(3)
proof cases
  case (revoking p now)
  then show ?thesis using dead revoke_keeps_dead [of se_family f "db_sessions db" "revoke_session now" p]
    by (simp add: family_dead_def)
next
  case (starting session user h e db1)
  then show ?thesis using dead insert_sessionD [of session db db1] by (auto simp: family_dead_def)
next
  case (rotating s user h e db1 now)
  have "se_family s \<noteq> f" using dead rotating(2,3) by (auto simp: family_dead_def list_all_iff)
  then show ?thesis
    using dead insert_sessionD [OF rotating(4)] revoke_keeps_dead [of se_family f "db_sessions db1" "rotate_session now (db_next db + 1)"
        "\<lambda>x. se_id x = se_id s"] unfolding rotating(1)
    by (simp add: family_dead_def)
next
  case (registering body now token)
  then show ?thesis using dead by (simp add: family_dead_def add_account_def Let_def)
qed (use dead in \<open>simp_all add: family_dead_def\<close>)

lemma hash_dead_update:
  assumes "hash_dead h db" and "\<And>s. se_token_hash (f s) = se_token_hash s \<and> se_revoked (f s) \<noteq> None"
  shows "hash_dead h (update_sessions p f db)"
proof -
  have "se_token_hash ` set (update_where p f (db_sessions db)) = se_token_hash ` set (db_sessions db)"
    using assms(2) by (metis list.set_map map_update_where)
  then show ?thesis using assms revoke_keeps_dead [of se_token_hash h "db_sessions db" f p] by (simp add: hash_dead_def)
qed

lemma hash_dead_effect:
  assumes "auth_ok db" and dead: "hash_dead h db" and "effect cy db db'"
  shows "hash_dead h db'"
  using assms(3)
proof cases
  case (revoking p now)
  show ?thesis unfolding revoking by (rule hash_dead_update [OF dead]) simp
next
  case (starting session user h' e db1)
  then show ?thesis using dead insert_sessionD [of session db db1] by (auto simp: hash_dead_def)
next
  case (rotating s user h' e db1 now)
  have "hash_dead h db1" using dead insert_sessionD [OF rotating(4)] by (auto simp: hash_dead_def)
  then have "hash_dead h (update_sessions (\<lambda>x. se_id x = se_id s) (rotate_session now (db_next db + 1)) db1)"
    by (rule hash_dead_update) simp
  then show ?thesis unfolding rotating(1) by (simp add: hash_dead_def)
next
  case (registering body now token)
  then show ?thesis using dead by (simp add: hash_dead_def add_account_def Let_def)
qed (use dead in \<open>simp_all add: hash_dead_def\<close>)

lemma version_past_update:
  "version_past iv db \<Longrightarrow> (\<And>u. us_id (f u) = us_id u \<and> us_token_version u \<le> us_token_version (f u)) \<Longrightarrow>
    version_past iv (update_user k f db)"
proof -
  assume past: "version_past iv db" and f: "\<And>u. us_id (f u) = us_id u \<and> us_token_version u \<le> us_token_version (f u)"
  have "v < us_token_version (f u)" if "v < us_token_version u" for v u using that f [of u] by linarith
  then show ?thesis using past f by (cases iv) (auto simp: version_past_def list_all_iff in_update_where_iff)
qed

lemma version_past_effect:
  assumes "auth_ok db" and past: "version_past iv db" and "effect cy db db'"
  shows "version_past iv db'"
  using assms(3)
proof cases
  case (starting session user h e db1)
  then show ?thesis using past insert_sessionD [of session db db1] by (cases iv) (auto simp: version_past_def)
next
  case (rotating s user h e db1 now)
  then show ?thesis using past insert_sessionD [OF rotating(4)] by (cases iv) (auto simp: version_past_def)
next
  case (login_time i now)
  then show ?thesis using version_past_update [OF past] by simp
next
  case (new_password i hash)
  have "version_past iv (update_user i (\<lambda>u. u\<lparr>us_password_hash := hash, us_token_version := us_token_version u + 1\<rparr>) db)"
    by (rule version_past_update [OF past]) simp
  then show ?thesis unfolding new_password by (cases iv) (simp add: version_past_def)
next
  case (inviting org email name role hash)
  then show ?thesis using past by (cases iv) (simp add: version_past_def)
next
  case (registering body now token)
  then show ?thesis using past by (cases iv) (simp add: version_past_def add_account_def Let_def)
next
  case (deactivating a i)
  show ?thesis unfolding deactivating by (rule version_past_update [OF past]) simp
qed (use past in \<open>cases iv; simp add: version_past_def\<close>)+

lemma has_owner_effect:
  assumes "auth_ok db" and own: "has_owner org db" and "effect cy db db'"
  shows "has_owner org db'"
proof -
  have edit: "has_owner org (update_user i f db)"
    if "\<And>u. us_org (f u) = us_org u \<and> us_role (f u) = us_role u \<and> us_active (f u) = us_active u" for i f
  proof -
    obtain w where w: "w \<in> set (db_users db)" "us_org w = org" "us_role w = OWNER" "us_active w"
      using own by (auto simp: has_owner_def list_ex_iff)
    have "\<exists>r \<in> set (db_users db). (let u = if us_id r = i then f r else r in us_org u = org \<and> us_role u = OWNER \<and> us_active u)"
      by (rule bexI [OF _ w(1)]) (use w that in simp)
    then show ?thesis by (simp add: has_owner_def list_ex_update_where Let_def)
  qed
  show ?thesis
    using assms(3)
  proof cases
    case (starting session user h e db1)
    then show ?thesis using own insert_sessionD [of session db db1] by (auto simp: has_owner_def)
  next
    case (rotating s user h e db1 now)
    then show ?thesis using own insert_sessionD [OF rotating(4)] by (auto simp: has_owner_def)
  next
    case (login_time i now)
    then show ?thesis using edit by simp
  next
    case (new_password i hash)
    have "has_owner org (update_user i (\<lambda>u. u\<lparr>us_password_hash := hash, us_token_version := us_token_version u + 1\<rparr>) db)"
      by (rule edit) simp
    then show ?thesis unfolding new_password by (simp add: has_owner_def)
  next
    case (inviting org' email name role hash)
    then show ?thesis using own by (simp add: has_owner_def)
  next
    case (registering body now token)
    then show ?thesis using own by (simp add: has_owner_def add_account_def Let_def)
  next
    case (deactivating a i)
    obtain w where w: "w \<in> set (db_users db)" "us_org w = org" "us_role w = OWNER" "us_active w"
      using own by (auto simp: has_owner_def list_ex_iff)
    have "\<exists>x \<in> set (db_users db). us_id x \<noteq> i \<and> us_org x = org \<and> us_role x = OWNER \<and> us_active x"
    proof (cases "us_id w = i")
      case True
      then show ?thesis using w deactivating(2,3,4) deactivating(5) [OF w(1) True] by auto
    qed (use w in auto)
    then show ?thesis unfolding deactivating(1) by (auto simp: has_owner_def list_ex_update_where)
  qed (use own in \<open>simp_all add: has_owner_def\<close>)
qed

section \<open>Authority\<close>

text \<open>A registration adds an organisation with no authority and a claim that proves nothing.\<close>

lemma claims_ok_account:
  assumes ok: "claims_ok db" and keys: "auth_ok db" and d: "rb_domain body \<noteq> []"
  shows "claims_ok (fst (add_account cy now token body db))"
proof -
  let ?n = "db_next db" and ?db = "fst (add_account cy now token body db)"
  let ?c = "new_claim (db_next db + 3) (db_next db) (Some (db_next db + 1)) (rb_domain body) token now"
  have db: "db_orgs ?db = db_orgs db @ [new_org ?n (rb_org body) (rb_domain body)]"
      "db_claims ?db = db_claims db @ [?c]" "db_next ?db = ?n + 4"
    by (simp_all add: add_account_def Let_def)
  have fresh_org: "?n \<notin> og_id ` set (db_orgs db)" using auth_okD(6) [OF keys] by force
  have fresh_org_claim: "?n \<notin> cl_org ` set (db_claims db)" using auth_okD(7) [OF keys] by force
  then have fresh_claim: "(?n, x) \<notin> claim_key ` set (db_claims db)" for x by (auto simp: claim_key_def)
  have fresh_id: "?n + 3 \<notin> cl_id ` set (db_claims db)" using claims_okD(4) [OF ok] by force
  have v: "verified_claim ?db i x \<longleftrightarrow> verified_claim db i x" for i x
    by (simp add: verified_claim_def db new_claim_def)
  show ?thesis
  proof (rule claims_okI)
    show "keyed og_id (db_orgs ?db)" using claims_okD(1) [OF ok] fresh_org by (auto simp: db new_org_def)
    show "keyed cl_id (db_claims ?db)" using claims_okD(2) [OF ok] fresh_id by (auto simp: db new_claim_def)
    show "keyed claim_key (db_claims ?db)" 
    proof -
      have "claim_key ?c = (?n, rb_domain body)" by (simp add: claim_key_def new_claim_def)
      then show ?thesis using claims_okD(3) [OF ok] fresh_claim [of "rb_domain body"] by (simp add: db)
    qed
    show "c \<in> set (db_claims ?db) \<Longrightarrow> cl_id c < db_next ?db \<and> cl_domain c \<noteq> []" for c
      using claims_okD(4) [OF ok, of c] d by (auto simp: db new_claim_def)
    show "x \<in> set (og_verified org) \<longleftrightarrow> verified_claim ?db (og_id org) x" if "org \<in> set (db_orgs ?db)" for org x
    proof (cases "org \<in> set (db_orgs db)")
      case True
      then show ?thesis using claims_okD(5) [OF ok] v by simp
    next
      case False
      then have o': "org = new_org ?n (rb_org body) (rb_domain body)" using that by (simp add: db)
      have "\<not> verified_claim db ?n x" using fresh_claim [of x] by (auto simp: verified_claim_def list_ex_iff) (metis image_eqI)
      then show ?thesis using v by (simp add: o' new_org_def)
    qed
  qed
qed

lemma claims_ok_effect:
  assumes "auth_ok db" and ok: "claims_ok db" and "effect cy db db'"
  shows "claims_ok db'"
  using assms(3)
proof cases
  case (webhook url i)
  have v: "verified_claim db' = verified_claim db" by (simp add: webhook)
  show ?thesis
  proof (rule claims_okI)
    show "d \<in> set (og_verified org) \<longleftrightarrow> verified_claim db' (og_id org) d" if "org \<in> set (db_orgs db')" for org d
      using that claims_okD(5) [OF ok] by (auto simp: webhook in_update_where_iff)
    show "keyed og_id (db_orgs db')" using claims_okD(1) [OF ok] by (simp add: webhook map_update_where)
  qed (use claims_okD(2-4) [OF ok] in \<open>simp_all add: webhook\<close>)
next
  case (starting session user h e db1)
  then show ?thesis using insert_sessionD [of session db db1] by (intro claims_ok_cong [OF ok]) auto
next
  case (rotating s user h e db1 now)
  then show ?thesis using insert_sessionD [OF rotating(4)] by (intro claims_ok_cong [OF ok]) auto
next
  case (registering body now token)
  then show ?thesis using claims_ok_account [OF ok assms(1)] by simp
qed (use claims_ok_cong [OF ok] in \<open>simp_all add: ok\<close>)

lemma account_authority:
  "verified_claim (fst (add_account cy now token body db)) i x \<longleftrightarrow> verified_claim db i x"
  by (simp add: verified_claim_def add_account_def Let_def new_claim_def)

lemma effect_authority:
  assumes "effect cy db db'"
  shows "verified_claim db' i x \<longleftrightarrow> verified_claim db i x"
  using assms
proof cases
  case (starting session user h e db1)
  then show ?thesis using insert_sessionD [of session db db1] by (auto simp: verified_claim_def)
next
  case (rotating s user h e db1 now)
  then show ?thesis using insert_sessionD [OF rotating(4)] by (auto simp: verified_claim_def)
next
  case (registering body now token)
  then show ?thesis by (simp add: account_authority)
qed (simp_all add: verified_claim_def)

section \<open>The account system\<close>

definition account_ok :: "db \<Rightarrow> bool" where
  "account_ok db = (auth_ok db \<and> claims_ok db)"

lemma auth_step_keeps:
  assumes "auth_ok (snd st)" and "P (snd st)" and "\<And>db db'. auth_ok db \<Longrightarrow> P db \<Longrightarrow> effect cy db db' \<Longrightarrow> P db'"
  shows "P (snd (auth_step cy cfg rs client st e))"
proof -
  have "effects cy (snd st) (snd (auth_step cy cfg rs client st e))"
    using assms(1) by (intro auth_step_effects) (simp add: users_keyed_def auth_ok_def)
  then have "auth_ok (snd (auth_step cy cfg rs client st e)) \<and> P (snd (auth_step cy cfg rs client st e))"
    by (rule effects_invariant) (use assms auth_ok_effect in blast)+
  then show ?thesis ..
qed

lemma auth_step_ok: "auth_ok (snd st) \<Longrightarrow> auth_ok (snd (auth_step cy cfg rs client st e))"
  using auth_step_keeps [where P = auth_ok] auth_ok_effect by blast

lemma auth_step_account_ok:
  assumes "account_ok (snd st)"
  shows "account_ok (snd (auth_step cy cfg rs client st e))"
proof (rule auth_step_keeps [where P = account_ok, OF _ assms])
  show "auth_ok (snd st)" using assms by (simp add: account_ok_def)
  show "account_ok db'" if "auth_ok db" "account_ok db" "effect cy db db'" for db db'
    using that auth_ok_effect claims_ok_effect unfolding account_ok_def by blast
qed

interpretation account: kept_system "auth_step cy cfg rs client" "\<lambda>st. account_ok (snd st)" for cy cfg rs client
  by unfold_locales (rule auth_step_account_ok)

interpretation families: latched_system "auth_step cy cfg rs client" "\<lambda>st. auth_ok (snd st)" "\<lambda>f st. family_dead f (snd st)"
  for cy cfg rs client
  by unfold_locales (auto intro: auth_step_ok auth_step_keeps family_dead_effect)

interpretation hashes: latched_system "auth_step cy cfg rs client" "\<lambda>st. auth_ok (snd st)" "\<lambda>h st. hash_dead h (snd st)"
  for cy cfg rs client
  by unfold_locales (auto intro: auth_step_ok auth_step_keeps hash_dead_effect)

interpretation versions: latched_system "auth_step cy cfg rs client" "\<lambda>st. auth_ok (snd st)" "\<lambda>iv st. version_past iv (snd st)"
  for cy cfg rs client
  by unfold_locales (auto intro: auth_step_ok auth_step_keeps version_past_effect)

interpretation owners: latched_system "auth_step cy cfg rs client" "\<lambda>st. auth_ok (snd st)" "\<lambda>org st. has_owner org (snd st)"
  for cy cfg rs client
  by unfold_locales (auto intro: auth_step_ok auth_step_keeps has_owner_effect)

section \<open>A token library to evaluate with\<close>

text \<open>
  What the program relies on: the library accepts, until it expires, a token that it signed
  itself. A concrete library with that law joins the claims by dots; its signature is no
  secret, which no property here depends on.
\<close>

definition signs_and_verifies :: "crypto \<Rightarrow> bool" where
  "signs_and_verifies cy \<longleftrightarrow>
    (\<forall>user kind lifetime now jti t. kind \<in> {''access'', ''refresh''} \<longrightarrow> now div 1000000 \<le> t div 1000000 \<longrightarrow>
      t div 1000000 < (now + lifetime) div 1000000 \<longrightarrow>
      cy_verify cy (cy_sign cy (create_claims user kind lifetime now jti)) t = Inr (create_claims user kind lifetime now jti))"

definition put_int :: "int \<Rightarrow> string" where
  "put_int n = (if n < 0 then CHR ''m'' # dec (- n) else CHR ''p'' # dec n)"

fun get_int :: "string \<Rightarrow> int" where
  "get_int [] = 0"
| "get_int (c # s) = (if c = CHR ''m'' then - undec 0 s else undec 0 s)"

definition dotted_claims :: "claims \<Rightarrow> string" where
  "dotted_claims c = join ''.''
    [the (cm_sub c), the (cm_org c), the (cm_role c), put_int (the (cm_tv c)), the (cm_type c),
     put_int (the (cm_iat c)), put_int (the (cm_exp c)), the (cm_jti c)]"

fun undotted_claims :: "string list \<Rightarrow> claims option" where
  "undotted_claims [sub, org, role, tv, kind, iat, e, jti] =
    Some \<lparr>cm_sub = Some sub, cm_org = Some org, cm_role = Some role, cm_tv = Some (get_int tv), cm_type = Some kind,
      cm_iat = Some (get_int iat), cm_exp = Some (get_int e), cm_jti = Some jti\<rparr>"
| "undotted_claims _ = None"

definition dotted_crypto :: crypto where
  "dotted_crypto =
    \<lparr>cy_hashpw = (\<lambda>bytes salt. map char_of bytes), cy_checkpw = (\<lambda>bytes hash. Some (map char_of bytes = hash)),
     cy_sign = dotted_claims,
     cy_verify = (\<lambda>token now. case undotted_claims (split_on (CHR ''.'') token) of
        None \<Rightarrow> Inl ''Not enough segments''
      | Some c \<Rightarrow> if the (cm_exp c) \<le> now div 1000000 then Inl ''Signature has expired'' else Inr c),
     cy_sha256 = (\<lambda>s. s), cy_sha1 = (\<lambda>s. s), cy_range = (\<lambda>_. None)\<rparr>"

lemma get_put_int: "get_int (put_int n) = n"
  by (simp add: put_int_def)

lemma dec_dotless: "0 \<le> n \<Longrightarrow> CHR ''.'' \<notin> set (dec n)"
  using dec_digits by (fastforce simp: is_ascii_digit_def ord_def Let_def)

lemma put_int_no_dot: "CHR ''.'' \<notin> set (put_int n)"
  using dec_dotless by (simp add: put_int_def)

lemma role_name_no_dot: "CHR ''.'' \<notin> set (role_name r)"
  by (cases r) simp_all

lemma undotted_dotted:
  assumes "kind \<in> {''access'', ''refresh''}"
  shows "undotted_claims (split_on (CHR ''.'') (dotted_claims (create_claims user kind lifetime now jti))) =
    Some (create_claims user kind lifetime now jti)"
proof -
  have "CHR ''.'' \<notin> set kind" using assms by auto
  then show ?thesis
    unfolding dotted_claims_def create_claims_def
    by (subst split_join) (auto simp: uuid_str_def dec_dotless put_int_no_dot role_name_no_dot get_put_int)
qed

lemma dotted_signs: "signs_and_verifies dotted_crypto"
  unfolding signs_and_verifies_def
  by (auto simp: dotted_crypto_def undotted_dotted) (simp_all add: create_claims_def)

lemma uuid_parse_str: "uuid_parse (uuid_str i) = Some i"
  using dec_digits [of "int i"] by (simp add: uuid_parse_def uuid_str_def list_all_iff)

text \<open>One organisation, its owner, an analyst and an open session of the owner.\<close>

definition desk_user :: "nat \<Rightarrow> string \<Rightarrow> user_role \<Rightarrow> user_row" where
  "desk_user i email role =
    \<lparr>us_id = i, us_org = 1, us_email = email, us_name = None, us_role = role, us_password_hash = ''old-secret'',
     us_active = True, us_last_login = None, us_token_version = 0\<rparr>"

abbreviation desk_owner :: user_row where
  "desk_owner \<equiv> desk_user 2 ''o@a.co'' OWNER"

definition desk_cfg :: auth_settings where
  "desk_cfg = \<lparr>as_access_minutes = 1, as_refresh_days = 1, as_hibp = False, as_hibp_max = 1\<rparr>"

definition desk_refresh :: string where
  "desk_refresh = create_refresh_token dotted_crypto desk_cfg desk_owner 0 4"

definition desk_access :: string where
  "desk_access = create_access_token dotted_crypto desk_cfg desk_owner 0 7"

definition desk_db :: db where
  "desk_db =
    \<lparr>db_next = 20,
     db_orgs = [\<lparr>og_id = 1, og_name = ''Acme'', og_domain = ''a.co'', og_verified = [''a.co''], og_active = True, og_webhook = None\<rparr>],
     db_users = [desk_owner, desk_user 3 ''n@a.co'' ANALYST],
     db_sessions = [new_session 5 6 desk_owner desk_refresh us_day],
     db_claims = [(new_claim 8 1 None ''a.co'' ''tok'' 0)\<lparr>cl_status := CLAIM_VERIFIED\<rparr>],
     db_scans = [], db_logs = [], db_schedules = [], db_reports = []\<rparr>"

lemma desk_ok: "account_ok desk_db" and desk_auth: "auth_ok desk_db"
  by code_simp+

abbreviation desk_run :: "redis_store \<times> db \<Rightarrow> auth_event list \<Rightarrow> redis_store \<times> db" where
  "desk_run \<equiv> foldl (auth_step dotted_crypto desk_cfg default_rate_settings rd_client)"

section \<open>Properties\<close>

abbreviation run_auth :: "crypto \<Rightarrow> auth_settings \<Rightarrow> rate_settings \<Rightarrow> 'r redis_client \<Rightarrow> 'r \<times> db \<Rightarrow> auth_event list \<Rightarrow> 'r \<times> db" where
  "run_auth cy cfg rs client \<equiv> foldl (auth_step cy cfg rs client)"

text \<open>
  C4: who gets through a role gate. A request is let in with principal \<open>cur\<close> exactly when it
  carries an access token (never a refresh token) that the library accepts, naming a user who
  is active, whose organisation and token version are still those of the token, and whose
  stored role is at least the one asked for; \<open>cur\<close> carries the stored organisation and role,
  not the token's.
\<close>

theorem role_gate_exact:
  "with_role cy now cred db minimum = Inr cur \<longleftrightarrow>
    (\<exists>token p u. cred = Some token \<and> token \<noteq> [] \<and> decode_token cy now token ''access'' = Inr p \<and>
       user_by_id db (tp_user p) = Some u \<and> us_active u \<and> us_org u = tp_org p \<and> us_token_version u = tp_version p \<and>
       role_rank minimum \<le> role_rank (us_role u) \<and>
       cur = \<lparr>cu_id = us_id u, cu_org = us_org u, cu_email = us_email u, cu_role = us_role u\<rparr>)"
  by (auto simp: with_role_def get_current_user_def require_role_def resolve_user_def at_least_def
      split: option.splits sum.splits if_splits)

lemma decode_type: "decode_token cy now token kind = Inr p \<Longrightarrow> tp_type p = kind"
  by (auto simp: decode_token_def token_payload_def split: sum.splits if_splits option.splits)

text \<open>What a signed token says.\<close>

lemma decode_signed:
  assumes "signs_and_verifies cy" and "kind \<in> {''access'', ''refresh''}" and "now div 1000000 \<le> t div 1000000"
    and "t div 1000000 < (now + lifetime) div 1000000"
  shows "decode_token cy t (cy_sign cy (create_claims user kind lifetime now jti)) kind =
      Inr \<lparr>tp_user = us_id user, tp_org = us_org user, tp_role = role_name (us_role user),
        tp_version = us_token_version user, tp_type = kind, tp_jti = Some (uuid_str jti), tp_exp = (now + lifetime) div 1000000\<rparr>"
    and "expect \<noteq> kind \<Longrightarrow> \<exists>e. decode_token cy t (cy_sign cy (create_claims user kind lifetime now jti)) expect = Inl e"
proof -
  have "cy_verify cy (cy_sign cy (create_claims user kind lifetime now jti)) t = Inr (create_claims user kind lifetime now jti)"
    using assms unfolding signs_and_verifies_def by blast
  then show "decode_token cy t (cy_sign cy (create_claims user kind lifetime now jti)) kind =
      Inr \<lparr>tp_user = us_id user, tp_org = us_org user, tp_role = role_name (us_role user),
        tp_version = us_token_version user, tp_type = kind, tp_jti = Some (uuid_str jti), tp_exp = (now + lifetime) div 1000000\<rparr>"
    and "expect \<noteq> kind \<Longrightarrow> \<exists>e. decode_token cy t (cy_sign cy (create_claims user kind lifetime now jti)) expect = Inl e"
    by (simp_all add: decode_token_def token_payload_def create_claims_def uuid_parse_str)
qed

definition principal :: "user_row \<Rightarrow> current_user" where
  "principal u = \<lparr>cu_id = us_id u, cu_org = us_org u, cu_email = us_email u, cu_role = us_role u\<rparr>"

lemma issue_tokens_InrD:
  assumes "issue_tokens cy cfg now user db = (db', Inr pair)"
  shows "db_users db' = db_users db"
    and "tk_access pair = cy_sign cy (create_claims user ''access'' (as_access_minutes cfg * 60000000) now (db_next db + 3))"
    and "tk_refresh pair = cy_sign cy (create_claims user ''refresh'' (as_refresh_days cfg * us_day) now (db_next db))"
    and "se_token_hash (last (db_sessions db')) = cy_sha256 cy (tk_refresh pair)"
  using assms
  by (auto simp: issue_tokens_def insert_session_def token_pair_of_def create_access_token_def create_refresh_token_def Let_def
      split: option.splits if_splits)

lemma login_success:
  assumes "login cy cfg rs client now email password (r, db) = ((r', db'), Inr pair)"
  obtains u where "find_user_by_email db email = Some u" and "verify_password cy password (us_password_hash u)" and "us_active u"
    and "issue_tokens cy cfg now (u\<lparr>us_last_login := Some now\<rparr>)
      (update_user (us_id u) (\<lambda>u. u\<lparr>us_last_login := Some now\<rparr>) db) = (db', Inr pair)"
proof -
  have refused: False if "((a, b), Inl e) = ((r', db'), Inr pair)" for a :: 'a and b e using that by simp
  obtain u where u: "find_user_by_email db email = Some u" "verify_password cy password (us_password_hash u)" "us_active u"
    using assms by (auto simp: login_def Let_def split: verdict.splits option.splits if_splits bool.splits)
  have "issue_tokens cy cfg now (u\<lparr>us_last_login := Some now\<rparr>)
      (update_user (us_id u) (\<lambda>u. u\<lparr>us_last_login := Some now\<rparr>) db) = (db', Inr pair)"
    using assms u by (simp add: login_def Let_def split: verdict.splits prod.splits)
  with u show ?thesis by (rule that)
qed

lemma user_after_login:
  assumes ok: "auth_ok db" and "find_user_by_email db email = Some u" and users: "db_users db' = db_users (update_user (us_id u) f db)"
    and "us_id (f u) = us_id u"
  shows "u \<in> set (db_users db)" and "lower (us_email u) = lower email" and "user_by_id db' (us_id u) = Some (f u)"
proof -
  show m: "u \<in> set (db_users db)" and "lower (us_email u) = lower email"
    using find_SomeD [of "\<lambda>u. lower (us_email u) = lower email" "db_users db" u] assms(2)
    by (simp_all add: find_user_by_email_def)
  have same: "x = u" if "x \<in> set (db_users db)" "us_id x = us_id u" for x
    using keyed_unique [OF auth_okD(1) [OF ok] that(1) m that(2)] .
  have "row_by us_id (us_id u) (update_where (\<lambda>x. us_id x = us_id u) f rows) = Some (f u)"
    if "set rows \<subseteq> set (db_users db)" "u \<in> set rows" for rows
    using that by (induction rows) (auto simp: row_by_def update_where_def assms(4) dest: same)
  then show "user_by_id db' (us_id u) = Some (f u)" using m by (simp add: user_by_id_def users)
qed

text \<open>
  C8: who signs in is who the API then sees. The access token of a successful login belongs
  to an active user with that address (case apart) and that password; until it expires it
  authenticates as exactly that user, with the stored organisation and role, and it is good
  for nothing else: the refresh endpoint refuses it, as the API refuses the refresh token.
\<close>

theorem login_token_identifies_user:
  assumes "signs_and_verifies cy" and "auth_ok db" and "login cy cfg rs client now email password (r, db) = ((r', db'), Inr pair)"
    and "now div 1000000 \<le> t div 1000000" and "t div 1000000 < (now + as_access_minutes cfg * 60000000) div 1000000"
    and "as_access_minutes cfg * 60000000 \<le> as_refresh_days cfg * us_day"
  shows "\<exists>u e1 e2. u \<in> set (db_users db) \<and> lower (us_email u) = lower email \<and> us_active u \<and>
    verify_password cy password (us_password_hash u) \<and> resolve_user cy t (tk_access pair) db' = Inr (principal u) \<and>
    resolve_user cy t (tk_refresh pair) db' = Inl e1 \<and> snd (refresh cy cfg t (tk_access pair) db') = Inl e2"
proof -
  let ?seen = "\<lambda>u. u\<lparr>us_last_login := Some now\<rparr>"
  obtain u where u: "find_user_by_email db email = Some u" "verify_password cy password (us_password_hash u)" "us_active u"
      "issue_tokens cy cfg now (?seen u) (update_user (us_id u) ?seen db) = (db', Inr pair)"
    using login_success [OF assms(3)] by blast
  note issued = issue_tokens_InrD [OF u(4)]
  have "us_id (?seen u) = us_id u" by simp
  note row = user_after_login [OF assms(2) u(1) issued(1) this]
  let ?n = "db_next (update_user (us_id u) ?seen db)"
  have later: "(now + as_access_minutes cfg * 60000000) div 1000000 \<le> (now + as_refresh_days cfg * us_day) div 1000000"
    using assms(6) by (intro zdiv_mono1) simp_all
  have "\<exists>e. decode_token cy t (tk_refresh pair) ''access'' = Inl e"
    unfolding issued(3) by (rule decode_signed(2) [OF assms(1) _ assms(4)]) (use assms(5) later in simp_all)
  then have "\<exists>e. resolve_user cy t (tk_refresh pair) db' = Inl e" by (auto simp: resolve_user_def)
  moreover have "decode_token cy t (tk_access pair) ''access'' =
      Inr \<lparr>tp_user = us_id u, tp_org = us_org u, tp_role = role_name (us_role u), tp_version = us_token_version u,
        tp_type = ''access'', tp_jti = Some (uuid_str (?n + 3)), tp_exp = (now + as_access_minutes cfg * 60000000) div 1000000\<rparr>"
    unfolding issued(2) using decode_signed(1) [OF assms(1) _ assms(4,5), of "''access''" "?seen u" "?n + 3"] by simp
  then have "resolve_user cy t (tk_access pair) db' = Inr (principal u)"
    using row(3) u(3) by (simp add: resolve_user_def principal_def)
  moreover have "\<exists>e. decode_token cy t (tk_access pair) ''refresh'' = Inl e"
    unfolding issued(2) by (rule decode_signed(2) [OF assms(1) _ assms(4,5)]) simp_all
  then have "\<exists>e. snd (refresh cy cfg t (tk_access pair) db') = Inl e" by (auto simp: refresh_def)
  ultimately show ?thesis using row(1,2) u(2,3) by blast
qed

theorem login_token_identifies_user_witness:
  "case login dotted_crypto desk_cfg default_rate_settings rd_client 5 ''N@a.co'' ''old-secret'' (rd_empty, desk_db) of
     (st, Inl _) \<Rightarrow> False
   | (st, Inr pair) \<Rightarrow> \<exists>u. us_role u = ANALYST \<and> resolve_user dotted_crypto 59000000 (tk_access pair) (snd st) = Inr (principal u)"
proof -
  let ?in = "login dotted_crypto desk_cfg default_rate_settings rd_client 5 ''N@a.co'' ''old-secret'' (rd_empty, desk_db)"
  have "case ?in of (st, Inl _) \<Rightarrow> False | (st, Inr pair) \<Rightarrow> True" by code_simp
  then obtain r' db' pair where l: "?in = ((r', db'), Inr pair)" by (auto split: prod.splits sum.splits)
  have "list_all (\<lambda>u. lower (us_email u) = ''n@a.co'' \<longrightarrow> us_role u = ANALYST) (db_users desk_db)" by code_simp
  moreover have "lower ''N@a.co'' = ''n@a.co''" by code_simp
  moreover have "\<exists>u. u \<in> set (db_users desk_db) \<and> lower (us_email u) = lower ''N@a.co'' \<and>
      resolve_user dotted_crypto 59000000 (tk_access pair) db' = Inr (principal u)"
    using login_token_identifies_user [OF dotted_signs desk_auth l, of 59000000] by (auto simp: desk_cfg_def us_day_def us_hour_def)
  ultimately have "\<exists>u. us_role u = ANALYST \<and> resolve_user dotted_crypto 59000000 (tk_access pair) db' = Inr (principal u)"
    by (auto simp: list_all_iff)
  then show ?thesis by (simp add: l)
qed

text \<open>A used token.\<close>

lemma refresh_success:
  assumes "refresh cy cfg now token db = (db', Inr pair)"
  obtains s p u n db1 h e where "session_by_token cy token db = Some s" and "se_revoked s = None" and "now < se_expires s"
    and "decode_token cy now token ''refresh'' = Inr p" and "user_by_id db (tp_user p) = Some u" and "us_active u"
    and "us_token_version u = tp_version p" and "us_org u = tp_org p"
    and "insert_session (new_session (db_next db + 1) (se_family s) u h e) db = Some db1"
    and "db' = update_sessions (\<lambda>x. se_id x = se_id s) (rotate_session now (db_next db + 1)) (db1\<lparr>db_next := db_next db + 3\<rparr>)"
  using assms by (auto simp: refresh_def Let_def split: sum.splits option.splits if_splits)

lemma refresh_kills_hash:
  assumes ok: "auth_ok db" and "refresh cy cfg now token db = (db', Inr pair)"
  shows "hash_dead (cy_sha256 cy token) db'"
proof -
  obtain s p u n db1 h e where s: "session_by_token cy token db = Some s"
      "insert_session (new_session (db_next db + 1) (se_family s) u h e) db = Some db1"
      "db' = update_sessions (\<lambda>x. se_id x = se_id s) (rotate_session now (db_next db + 1)) (db1\<lparr>db_next := db_next db + 3\<rparr>)"
    using refresh_success [OF assms(2)] by metis
  have m: "s \<in> set (db_sessions db)" "se_token_hash s = cy_sha256 cy token" using session_by_tokenD [OF s(1)] by simp_all
  have db1: "db_sessions db1 = db_sessions db @ [new_session (db_next db + 1) (se_family s) u h e]" "h \<noteq> cy_sha256 cy token"
    using insert_sessionD [OF s(2)] image_eqI [of "cy_sha256 cy token" se_token_hash s "set (db_sessions db)"] m by auto
  have same: "x = s" if "x \<in> set (db_sessions db)" "se_token_hash x = cy_sha256 cy token" for x
    using keyed_unique [OF auth_okD(3) [OF ok] that(1) m(1)] that(2) m(2) by simp
  have "se_revoked x \<noteq> None" if x: "x \<in> set (db_sessions db')" "se_token_hash x = cy_sha256 cy token" for x
  proof -
    obtain y where y: "y \<in> set (db_sessions db1)" "x = (if se_id y = se_id s then rotate_session now (db_next db + 1) y else y)"
      using x(1) by (auto simp: s(3) in_update_where_iff)
    have "se_token_hash y = cy_sha256 cy token" using x(2) y(2) by (simp split: if_splits)
    then have "y = s" using y(1) same db1 by auto
    then show ?thesis using y(2) by simp
  qed
  moreover have "cy_sha256 cy token \<in> se_token_hash ` set (db_sessions db')"
  proof -
    have "rotate_session now (db_next db + 1) s \<in> set (db_sessions db')"
      using m(1) db1(1) by (auto simp: s(3) in_update_where_iff)
    then show ?thesis using m(2) by force
  qed
  ultimately show ?thesis by (simp add: hash_dead_def list_all_iff)
qed

lemma hash_dead_refused:
  assumes "hash_dead (cy_sha256 cy token) db"
  shows "\<exists>e. snd (refresh cy cfg now token db) = Inl e"
proof (cases "refresh cy cfg now token db")
  case (Pair db' res)
  then show ?thesis
  proof (cases res)
    case (Inr pair)
    then obtain s where "session_by_token cy token db = Some s" "se_revoked s = None"
      using refresh_success [of cy cfg now token db db' pair] Pair by metis
    then show ?thesis using assms session_by_tokenD [of cy token db s] by (auto simp: hash_dead_def list_all_iff)
  qed (use Pair in simp)
qed

text \<open>
  C5: a refresh token is spent once. After a refresh that succeeded with a token, no history
  of account events, of any length and at any times, leads to a state in which the same token
  buys another pair.
\<close>

theorem refresh_token_is_single_use:
  assumes "auth_ok db" and "refresh cy cfg now token db = (db1, Inr pair)"
    and "st = run_auth cy cfg rs client (r, db1) es"
  shows "\<exists>e. snd (refresh cy cfg now' token (snd st)) = Inl e"
proof -
  have "auth_ok (snd (r, db1))"
    using effects_invariant [where P = auth_ok, OF refresh_effects [of cy db cfg now token] assms(1) auth_ok_effect] assms(2)
    by simp
  then have "hash_dead (cy_sha256 cy token) (snd st)"
    using hashes.run_latch [of "(r, db1)" "cy_sha256 cy token" cy cfg rs client es] refresh_kills_hash [OF assms(1,2)] assms(3)
    by simp
  then show ?thesis by (rule hash_dead_refused)
qed

definition desk_spent :: db where
  "desk_spent = fst (refresh dotted_crypto desk_cfg 5 desk_refresh desk_db)"

lemma desk_spends: "\<exists>pair. refresh dotted_crypto desk_cfg 5 desk_refresh desk_db = (desk_spent, Inr pair)"
proof -
  have "case snd (refresh dotted_crypto desk_cfg 5 desk_refresh desk_db) of Inl _ \<Rightarrow> False | Inr _ \<Rightarrow> True" by code_simp
  then show ?thesis
    by (cases "refresh dotted_crypto desk_cfg 5 desk_refresh desk_db") (auto simp: desk_spent_def split: sum.splits)
qed

theorem refresh_token_is_single_use_witness:
  "\<exists>e. snd (refresh dotted_crypto desk_cfg 9 desk_refresh
    (snd (desk_run (rd_empty, desk_spent) [Login 7 ''1.2.3.4'' ''o@a.co'' ''old-secret'', Refresh 8 ''1.2.3.4'' desk_refresh]))) = Inl e"
proof -
  obtain pair where "refresh dotted_crypto desk_cfg 5 desk_refresh desk_db = (desk_spent, Inr pair)"
    using desk_spends by blast
  from refresh_token_is_single_use [OF desk_auth this refl] show ?thesis .
qed

text \<open>A replayed token.\<close>

lemma refresh_of_revoked:
  assumes "session_by_token cy token db = Some s" and "se_revoked s \<noteq> None"
    and "decode_token cy now token ''refresh'' = Inr p"
  shows "fst (refresh cy cfg now token db) = revoke_family now s db \<and> (\<exists>e. snd (refresh cy cfg now token db) = Inl e)"
  using assms by (simp add: refresh_def Let_def kill_family_def split: option.splits)

lemma revoke_family_dead: "auth_ok db \<Longrightarrow> s \<in> set (db_sessions db) \<Longrightarrow> family_dead (se_family s) (revoke_family now s db)"
  by (auto simp: family_dead_def revoke_family_def list_all_iff in_update_where_iff dest: auth_okD(5))

text \<open>
  C6: replaying a spent token kills the family for good. When a token whose session is
  already revoked is presented again and decodes, the answer is an error, and from then on,
  in every later history, every session of its family is revoked, the successors the holder
  of the token or a thief may have been issued included.
\<close>

theorem replay_kills_the_family:
  assumes "auth_ok db" and "session_by_token cy token db = Some s" and "se_revoked s \<noteq> None"
    and "decode_token cy now token ''refresh'' = Inr p" and "refresh cy cfg now token db = (db1, res)"
    and "st = run_auth cy cfg rs client (r, db1) es" and "x \<in> set (db_sessions (snd st))" and "se_family x = se_family s"
  shows "(\<exists>e. res = Inl e) \<and> se_revoked x \<noteq> None"
proof -
  have f: "db1 = revoke_family now s db" "\<exists>e. res = Inl e"
    using refresh_of_revoked [OF assms(2-4), of cfg] assms(5) by simp_all
  have "family_dead (se_family s) db1"
    using revoke_family_dead [OF assms(1)] session_by_tokenD [OF assms(2)] f(1) by blast
  moreover have "auth_ok db1"
    using effects_invariant [where P = auth_ok, OF refresh_effects [of cy db cfg now token] assms(1) auth_ok_effect] assms(5)
    by simp
  ultimately have "family_dead (se_family s) (snd st)"
    using families.run_latch [of "(r, db1)" "se_family s" cy cfg rs client es] assms(6) by simp
  then show ?thesis using f(2) assms(7,8) by (simp add: family_dead_def list_all_iff)
qed

theorem replay_kills_the_family_witness:
  "let db = fst (refresh dotted_crypto desk_cfg 6 desk_refresh desk_spent);
       rows = db_sessions (snd (desk_run (rd_empty, db) [Login 7 ''1.2.3.4'' ''o@a.co'' ''old-secret'']))
   in map se_family rows = [6, 6, 25] \<and> se_revoked (rows ! 1) \<noteq> None"
proof -
  let ?res = "refresh dotted_crypto desk_cfg 6 desk_refresh desk_spent"
  let ?rows = "db_sessions (snd (desk_run (rd_empty, fst ?res) [Login 7 ''1.2.3.4'' ''o@a.co'' ''old-secret'']))"
  obtain s where s: "session_by_token dotted_crypto desk_refresh desk_spent = Some s" "se_revoked s \<noteq> None" "se_family s = 6"
  proof -
    have "case session_by_token dotted_crypto desk_refresh desk_spent of None \<Rightarrow> False
      | Some s \<Rightarrow> se_revoked s \<noteq> None \<and> se_family s = 6" by code_simp
    then show ?thesis using that by (auto split: option.splits)
  qed
  obtain p where p: "decode_token dotted_crypto 6 desk_refresh ''refresh'' = Inr p"
  proof -
    have "case decode_token dotted_crypto 6 desk_refresh ''refresh'' of Inl _ \<Rightarrow> False | Inr _ \<Rightarrow> True" by code_simp
    then show ?thesis using that by (auto split: sum.splits)
  qed
  have ok: "auth_ok desk_spent" by code_simp
  have rows: "map se_family ?rows = [6, 6, 25]" by code_simp
  have "1 < length ?rows" by (rule length_map [of se_family ?rows, unfolded rows, THEN subst]) simp
  then have row: "?rows ! 1 \<in> set ?rows" by (rule nth_mem)
  have "se_family (?rows ! 1) = se_family s" unfolding s(3) by code_simp
  then have "se_revoked (?rows ! 1) \<noteq> None"
    using replay_kills_the_family [OF ok s(1,2) p prod.collapse [symmetric] refl row] by blast
  then show ?thesis using rows by (simp add: Let_def)
qed

text \<open>Old token versions.\<close>

lemma version_past_refused:
  assumes past: "version_past (i, v) db"
    and old: "\<And>kind p. decode_token cy now token kind = Inr p \<Longrightarrow> tp_user p = i \<and> tp_version p \<le> v"
  shows "(\<nexists>cur. resolve_user cy now token db = Inr cur) \<and> (\<exists>e. snd (refresh cy cfg now token db) = Inl e)"
proof -
  have no: "us_token_version u \<noteq> tp_version p" if "decode_token cy now token kind = Inr p" "user_by_id db (tp_user p) = Some u" for kind p u
    using past old [OF that(1)] row_by_SomeD [OF that(2) [unfolded user_by_id_def]] by (auto simp: version_past_def list_all_iff)
  have "\<exists>e. snd (refresh cy cfg now token db) = Inl e"
  proof (cases "snd (refresh cy cfg now token db)")
    case (Inr pair)
    then obtain p u where "decode_token cy now token ''refresh'' = Inr p" "user_by_id db (tp_user p) = Some u"
        "us_token_version u = tp_version p"
      using refresh_success [of cy cfg now token db "fst (refresh cy cfg now token db)" pair] by (metis prod.collapse)
    then show ?thesis using no by blast
  qed simp
  then show ?thesis using no by (auto simp: resolve_user_def split: sum.splits option.splits if_splits)
qed

lemma bumped_past:
  assumes ok: "auth_ok db" and u: "user_by_id db i = Some u" and f: "\<And>x. us_id (f x) = us_id x \<and> us_token_version (f x) = us_token_version x + 1"
    and users: "db_users db1 = update_where (\<lambda>x. us_id x = i) f (db_users db)" and nxt: "db_next db \<le> db_next db1"
  shows "version_past (i, us_token_version u) db1"
proof -
  have m: "u \<in> set (db_users db)" "us_id u = i" using row_by_SomeD [OF u [unfolded user_by_id_def]] by simp_all
  have "x = u" if "x \<in> set (db_users db)" "us_id x = i" for x
    using keyed_unique [OF auth_okD(1) [OF ok] that(1) m(1)] that(2) m(2) by simp
  then have same: "us_token_version x = us_token_version u" if "x \<in> set (db_users db)" "us_id x = i" for x
    using that by simp
  have "us_token_version u < us_token_version y" if y: "y \<in> set (db_users db1)" "us_id y = i" for y
  proof -
    obtain x where x: "x \<in> set (db_users db)" "y = (if us_id x = i then f x else x)"
      using y(1) by (auto simp: users in_update_where_iff)
    then have "us_id x = i" using y(2) f [of x] by (simp split: if_splits)
    then show ?thesis using same [OF x(1)] x(2) f [of x] by simp
  qed
  moreover have "i < db_next db1" using auth_okD(4) [OF ok m(1)] m(2) nxt by simp
  ultimately show ?thesis by (simp add: version_past_def list_all_iff)
qed

text \<open>The events that sign a user out everywhere: a changed password and a deactivation.\<close>

definition signs_out :: "crypto \<Rightarrow> auth_settings \<Rightarrow> rate_settings \<Rightarrow> 'r redis_client \<Rightarrow> nat \<Rightarrow> 'r \<times> db \<Rightarrow> auth_event \<Rightarrow> bool" where
  "signs_out cy cfg rs client i st e =
    (case e of
       Change_password now cred old new \<Rightarrow>
         snd (post_password cy cfg rs client now cred old new st) = Inr () \<and>
         (case get_current_user cy now cred (snd st) of Inl _ \<Rightarrow> False | Inr cur \<Rightarrow> cu_id cur = i)
     | Deactivate now cred j \<Rightarrow> j = i \<and> (case snd (post_deactivate cy now cred j (snd st)) of Inl _ \<Rightarrow> False | Inr _ \<Rightarrow> True)
     | _ \<Rightarrow> False)"

lemma signs_out_past:
  assumes "auth_ok db" and "user_by_id db i = Some u" and "signs_out cy cfg rs client i (r, db) e"
  shows "version_past (i, us_token_version u) (snd (auth_step cy cfg rs client (r, db) e))"
proof (cases e)
  case (Change_password now cred old new)
  let ?res = "post_password cy cfg rs client now cred old new (r, db)"
  obtain cur where cur: "get_current_user cy now cred db = Inr cur" "cu_id cur = i" and won: "snd ?res = Inr ()"
    using assms(3) by (auto simp: signs_out_def Change_password split: sum.splits)
  obtain x hash where x: "find_user db (cu_id cur) (cu_org cur) = Some x"
      "snd (fst ?res) = revoke_user_sessions now (us_id x) ((update_user (us_id x) (\<lambda>u. u\<lparr>us_password_hash := hash,
        us_token_version := us_token_version u + 1\<rparr>) db)\<lparr>db_next := db_next db + 1\<rparr>)"
    using won by (auto simp: post_password_def cur(1) change_password_def Let_def split: verdict.splits option.splits if_splits)
  have "us_id x = i" using find_userD [OF x(1)] cur(2) by simp
  then show ?thesis
    using x(2) by (intro bumped_past [OF assms(1,2), where f = "\<lambda>u. u\<lparr>us_password_hash := hash, us_token_version := us_token_version u + 1\<rparr>"])
      (simp_all add: Change_password revoke_user_sessions_def)
next
  case (Deactivate now cred j)
  let ?res = "post_deactivate cy now cred j db"
  have j: "j = i" and won: "\<exists>m. snd ?res = Inr m"
    using assms(3) by (auto simp: signs_out_def Deactivate split: sum.splits)
  obtain cur where cur: "with_role cy now cred db ADMIN = Inr cur"
    using won by (auto simp: post_deactivate_def split: sum.splits)
  obtain x where x: "find_user db i (cu_org cur) = Some x"
      "fst ?res = revoke_user_sessions now (us_id x)
        (update_user (us_id x) (\<lambda>u. u\<lparr>us_active := False, us_token_version := us_token_version u + 1\<rparr>) db)"
    using won by (simp add: post_deactivate_def cur j deactivate_user_def split: option.splits if_splits)
  have "us_id x = i" using find_userD [OF x(1)] by simp
  then show ?thesis
    using x(2) by (intro bumped_past [OF assms(1,2), where f = "\<lambda>u. u\<lparr>us_active := False, us_token_version := us_token_version u + 1\<rparr>"])
      (simp_all add: Deactivate revoke_user_sessions_def)
qed (use assms(3) in \<open>simp_all add: signs_out_def\<close>)

text \<open>
  C7: changing a password, and deactivating a user, sign the user out everywhere for good. In
  every later history no token whose version is at most the one the user had then, access or
  refresh, authenticates a request or buys a pair.
\<close>

theorem signing_out_is_final:
  assumes "auth_ok db" and "user_by_id db i = Some u" and "signs_out cy cfg rs client i (r, db) e"
    and "st = run_auth cy cfg rs client (r, db) (e # es)"
    and "\<And>kind p. decode_token cy now' token kind = Inr p \<Longrightarrow> tp_user p = i \<and> tp_version p \<le> us_token_version u"
  shows "(\<nexists>cur. resolve_user cy now' token (snd st) = Inr cur) \<and> (\<exists>e. snd (refresh cy cfg now' token (snd st)) = Inl e)"
proof -
  have "version_past (i, us_token_version u) (snd st)"
    using versions.run_latch [of "auth_step cy cfg rs client (r, db) e" "(i, us_token_version u)" cy cfg rs client es]
      signs_out_past [OF assms(1-3)] auth_step_ok [of "(r, db)" cy cfg rs client e] assms(1,4) by simp
  then show ?thesis using assms(5) by (rule version_past_refused)
qed

theorem signing_out_is_final_witness:
  "\<nexists>cur. resolve_user dotted_crypto 11 desk_access
    (snd (desk_run (rd_empty, desk_db) [Change_password 10 (Some desk_access) ''old-secret'' ''my-glacier-vault-42'',
      Login 11 ''1.2.3.4'' ''o@a.co'' ''my-glacier-vault-42''])) = Inr cur"
proof -
  let ?e = "Change_password 10 (Some desk_access) ''old-secret'' ''my-glacier-vault-42''"
  have out: "signs_out dotted_crypto desk_cfg default_rate_settings rd_client 2 (rd_empty, desk_db) ?e" by code_simp
  have row: "user_by_id desk_db 2 = Some desk_owner" by code_simp
  have "cy_verify dotted_crypto desk_access 11 = Inr (create_claims desk_owner ''access'' 60000000 0 7)"
    using dotted_signs unfolding signs_and_verifies_def
    by (simp add: desk_access_def create_access_token_def desk_cfg_def)
  then have "tp_user p = 2 \<and> tp_version p \<le> us_token_version desk_owner"
    if "decode_token dotted_crypto 11 desk_access kind = Inr p" for kind p
    using that by (auto simp: decode_token_def token_payload_def create_claims_def desk_user_def uuid_parse_str
        split: option.splits if_splits)
  then show ?thesis
    using signing_out_is_final [OF desk_auth row out refl, of 11 desk_access] by blast
qed

text \<open>
  C9: an organisation is never left without an owner. If it has an active owner, it has one
  after every history of account events: only an owner can deactivate an owner, nobody can
  deactivate themselves, and no handler changes a role.
\<close>

theorem organisation_keeps_an_owner:
  assumes "auth_ok db" and "has_owner org db"
  shows "has_owner org (snd (run_auth cy cfg rs client (r, db) es))"
  using owners.run_latch [of "(r, db)" org cy cfg rs client es] assms by simp

theorem organisation_keeps_an_owner_witness:
  "has_owner 1 (snd (desk_run (rd_empty, desk_db) [Deactivate 9 (Some desk_access) 2, Deactivate 10 (Some desk_access) 3]))"
  by (rule organisation_keeps_an_owner [OF desk_auth]) code_simp

text \<open>
  Accounts grant no authority. Every history of account events keeps the agreement
  between verified claims and the domains an organisation may scan, and changes neither: an
  organisation that is registered may scan nothing.
\<close>

lemma accounts_grant_no_authority:
  assumes "account_ok db" and "db' = snd (run_auth cy cfg rs client (r, db) es)"
  shows "claims_ok db' \<and> auth_ok db' \<and> (verified_claim db' org d \<longleftrightarrow> verified_claim db org d)"
proof -
  have "account_ok (snd (run_auth cy cfg rs client (r, db) es)) \<and>
      (\<forall>org d. verified_claim (snd (run_auth cy cfg rs client (r, db) es)) org d \<longleftrightarrow> verified_claim db org d)"
  proof (induction es rule: rev_induct)
    case Nil
    then show ?case using assms(1) by simp
  next
    case (snoc e es)
    let ?st = "run_auth cy cfg rs client (r, db) es"
    have "auth_ok (snd ?st)" using snoc.IH by (simp add: account_ok_def)
    then have "effects cy (snd ?st) (snd (auth_step cy cfg rs client ?st e))"
      by (intro auth_step_effects) (simp add: users_keyed_def auth_ok_def)
    then have "\<forall>org d. verified_claim (snd (auth_step cy cfg rs client ?st e)) org d \<longleftrightarrow> verified_claim db org d"
      by (rule effects_invariant) (use snoc.IH effect_authority in blast)+
    then show ?case using auth_step_account_ok [of ?st cy cfg rs client e] snoc.IH by simp
  qed
  then show ?thesis using assms(2) by (simp add: account_ok_def)
qed

lemma accounts_grant_no_authority_witness:
  "let body = \<lparr>rb_org = ''Bee'', rb_domain = ''a.co'', rb_email = ''b@b.co'', rb_password = ''my-glacier-vault-42'', rb_name = None\<rparr>;
       db = snd (desk_run (rd_empty, desk_db) [Register 9 ''1.2.3.4'' ''tok2'' body])
   in length (db_orgs db) = 2 \<and> claims_ok db \<and> \<not> verified_claim db 20 ''a.co''"
proof -
  let ?body = "\<lparr>rb_org = ''Bee'', rb_domain = ''a.co'', rb_email = ''b@b.co'', rb_password = ''my-glacier-vault-42'', rb_name = None\<rparr>"
  let ?db = "snd (desk_run (rd_empty, desk_db) [Register 9 ''1.2.3.4'' ''tok2'' ?body])"
  have "claims_ok ?db \<and> (verified_claim ?db 20 ''a.co'' \<longleftrightarrow> verified_claim desk_db 20 ''a.co'')"
    using accounts_grant_no_authority [OF desk_ok refl, where r = rd_empty and cy = dotted_crypto and cfg = desk_cfg
      and rs = default_rate_settings and client = rd_client and es = "[Register 9 ''1.2.3.4'' ''tok2'' ?body]"
      and org = 20 and d = "''a.co''"] by (intro conjI) (elim conjE, assumption)+
  moreover have "\<not> verified_claim desk_db 20 ''a.co''" by code_simp
  moreover have "length (db_orgs ?db) = 2" by code_simp
  ultimately show ?thesis by (simp only: Let_def simp_thms)
qed

text \<open>
  The address of a user is unique within an organisation only, and a login takes the first
  row with the address: an organisation that invites somebody who already has an account
  elsewhere makes an account whose password is never compared.
\<close>

lemma second_account_cannot_sign_in:
  "let cur = \<lparr>cu_id = 11, cu_org = 10, cu_email = ''o@b.co'', cu_role = OWNER\<rparr>;
       body = \<lparr>ib_email = ''N@a.co'', ib_password = ''my-glacier-vault-42'', ib_role = ANALYST, ib_name = None\<rparr>
   in case invite_user dotted_crypto desk_cfg cur body desk_db of
        (db, Inl _) \<Rightarrow> False
      | (db, Inr u) \<Rightarrow> us_email u = ''n@a.co'' \<and> us_org u = 10 \<and>
          snd (login dotted_crypto desk_cfg default_rate_settings rd_client 5 ''n@a.co'' ''my-glacier-vault-42'' (rd_empty, db))
            = Inl invalid_credentials"
  by code_simp

end
