(* ===== verification/Inventory.thy ===== *)
theory Inventory
  imports Scans Scoring
begin

text \<open>
  The inventory: assets and findings (\<open>models/asset.py\<close>, \<open>models/finding.py\<close>), the handlers of
  \<open>routes/assets.py\<close> (its graph is theory AssetGraph) and \<open>routes/findings.py\<close> with their payloads.
  The tables stand beside the tables of \<open>db\<close> in the record \<open>estate\<close>; keys come from the same
  counter. A score is a rational. SHA-256 is a parameter, a function from text to text.
\<close>

section \<open>Rows\<close>

record tech_entry =
  te_name :: "string option"
  te_version :: "string option"
  te_categories :: "string list"
  te_confidence :: int
  te_cpe :: "string option"

record asset_row =
  at_id :: nat
  at_org :: nat
  at_hostname :: string
  at_ip :: "string option"
  at_ports :: "port_entry list"
  at_tech :: "tech_entry list"
  at_risk :: rat
  at_last_scanned :: "int option"
  at_status :: asset_status
  at_source :: "string option"
  at_first_seen :: "int option"
  at_notes :: "string option"
  at_created :: int

record finding_row =
  fi_id :: nat
  fi_org :: nat
  fi_asset :: "nat option"
  fi_scan :: "nat option"
  fi_title :: string
  fi_cve :: "string option"
  fi_cvss :: "rat option"
  fi_vector :: "string option"
  fi_severity :: severity
  fi_description :: "string option"
  fi_remediation :: "string option"
  fi_status :: finding_status
  fi_source :: "string option"
  fi_fingerprint :: string
  fi_evidence :: json_object
  fi_references :: "string list"
  fi_first_seen :: "int option"
  fi_last_seen :: "int option"
  fi_resolved :: "int option"
  fi_created :: int

record estate =
  es_db :: db
  es_assets :: "asset_row list"
  es_findings :: "finding_row list"

definition open_ports :: "asset_row \<Rightarrow> int list" where
  "open_ports a = sort (List.map_filter (\<lambda>p. if pe_state p = Some ''open'' then pe_port p else None) (at_ports a))"

definition technologies :: "asset_row \<Rightarrow> string list" where
  "technologies a = sort (remdups (filter (\<lambda>n. n \<noteq> []) (List.map_filter te_name (at_tech a))))"

definition is_open_status :: "finding_status \<Rightarrow> bool" where
  "is_open_status s = (s \<in> {OPEN, TRIAGED, CONFIRMED})"

definition id_text :: "nat option \<Rightarrow> string" where
  "id_text i = (case i of None \<Rightarrow> ''-'' | Some n \<Rightarrow> dec (int n))"

text \<open>
  The identity of a finding: the asset, the CVE or else the title, the port. An empty CVE id
  and the port zero count as absent.
\<close>

definition fingerprint_text :: "nat option \<Rightarrow> string \<Rightarrow> string option \<Rightarrow> int option \<Rightarrow> string" where
  "fingerprint_text asset_id title cve_id port =
    join ''|'' [id_text asset_id,
      lower (strip (case cve_id of None \<Rightarrow> title | Some c \<Rightarrow> if c = [] then title else c)),
      (case port of None \<Rightarrow> ''-'' | Some p \<Rightarrow> if p = 0 then ''-'' else dec p)]"

definition build_fingerprint :: "(string \<Rightarrow> string) \<Rightarrow> nat option \<Rightarrow> string \<Rightarrow> string option \<Rightarrow> int option \<Rightarrow> string" where
  "build_fingerprint sha asset_id title cve_id port = sha (fingerprint_text asset_id title cve_id port)"

section \<open>Table operations\<close>

abbreviation update_asset_row :: "nat \<Rightarrow> (asset_row \<Rightarrow> asset_row) \<Rightarrow> estate \<Rightarrow> estate" where
  "update_asset_row i f es \<equiv> es\<lparr>es_assets := update_where (\<lambda>a. at_id a = i) f (es_assets es)\<rparr>"

abbreviation update_finding_row :: "nat \<Rightarrow> (finding_row \<Rightarrow> finding_row) \<Rightarrow> estate \<Rightarrow> estate" where
  "update_finding_row i f es \<equiv> es\<lparr>es_findings := update_where (\<lambda>x. fi_id x = i) f (es_findings es)\<rparr>"

abbreviation next_id :: "estate \<Rightarrow> nat" where
  "next_id es \<equiv> db_next (es_db es)"

definition take_id :: "estate \<Rightarrow> estate" where
  "take_id es = es\<lparr>es_db := (es_db es)\<lparr>db_next := db_next (es_db es) + 1\<rparr>\<rparr>"

definition asset_key :: "asset_row \<Rightarrow> nat \<times> string" where
  "asset_key a = (at_org a, at_hostname a)"

definition finding_key :: "finding_row \<Rightarrow> nat \<times> string" where
  "finding_key f = (fi_org f, fi_fingerprint f)"

text \<open>An insert; None is the violation of the table's unique constraint.\<close>

definition insert_asset :: "asset_row \<Rightarrow> estate \<Rightarrow> estate option" where
  "insert_asset a es =
    (if asset_key a \<in> asset_key ` set (es_assets es) then None
     else Some ((take_id es)\<lparr>es_assets := es_assets es @ [a]\<rparr>))"

definition insert_finding :: "finding_row \<Rightarrow> estate \<Rightarrow> estate option" where
  "insert_finding f es =
    (if finding_key f \<in> finding_key ` set (es_findings es) then None
     else Some ((take_id es)\<lparr>es_findings := es_findings es @ [f]\<rparr>))"

text \<open>
  \<open>INSERT .. ON CONFLICT (org_id, fingerprint) DO UPDATE\<close>, with the id and \<open>first_seen\<close> of the
  row that is there afterwards.
\<close>

definition upsert_finding :: "finding_row \<Rightarrow> (finding_row \<Rightarrow> finding_row) \<Rightarrow> estate \<Rightarrow> estate \<times> nat \<times> int option" where
  "upsert_finding f change es =
    (case row_by finding_key (finding_key f) (es_findings es) of
       None \<Rightarrow> ((take_id es)\<lparr>es_findings := es_findings es @ [f]\<rparr>, fi_id f, fi_first_seen f)
     | Some old \<Rightarrow>
         (es\<lparr>es_findings := update_where (\<lambda>x. finding_key x = finding_key f) change (es_findings es)\<rparr>,
          fi_id old, fi_first_seen (change old)))"

definition find_asset :: "estate \<Rightarrow> nat \<Rightarrow> nat \<Rightarrow> asset_row option" where
  "find_asset es asset_id org_id = find (\<lambda>a. at_id a = asset_id \<and> at_org a = org_id) (es_assets es)"

definition find_asset_host :: "estate \<Rightarrow> nat \<Rightarrow> string \<Rightarrow> asset_row option" where
  "find_asset_host es org_id hostname = find (\<lambda>a. at_org a = org_id \<and> at_hostname a = hostname) (es_assets es)"

definition find_finding :: "estate \<Rightarrow> nat \<Rightarrow> nat \<Rightarrow> finding_row option" where
  "find_finding es finding_id org_id = find (\<lambda>f. fi_id f = finding_id \<and> fi_org f = org_id) (es_findings es)"

text \<open>\<open>ORDER BY .. DESC\<close> on a nullable column: NULL sorts first unless the query says last.\<close>

definition desc_nulls_first :: "('r \<Rightarrow> 'k::{linorder, uminus} option) \<Rightarrow> 'r list \<Rightarrow> 'r list" where
  "desc_nulls_first k rows = filter (\<lambda>r. k r = None) rows @ sort_key (\<lambda>r. - the (k r)) (filter (\<lambda>r. k r \<noteq> None) rows)"

definition desc_nulls_last :: "('r \<Rightarrow> 'k::{linorder, uminus} option) \<Rightarrow> 'r list \<Rightarrow> 'r list" where
  "desc_nulls_last k rows = sort_key (\<lambda>r. - the (k r)) (filter (\<lambda>r. k r \<noteq> None) rows) @ filter (\<lambda>r. k r = None) rows"

definition page_of :: "nat \<Rightarrow> nat \<Rightarrow> 'a list \<Rightarrow> 'a list" where
  "page_of limit offset rows = take limit (drop offset rows)"

text \<open>\<open>d[k] = f(d.get(k))\<close> on a dictionary, which keeps the order in which keys first came.\<close>

fun dict_update :: "'k \<Rightarrow> ('v option \<Rightarrow> 'v) \<Rightarrow> ('k \<times> 'v) list \<Rightarrow> ('k \<times> 'v) list" where
  "dict_update k f [] = [(k, f None)]"
| "dict_update k f ((k', v) # kvs) = (if k' = k then (k, f (Some v)) # kvs else (k', v) # dict_update k f kvs)"

lemma set_dict_update: "set (map fst (dict_update k f d)) = insert k (set (map fst d))"
  by (induction k f d rule: dict_update.induct) (simp_all add: insert_commute del: set_map)

lemma distinct_dict_update: "distinct (map fst d) \<Longrightarrow> distinct (map fst (dict_update k f d))"
proof (induction d)
  case (Cons x d)
  then show ?case using set_dict_update [of k f d] by (cases x) auto
qed simp

lemma map_of_dict_update: "map_of (dict_update k f d) = (map_of d)(k \<mapsto> f (map_of d k))"
  by (induction d) (auto simp: fun_eq_iff)

section \<open>The asset handlers\<close>

definition get_asset :: "estate \<Rightarrow> nat \<Rightarrow> nat \<Rightarrow> http_error + asset_row" where
  "get_asset es asset_id org_id =
    (case find_asset es asset_id org_id of None \<Rightarrow> Inl (not_found ''Asset'') | Some a \<Rightarrow> Inr a)"

text \<open>Open findings of an asset, as the grouped subquery counts them.\<close>

definition open_finding_count :: "estate \<Rightarrow> nat \<Rightarrow> nat \<Rightarrow> nat" where
  "open_finding_count es org_id asset_id =
    count_where (\<lambda>f. fi_org f = org_id \<and> is_open_status (fi_status f) \<and> fi_asset f = Some asset_id) (es_findings es)"

datatype asset_sort = By_risk | By_hostname | By_last_scanned | By_created

fun order_assets :: "asset_sort \<Rightarrow> asset_row list \<Rightarrow> asset_row list" where
  "order_assets By_risk rows = sort_key (\<lambda>a. - at_risk a) rows"
| "order_assets By_hostname rows = sort_key at_hostname rows"
| "order_assets By_last_scanned rows = desc_nulls_first at_last_scanned rows"
| "order_assets By_created rows = sort_key (\<lambda>a. - at_created a) rows"

record asset_filter =
  af_status :: "asset_status option"
  af_hostname :: "string option"
  af_min_risk :: "rat option"
  af_port :: "int option"
  af_technology :: "string option"

definition asset_matches :: "nat \<Rightarrow> asset_filter \<Rightarrow> asset_row \<Rightarrow> bool" where
  "asset_matches org_id q a =
    (at_org a = org_id \<and>
     (case af_status q of None \<Rightarrow> True | Some s \<Rightarrow> at_status a = s) \<and>
     (case af_hostname q of None \<Rightarrow> True | Some h \<Rightarrow> h = [] \<or> like (lower (''%'' @ h @ ''%'')) (lower (at_hostname a))) \<and>
     (case af_min_risk q of None \<Rightarrow> True | Some r \<Rightarrow> r \<le> at_risk a) \<and>
     (case af_port q of None \<Rightarrow> True | Some p \<Rightarrow> list_ex (\<lambda>e. pe_port e = Some p \<and> pe_state e = Some ''open'') (at_ports a)) \<and>
     (case af_technology q of None \<Rightarrow> True | Some t \<Rightarrow> t = [] \<or> list_ex (\<lambda>e. te_name e = Some t) (at_tech a)))"

record asset_summary =
  su_asset :: asset_row
  su_open_ports :: nat
  su_findings :: nat

definition list_assets :: "estate \<Rightarrow> nat \<Rightarrow> asset_filter \<Rightarrow> asset_sort \<Rightarrow> nat \<Rightarrow> nat \<Rightarrow> asset_summary list \<times> nat" where
  "list_assets es org_id q order limit offset =
    (let rows = filter (asset_matches org_id q) (es_assets es) in
     (map (\<lambda>a. \<lparr>su_asset = a, su_open_ports = length (open_ports a), su_findings = open_finding_count es org_id (at_id a)\<rparr>)
        (page_of limit offset (order_assets order rows)), length rows))"

definition new_asset :: "nat \<Rightarrow> nat \<Rightarrow> string \<Rightarrow> string option \<Rightarrow> string option \<Rightarrow> string \<Rightarrow> int \<Rightarrow> asset_row" where
  "new_asset i org_id hostname ip notes source now =
    \<lparr>at_id = i, at_org = org_id, at_hostname = hostname, at_ip = ip, at_ports = [], at_tech = [], at_risk = 0,
     at_last_scanned = None, at_status = NEW, at_source = Some source, at_first_seen = Some now, at_notes = notes, at_created = now\<rparr>"

record asset_body =
  ab_hostname :: string
  ab_ip :: "string option"
  ab_notes :: "string option"

definition validate_asset :: "asset_body \<Rightarrow> asset_body option" where
  "validate_asset body =
    (if ab_hostname body = [] \<or> 253 < length (ab_hostname body) then None
     else if (case ab_ip body of None \<Rightarrow> False | Some ip \<Rightarrow> 45 < length ip) then None
     else let host = normalise_host (ab_hostname body) in if host = [] then None else Some (body\<lparr>ab_hostname := host\<rparr>))"

definition create_asset :: "settings \<Rightarrow> int \<Rightarrow> nat \<Rightarrow> asset_body \<Rightarrow> estate \<Rightarrow> estate \<times> (http_error + asset_row)" where
  "create_asset cfg now org_id body es =
    (case org_by_id (es_db es) org_id of
       None \<Rightarrow> (es, Inl (not_found ''Organisation''))
     | Some org \<Rightarrow>
         (case assert_in_scope (ab_hostname body) (all_domains org) (st_allow_arbitrary cfg) of
            Inl e \<Rightarrow> (es, Inl (Http_error 403 (scope_message e)))
          | Inr hostname \<Rightarrow>
              (let a = new_asset (next_id es) org_id hostname (ab_ip body) (ab_notes body) ''manual'' now in
               case insert_asset a es of
                 None \<Rightarrow> (es, Inl (Http_error 409 (hostname @ '' is already in your inventory'')))
               | Some es' \<Rightarrow> (es', Inr a))))"

definition all_asset_statuses :: "asset_status list" where
  "all_asset_statuses = [ACTIVE, INACTIVE, NEW, CHANGED, DECOMMISSIONED]"

record asset_stats =
  ass_total :: nat
  ass_by_status :: "(asset_status \<times> nat) list"
  ass_highest :: "asset_summary list"
  ass_new_7d :: nat

definition asset_stats_of :: "estate \<Rightarrow> nat \<Rightarrow> int \<Rightarrow> asset_stats" where
  "asset_stats_of es org_id now =
    (let rows = filter (\<lambda>a. at_org a = org_id) (es_assets es) in
     \<lparr>ass_total = length rows,
      ass_by_status = map (\<lambda>s. (s, count_where (\<lambda>a. at_status a = s) rows)) all_asset_statuses,
      ass_highest = map (\<lambda>a. \<lparr>su_asset = a, su_open_ports = length (open_ports a), su_findings = 0\<rparr>)
        (take 10 (sort_key (\<lambda>a. - at_risk a) rows)),
      ass_new_7d = count_where (\<lambda>a. case at_first_seen a of None \<Rightarrow> False | Some t \<Rightarrow> now - 7 * us_day \<le> t) rows\<rparr>)"

definition asset_findings :: "estate \<Rightarrow> nat \<Rightarrow> nat \<Rightarrow> http_error + (finding_row \<times> string) list" where
  "asset_findings es asset_id org_id =
    (case get_asset es asset_id org_id of
       Inl e \<Rightarrow> Inl e
     | Inr a \<Rightarrow>
         (let rows = filter (\<lambda>f. fi_asset f = Some (at_id a) \<and> fi_org f = org_id) (es_findings es)
          in Inr (map (\<lambda>f. (f, at_hostname a)) (desc_nulls_last fi_cvss (sort_key (\<lambda>f. - fi_created f) rows)))))"

text \<open>A PATCH: a member is None when the request leaves it out, Some None when it says null.\<close>

record asset_patch =
  ap_ip :: "string option option"
  ap_status :: "asset_status option option"
  ap_notes :: "string option option"

definition patch_field :: "'a option \<Rightarrow> 'a \<Rightarrow> 'a" where
  "patch_field change old = (case change of None \<Rightarrow> old | Some v \<Rightarrow> v)"

text \<open>The status column is not nullable, so a null status fails at the commit.\<close>

definition update_asset :: "nat \<Rightarrow> nat \<Rightarrow> asset_patch \<Rightarrow> estate \<Rightarrow> estate \<times> (http_error + asset_row)" where
  "update_asset asset_id org_id body es =
    (case get_asset es asset_id org_id of
       Inl e \<Rightarrow> (es, Inl e)
     | Inr a \<Rightarrow>
         (case ap_status body of
            Some None \<Rightarrow> (es, Inl server_error)
          | st \<Rightarrow>
              (let change = (\<lambda>a. a\<lparr>at_ip := patch_field (ap_ip body) (at_ip a),
                     at_status := (case st of Some (Some s) \<Rightarrow> s | _ \<Rightarrow> at_status a),
                     at_notes := patch_field (ap_notes body) (at_notes a)\<rparr>)
               in (update_asset_row (at_id a) change es, Inr (change a)))))"

text \<open>Deleting an asset takes its findings with it.\<close>

definition drop_asset :: "nat \<Rightarrow> estate \<Rightarrow> estate" where
  "drop_asset i es =
    es\<lparr>es_assets := delete_where (\<lambda>a. at_id a = i) (es_assets es),
       es_findings := delete_where (\<lambda>f. fi_asset f = Some i) (es_findings es)\<rparr>"

definition delete_asset :: "nat \<Rightarrow> nat \<Rightarrow> estate \<Rightarrow> estate \<times> (http_error + string)" where
  "delete_asset asset_id org_id es =
    (case get_asset es asset_id org_id of
       Inl e \<Rightarrow> (es, Inl e)
     | Inr a \<Rightarrow> (drop_asset (at_id a) es, Inr (at_hostname a @ '' removed from inventory'')))"

section \<open>The finding handlers\<close>

definition get_finding_row :: "estate \<Rightarrow> nat \<Rightarrow> nat \<Rightarrow> http_error + finding_row" where
  "get_finding_row es finding_id org_id =
    (case find_finding es finding_id org_id of None \<Rightarrow> Inl (not_found ''Finding'') | Some f \<Rightarrow> Inr f)"

definition hostname_for :: "estate \<Rightarrow> nat \<Rightarrow> finding_row \<Rightarrow> string option" where
  "hostname_for es org_id f =
    (case fi_asset f of None \<Rightarrow> None | Some a \<Rightarrow> map_option at_hostname (find_asset es a org_id))"

definition get_finding :: "estate \<Rightarrow> nat \<Rightarrow> nat \<Rightarrow> http_error + (finding_row \<times> string option)" where
  "get_finding es finding_id org_id =
    (case get_finding_row es finding_id org_id of Inl e \<Rightarrow> Inl e | Inr f \<Rightarrow> Inr (f, hostname_for es org_id f))"

text \<open>\<open>str.upper\<close> on Latin-1 characters whose upper case is one such character.\<close>

definition upper_char :: "char \<Rightarrow> char" where
  "upper_char c = (let n = ord c in if (97 \<le> n \<and> n \<le> 122) \<or> (224 \<le> n \<and> n \<le> 254 \<and> n \<noteq> 247) then char_of (n - 32) else c)"

definition upper :: "string \<Rightarrow> string" where
  "upper s = map upper_char s"

datatype finding_sort = By_severity | By_cvss | By_finding_created | By_last_seen

fun severity_order :: "severity \<Rightarrow> int" where
  "severity_order CRITICAL = 5"
| "severity_order HIGH = 4"
| "severity_order MEDIUM = 3"
| "severity_order LOW = 2"
| "severity_order INFO = 1"

fun order_findings :: "finding_sort \<Rightarrow> finding_row list \<Rightarrow> finding_row list" where
  "order_findings By_severity rows =
     sort_key (\<lambda>f. - severity_order (fi_severity f))
       (sort_key (\<lambda>f. - (case fi_cvss f of None \<Rightarrow> 0 | Some x \<Rightarrow> x)) (sort_key (\<lambda>f. - fi_created f) rows))"
| "order_findings By_cvss rows = desc_nulls_last fi_cvss rows"
| "order_findings By_finding_created rows = sort_key (\<lambda>f. - fi_created f) rows"
| "order_findings By_last_seen rows = desc_nulls_last fi_last_seen rows"

record finding_filter =
  ff_severity :: "severity list"
  ff_status :: "finding_status list"
  ff_asset :: "nat option"
  ff_scan :: "nat option"
  ff_cve :: "string option"
  ff_search :: "string option"
  ff_open_only :: bool

definition finding_matches :: "nat \<Rightarrow> finding_filter \<Rightarrow> finding_row \<Rightarrow> bool" where
  "finding_matches org_id q f =
    (fi_org f = org_id \<and>
     (ff_severity q = [] \<or> fi_severity f \<in> set (ff_severity q)) \<and>
     (ff_status q = [] \<or> fi_status f \<in> set (ff_status q)) \<and>
     (ff_open_only q \<longrightarrow> is_open_status (fi_status f)) \<and>
     (case ff_asset q of None \<Rightarrow> True | Some a \<Rightarrow> fi_asset f = Some a) \<and>
     (case ff_scan q of None \<Rightarrow> True | Some s \<Rightarrow> fi_scan f = Some s) \<and>
     (case ff_cve q of None \<Rightarrow> True | Some c \<Rightarrow> c = [] \<or> fi_cve f = Some (upper c)) \<and>
     (case ff_search q of
        None \<Rightarrow> True
      | Some s \<Rightarrow> s = [] \<or> (let pattern = lower (''%'' @ s @ ''%'') in
          like pattern (lower (fi_title f)) \<or>
          (case fi_description f of None \<Rightarrow> False | Some d \<Rightarrow> like pattern (lower d)))))"

definition list_findings ::
    "estate \<Rightarrow> nat \<Rightarrow> finding_filter \<Rightarrow> finding_sort \<Rightarrow> nat \<Rightarrow> nat \<Rightarrow> (finding_row \<times> string option) list \<times> nat" where
  "list_findings es org_id q order limit offset =
    (let rows = filter (finding_matches org_id q) (es_findings es)
     in (map (\<lambda>f. (f, hostname_for es org_id f)) (page_of limit offset (order_findings order rows)), length rows))"

record finding_body =
  fb_asset :: "nat option"
  fb_title :: string
  fb_cve :: "string option"
  fb_cvss :: "rat option"
  fb_severity :: "severity option"
  fb_description :: "string option"
  fb_remediation :: "string option"
  fb_references :: "string list"

definition valid_finding_body :: "finding_body \<Rightarrow> bool" where
  "valid_finding_body b =
    (3 \<le> length (fb_title b) \<and> length (fb_title b) \<le> 500 \<and>
     (case fb_cve b of None \<Rightarrow> True | Some c \<Rightarrow> length c \<le> 32) \<and>
     (case fb_cvss b of None \<Rightarrow> True | Some x \<Rightarrow> 0 \<le> x \<and> x \<le> 10))"

definition manual_finding :: "(string \<Rightarrow> string) \<Rightarrow> int \<Rightarrow> nat \<Rightarrow> nat \<Rightarrow> finding_body \<Rightarrow> finding_row" where
  "manual_finding sha now i org_id b =
    \<lparr>fi_id = i, fi_org = org_id, fi_asset = fb_asset b, fi_scan = None, fi_title = fb_title b,
     fi_cve = (case fb_cve b of None \<Rightarrow> None | Some c \<Rightarrow> if c = [] then None else Some (upper c)),
     fi_cvss = fb_cvss b, fi_vector = None,
     fi_severity = (case fb_severity b of Some s \<Rightarrow> s | None \<Rightarrow> from_cvss (fb_cvss b)),
     fi_description = fb_description b, fi_remediation = fb_remediation b, fi_status = CONFIRMED,
     fi_source = Some ''manual'', fi_fingerprint = build_fingerprint sha (fb_asset b) (fb_title b) (fb_cve b) None,
     fi_evidence = [], fi_references = fb_references b, fi_first_seen = Some now, fi_last_seen = Some now,
     fi_resolved = None, fi_created = now\<rparr>"

text \<open>No handler catches the violated constraint of a second finding with the same identity.\<close>

definition create_finding ::
    "(string \<Rightarrow> string) \<Rightarrow> int \<Rightarrow> nat \<Rightarrow> finding_body \<Rightarrow> estate \<Rightarrow> estate \<times> (http_error + finding_row \<times> string option)" where
  "create_finding sha now org_id b es =
    (let host = (case fb_asset b of None \<Rightarrow> Some None | Some a \<Rightarrow> map_option (\<lambda>r. Some (at_hostname r)) (find_asset es a org_id))
     in case host of
          None \<Rightarrow> (es, Inl (not_found ''Asset''))
        | Some hostname \<Rightarrow>
            (let f = manual_finding sha now (next_id es) org_id b in
             case insert_finding f es of
               None \<Rightarrow> (es, Inl server_error)
             | Some es' \<Rightarrow> (es', Inr (f, hostname))))"

definition all_finding_statuses :: "finding_status list" where
  "all_finding_statuses = [OPEN, TRIAGED, CONFIRMED, REMEDIATED, FALSE_POSITIVE, ACCEPTED_RISK]"

record finding_stats =
  fs_total :: nat
  fs_open :: nat
  fs_by_severity :: "(severity \<times> nat) list"
  fs_by_status :: "(finding_status \<times> nat) list"
  fs_top_cves :: "(string \<times> nat \<times> rat option) list"
  fs_mean_cvss :: "rat option"

text \<open>\<open>round(x, 2)\<close>, half to even.\<close>

definition round2 :: "rat \<Rightarrow> rat" where
  "round2 x =
    (let y = 100 * x; q = floor y; r = y - of_int q
     in of_int (if r < 1 / 2 \<or> (r = 1 / 2 \<and> even q) then q else q + 1) / 100)"

definition max_cvss :: "rat option list \<Rightarrow> rat option" where
  "max_cvss xs = (case List.map_filter (\<lambda>x. x) xs of [] \<Rightarrow> None | y # ys \<Rightarrow> Some (foldl max y ys))"

definition top_cves :: "finding_row list \<Rightarrow> (string \<times> nat \<times> rat option) list" where
  "top_cves rows =
    take 10 (sort_key (\<lambda>(_, n, _). - int n)
      (map (\<lambda>c. let group = filter (\<lambda>f. fi_cve f = Some c) rows in (c, length group, max_cvss (map fi_cvss group)))
         (remdups (List.map_filter fi_cve rows))))"

definition finding_stats_of :: "estate \<Rightarrow> nat \<Rightarrow> finding_stats" where
  "finding_stats_of es org_id =
    (let rows = filter (\<lambda>f. fi_org f = org_id) (es_findings es); scores = List.map_filter fi_cvss rows in
     \<lparr>fs_total = length rows, fs_open = count_where (\<lambda>f. is_open_status (fi_status f)) rows,
      fs_by_severity = map (\<lambda>s. (s, count_where (\<lambda>f. fi_severity f = s) rows)) all_severities,
      fs_by_status = map (\<lambda>s. (s, count_where (\<lambda>f. fi_status f = s) rows)) all_finding_statuses,
      fs_top_cves = top_cves rows,
      fs_mean_cvss = (if scores = [] then None else Some (round2 (sum_list scores / of_nat (length scores))))\<rparr>)"

definition put :: "string \<Rightarrow> json \<Rightarrow> json_object \<Rightarrow> json_object" where
  "put k v obj = dict_update k (\<lambda>_. v) obj"

record finding_patch =
  fp_status :: "finding_status option option"
  fp_severity :: "severity option option"
  fp_remediation :: "string option option"
  fp_notes :: "string option"

definition text_of :: "string option \<Rightarrow> string" where
  "text_of t = (case t of None \<Rightarrow> [] | Some s \<Rightarrow> s)"

definition remediation_changed :: "finding_patch \<Rightarrow> finding_row \<Rightarrow> bool" where
  "remediation_changed p f =
    (case fp_remediation p of None \<Rightarrow> False | Some r \<Rightarrow> strip (text_of r) \<noteq> strip (text_of (fi_remediation f)))"

definition analyst_evidence :: "finding_patch \<Rightarrow> finding_row \<Rightarrow> json_object" where
  "analyst_evidence p f =
    (let notes = text_of (fp_notes p);
         e1 = (if notes = [] then fi_evidence f else put ''analyst_notes'' (JStr notes) (fi_evidence f))
     in if remediation_changed p f
        then put ''remediation_uncertain'' (JList []) (put ''remediation_confidence'' JNull
               (put ''remediation_model'' JNull (put ''remediation_source'' (JStr ''analyst'') e1)))
        else e1)"

definition is_closed_status :: "finding_status \<Rightarrow> bool" where
  "is_closed_status s = (s \<in> {REMEDIATED, FALSE_POSITIVE, ACCEPTED_RISK})"

definition triage :: "int \<Rightarrow> finding_patch \<Rightarrow> finding_row \<Rightarrow> finding_row" where
  "triage now p f =
    f\<lparr>fi_status := (case fp_status p of Some (Some s) \<Rightarrow> s | _ \<Rightarrow> fi_status f),
      fi_severity := (case fp_severity p of Some (Some s) \<Rightarrow> s | _ \<Rightarrow> fi_severity f),
      fi_remediation := patch_field (fp_remediation p) (fi_remediation f),
      fi_evidence := analyst_evidence p f,
      fi_resolved := (case fp_status p of
         Some (Some s) \<Rightarrow> if is_closed_status s then Some now else None
       | _ \<Rightarrow> fi_resolved f)\<rparr>"

text \<open>The columns of status and severity are not nullable, so a null in either fails at the commit.\<close>

definition update_finding ::
    "int \<Rightarrow> nat \<Rightarrow> nat \<Rightarrow> finding_patch \<Rightarrow> estate \<Rightarrow> estate \<times> (http_error + finding_row \<times> string option)" where
  "update_finding now finding_id org_id p es =
    (case get_finding_row es finding_id org_id of
       Inl e \<Rightarrow> (es, Inl e)
     | Inr f \<Rightarrow>
         (if fp_status p = Some None \<or> fp_severity p = Some None then (es, Inl server_error)
          else (update_finding_row (fi_id f) (triage now p) es, Inr (triage now p f, hostname_for es org_id f))))"

definition delete_finding :: "nat \<Rightarrow> nat \<Rightarrow> estate \<Rightarrow> estate \<times> (http_error + unit)" where
  "delete_finding finding_id org_id es =
    (case get_finding_row es finding_id org_id of
       Inl e \<Rightarrow> (es, Inl e)
     | Inr f \<Rightarrow> (es\<lparr>es_findings := delete_where (\<lambda>x. fi_id x = fi_id f) (es_findings es)\<rparr>, Inr ()))"

text \<open>Deleting a scan keeps its findings, which point nowhere afterwards.\<close>

definition delete_scan_rows :: "nat \<Rightarrow> nat \<Rightarrow> estate \<Rightarrow> estate \<times> (http_error + unit)" where
  "delete_scan_rows scan_id org_id es =
    (case delete_scan scan_id org_id (es_db es) of
       (db', Inl e) \<Rightarrow> (es\<lparr>es_db := db'\<rparr>, Inl e)
     | (db', Inr u) \<Rightarrow>
         (es\<lparr>es_db := db',
             es_findings := update_where (\<lambda>f. fi_scan f = Some scan_id) (\<lambda>f. f\<lparr>fi_scan := None\<rparr>) (es_findings es)\<rparr>, Inr u))"

section \<open>A small estate\<close>

text \<open>One organisation with two verified domains, three hosts on two addresses, a running scan.\<close>

definition open_port :: "int \<Rightarrow> string \<Rightarrow> port_entry" where
  "open_port p service =
    \<lparr>pe_port = Some p, pe_protocol = ''tcp'', pe_state = Some ''open'', pe_service = Some service, pe_banner = None\<rparr>"

definition lab_asset :: "nat \<Rightarrow> string \<Rightarrow> string \<Rightarrow> port_entry list \<Rightarrow> rat \<Rightarrow> asset_row" where
  "lab_asset i host ip ports risk =
    (new_asset i 1 host (Some ip) None ''subdomain_enum'' 0)
      \<lparr>at_ports := ports, at_risk := risk,
       at_tech := [\<lparr>te_name = Some ''nginx'', te_version = Some ''1.18.0'', te_categories = [], te_confidence = 90, te_cpe = None\<rparr>]\<rparr>"

definition lab_db :: db where
  "lab_db =
    \<lparr>db_next = 20,
     db_orgs = [\<lparr>og_id = 1, og_name = ''Acme'', og_domain = ''a.co'', og_verified = [''a.co'', ''eu.a.co''], og_active = True, og_webhook = None\<rparr>],
     db_users = [], db_sessions = [], db_claims = [],
     db_scans = [(new_scan 9 1 None ''a.co'' [] 0)\<lparr>sn_status := RUNNING\<rparr>],
     db_logs = [], db_schedules = [], db_reports = []\<rparr>"

definition lab :: estate where
  "lab =
    \<lparr>es_db = lab_db,
     es_assets = [lab_asset 2 ''w.a.co'' ''5.5.5.5'' [open_port 443 ''https'', open_port 6379 ''redis''] 7,
                  lab_asset 3 ''w.eu.a.co'' ''5.5.5.5'' [open_port 443 ''https''] 40,
                  lab_asset 4 ''m.a.co'' ''6.6.6.6'' [] 1],
     es_findings = []\<rparr>"

end
