(* ===== verification/AssetGraph.thy ===== *)
theory AssetGraph
  imports Inventory
begin

text \<open>
  The blast radius graph of \<open>routes/assets.py\<close>: verified domains, the assets under them, the
  addresses they share and the open ports, built by the same passes in the same order. A node
  is identified by text; a dictionary is an association list in insertion order.
\<close>

section \<open>Nodes and links\<close>

datatype node_kind = Domain_node | Subdomain_node | Ip_node | Port_node

record graph_node =
  gn_id :: string
  gn_label :: string
  gn_kind :: node_kind
  gn_risk :: rat
  gn_asset :: "nat option"
  gn_findings :: nat
  gn_open_ports :: nat
  gn_shared :: nat
  gn_service :: "string option"

record graph_out =
  go_nodes :: "graph_node list"
  go_links :: "(string \<times> string) list"
  go_total :: nat
  go_truncated :: bool

definition plain_node :: "string \<Rightarrow> string \<Rightarrow> node_kind \<Rightarrow> rat \<Rightarrow> graph_node" where
  "plain_node i label kind risk =
    \<lparr>gn_id = i, gn_label = label, gn_kind = kind, gn_risk = risk, gn_asset = None, gn_findings = 0, gn_open_ports = 0,
     gn_shared = 0, gn_service = None\<rparr>"

definition add_link :: "string \<Rightarrow> string \<Rightarrow> (string \<times> string) list \<Rightarrow> (string \<times> string) list" where
  "add_link source target links = (if (source, target) \<in> set links then links else links @ [(source, target)])"

definition domain_id :: "string \<Rightarrow> string" where
  "domain_id d = ''domain:'' @ d"

definition asset_id_text :: "asset_row \<Rightarrow> string" where
  "asset_id_text a = ''asset:'' @ dec (int (at_id a))"

definition has_ip :: "asset_row \<Rightarrow> bool" where
  "has_ip a = (case at_ip a of None \<Rightarrow> False | Some ip \<Rightarrow> ip \<noteq> [])"

definition ip_of :: "asset_row \<Rightarrow> string" where
  "ip_of a = (case at_ip a of None \<Rightarrow> [] | Some ip \<Rightarrow> ip)"

definition ip_id :: "string \<Rightarrow> string" where
  "ip_id ip = ''ip:'' @ ip"

definition port_key :: "asset_row \<Rightarrow> int \<Rightarrow> string" where
  "port_key a port = ''port:'' @ (if has_ip a then ip_of a else dec (int (at_id a))) @ '':'' @ dec port"

definition port_anchor :: "asset_row \<Rightarrow> string" where
  "port_anchor a = (if has_ip a then ip_id (ip_of a) else asset_id_text a)"

fun port_severity_score :: "severity \<Rightarrow> rat" where
  "port_severity_score CRITICAL = 90"
| "port_severity_score HIGH = 70"
| "port_severity_score MEDIUM = 45"
| "port_severity_score LOW = 15"
| "port_severity_score INFO = 0"

section \<open>Domains\<close>

text \<open>The longest verified domain that covers the host.\<close>

definition covers_host :: "string \<Rightarrow> string \<Rightarrow> bool" where
  "covers_host d host = (host = d \<or> suffix (CHR ''.'' # d) host)"

fun best_domain :: "string \<Rightarrow> string option \<Rightarrow> string list \<Rightarrow> string option" where
  "best_domain host best [] = best"
| "best_domain host best (domain # ds) =
     (let d = strip_dots (lower domain) in
      best_domain host
        (if covers_host d host \<and> (case best of None \<Rightarrow> True | Some b \<Rightarrow> length b < length d) then Some d else best) ds)"

definition parent_domain :: "string list \<Rightarrow> string \<Rightarrow> string option" where
  "parent_domain domains hostname = best_domain (strip_dots (lower hostname)) None domains"

section \<open>The passes\<close>

definition domain_nodes :: "string list \<Rightarrow> graph_node list" where
  "domain_nodes domains = map (\<lambda>d. plain_node (domain_id d) d Domain_node 0) domains"

definition asset_node :: "(nat \<Rightarrow> nat) \<Rightarrow> asset_row \<Rightarrow> graph_node" where
  "asset_node finding_count a =
    (plain_node (asset_id_text a) (at_hostname a) Subdomain_node (at_risk a))
      \<lparr>gn_asset := Some (at_id a), gn_findings := finding_count (at_id a), gn_open_ports := length (open_ports a)\<rparr>"

fun domain_links :: "string list \<Rightarrow> asset_row list \<Rightarrow> (string \<times> string) list \<Rightarrow> (string \<times> string) list" where
  "domain_links domains [] links = links"
| "domain_links domains (a # as) links =
     domain_links domains as
       (case parent_domain domains (at_hostname a) of
          None \<Rightarrow> links
        | Some d \<Rightarrow> add_link (domain_id d) (asset_id_text a) links)"

fun ip_children :: "asset_row list \<Rightarrow> (string \<times> asset_row list) list \<Rightarrow> (string \<times> asset_row list) list" where
  "ip_children [] children = children"
| "ip_children (a # as) children =
     ip_children as
       (if has_ip a then dict_update (ip_of a) (\<lambda>v. (case v of None \<Rightarrow> [] | Some cs \<Rightarrow> cs) @ [a]) children else children)"

definition ip_node :: "(nat \<Rightarrow> nat) \<Rightarrow> string \<times> asset_row list \<Rightarrow> graph_node" where
  "ip_node finding_count = (\<lambda>(ip, children).
    (plain_node (ip_id ip) ip Ip_node (Max (at_risk ` set children)))
      \<lparr>gn_shared := length children, gn_findings := sum_list (map (\<lambda>a. finding_count (at_id a)) children)\<rparr>)"

fun ip_links :: "(string \<times> asset_row list) list \<Rightarrow> (string \<times> string) list \<Rightarrow> (string \<times> string) list" where
  "ip_links [] links = links"
| "ip_links ((ip, children) # rest) links =
     ip_links rest (foldl (\<lambda>ls a. add_link (asset_id_text a) (ip_id ip) ls) links children)"

text \<open>A port of a shared address is one node; the first service name that is not empty names it.\<close>

record port_meta =
  pm_port :: int
  pm_service :: "string option"
  pm_anchor :: string

definition truthy :: "string option \<Rightarrow> bool" where
  "truthy s = (case s of None \<Rightarrow> False | Some t \<Rightarrow> t \<noteq> [])"

definition merge_port :: "asset_row \<Rightarrow> int \<Rightarrow> string option \<Rightarrow> port_meta option \<Rightarrow> port_meta" where
  "merge_port a port service old =
    (case old of
       None \<Rightarrow> \<lparr>pm_port = port, pm_service = service, pm_anchor = port_anchor a\<rparr>
     | Some m \<Rightarrow> if \<not> truthy (pm_service m) \<and> truthy service then m\<lparr>pm_service := service\<rparr> else m)"

fun asset_port_nodes :: "asset_row \<Rightarrow> port_entry list \<Rightarrow> (string \<times> port_meta) list \<Rightarrow> (string \<times> port_meta) list" where
  "asset_port_nodes a [] acc = acc"
| "asset_port_nodes a (e # es) acc =
     asset_port_nodes a es
       (case pe_port e of
          None \<Rightarrow> acc
        | Some port \<Rightarrow>
            (if pe_state e \<noteq> Some ''open'' then acc
             else dict_update (port_key a port) (merge_port a port (pe_service e)) acc))"

definition port_nodes :: "asset_row list \<Rightarrow> (string \<times> port_meta) list" where
  "port_nodes assets = foldl (\<lambda>acc a. asset_port_nodes a (at_ports a) acc) [] assets"

definition port_node :: "string \<times> port_meta \<Rightarrow> graph_node" where
  "port_node = (\<lambda>(i, m).
    (plain_node i (dec (pm_port m)) Port_node (port_severity_score (port_exposure_severity (pm_port m))))
      \<lparr>gn_service := pm_service m\<rparr>)"

definition port_links :: "(string \<times> port_meta) list \<Rightarrow> (string \<times> string) list \<Rightarrow> (string \<times> string) list" where
  "port_links metas links = foldl (\<lambda>ls x. add_link (pm_anchor (snd x)) (fst x) ls) links metas"

text \<open>The risk of a root: the highest of the assets whose parent it is. \<open>None\<close> is printed.\<close>

definition root_key :: "string list \<Rightarrow> asset_row \<Rightarrow> string" where
  "root_key domains a = domain_id (case parent_domain domains (at_hostname a) of None \<Rightarrow> ''None'' | Some d \<Rightarrow> d)"

definition child_risk :: "string list \<Rightarrow> asset_row list \<Rightarrow> (string \<times> rat) list" where
  "child_risk domains assets =
    foldl (\<lambda>d a. dict_update (root_key domains a) (\<lambda>v. max (case v of None \<Rightarrow> 0 | Some r \<Rightarrow> r) (at_risk a)) d) [] assets"

definition set_root_risk :: "(string \<times> rat) list \<Rightarrow> graph_node \<Rightarrow> graph_node" where
  "set_root_risk risks n =
    (if gn_kind n = Domain_node then n\<lparr>gn_risk := (case map_of risks (gn_id n) of None \<Rightarrow> 0 | Some r \<Rightarrow> r)\<rparr> else n)"

definition graph_assets :: "estate \<Rightarrow> nat \<Rightarrow> nat \<Rightarrow> asset_row list" where
  "graph_assets es org_id max_assets =
    take max_assets (sort_key (\<lambda>a. - at_risk a) (sort_key at_hostname (filter (\<lambda>a. at_org a = org_id) (es_assets es))))"

definition asset_graph :: "estate \<Rightarrow> nat \<Rightarrow> bool \<Rightarrow> nat \<Rightarrow> http_error + graph_out" where
  "asset_graph es org_id include_ports max_assets =
    (case org_by_id (es_db es) org_id of
       None \<Rightarrow> Inl (not_found ''Organisation'')
     | Some org \<Rightarrow>
         (let total = count_where (\<lambda>a. at_org a = org_id) (es_assets es);
              assets = graph_assets es org_id max_assets;
              counts = open_finding_count es org_id;
              domains = all_domains org;
              children = ip_children assets [];
              ports = (if include_ports then port_nodes assets else []);
              nodes = domain_nodes domains @ map (asset_node counts) assets @ map (ip_node counts) children @ map port_node ports;
              links = port_links ports (ip_links children (domain_links domains assets []))
          in Inr \<lparr>go_nodes = map (set_root_risk (child_risk domains assets)) nodes, go_links = links, go_total = total,
                go_truncated = length assets < total\<rparr>))"

section \<open>Facts about the passes\<close>

text \<open>Links and dictionaries.\<close>

lemma set_add_link [simp]: "set (add_link s t links) = insert (s, t) (set links)"
  by (auto simp: add_link_def)

lemma distinct_add_link [simp]: "distinct (add_link s t links) = distinct links"
  by (simp add: add_link_def)

lemma foldl_add_link:
  "set (foldl (\<lambda>ls x. add_link (s x) (t x) ls) links xs) = set links \<union> (\<lambda>x. (s x, t x)) ` set xs"
  "distinct (foldl (\<lambda>ls x. add_link (s x) (t x) ls) links xs) = distinct links"
  by (induction xs arbitrary: links) auto

lemma in_dict_update: "(k', v') \<in> set (dict_update k f d) \<Longrightarrow> (k', v') \<in> set d \<or> (k' = k \<and> (v' = f None \<or> (\<exists>v. (k, v) \<in> set d \<and> v' = f (Some v))))"
  by (induction d) (auto split: if_splits)

text \<open>Roots.\<close>

lemma best_domain_mem:
  "best_domain host best ds = Some d \<Longrightarrow> best = Some d \<or> d \<in> (\<lambda>x. strip_dots (lower x)) ` set ds"
  by (induction ds arbitrary: best) (fastforce simp: Let_def split: if_splits)+

lemma parent_domain_mem:
  assumes "parent_domain (all_domains org) host = Some d"
  shows "d \<in> set (all_domains org)"
  using best_domain_mem [OF assms [unfolded parent_domain_def]] all_domains_normal [of _ org] by auto

lemma domain_links_set:
  "set (domain_links domains as links) =
    set links \<union> {(domain_id d, asset_id_text a) | a d. a \<in> set as \<and> parent_domain domains (at_hostname a) = Some d}"
  by (induction as arbitrary: links) (auto split: option.splits)

lemma distinct_domain_links [simp]: "distinct (domain_links domains as links) = distinct links"
  by (induction as arbitrary: links) (auto split: option.splits)

text \<open>Addresses.\<close>

definition children_ok :: "asset_row set \<Rightarrow> (string \<times> asset_row list) list \<Rightarrow> bool" where
  "children_ok A children = (distinct (map fst children) \<and>
    list_all (\<lambda>x. snd x \<noteq> [] \<and> set (snd x) \<subseteq> {a \<in> A. has_ip a \<and> ip_of a = fst x}) children)"

lemma ip_children_ok: "children_ok A children \<Longrightarrow> set as \<subseteq> A \<Longrightarrow> children_ok A (ip_children as children)"
proof (induction as arbitrary: children)
  case (Cons a as)
  let ?f = "\<lambda>v. (case v of None \<Rightarrow> [] | Some cs \<Rightarrow> cs) @ [a]"
  have "children_ok A (dict_update (ip_of a) ?f children)" if "has_ip a"
  proof -
    have ok: "snd x \<noteq> [] \<and> set (snd x) \<subseteq> {a \<in> A. has_ip a \<and> ip_of a = fst x}" if "x \<in> set children" for x
      using Cons.prems(1) that by (simp add: children_ok_def list_all_iff)
    have "snd x \<noteq> [] \<and> set (snd x) \<subseteq> {a \<in> A. has_ip a \<and> ip_of a = fst x}"
      if x: "x \<in> set (dict_update (ip_of a) ?f children)" for x
    proof -
      consider "x \<in> set children" | "x = (ip_of a, [a])" | cs where "(ip_of a, cs) \<in> set children" "x = (ip_of a, cs @ [a])"
        using in_dict_update [of "fst x" "snd x" "ip_of a" ?f children] x by (cases x) auto
      then show ?thesis
        using ok Cons.prems(2) \<open>has_ip a\<close> by cases (simp, simp, use ok in fastforce)
    qed
    then show ?thesis using Cons.prems(1) by (simp add: children_ok_def list_all_iff distinct_dict_update)
  qed
  then show ?case using Cons by simp
qed simp

lemma ip_children_keys: "set (map fst (ip_children as children)) = set (map fst children) \<union> ip_of ` {a \<in> set as. has_ip a}"
proof (induction as arbitrary: children)
  case (Cons a as)
  show ?case
    by (simp only: ip_children.simps Cons.IH) (auto simp: set_dict_update simp del: set_map)
qed simp

lemma ip_links_set:
  "set (ip_links children links) = set links \<union> {(asset_id_text a, ip_id ip) | ip cs a. (ip, cs) \<in> set children \<and> a \<in> set cs}"
  by (induction children links rule: ip_links.induct) (auto simp: foldl_add_link)

lemma distinct_ip_links [simp]: "distinct (ip_links children links) = distinct links"
  by (induction children links rule: ip_links.induct) (auto simp: foldl_add_link)

text \<open>Ports.\<close>

definition ports_ok :: "asset_row set \<Rightarrow> (string \<times> port_meta) list \<Rightarrow> bool" where
  "ports_ok A metas = (distinct (map fst metas) \<and>
    list_all (\<lambda>x. (\<exists>a \<in> A. \<exists>p. fst x = port_key a p) \<and> pm_anchor (snd x) \<in> port_anchor ` A) metas)"

lemma ports_okD:
  "ports_ok A metas \<Longrightarrow> x \<in> set metas \<Longrightarrow> (\<exists>a \<in> A. \<exists>p. fst x = port_key a p) \<and> pm_anchor (snd x) \<in> port_anchor ` A"
  by (simp add: ports_ok_def list_all_iff)

lemma merge_port_anchor: "pm_anchor (merge_port a p s None) = port_anchor a" "pm_anchor (merge_port a p s (Some m)) = pm_anchor m"
  by (simp_all add: merge_port_def)

lemma asset_port_nodes_ok: "ports_ok A acc \<Longrightarrow> a \<in> A \<Longrightarrow> ports_ok A (asset_port_nodes a es acc)"
proof (induction es arbitrary: acc)
  case (Cons e es)
  have "ports_ok A (dict_update (port_key a p) (merge_port a p (pe_service e)) acc)" for p
  proof -
    let ?f = "merge_port a p (pe_service e)"
    have ok: "(\<exists>a \<in> A. \<exists>p. fst x = port_key a p) \<and> pm_anchor (snd x) \<in> port_anchor ` A" if "x \<in> set acc" for x
      using Cons.prems(1) that by (simp add: ports_ok_def list_all_iff)
    have "(\<exists>a \<in> A. \<exists>p. fst x = port_key a p) \<and> pm_anchor (snd x) \<in> port_anchor ` A"
      if x: "x \<in> set (dict_update (port_key a p) ?f acc)" for x
    proof -
      consider "x \<in> set acc" | "x = (port_key a p, ?f None)" | m where "(port_key a p, m) \<in> set acc" "x = (port_key a p, ?f (Some m))"
        using in_dict_update [of "fst x" "snd x" "port_key a p" ?f acc] x by (cases x) auto
      then show ?thesis
      proof cases
        case 1
        then show ?thesis by (rule ok)
      next
        case 2
        then show ?thesis using Cons.prems(2) by (auto simp: merge_port_anchor)
      next
        case (3 m)
        then show ?thesis using ok [OF 3(1)] by (simp add: merge_port_anchor)
      qed
    qed
    then show ?thesis using Cons.prems(1) by (simp add: ports_ok_def list_all_iff distinct_dict_update)
  qed
  then show ?case using Cons by (simp split: option.splits)
qed simp

lemma port_nodes_ok: "ports_ok (set assets) (port_nodes assets)"
proof -
  have "ports_ok A acc \<Longrightarrow> set as \<subseteq> A \<Longrightarrow> ports_ok A (foldl (\<lambda>acc a. asset_port_nodes a (at_ports a) acc) acc as)" for A acc as
    by (induction as arbitrary: acc) (auto intro: asset_port_nodes_ok)
  from this [of "set assets" "[]" assets] show ?thesis by (simp add: port_nodes_def) (simp add: ports_ok_def)
qed

lemma port_links_set: "set (port_links metas links) = set links \<union> (\<lambda>x. (pm_anchor (snd x), fst x)) ` set metas"
  by (simp add: port_links_def foldl_add_link)

lemma distinct_port_links [simp]: "distinct (port_links metas links) = distinct links"
  by (simp add: port_links_def foldl_add_link)

text \<open>Node ids.\<close>

lemma set_root_risk_id [simp]: "gn_id (set_root_risk r n) = gn_id n"
  by (simp add: set_root_risk_def)

lemma node_ids:
  "gn_id (asset_node c a) = asset_id_text a" "gn_id (ip_node c x) = ip_id (fst x)" "gn_id (port_node y) = fst y"
  by (simp_all add: asset_node_def ip_node_def port_node_def plain_node_def split: prod.splits)

lemma domain_node_ids: "map gn_id (domain_nodes ds) = map domain_id ds"
  by (simp add: domain_nodes_def plain_node_def)

lemma hd_ids:
  "hd (domain_id d) = CHR ''d''" "hd (asset_id_text a) = CHR ''a''" "hd (ip_id ip) = CHR ''i''" "hd (port_key a p) = CHR ''p''"
  by (simp_all add: domain_id_def asset_id_text_def ip_id_def port_key_def)

lemma distinct_by_kind:
  assumes "distinct ws" and "distinct xs" and "distinct ys" and "distinct zs"
    and "\<And>i. i \<in> set ws \<Longrightarrow> k i = a" and "\<And>i. i \<in> set xs \<Longrightarrow> k i = b" and "\<And>i. i \<in> set ys \<Longrightarrow> k i = c"
    and "\<And>i. i \<in> set zs \<Longrightarrow> k i = d" and "distinct [a, b, c, d]"
  shows "distinct (ws @ xs @ ys @ zs)"
  using assms by fastforce

lemma graph_assets_mem: "set (graph_assets es org n) \<subseteq> {a \<in> set (es_assets es). at_org a = org}"
  unfolding graph_assets_def using set_take_subset by fastforce

lemma keyed_sort: "keyed k (sort_key f rows) = keyed k rows"
  by (rule mset_eq_imp_distinct_iff) simp

lemma graph_assets_distinct: "keyed at_id (es_assets es) \<Longrightarrow> distinct (map asset_id_text (graph_assets es org n))"
proof -
  assume k: "keyed at_id (es_assets es)"
  have "keyed at_id (graph_assets es org n)"
    unfolding graph_assets_def using k by (simp add: keyed_sort distinct_map_filter flip: take_map)
  then show ?thesis by (auto simp: distinct_map inj_on_def asset_id_text_def dec_inject)
qed

section \<open>Roots\<close>

text \<open>Two suffixes of one host of the same length are the same domain.\<close>

lemma covers_same_length:
  assumes "covers_host c h" and "covers_host d h" and "length c = length d"
  shows "c = d"
proof -
  have s: "suffix c h" "suffix d h" using assms by (auto simp: covers_host_def dest: suffix_ConsD)
  then show ?thesis using assms(3) by (metis suffix_order.antisym suffix_length_suffix order_refl)
qed

lemma best_domain_longest:
  assumes "\<And>x. x \<in> set ds \<Longrightarrow> strip_dots (lower x) = x" and "\<And>b. best = Some b \<Longrightarrow> covers_host b h"
  shows "(case best_domain h best ds of
       None \<Rightarrow> best = None \<and> (\<forall>x \<in> set ds. \<not> covers_host x h)
     | Some d \<Rightarrow> covers_host d h \<and> (\<forall>x \<in> set ds. covers_host x h \<longrightarrow> length x \<le> length d) \<and>
         (\<forall>b. best = Some b \<longrightarrow> length b \<le> length d))"
  using assms
proof (induction ds arbitrary: best)
  case (Cons x ds)
  let ?b = "if covers_host x h \<and> (case best of None \<Rightarrow> True | Some b \<Rightarrow> length b < length x) then Some x else best"
  have x: "strip_dots (lower x) = x" using Cons.prems(1) by simp
  have "best_domain h best (x # ds) = best_domain h ?b ds" by (simp add: Let_def x)
  moreover have "(case best_domain h ?b ds of
       None \<Rightarrow> ?b = None \<and> (\<forall>x \<in> set ds. \<not> covers_host x h)
     | Some d \<Rightarrow> covers_host d h \<and> (\<forall>x \<in> set ds. covers_host x h \<longrightarrow> length x \<le> length d) \<and>
         (\<forall>b. ?b = Some b \<longrightarrow> length b \<le> length d))"
    by (rule Cons.IH) (use Cons.prems in \<open>auto split: if_splits\<close>)
  ultimately show ?case
    by (cases best; cases "best_domain h ?b ds") (auto split: if_splits)
qed (simp split: option.splits)

lemma parent_domain_iff:
  "parent_domain (all_domains org) hostname = Some d \<longleftrightarrow>
    d \<in> set (all_domains org) \<and> covers_host d (strip_dots (lower hostname)) \<and>
    (\<forall>x \<in> set (all_domains org). covers_host x (strip_dots (lower hostname)) \<longrightarrow> length x \<le> length d)"
proof -
  let ?h = "strip_dots (lower hostname)" and ?ds = "all_domains org"
  have b: "case parent_domain ?ds hostname of None \<Rightarrow> \<forall>x \<in> set ?ds. \<not> covers_host x ?h
     | Some d \<Rightarrow> covers_host d ?h \<and> (\<forall>x \<in> set ?ds. covers_host x ?h \<longrightarrow> length x \<le> length d)"
    using best_domain_longest [of ?ds None ?h] all_domains_normal [of _ org]
    by (simp add: parent_domain_def split: option.splits)
  show ?thesis
  proof (cases "parent_domain ?ds hostname")
    case (Some c)
    then show ?thesis
      using b parent_domain_mem [OF Some] covers_same_length [of c ?h d] by (auto intro: le_antisym)
  qed (use b in auto)
qed

text \<open>The highest risk under a root.\<close>

lemma Max_insert_max: "finite A \<Longrightarrow> Max (insert (max x y) A) = Max (insert x (insert y A))" for x :: rat
  by (cases "A = {}") (simp_all add: max.assoc)

lemma child_risk_lookup:
  "(case map_of (foldl (\<lambda>d a. dict_update (key a) (\<lambda>v. max (case v of None \<Rightarrow> 0 | Some r \<Rightarrow> r) (at_risk a)) d) acc as) k of
     None \<Rightarrow> 0 | Some r \<Rightarrow> r) =
   Max (insert (case map_of acc k of None \<Rightarrow> 0 | Some r \<Rightarrow> r) (at_risk ` {a \<in> set as. key a = k}))"
proof (induction as arbitrary: acc)
  case (Cons a as)
  have split: "at_risk ` {x \<in> set (a # as). key x = k} =
      (if key a = k then insert (at_risk a) (at_risk ` {x \<in> set as. key x = k}) else at_risk ` {x \<in> set as. key x = k})"
    by auto
  show ?case unfolding split by (auto simp: Cons.IH map_of_dict_update Max_insert_max)
qed simp

section \<open>Properties\<close>

text \<open>What the parts of a graph are.\<close>

lemma asset_graph_parts:
  assumes "asset_graph es org_id include_ports max_assets = Inr g"
  obtains org cs ps where "org_by_id (es_db es) org_id = Some org"
    and "cs = ip_children (graph_assets es org_id max_assets) []"
    and "ps = (if include_ports then port_nodes (graph_assets es org_id max_assets) else [])"
    and "map gn_id (go_nodes g) = map domain_id (all_domains org) @ map asset_id_text (graph_assets es org_id max_assets) @
      map (\<lambda>x. ip_id (fst x)) cs @ map fst ps"
    and "go_links g = port_links ps (ip_links cs (domain_links (all_domains org) (graph_assets es org_id max_assets) []))"
    and "children_ok (set (graph_assets es org_id max_assets)) cs" and "ports_ok (set (graph_assets es org_id max_assets)) ps"
proof -
  obtain org where org: "org_by_id (es_db es) org_id = Some org" using assms by (auto simp: asset_graph_def split: option.splits)
  let ?as = "graph_assets es org_id max_assets" and ?ds = "all_domains org"
  let ?cs = "ip_children ?as []" and ?ps = "if include_ports then port_nodes ?as else []"
  show thesis
  proof (rule that [OF org refl refl])
    show "map gn_id (go_nodes g) = map domain_id ?ds @ map asset_id_text ?as @ map (\<lambda>x. ip_id (fst x)) ?cs @ map fst ?ps"
      using assms by (auto simp: asset_graph_def org Let_def domain_node_ids node_ids comp_def)
    show "go_links g = port_links ?ps (ip_links ?cs (domain_links ?ds ?as []))"
      using assms by (auto simp: asset_graph_def org Let_def)
    show "children_ok (set ?as) ?cs" by (rule ip_children_ok) (simp_all add: children_ok_def)
    show "ports_ok (set ?as) ?ps" using port_nodes_ok by (simp add: ports_ok_def)
  qed
qed

text \<open>Where the ends of a link come from.\<close>

lemma link_ends:
  assumes "(s, t) \<in> set (port_links ps (ip_links cs (domain_links (all_domains org) as [])))"
    and "children_ok (set as) cs" and "ports_ok (set as) ps"
  shows "s \<in> domain_id ` set (all_domains org) \<union> asset_id_text ` set as \<union> port_anchor ` set as \<and>
    t \<in> asset_id_text ` set as \<union> ip_id ` set (map fst cs) \<union> fst ` set ps"
proof -
  consider (port) m where "(t, m) \<in> set ps" "s = pm_anchor m"
    | (ip) ip l a where "(ip, l) \<in> set cs" "a \<in> set l" "s = asset_id_text a" "t = ip_id ip"
    | (root) a d where "a \<in> set as" "parent_domain (all_domains org) (at_hostname a) = Some d" "s = domain_id d" "t = asset_id_text a"
    using assms(1) unfolding port_links_set ip_links_set domain_links_set by auto
  then show ?thesis
  proof cases
    case port
    have "t \<in> fst ` set ps" using image_eqI [of t fst "(t, m)"] port(1) by simp
    moreover have "s \<in> port_anchor ` set as" using ports_okD [OF assms(3) port(1)] port(2) by simp
    ultimately show ?thesis by blast
  next
    case ip
    have "set l \<subseteq> set as" using bspec [OF assms(2) [unfolded children_ok_def list_all_iff, THEN conjunct2] ip(1)] by auto
    moreover have "ip \<in> set (map fst cs)" using ip(1) by (force simp: in_set_conv_nth)
    ultimately show ?thesis using ip(2-4) by blast
  next
    case root
    then show ?thesis using parent_domain_mem [OF root(2)] by blast
  qed
qed

text \<open>
  The graph is closed. Node ids are distinct, no link is drawn twice, and both ends of
  every link are nodes of the graph, so a client that resolves link ends by id never meets a
  missing or an ambiguous node, however many assets are cut off and whatever the rows hold.
\<close>

lemma graph_is_closed:
  assumes "keyed at_id (es_assets es)" and "asset_graph es org_id include_ports max_assets = Inr g"
  shows "distinct (map gn_id (go_nodes g)) \<and> distinct (go_links g) \<and>
    fst ` set (go_links g) \<subseteq> gn_id ` set (go_nodes g) \<and> snd ` set (go_links g) \<subseteq> gn_id ` set (go_nodes g)"
proof -
  let ?as = "graph_assets es org_id max_assets"
  obtain org cs ps where cs_def: "cs = ip_children ?as []"
    and ids: "map gn_id (go_nodes g) = map domain_id (all_domains org) @ map asset_id_text ?as @ map (\<lambda>x. ip_id (fst x)) cs @ map fst ps"
    and links: "go_links g = port_links ps (ip_links cs (domain_links (all_domains org) ?as []))"
    and cs: "children_ok (set ?as) cs" and ps: "ports_ok (set ?as) ps"
    using asset_graph_parts [OF assms(2)] by metis
  have in_ids: "gn_id ` set (go_nodes g) =
      domain_id ` set (all_domains org) \<union> asset_id_text ` set ?as \<union> ip_id ` set (map fst cs) \<union> fst ` set ps"
    using arg_cong [OF ids, of set] by (simp add: image_image) blast
  have keys: "set (map fst cs) = ip_of ` {a \<in> set ?as. has_ip a}" by (simp add: cs_def ip_children_keys del: set_map)
  have anchor: "port_anchor ` set ?as \<subseteq> gn_id ` set (go_nodes g)"
    unfolding in_ids keys by (auto simp: port_anchor_def)
  have "distinct (map domain_id (all_domains org))" by (simp add: all_domains_def distinct_dedup distinct_map inj_on_def domain_id_def)
  moreover have "distinct (map (\<lambda>x. ip_id (fst x)) cs)"
    using cs by (auto simp: children_ok_def distinct_map inj_on_def ip_id_def)
  moreover have "distinct (map fst ps)" using ps by (simp add: ports_ok_def)
  moreover have "hd i = CHR ''p''" if i: "i \<in> fst ` set ps" for i
  proof -
    obtain x where "x \<in> set ps" "i = fst x" using i by (rule imageE)
    then show ?thesis using ports_okD [OF ps, of x] by (auto simp: hd_ids)
  qed
  ultimately have "distinct (map gn_id (go_nodes g))"
    unfolding ids using graph_assets_distinct [OF assms(1)]
    by (intro distinct_by_kind [where k = hd and a = "CHR ''d''" and b = "CHR ''a''" and c = "CHR ''i''" and d = "CHR ''p''"])
      (auto simp: hd_ids)
  moreover have "s \<in> gn_id ` set (go_nodes g) \<and> t \<in> gn_id ` set (go_nodes g)" if "(s, t) \<in> set (go_links g)" for s t
    using link_ends [OF that [unfolded links] cs ps] anchor unfolding in_ids by blast
  ultimately show ?thesis by (intro conjI subsetI) (auto simp: links elim!: imageE)
qed


lemma graph_is_closed_witness:
  "\<exists>g. asset_graph lab 1 True 3 = Inr g \<and> length (go_nodes g) = 9 \<and> distinct (map gn_id (go_nodes g)) \<and>
    fst ` set (go_links g) \<subseteq> gn_id ` set (go_nodes g)"
proof -
  have k: "keyed at_id (es_assets lab)" by code_simp
  have "case asset_graph lab 1 True 3 of Inl _ \<Rightarrow> False | Inr g \<Rightarrow> length (go_nodes g) = 9" by code_simp
  then obtain g where g: "asset_graph lab 1 True 3 = Inr g" "length (go_nodes g) = 9" by (auto split: sum.splits)
  then show ?thesis using graph_is_closed [OF k g(1)] by blast
qed

text \<open>
  A root carries the risk of its own hosts. The risk shown on a domain is the highest
  score of the shown assets whose longest covering verified domain it is, and 0 when there
  are none; a host under both a domain and a longer one counts for the longer one only.
\<close>

lemma root_risk_is_highest_child:
  assumes "asset_graph es org_id include_ports max_assets = Inr g" and "org_by_id (es_db es) org_id = Some org"
    and "nd \<in> set (go_nodes g)" and "gn_kind nd = Domain_node"
  shows "gn_label nd \<in> set (all_domains org) \<and>
    gn_risk nd = Max (insert 0 (at_risk ` {a \<in> set (graph_assets es org_id max_assets).
      covers_host (gn_label nd) (strip_dots (lower (at_hostname a))) \<and>
      (\<forall>x \<in> set (all_domains org). covers_host x (strip_dots (lower (at_hostname a))) \<longrightarrow> length x \<le> length (gn_label nd))}))"
proof -
  let ?as = "graph_assets es org_id max_assets" and ?ds = "all_domains org"
  obtain d where d: "d \<in> set ?ds" "nd = set_root_risk (child_risk ?ds ?as) (plain_node (domain_id d) d Domain_node 0)"
    using assms by (auto simp: asset_graph_def Let_def domain_nodes_def set_root_risk_def asset_node_def ip_node_def port_node_def
        plain_node_def split: if_splits)
  have label: "gn_label nd = d" by (simp add: d(2) set_root_risk_def plain_node_def)
  have "strip_dots (lower ''None'') \<noteq> ''None''" by code_simp
  then have "d \<noteq> ''None''" using all_domains_normal [OF d(1)] by blast
  then have "root_key ?ds a = domain_id d \<longleftrightarrow> parent_domain ?ds (at_hostname a) = Some d" for a
    by (auto simp: root_key_def domain_id_def split: option.splits)
  then have "gn_risk nd = Max (insert 0 (at_risk ` {a \<in> set ?as. parent_domain ?ds (at_hostname a) = Some d}))"
    using child_risk_lookup [of "root_key ?ds" "[]" ?as "domain_id d"]
    by (simp add: d(2) set_root_risk_def plain_node_def child_risk_def)
  then show ?thesis using d(1) by (simp add: label parent_domain_iff)
qed

lemma root_risk_is_highest_child_witness:
  "\<exists>nd :: graph_node. gn_id nd = ''domain:a.co'' \<and> gn_risk nd = 7"
proof -
  let ?nd = "\<lambda>g. hd (go_nodes g)"
  have "case asset_graph lab 1 True 3 of Inl _ \<Rightarrow> False
    | Inr g \<Rightarrow> gn_id (?nd g) = ''domain:a.co'' \<and> gn_label (?nd g) = ''a.co'' \<and> gn_kind (?nd g) = Domain_node \<and> go_nodes g \<noteq> []"
    by code_simp
  then obtain g where g: "asset_graph lab 1 True 3 = Inr g" "gn_id (?nd g) = ''domain:a.co''" "gn_label (?nd g) = ''a.co''"
      "gn_kind (?nd g) = Domain_node" "?nd g \<in> set (go_nodes g)"
    by (auto split: sum.splits)
  obtain org where org: "org_by_id (es_db lab) 1 = Some org" "all_domains org = [''a.co'', ''eu.a.co'']"
  proof -
    have "map_option all_domains (org_by_id (es_db lab) 1) = Some [''a.co'', ''eu.a.co'']" by code_simp
    then show ?thesis using that by auto
  qed
  let ?under = "\<lambda>a. covers_host ''a.co'' (strip_dots (lower (at_hostname a))) \<and>
      list_all (\<lambda>x. covers_host x (strip_dots (lower (at_hostname a))) \<longrightarrow> length x \<le> length ''a.co'') [''a.co'', ''eu.a.co'']"
  have "Max (insert 0 (set (map at_risk (filter ?under (graph_assets lab 1 3))))) = 7" by code_simp
  then have "Max (insert 0 (at_risk ` {a \<in> set (graph_assets lab 1 3). ?under a})) = 7" by (simp only: set_map set_filter)
  then have "gn_risk (?nd g) = 7"
    using root_risk_is_highest_child [OF g(1) org(1) g(5,4), unfolded g(3) org(2)] by (simp add: list_all_iff)
  then show ?thesis using g(2) by blast
qed

end
