(* ===== verification/Wordlists.thy ===== *)
theory Wordlists
  imports PyString "HOL-Library.Char_ord"
begin

text \<open>
  The static lists of \<open>workers/wordlists.py\<close>: subdomain labels, port profiles and service
  names, and the choice of the ports a scan probes.
\<close>

definition subdomain_wordlist :: "string list" where
  "subdomain_wordlist =
    [''www'', ''www2'', ''web'', ''webapp'', ''app'', ''apps'', ''portal'', ''cdn'', ''static'', ''assets'', ''img'',
     ''images'', ''media'', ''files'', ''download'', ''downloads'', ''dev'', ''development'', ''test'', ''testing'',
     ''qa'', ''uat'', ''stage'', ''staging'', ''sandbox'', ''demo'', ''preview'', ''beta'', ''alpha'', ''prod'',
     ''production'', ''local'', ''internal'', ''int'', ''corp'', ''intranet'', ''api'', ''api-dev'', ''api-staging'',
     ''apis'', ''rest'', ''graphql'', ''gateway'', ''gw'', ''service'', ''services'', ''microservice'', ''rpc'',
     ''grpc'', ''ws'', ''websocket'', ''socket'', ''stream'', ''events'', ''webhook'', ''webhooks'', ''auth'',
     ''sso'', ''login'', ''signin'', ''account'', ''accounts'', ''id'', ''identity'', ''oauth'', ''idp'', ''saml'',
     ''ldap'', ''keycloak'', ''okta'', ''admin'', ''administrator'', ''adminpanel'', ''cpanel'', ''whm'', ''plesk'',
     ''manage'', ''management'', ''console'', ''dashboard'', ''panel'', ''backoffice'', ''ops'', ''operations'',
     ''root'', ''sysadmin'', ''mail'', ''smtp'', ''imap'', ''pop'', ''pop3'', ''webmail'', ''email'', ''mx'',
     ''mx1'', ''mx2'', ''exchange'', ''owa'', ''autodiscover'', ''mailgun'', ''postfix'', ''relay'', ''vpn'',
     ''remote'', ''rdp'', ''ssh'', ''sftp'', ''ftp'', ''ftps'', ''bastion'', ''jump'', ''proxy'', ''haproxy'',
     ''nginx'', ''apache'', ''lb'', ''loadbalancer'', ''router'', ''firewall'', ''fw'', ''gateway2'', ''ns'',
     ''ns1'', ''ns2'', ''ns3'', ''ns4'', ''dns'', ''dns1'', ''dns2'', ''resolver'', ''db'', ''database'', ''mysql'',
     ''postgres'', ''postgresql'', ''pgsql'', ''mssql'', ''oracle'', ''mongo'', ''mongodb'', ''redis'',
     ''memcached'', ''cassandra'', ''couch'', ''elastic'', ''elasticsearch'', ''es'', ''kibana'', ''solr'',
     ''influx'', ''clickhouse'', ''warehouse'', ''datalake'', ''bi'', ''analytics'', ''metabase'', ''superset'',
     ''git'', ''gitlab'', ''github'', ''bitbucket'', ''svn'', ''jenkins'', ''ci'', ''cd'', ''build'', ''builds'',
     ''drone'', ''travis'', ''teamcity'', ''bamboo'', ''argo'', ''nexus'', ''artifactory'', ''registry'', ''docker'',
     ''harbor'', ''npm'', ''pypi'', ''grafana'', ''prometheus'', ''metrics'', ''monitor'', ''monitoring'',
     ''nagios'', ''zabbix'', ''sentry'', ''logs'', ''log'', ''logging'', ''kibana2'', ''graylog'', ''jaeger'',
     ''status'', ''health'', ''uptime'', ''alerts'', ''alertmanager'', ''jira'', ''confluence'', ''wiki'', ''docs'',
     ''documentation'', ''support'', ''helpdesk'', ''ticket'', ''tickets'', ''servicedesk'', ''crm'', ''erp'',
     ''hr'', ''intranet2'', ''sharepoint'', ''teams'', ''chat'', ''mattermost'', ''rocketchat'', ''k8s'',
     ''kubernetes'', ''kube'', ''rancher'', ''openshift'', ''consul'', ''vault'', ''nomad'', ''etcd'', ''swarm'',
     ''mesos'', ''airflow'', ''spark'', ''shop'', ''store'', ''checkout'', ''pay'', ''payment'', ''payments'',
     ''billing'', ''invoice'', ''blog'', ''news'', ''forum'', ''community'', ''cms'', ''wordpress'', ''wp'',
     ''drupal'', ''joomla'', ''magento'', ''shopify'', ''s3'', ''storage'', ''backup'', ''backups'', ''archive'',
     ''old'', ''legacy'', ''new'', ''tmp'', ''temp'', ''test2'', ''mobile'', ''m'', ''ios'', ''android'', ''video'',
     ''conference'', ''meet'', ''zoom'', ''voip'', ''sip'', ''pbx'', ''asterisk'', ''smtp2'', ''mail2'', ''secure'',
     ''ssl'', ''cert'', ''ca'', ''crl'', ''ocsp'']"

definition top_100_ports :: "int list" where
  "top_100_ports =
    [7, 9, 13, 21, 22, 23, 25, 26, 37, 53, 79, 80, 81, 88, 106, 110, 111, 113, 119, 135, 139, 143, 144, 179, 199,
     389, 427, 443, 444, 445, 465, 513, 514, 515, 543, 544, 548, 554, 587, 631, 646, 873, 990, 993, 995, 1025, 1026,
     1027, 1028, 1029, 1110, 1433, 1720, 1723, 1755, 1900, 2000, 2001, 2049, 2121, 2717, 3000, 3128, 3306, 3389,
     3986, 4899, 5000, 5009, 5051, 5060, 5101, 5190, 5357, 5432, 5631, 5666, 5800, 5900, 6000, 6001, 6646, 7070,
     8000, 8008, 8009, 8080, 8081, 8443, 8888, 9100, 9999, 10000, 32768, 49152, 49153, 49154, 49155, 49156, 49157]"

definition top_1000_extra :: "int list" where
  "top_1000_extra =
    [20, 69, 123, 137, 138, 161, 162, 264, 280, 311, 500, 512, 593, 623, 636, 691, 705, 777, 800, 808, 843, 880, 888,
     898, 901, 992, 1000, 1080, 1099, 1194, 1352, 1434, 1521, 1604, 1812, 1883, 2082, 2083, 2086, 2087, 2095, 2096,
     2181, 2222, 2375, 2376, 2379, 2380, 2404, 2483, 2484, 2601, 2604, 3001, 3002, 3268, 3299, 3307, 3333, 3690,
     4000, 4040, 4200, 4243, 4369, 4444, 4505, 4506, 4567, 4786, 4840, 4848, 5001, 5002, 5005, 5010, 5044, 5222,
     5269, 5353, 5355, 5555, 5601, 5672, 5673, 5701, 5850, 5901, 5902, 5984, 5985, 5986, 6066, 6379, 6443, 6666,
     6667, 7000, 7001, 7002, 7077, 7080, 7180, 7199, 7443, 7474, 7547, 7687, 7777, 8005, 8010, 8020, 8025, 8030,
     8069, 8086, 8087, 8088, 8089, 8090, 8091, 8098, 8099, 8123, 8161, 8180, 8181, 8200, 8222, 8280, 8281, 8333,
     8400, 8500, 8529, 8530, 8531, 8686, 8800, 8834, 8880, 8983, 9000, 9001, 9002, 9042, 9043, 9060, 9080, 9090,
     9091, 9092, 9200, 9201, 9300, 9418, 9443, 9500, 9600, 9800, 9981, 9990, 9998, 10001, 10250, 10255, 10443, 11211,
     11214, 11215, 15672, 16010, 16992, 16993, 18080, 20000, 20720, 25565, 27017, 27018, 27019, 28017, 32764, 33060,
     44818, 47001, 47808, 50000, 50030, 50060, 50070, 50100, 55553, 61616, 61621]"

definition top_1000_ports :: "int list" where
  "top_1000_ports = sort (remdups (top_100_ports @ top_1000_extra))"

definition web_ports :: "int list" where
  "web_ports =
    [80, 81, 88, 443, 444, 591, 593, 832, 981, 1010, 1311, 2082, 2087, 2095, 2096, 2480, 3000, 3128, 3333, 4243,
     4443, 4567, 4711, 4712, 4993, 5000, 5104, 5108, 5280, 5281, 5601, 5800, 6543, 7000, 7001, 7396, 7474, 8000,
     8001, 8008, 8014, 8042, 8060, 8069, 8080, 8081, 8083, 8088, 8090, 8091, 8118, 8123, 8172, 8181, 8222, 8243,
     8280, 8281, 8333, 8443, 8500, 8834, 8880, 8888, 8983, 9000, 9043, 9060, 9080, 9090, 9091, 9200, 9443, 9800,
     9981, 12443, 16080, 18091, 18092, 20720, 55672]"

definition common_services :: "(int \<times> string) list" where
  "common_services =
    [(21, ''ftp''), (22, ''ssh''), (23, ''telnet''), (25, ''smtp''), (53, ''dns''), (80, ''http''), (110, ''pop3''),
     (111, ''rpcbind''), (135, ''msrpc''), (139, ''netbios-ssn''), (143, ''imap''), (161, ''snmp''), (389, ''ldap''),
     (443, ''https''), (445, ''smb''), (465, ''smtps''), (587, ''submission''), (636, ''ldaps''), (873, ''rsync''),
     (993, ''imaps''), (995, ''pop3s''), (1433, ''mssql''), (1521, ''oracle''), (2375, ''docker''),
     (2376, ''docker-tls''), (2379, ''etcd''), (3000, ''http-alt''), (3306, ''mysql''), (3389, ''rdp''),
     (5432, ''postgresql''), (5601, ''kibana''), (5672, ''amqp''), (5900, ''vnc''), (5984, ''couchdb''),
     (6379, ''redis''), (6443, ''kubernetes-api''), (7001, ''weblogic''), (8000, ''http-alt''), (8009, ''ajp13''),
     (8080, ''http-proxy''), (8443, ''https-alt''), (8888, ''http-alt''), (9000, ''http-alt''),
     (9042, ''cassandra''), (9092, ''kafka''), (9200, ''elasticsearch''), (9300, ''elasticsearch-transport''),
     (10250, ''kubelet''), (11211, ''memcached''), (15672, ''rabbitmq-mgmt''), (27017, ''mongodb''),
     (50070, ''hadoop-namenode'')]"

definition resolve_port_profile :: "string \<Rightarrow> int list \<Rightarrow> int list" where
  "resolve_port_profile profile custom =
    (if profile = ''custom'' then (let ports = sort (remdups custom) in if ports = [] then top_100_ports else ports)
     else if profile = ''top-100'' then top_100_ports
     else if profile = ''web'' then web_ports
     else if profile = ''full'' then [1..65535]
     else top_1000_ports)"

definition service_name :: "int \<Rightarrow> string" where
  "service_name port = (case map_of common_services port of None \<Rightarrow> ''unknown'' | Some s \<Rightarrow> s)"

section \<open>Facts\<close>

definition is_port :: "int \<Rightarrow> bool" where
  "is_port p = (1 \<le> p \<and> p \<le> 65535)"

lemma profile_lists:
  "list_all is_port top_100_ports" "sorted_wrt (<) top_100_ports" "list_all is_port top_1000_extra"
  "list_all is_port web_ports" "sorted_wrt (<) web_ports"
  by code_simp+

lemma sorted_wrt_sort_remdups: "sorted_wrt (<) (sort (remdups xs))"
  by (simp add: strict_sorted_iff)

text \<open>
  Every profile of every request gives a list of ports to probe that is not empty and
  strictly increasing, so no port is probed twice, and that stays within the range of TCP
  ports when the ports the user listed do.
\<close>

lemma port_profile_well_formed:
  assumes "\<And>p. p \<in> set custom \<Longrightarrow> is_port p"
  shows "resolve_port_profile profile custom \<noteq> [] \<and> sorted_wrt (<) (resolve_port_profile profile custom) \<and>
    list_all is_port (resolve_port_profile profile custom)"
proof -
  have full: "[1..65535 :: int] \<noteq> []" "list_all is_port [1..65535]" "sorted_wrt (<) [1..65535 :: int]"
    by (simp_all add: list_all_iff is_port_def sorted_wrt_upto)
  have top: "top_100_ports \<noteq> []" "web_ports \<noteq> []" by (simp_all add: top_100_ports_def web_ports_def)
  have "list_all is_port top_1000_ports"
    using profile_lists(1,3) by (auto simp: top_1000_ports_def list_all_iff)
  moreover have "top_1000_ports \<noteq> []" using top(1) by (simp add: top_1000_ports_def) (metis sort_key_simps(1) set_empty set_sort set_remdups Un_empty set_append)
  moreover have "list_all is_port (sort (remdups custom))" using assms by (simp add: list_all_iff)
  ultimately show ?thesis
    using full top profile_lists
    by (simp add: resolve_port_profile_def Let_def top_1000_ports_def sorted_wrt_sort_remdups)
qed

lemma port_profile_well_formed_witness:
  "resolve_port_profile ''custom'' [8443, 22, 8443] = [22, 8443] \<and> list_all is_port (resolve_port_profile ''custom'' [8443, 22, 8443])"
proof -
  have "\<And>p. p \<in> set [8443, 22, 8443] \<Longrightarrow> is_port p" by (auto simp: is_port_def)
  from port_profile_well_formed [OF this, where profile = "''custom''"] show ?thesis by (intro conjI) (code_simp, blast)
qed

end
