(* ===== verification/ScanContext.thy ===== *)
theory ScanContext
  imports Inventory
begin

text \<open>
  What the scan modules share: \<open>ScanContext\<close> of \<open>workers/context.py\<close> over the estate, the
  options of a scan's configuration, and how Python prints a float and quotes a string in a log
  line or a description. Publishing to the live feed changes no table and is left out.
\<close>

section \<open>The context\<close>

record scan_ctx =
  cx_scan :: nat
  cx_org :: nat
  cx_target :: string
  cx_config :: json_object

definition ctx_modules :: "scan_ctx \<Rightarrow> string list" where
  "ctx_modules ctx = config_modules (cx_config ctx)"

definition passive_only :: "scan_ctx \<Rightarrow> bool" where
  "passive_only ctx = (map_of (cx_config ctx) ''passive_only'' = Some (JBool True))"

definition option_text :: "scan_ctx \<Rightarrow> string \<Rightarrow> string \<Rightarrow> string" where
  "option_text ctx key dflt = (case map_of (cx_config ctx) key of Some (JStr s) \<Rightarrow> s | _ \<Rightarrow> dflt)"

definition option_num :: "scan_ctx \<Rightarrow> string \<Rightarrow> rat \<Rightarrow> rat" where
  "option_num ctx key dflt = (case map_of (cx_config ctx) key of Some (JNum x) \<Rightarrow> x | _ \<Rightarrow> dflt)"

fun json_ints :: "json list \<Rightarrow> int list" where
  "json_ints [] = []"
| "json_ints (JNum x # js) = floor x # json_ints js"
| "json_ints (_ # js) = json_ints js"

definition option_ints :: "scan_ctx \<Rightarrow> string \<Rightarrow> int list" where
  "option_ints ctx key = (case map_of (cx_config ctx) key of Some (JList js) \<Rightarrow> json_ints js | _ \<Rightarrow> [])"

abbreviation with_db :: "(db \<Rightarrow> db) \<Rightarrow> estate \<Rightarrow> estate" where
  "with_db f es \<equiv> es\<lparr>es_db := f (es_db es)\<rparr>"

definition log_line :: "scan_ctx \<Rightarrow> string \<Rightarrow> int \<Rightarrow> string \<Rightarrow> estate \<Rightarrow> estate" where
  "log_line ctx stage now message es = with_db (ctx_log (cx_scan ctx) (Some stage) now message) es"

definition enter_stage :: "scan_ctx \<Rightarrow> string \<Rightarrow> int \<Rightarrow> estate \<Rightarrow> estate" where
  "enter_stage ctx stage progress es = with_db (set_stage (cx_scan ctx) stage progress) es"

definition add_counters :: "scan_ctx \<Rightarrow> int \<Rightarrow> int \<Rightarrow> estate \<Rightarrow> estate" where
  "add_counters ctx assets findings es = with_db (bump_counters (cx_scan ctx) assets findings) es"

definition scan_cancelled :: "scan_ctx \<Rightarrow> estate \<Rightarrow> bool" where
  "scan_cancelled ctx es = is_cancelled (cx_scan ctx) (es_db es)"

text \<open>\<open>chunked\<close>: items in batches of n, the last one what is left.\<close>

fun chunked :: "nat \<Rightarrow> 'a list \<Rightarrow> 'a list \<Rightarrow> 'a list list" where
  "chunked n batch [] = (if batch = [] then [] else [batch])"
| "chunked n batch (x # xs) =
     (let b = batch @ [x] in if n \<le> length b then b # chunked n [] xs else chunked n b xs)"

text \<open>The score of an asset from every finding recorded on it.\<close>

definition asset_severities :: "nat \<Rightarrow> nat \<Rightarrow> estate \<Rightarrow> severity list" where
  "asset_severities org_id asset_id es =
    map fi_severity (filter (\<lambda>f. fi_asset f = Some asset_id \<and> fi_org f = org_id) (es_findings es))"

definition rescore :: "nat \<Rightarrow> nat \<Rightarrow> (asset_row \<Rightarrow> int list) \<Rightarrow> estate \<Rightarrow> estate" where
  "rescore org_id asset_id ports es =
    update_asset_row asset_id (\<lambda>a. a\<lparr>at_risk := score_asset (asset_severities org_id asset_id es) (ports a)\<rparr>) es"

section \<open>Numbers and strings in text\<close>

text \<open>\<open>str\<close> of a float that is a non-negative decimal with at most six places.\<close>

fun strip_zeros :: "string \<Rightarrow> string" where
  "strip_zeros s = (let t = rev (dropWhile (\<lambda>c. c = CHR ''0'') (rev s)) in if t = [] then ''0'' else t)"

definition six_digits :: "int \<Rightarrow> string" where
  "six_digits n = map (\<lambda>k. char_of (48 + n div k mod 10)) [100000, 10000, 1000, 100, 10, 1]"

definition show_float :: "rat \<Rightarrow> string" where
  "show_float x = (let n = floor (x * 1000000) in dec (n div 1000000) @ ''.'' @ strip_zeros (six_digits (n mod 1000000)))"

text \<open>\<open>repr\<close> of a string of characters below 256.\<close>

definition hex_digit :: "int \<Rightarrow> char" where
  "hex_digit n = char_of (if n < 10 then 48 + n else 87 + n)"

definition repr_char :: "int \<Rightarrow> char \<Rightarrow> string" where
  "repr_char quote c =
    (let n = ord c; backslash = char_of (92 :: int) in
     if n = quote \<or> n = 92 then [backslash, c]
     else if n = 10 then [backslash, CHR ''n'']
     else if n = 13 then [backslash, CHR ''r'']
     else if n = 9 then [backslash, CHR ''t'']
     else if n < 32 \<or> (127 \<le> n \<and> n \<le> 160) \<or> n = 173 then [backslash, CHR ''x'', hex_digit (n div 16), hex_digit (n mod 16)]
     else [c])"

definition py_repr :: "string \<Rightarrow> string" where
  "py_repr s =
    (let codes = map ord s; quote = (if 39 \<in> set codes \<and> 34 \<notin> set codes then 34 else 39 :: int)
     in char_of quote # concat (map (repr_char quote) s) @ [char_of quote])"

section \<open>Facts\<close>

lemma json_ints_map: "json_ints (map (\<lambda>p. JNum (of_int p)) ps) = ps"
  by (induction ps) simp_all

lemma json_strings_map: "json_strings (map JStr ss) = ss"
  by (induction ss) simp_all

text \<open>
  The workers read back the configuration that the API accepted. For a scan whose stored
  configuration is a validated payload, each accessor of the context returns the payload's
  value: modules in pipeline order, the port profile, the custom ports sorted and without
  repetition, the passive flag, and the two limits.
\<close>

lemma config_reaches_the_workers:
  assumes "validate_config c = Some d" and "cx_config ctx = dump_config d"
  shows "ctx_modules ctx = filter (\<lambda>m. m \<in> set (cf_modules c)) module_order \<and> requested_modules (cx_config ctx) = ctx_modules ctx \<and>
    option_text ctx ''port_profile'' x = cf_profile c \<and> option_ints ctx ''ports'' = sort (remdups (cf_ports c)) \<and>
    passive_only ctx = cf_passive c \<and> option_num ctx ''connect_timeout'' y = cf_timeout c \<and>
    option_num ctx ''rate_limit'' z = of_int (cf_rate c) \<and> option_num ctx ''max_subdomains'' w = of_int (cf_max_subdomains c)"
proof -
  have d: "d = c\<lparr>cf_modules := filter (\<lambda>m. m \<in> set (cf_modules c)) all_modules, cf_ports := sort (remdups (cf_ports c))\<rparr>"
    and ms: "cf_modules c \<noteq> []" "list_all (\<lambda>m. m \<in> set all_modules) (cf_modules c)"
    using assms(1) by (auto simp: validate_config_def split: if_splits)
  have order: "all_modules = module_order" by (simp add: all_modules_def module_order_def)
  have mods: "ctx_modules ctx = filter (\<lambda>m. m \<in> set (cf_modules c)) module_order"
    using order by (simp add: ctx_modules_def config_modules_def assms(2) dump_config_def d json_strings_map)
  have "filter (\<lambda>m. m \<in> set (cf_modules c)) module_order \<noteq> []"
    using ms order by (cases "cf_modules c") (auto simp: filter_empty_conv)
  moreover have same: "filter (\<lambda>m. m \<in> set (filter P module_order)) module_order = filter P module_order" for P
    by (rule filter_cong) auto
  ultimately have "requested_modules (cx_config ctx) = ctx_modules ctx"
    using mods same by (simp add: requested_modules_def ctx_modules_def Let_def)
  then show ?thesis
    using mods
    by (simp add: assms(2) option_text_def option_ints_def option_num_def passive_only_def dump_config_def d json_ints_map)
qed

lemma config_reaches_the_workers_witness:
  "let c = default_config\<lparr>cf_modules := [''change_detector'', ''port_scanner''], cf_ports := [443, 80, 443]\<rparr>;
       ctx = \<lparr>cx_scan = 9, cx_org = 1, cx_target = ''a.co'', cx_config = dump_config (the (validate_config c))\<rparr>
   in ctx_modules ctx = [''port_scanner'', ''change_detector''] \<and> option_ints ctx ''ports'' = [80, 443]"
proof -
  let ?c = "default_config\<lparr>cf_modules := [''change_detector'', ''port_scanner''], cf_ports := [443, 80, 443]\<rparr>"
  let ?ctx = "\<lparr>cx_scan = 9, cx_org = 1, cx_target = ''a.co'', cx_config = dump_config (the (validate_config ?c))\<rparr>"
  have "\<not> Option.is_none (validate_config ?c)" by code_simp
  then have "validate_config ?c = Some (the (validate_config ?c))" by (simp add: Option.is_none_def)
  note t = config_reaches_the_workers [OF this, of ?ctx]
  have "filter (\<lambda>m. m \<in> set (cf_modules ?c)) module_order = [''port_scanner'', ''change_detector'']"
    "sort (remdups (cf_ports ?c)) = [80, 443]" by code_simp+
  then show ?thesis using t by (simp add: Let_def)
qed

end
