(* ===== verification/EstateEffects.thy ===== *)
theory EstateEffects
  imports ScanContext
begin

text \<open>
  What an operation on behalf of one organisation may do to the estate. Every handler and every
  worker is a sequence of the effects listed here; what all of them keep (keys, the tenant of a
  finding's asset, the range of a score, the rows of other organisations) is proved once for
  each effect.
\<close>

section \<open>A well-formed estate\<close>

definition asset_tag :: "asset_row \<Rightarrow> nat \<times> nat" where
  "asset_tag a = (at_id a, at_org a)"

definition tenant_ok :: "asset_row list \<Rightarrow> finding_row \<Rightarrow> bool" where
  "tenant_ok assets f = (case fi_asset f of None \<Rightarrow> True | Some a \<Rightarrow> (a, fi_org f) \<in> asset_tag ` set assets)"

definition risk_ok :: "asset_row \<Rightarrow> bool" where
  "risk_ok a = (0 \<le> at_risk a \<and> at_risk a \<le> 100)"

definition estate_ok :: "estate \<Rightarrow> bool" where
  "estate_ok es =
    (keyed at_id (es_assets es) \<and> keyed asset_key (es_assets es) \<and> keyed fi_id (es_findings es) \<and>
     keyed finding_key (es_findings es) \<and> list_all (\<lambda>a. at_id a < next_id es) (es_assets es) \<and>
     list_all (\<lambda>f. fi_id f < next_id es) (es_findings es) \<and> list_all (tenant_ok (es_assets es)) (es_findings es) \<and>
     list_all risk_ok (es_assets es))"

lemma estate_okD:
  assumes "estate_ok es"
  shows "keyed at_id (es_assets es)" "keyed asset_key (es_assets es)" "keyed fi_id (es_findings es)" "keyed finding_key (es_findings es)"
    and "a \<in> set (es_assets es) \<Longrightarrow> at_id a < next_id es" and "a \<in> set (es_assets es) \<Longrightarrow> risk_ok a"
    and "f \<in> set (es_findings es) \<Longrightarrow> fi_id f < next_id es"
    and "f \<in> set (es_findings es) \<Longrightarrow> tenant_ok (es_assets es) f"
  using assms by (auto simp: estate_ok_def list_all_iff)

lemma estate_okI:
  assumes "keyed at_id (es_assets es)" "keyed asset_key (es_assets es)" "keyed fi_id (es_findings es)" "keyed finding_key (es_findings es)"
    and "\<And>a. a \<in> set (es_assets es) \<Longrightarrow> at_id a < next_id es \<and> risk_ok a"
    and "\<And>f. f \<in> set (es_findings es) \<Longrightarrow> fi_id f < next_id es \<and> tenant_ok (es_assets es) f"
  shows "estate_ok es"
  using assms by (simp add: estate_ok_def list_all_iff)

section \<open>Effects\<close>

definition keeps_asset :: "(asset_row \<Rightarrow> asset_row) \<Rightarrow> bool" where
  "keeps_asset f \<longleftrightarrow> (\<forall>a. at_id (f a) = at_id a \<and> at_org (f a) = at_org a \<and> at_hostname (f a) = at_hostname a \<and>
    (risk_ok a \<longrightarrow> risk_ok (f a)))"

definition keeps_finding :: "(finding_row \<Rightarrow> finding_row) \<Rightarrow> bool" where
  "keeps_finding f \<longleftrightarrow> (\<forall>x. fi_id (f x) = fi_id x \<and> fi_org (f x) = fi_org x \<and> fi_asset (f x) = fi_asset x \<and>
    fi_fingerprint (f x) = fi_fingerprint x)"

inductive effect_of :: "nat \<Rightarrow> estate \<Rightarrow> estate \<Rightarrow> bool" for org :: nat where
  other_tables: "db_next (es_db es) \<le> db_next db' \<Longrightarrow> effect_of org es (es\<lparr>es_db := db'\<rparr>)"
| add_asset: "at_id a = next_id es \<Longrightarrow> at_org a = org \<Longrightarrow> risk_ok a \<Longrightarrow> asset_key a \<notin> asset_key ` set (es_assets es) \<Longrightarrow>
    effect_of org es ((take_id es)\<lparr>es_assets := es_assets es @ [a]\<rparr>)"
| edit_assets: "keeps_asset f \<Longrightarrow> (\<And>a. a \<in> set (es_assets es) \<Longrightarrow> p a \<Longrightarrow> at_org a = org) \<Longrightarrow>
    effect_of org es (es\<lparr>es_assets := update_where p f (es_assets es)\<rparr>)"
| remove_asset: "a \<in> set (es_assets es) \<Longrightarrow> at_org a = org \<Longrightarrow> effect_of org es (drop_asset (at_id a) es)"
| add_finding: "fi_id f = next_id es \<Longrightarrow> fi_org f = org \<Longrightarrow> tenant_ok (es_assets es) f \<Longrightarrow>
    finding_key f \<notin> finding_key ` set (es_findings es) \<Longrightarrow> effect_of org es ((take_id es)\<lparr>es_findings := es_findings es @ [f]\<rparr>)"
| edit_findings: "keeps_finding g \<Longrightarrow> (\<And>f. f \<in> set (es_findings es) \<Longrightarrow> p f \<Longrightarrow> fi_org f = org) \<Longrightarrow>
    effect_of org es (es\<lparr>es_findings := update_where p g (es_findings es)\<rparr>)"
| remove_findings: "(\<And>f. f \<in> set (es_findings es) \<Longrightarrow> p f \<Longrightarrow> fi_org f = org) \<Longrightarrow>
    effect_of org es (es\<lparr>es_findings := delete_where p (es_findings es)\<rparr>)"

abbreviation effects_of :: "nat \<Rightarrow> estate \<Rightarrow> estate \<Rightarrow> bool" where
  "effects_of org \<equiv> (effect_of org)\<^sup>*\<^sup>*"

lemma effect_once: "effect_of org es es' \<Longrightarrow> effects_of org es es'"
  by (rule r_into_rtranclp)

lemma effects_then: "effects_of org es es1 \<Longrightarrow> effects_of org es1 es2 \<Longrightarrow> effects_of org es es2"
  by (rule rtranclp_trans)

lemma effects_keep:
  assumes "effects_of org es es'" and "P es" and "\<And>x y. P x \<Longrightarrow> effect_of org x y \<Longrightarrow> P y"
  shows "P es'"
  using assms(1,2) by (induction rule: rtranclp_induct) (auto intro: assms(3))

section \<open>What every effect keeps\<close>

lemma take_id_simps [simp]:
  "es_assets (take_id es) = es_assets es" "es_findings (take_id es) = es_findings es" "next_id (take_id es) = next_id es + 1"
  by (simp_all add: take_id_def)

lemma tenant_ok_mono: "tenant_ok as f \<Longrightarrow> asset_tag ` set as \<subseteq> asset_tag ` set bs \<Longrightarrow> tenant_ok bs f"
  by (auto simp: tenant_ok_def split: option.splits)

lemma tenant_ok_append: "tenant_ok as f \<Longrightarrow> tenant_ok (as @ bs) f"
  by (rule tenant_ok_mono) auto

lemma keeps_assetD: "keeps_asset f \<Longrightarrow> at_id (f a) = at_id a" "keeps_asset f \<Longrightarrow> asset_tag (f a) = asset_tag a"
  "keeps_asset f \<Longrightarrow> asset_key (f a) = asset_key a" "keeps_asset f \<Longrightarrow> risk_ok a \<Longrightarrow> risk_ok (f a)"
  by (auto simp: keeps_asset_def asset_tag_def asset_key_def)

lemma keeps_findingD: "keeps_finding g \<Longrightarrow> fi_id (g x) = fi_id x" "keeps_finding g \<Longrightarrow> finding_key (g x) = finding_key x"
  "keeps_finding g \<Longrightarrow> fi_org (g x) = fi_org x" "keeps_finding g \<Longrightarrow> tenant_ok as (g x) = tenant_ok as x"
  by (auto simp: keeps_finding_def finding_key_def tenant_ok_def split: option.splits)

lemma update_asset_tags: "keeps_asset f \<Longrightarrow> asset_tag ` set (update_where p f rows) = asset_tag ` set rows"
proof -
  assume "keeps_asset f"
  then have "map asset_tag (update_where p f rows) = map asset_tag rows" by (intro map_update_where) (simp add: keeps_assetD)
  then show ?thesis by (metis list.set_map)
qed

lemma tenant_ok_cong: "asset_tag ` set as = asset_tag ` set bs \<Longrightarrow> tenant_ok as f = tenant_ok bs f"
  by (simp add: tenant_ok_def split: option.splits)

lemma effect_keeps_estate:
  assumes ok: "estate_ok es" and "effect_of org es es'"
  shows "estate_ok es'"
  using assms(2)
proof cases
  case (other_tables db')
  then show ?thesis using ok by (auto simp: estate_ok_def list_all_iff)
next
  case (add_asset a)
  show ?thesis unfolding add_asset(1)
  proof (rule estate_okI)
    show "keyed at_id (es_assets ((take_id es)\<lparr>es_assets := es_assets es @ [a]\<rparr>))"
      using estate_okD(1,5) [OF ok] add_asset(2) by fastforce
  qed (use estate_okD [OF ok] add_asset in \<open>auto intro: tenant_ok_append less_SucI\<close>)
next
  case (edit_assets f p)
  note k = keeps_assetD [OF edit_assets(2)]
  have tenant: "tenant_ok (update_where p f (es_assets es)) x = tenant_ok (es_assets es) x" for x
    by (rule tenant_ok_cong) (rule update_asset_tags [OF edit_assets(2)])
  show ?thesis unfolding edit_assets(1)
    by (rule estate_okI) (use estate_okD [OF ok] k tenant in \<open>auto simp: map_update_where in_update_where_iff\<close>)
next
  case (remove_asset a)
  have "tenant_ok (es_assets (drop_asset (at_id a) es)) f"
    if "f \<in> set (es_findings es)" "fi_asset f \<noteq> Some (at_id a)" for f
    using estate_okD(8) [OF ok that(1)] that(2)
    by (auto simp: tenant_ok_def drop_asset_def asset_tag_def image_iff split: option.splits)
  then show ?thesis unfolding remove_asset(1)
    by (intro estate_okI) (use estate_okD [OF ok] in \<open>auto simp: drop_asset_def distinct_map_delete_where\<close>)
next
  case (add_finding f)
  show ?thesis unfolding add_finding(1)
  proof (rule estate_okI)
    show "keyed fi_id (es_findings ((take_id es)\<lparr>es_findings := es_findings es @ [f]\<rparr>))"
      using estate_okD(3,7) [OF ok] add_finding(2) by fastforce
  qed (use estate_okD [OF ok] add_finding in \<open>auto intro: less_SucI\<close>)
next
  case (edit_findings g p)
  note k = keeps_findingD [OF edit_findings(2)]
  show ?thesis unfolding edit_findings(1)
    by (rule estate_okI) (use estate_okD [OF ok] k in \<open>auto simp: map_update_where in_update_where_iff\<close>)
next
  case (remove_findings p)
  show ?thesis unfolding remove_findings(1)
    by (rule estate_okI) (use estate_okD [OF ok] in \<open>auto simp: distinct_map_delete_where\<close>)
qed

text \<open>The rows of everybody else.\<close>

definition foreign_assets :: "nat \<Rightarrow> estate \<Rightarrow> asset_row list" where
  "foreign_assets org es = filter (\<lambda>a. at_org a \<noteq> org) (es_assets es)"

definition foreign_findings :: "nat \<Rightarrow> estate \<Rightarrow> finding_row list" where
  "foreign_findings org es = filter (\<lambda>f. fi_org f \<noteq> org) (es_findings es)"

lemma filter_update_foreign:
  "(\<And>r. r \<in> set rows \<Longrightarrow> p r \<Longrightarrow> k r = org) \<Longrightarrow> (\<And>r. k (f r) = k r) \<Longrightarrow>
    filter (\<lambda>r. k r \<noteq> org) (update_where p f rows) = filter (\<lambda>r. k r \<noteq> org) rows"
  by (induction rows) auto

lemma filter_delete_foreign:
  "(\<And>r. r \<in> set rows \<Longrightarrow> p r \<Longrightarrow> k r = org) \<Longrightarrow>
    filter (\<lambda>r. k r \<noteq> org) (delete_where p rows) = filter (\<lambda>r. k r \<noteq> org) rows"
  by (auto simp: delete_where_def intro!: filter_cong)

lemma effect_keeps_foreign:
  assumes ok: "estate_ok es" and "effect_of org es es'"
  shows "foreign_assets org es' = foreign_assets org es \<and> foreign_findings org es' = foreign_findings org es"
  using assms(2)
proof cases
  case (edit_assets f p)
  have "filter (\<lambda>r. at_org r \<noteq> org) (update_where p f (es_assets es)) = filter (\<lambda>r. at_org r \<noteq> org) (es_assets es)"
    by (rule filter_update_foreign) (use edit_assets in \<open>auto simp: keeps_asset_def\<close>)
  then show ?thesis by (simp add: foreign_assets_def foreign_findings_def edit_assets(1))
next
  case (remove_asset a)
  have org: "b = a" if "b \<in> set (es_assets es)" "at_id b = at_id a" for b
    using keyed_unique [OF estate_okD(1) [OF ok] that(1) remove_asset(2) that(2)] .
  have fi: "fi_org f = org" if f: "f \<in> set (es_findings es)" "fi_asset f = Some (at_id a)" for f
  proof -
    have "(at_id a, fi_org f) \<in> asset_tag ` set (es_assets es)" using estate_okD(8) [OF ok f(1)] f(2) by (simp add: tenant_ok_def)
    then show ?thesis using org remove_asset(3) by (auto simp: asset_tag_def)
  qed
  have "filter (\<lambda>r. at_org r \<noteq> org) (delete_where (\<lambda>b. at_id b = at_id a) (es_assets es)) = filter (\<lambda>r. at_org r \<noteq> org) (es_assets es)"
    by (rule filter_delete_foreign) (use org remove_asset(3) in auto)
  moreover have "filter (\<lambda>r. fi_org r \<noteq> org) (delete_where (\<lambda>f. fi_asset f = Some (at_id a)) (es_findings es)) =
      filter (\<lambda>r. fi_org r \<noteq> org) (es_findings es)"
    by (rule filter_delete_foreign) (use fi in auto)
  ultimately show ?thesis by (simp add: foreign_assets_def foreign_findings_def remove_asset(1) drop_asset_def)
next
  case (edit_findings g p)
  have "filter (\<lambda>r. fi_org r \<noteq> org) (update_where p g (es_findings es)) = filter (\<lambda>r. fi_org r \<noteq> org) (es_findings es)"
    by (rule filter_update_foreign) (use edit_findings in \<open>auto simp: keeps_finding_def\<close>)
  then show ?thesis by (simp add: foreign_assets_def foreign_findings_def edit_findings(1))
next
  case (remove_findings p)
  have "filter (\<lambda>r. fi_org r \<noteq> org) (delete_where p (es_findings es)) = filter (\<lambda>r. fi_org r \<noteq> org) (es_findings es)"
    by (rule filter_delete_foreign) (use remove_findings in auto)
  then show ?thesis by (simp add: foreign_assets_def foreign_findings_def remove_findings(1))
qed (simp_all add: foreign_assets_def foreign_findings_def)

lemma effects_keep_estate: "effects_of org es es' \<Longrightarrow> estate_ok es \<Longrightarrow> estate_ok es'"
  by (erule effects_keep) (auto intro: effect_keeps_estate)

lemma effects_keep_foreign:
  assumes "effects_of org es es'" and "estate_ok es"
  shows "foreign_assets org es' = foreign_assets org es \<and> foreign_findings org es' = foreign_findings org es"
proof -
  have "estate_ok es' \<and> foreign_assets org es' = foreign_assets org es \<and> foreign_findings org es' = foreign_findings org es"
    by (rule effects_keep [OF assms(1)]) (use assms(2) effect_keeps_estate effect_keeps_foreign in auto)
  then show ?thesis by blast
qed

section \<open>Operations that workers share\<close>

definition has_asset :: "nat \<Rightarrow> nat \<Rightarrow> estate \<Rightarrow> bool" where
  "has_asset org i es \<longleftrightarrow> (i, org) \<in> asset_tag ` set (es_assets es)"

lemma has_asset_owned: "estate_ok es \<Longrightarrow> has_asset org i es \<Longrightarrow> a \<in> set (es_assets es) \<Longrightarrow> at_id a = i \<Longrightarrow> at_org a = org"
  using keyed_unique [OF estate_okD(1)] by (fastforce simp: has_asset_def asset_tag_def)

lemma context_simps [simp]:
  "es_assets (log_line ctx st now m es) = es_assets es" "es_findings (log_line ctx st now m es) = es_findings es"
  "es_assets (enter_stage ctx st' n es) = es_assets es" "es_findings (enter_stage ctx st' n es) = es_findings es"
  "es_assets (add_counters ctx k l es) = es_assets es" "es_findings (add_counters ctx k l es) = es_findings es"
  "next_id (log_line ctx st now m es) = next_id es"
  by (simp_all add: log_line_def enter_stage_def add_counters_def)

lemma context_effects:
  "effects_of org es (log_line ctx st now m es)" "effects_of org es (enter_stage ctx st' n es)"
  "effects_of org es (add_counters ctx k l es)"
  unfolding log_line_def enter_stage_def add_counters_def
  by (rule effect_once, rule effect_of.other_tables, simp add: set_stage_def bump_counters_def)+

lemma effects_steps:
  "effects_of org e0 es \<Longrightarrow> effects_of org e0 (log_line ctx st now m es)"
  "effects_of org e0 es \<Longrightarrow> effects_of org e0 (enter_stage ctx st' n es)"
  "effects_of org e0 es \<Longrightarrow> effects_of org e0 (add_counters ctx k l es)"
  by (erule effects_then, rule context_effects)+

lemma edit_asset_effects:
  assumes "estate_ok es" and "has_asset org i es" and "keeps_asset f"
  shows "effects_of org es (update_asset_row i f es)"
  by (rule effect_once, rule effect_of.edit_assets [OF assms(3)]) (rule has_asset_owned [OF assms(1,2)])

lemma edit_asset_tags:
  "keeps_asset f \<Longrightarrow> has_asset org j (update_asset_row i f es) = has_asset org j es"
  by (simp add: has_asset_def update_asset_tags)

lemma upsert_simps [simp]: "es_assets (fst (upsert_finding f g es)) = es_assets es"
  by (simp add: upsert_finding_def split: option.splits)

lemma upsert_effects:
  assumes "fi_id f = next_id es" and "fi_org f = org" and "tenant_ok (es_assets es) f" and "keeps_finding g"
  shows "effects_of org es (fst (upsert_finding f g es))"
proof (cases "row_by finding_key (finding_key f) (es_findings es)")
  case None
  then have "finding_key f \<notin> finding_key ` set (es_findings es)" by (simp add: row_by_None_iff)
  from effect_once [OF effect_of.add_finding [OF assms(1-3) this]] show ?thesis by (simp add: upsert_finding_def None)
next
  case (Some old)
  have "effects_of org es (es\<lparr>es_findings := update_where (\<lambda>x. finding_key x = finding_key f) g (es_findings es)\<rparr>)"
    by (rule effect_once, rule effect_of.edit_findings [OF assms(4)]) (use assms(2) in \<open>auto simp: finding_key_def\<close>)
  then show ?thesis by (simp add: upsert_finding_def Some)
qed

lemma upsert_keys:
  assumes "\<And>x. finding_key (g x) = finding_key x"
  shows "finding_key ` set (es_findings (fst (upsert_finding f g es))) = insert (finding_key f) (finding_key ` set (es_findings es))"
proof (cases "row_by finding_key (finding_key f) (es_findings es)")
  case (Some old)
  have "map finding_key (update_where (\<lambda>x. finding_key x = finding_key f) g (es_findings es)) = map finding_key (es_findings es)"
    using assms by (rule map_update_where)
  then have "finding_key ` set (update_where (\<lambda>x. finding_key x = finding_key f) g (es_findings es)) = finding_key ` set (es_findings es)"
    by (metis list.set_map)
  moreover have "finding_key f \<in> finding_key ` set (es_findings es)" using row_by_SomeD [OF Some] by (metis image_eqI)
  ultimately show ?thesis by (auto simp: upsert_finding_def Some)
qed (simp add: upsert_finding_def)

lemma upsert_known:
  assumes "finding_key f \<in> finding_key ` set (es_findings es)" and "\<And>x. fi_first_seen (g x) = fi_first_seen x"
  obtains old where "old \<in> set (es_findings es)"
    "upsert_finding f g es =
      (es\<lparr>es_findings := update_where (\<lambda>x. finding_key x = finding_key f) g (es_findings es)\<rparr>, fi_id old, fi_first_seen old)"
proof -
  obtain old where "row_by finding_key (finding_key f) (es_findings es) = Some old"
    using assms(1) row_by_None_iff [of finding_key "finding_key f" "es_findings es"] by auto
  with that [of old] row_by_SomeD [OF this] assms(2) show thesis by (simp add: upsert_finding_def)
qed

text \<open>The update of a finding that a scan meets again.\<close>

definition stamp_seen :: "int \<Rightarrow> scan_ctx \<Rightarrow> finding_row \<Rightarrow> finding_row" where
  "stamp_seen now ctx f = f\<lparr>fi_last_seen := Some now, fi_scan := Some (cx_scan ctx)\<rparr>"

lemma keeps_stamp_seen: "keeps_finding (stamp_seen now ctx)"
  by (simp add: keeps_finding_def stamp_seen_def)

lemma tenant_ok_asset: "has_asset org i es \<Longrightarrow> fi_asset f = Some i \<Longrightarrow> fi_org f = org \<Longrightarrow> tenant_ok (es_assets es) f"
  by (simp add: tenant_ok_def has_asset_def)

lemma score_in_range: "0 \<le> score_asset fs ps" "score_asset fs ps \<le> 100"
proof -
  have "0 \<le> score_asset fs ps \<and> score_asset fs ps \<le> 100"
    using score_asset_closed_form [of fs ps] sum_weights_nonneg [of fs] sum_port_weights_nonneg [of ps]
    by (simp add: max_risk_score_def)
  then show "0 \<le> score_asset fs ps" "score_asset fs ps \<le> 100" by simp_all
qed

lemma rescore_keeps: "keeps_asset (\<lambda>a. a\<lparr>at_risk := score_asset ss (ports a)\<rparr>)"
  by (simp add: keeps_asset_def risk_ok_def score_in_range)

lemma rescore_effects:
  "estate_ok es \<Longrightarrow> has_asset org i es \<Longrightarrow> effects_of org es (rescore org i ports es)"
  unfolding rescore_def by (rule edit_asset_effects) (simp_all add: rescore_keeps)

lemma rescore_simps [simp]: "es_findings (rescore org i ports es) = es_findings es" "has_asset o' j (rescore org i ports es) = has_asset o' j es"
  by (simp_all add: rescore_def edit_asset_tags [OF rescore_keeps])

section \<open>The handlers\<close>

lemma find_assetD: "find_asset es i org = Some a \<Longrightarrow> a \<in> set (es_assets es) \<and> at_id a = i \<and> at_org a = org"
  unfolding find_asset_def by (drule find_SomeD) simp

lemma find_findingD: "find_finding es i org = Some f \<Longrightarrow> f \<in> set (es_findings es) \<and> fi_id f = i \<and> fi_org f = org"
  unfolding find_finding_def by (drule find_SomeD) simp

lemma has_assetI: "a \<in> set (es_assets es) \<Longrightarrow> has_asset (at_org a) (at_id a) es"
  by (auto simp: has_asset_def asset_tag_def)

lemma create_asset_effects: "effects_of org es (fst (create_asset cfg now org body es))"
proof -
  have "effects_of org es es'" if "insert_asset (new_asset (next_id es) org h ip n s now) es = Some es'" for h ip n s es'
    using that by (auto simp: insert_asset_def new_asset_def risk_ok_def split: if_splits intro!: effect_once effect_of.add_asset)
  then show ?thesis by (simp add: create_asset_def Let_def split: option.splits sum.splits)
qed

lemma update_asset_effects:
  assumes "estate_ok es"
  shows "effects_of org es (fst (update_asset i org body es))"
proof -
  have keeps: "keeps_asset (\<lambda>a. a\<lparr>at_ip := ip a, at_status := st a, at_notes := n a\<rparr>)" for ip st n
    by (simp add: keeps_asset_def risk_ok_def)
  have "effects_of org es (update_asset_row (at_id a) (\<lambda>a. a\<lparr>at_ip := ip a, at_status := st a, at_notes := n a\<rparr>) es)"
    if "find_asset es i org = Some a" for a ip st n
    using edit_asset_effects [OF assms _ keeps] has_assetI [of a es] find_assetD [OF that] by auto
  moreover have "effects_of org es (update_asset_row (at_id a) (\<lambda>a. a\<lparr>at_ip := ip a, at_notes := n a\<rparr>) es)"
    if "find_asset es i org = Some a" for a ip n
    using edit_asset_effects [OF assms _ keeps [where st = at_status]] has_assetI [of a es] find_assetD [OF that] by auto
  ultimately show ?thesis
    by (auto simp: update_asset_def get_asset_def Let_def split: option.splits)
qed

lemma delete_asset_effects: "effects_of org es (fst (delete_asset i org es))"
proof -
  have "effects_of org es (drop_asset (at_id a) es)" if "find_asset es i org = Some a" for a
    using effect_once [OF effect_of.remove_asset] find_assetD [OF that] by blast
  then show ?thesis by (simp add: delete_asset_def get_asset_def split: option.splits)
qed

lemma create_finding_effects: "effects_of org es (fst (create_finding sha now org b es))"
proof -
  have "effects_of org es es'"
    if ins: "insert_finding (manual_finding sha now (next_id es) org b) es = Some es'"
      and "tenant_ok (es_assets es) (manual_finding sha now (next_id es) org b)" for es'
    using that by (auto simp: insert_finding_def split: if_splits intro!: effect_once effect_of.add_finding)
      (simp_all add: manual_finding_def)
  moreover have "tenant_ok (es_assets es) (manual_finding sha now (next_id es) org b)"
    if "\<And>a. fb_asset b = Some a \<Longrightarrow> find_asset es a org \<noteq> None"
    using that find_assetD [of es _ org] by (force simp: tenant_ok_def manual_finding_def asset_tag_def split: option.splits)
  ultimately show ?thesis
    by (auto simp: create_finding_def Let_def split: option.splits)
qed

lemma update_finding_effects:
  assumes "estate_ok es"
  shows "effects_of org es (fst (update_finding now i org p es))"
proof -
  have "effects_of org es (update_finding_row (fi_id f) (triage now p) es)" if "find_finding es i org = Some f" for f
  proof (rule effect_once, rule effect_of.edit_findings)
    show "keeps_finding (triage now p)" by (simp add: keeps_finding_def triage_def)
    show "fi_org x = org" if "x \<in> set (es_findings es)" "fi_id x = fi_id f" for x
      using keyed_unique [OF estate_okD(3) [OF assms] that(1) _ that(2)] find_findingD [OF \<open>find_finding es i org = Some f\<close>] by auto
  qed
  then show ?thesis by (auto simp: update_finding_def get_finding_row_def split: option.splits)
qed

lemma delete_finding_effects:
  assumes "estate_ok es"
  shows "effects_of org es (fst (delete_finding i org es))"
proof -
  have "effects_of org es (es\<lparr>es_findings := delete_where (\<lambda>x. fi_id x = fi_id f) (es_findings es)\<rparr>)"
    if "find_finding es i org = Some f" for f
  proof (rule effect_once, rule effect_of.remove_findings)
    show "fi_org x = org" if "x \<in> set (es_findings es)" "fi_id x = fi_id f" for x
      using keyed_unique [OF estate_okD(3) [OF assms] that(1) _ that(2)] find_findingD [OF \<open>find_finding es i org = Some f\<close>] by auto
  qed
  then show ?thesis by (auto simp: delete_finding_def get_finding_row_def split: option.splits)
qed

end
