(* ===== verification/Regex.thy ===== *)
theory Regex
  imports PyString
begin

text \<open>
  The part of Python's \<open>re\<close> that the program uses to read responses: backtracking search with
  one capturing group. \<open>outcomes\<close> lists what is left of the text after each way to match, in the
  order in which the backtracking matcher tries them; the first one is its answer.
\<close>

section \<open>Expressions\<close>

datatype regex =
    Eps
  | One "char \<Rightarrow> bool"
  | Then regex regex
  | Or regex regex
  | Opt regex
  | Many "char \<Rightarrow> bool"
  | Lazy "char \<Rightarrow> bool"
  | Group regex

definition Plus :: "(char \<Rightarrow> bool) \<Rightarrow> regex" where
  "Plus p = Then (One p) (Many p)"

text \<open>A text, letter case aside (\<open>re.I\<close>).\<close>

fun lit :: "string \<Rightarrow> regex" where
  "lit [] = Eps"
| "lit (c # s) = Then (One (\<lambda>d. lower_char d = lower_char c)) (lit s)"

fun cat :: "regex list \<Rightarrow> regex" where
  "cat [] = Eps"
| "cat [r] = r"
| "cat (r # rs) = Then r (cat rs)"

fun alts :: "regex list \<Rightarrow> regex" where
  "alts [] = Eps"
| "alts [r] = r"
| "alts (r # rs) = Or r (alts rs)"

definition one_of :: "string \<Rightarrow> char \<Rightarrow> bool" where
  "one_of cs c = (lower_char c \<in> set cs)"

definition none_of :: "string \<Rightarrow> char \<Rightarrow> bool" where
  "none_of cs c = (c \<notin> set cs)"

fun has_group :: "regex \<Rightarrow> bool" where
  "has_group (Then r t) = (has_group r \<or> has_group t)"
| "has_group (Or r t) = (has_group r \<or> has_group t)"
| "has_group (Opt r) = has_group r"
| "has_group (Group r) = True"
| "has_group _ = False"

section \<open>The matcher\<close>

text \<open>The rests after 0 and more characters that satisfy p, shortest match first.\<close>

fun spans :: "(char \<Rightarrow> bool) \<Rightarrow> string \<Rightarrow> string list" where
  "spans p [] = [[]]"
| "spans p (c # s) = (if p c then (c # s) # spans p s else [c # s])"

fun outcomes :: "regex \<Rightarrow> string \<times> string option \<Rightarrow> (string \<times> string option) list" where
  "outcomes Eps x = [x]"
| "outcomes (One p) x = (case fst x of [] \<Rightarrow> [] | c # s \<Rightarrow> if p c then [(s, snd x)] else [])"
| "outcomes (Then r t) x = concat (map (outcomes t) (outcomes r x))"
| "outcomes (Or r t) x = outcomes r x @ outcomes t x"
| "outcomes (Opt r) x = outcomes r x @ [x]"
| "outcomes (Many p) x = map (\<lambda>s. (s, snd x)) (rev (spans p (fst x)))"
| "outcomes (Lazy p) x = map (\<lambda>s. (s, snd x)) (spans p (fst x))"
| "outcomes (Group r) x = map (\<lambda>y. (fst y, Some (take (length (fst x) - length (fst y)) (fst x)))) (outcomes r x)"

text \<open>\<open>re.search\<close>: the group of the first match, or None when there is no match.\<close>

fun search :: "regex \<Rightarrow> string \<Rightarrow> string option option" where
  "search r [] = (case outcomes r ([], None) of [] \<Rightarrow> None | y # _ \<Rightarrow> Some (snd y))"
| "search r (c # s) = (case outcomes r (c # s, None) of [] \<Rightarrow> search r s | y # _ \<Rightarrow> Some (snd y))"

section \<open>What it means\<close>

inductive lang :: "regex \<Rightarrow> string \<Rightarrow> bool" where
  lang_eps: "lang Eps []"
| lang_one: "p c \<Longrightarrow> lang (One p) [c]"
| lang_then: "lang r u \<Longrightarrow> lang t v \<Longrightarrow> lang (Then r t) (u @ v)"
| lang_left: "lang r u \<Longrightarrow> lang (Or r t) u"
| lang_right: "lang t u \<Longrightarrow> lang (Or r t) u"
| lang_some: "lang r u \<Longrightarrow> lang (Opt r) u"
| lang_none: "lang (Opt r) []"
| lang_many: "list_all p u \<Longrightarrow> lang (Many p) u"
| lang_lazy: "list_all p u \<Longrightarrow> lang (Lazy p) u"
| lang_group: "lang r u \<Longrightarrow> lang (Group r) u"

inductive_cases lang_epsE: "lang Eps u"
inductive_cases lang_oneE: "lang (One p) u"
inductive_cases lang_thenE: "lang (Then r t) u"
inductive_cases lang_orE: "lang (Or r t) u"
inductive_cases lang_optE: "lang (Opt r) u"
inductive_cases lang_manyE: "lang (Many p) u"
inductive_cases lang_lazyE: "lang (Lazy p) u"
inductive_cases lang_groupE: "lang (Group r) u"

lemmas lang_elims = lang_epsE lang_oneE lang_thenE lang_orE lang_optE lang_manyE lang_lazyE lang_groupE

lemma spans_iff: "t \<in> set (spans p s) \<longleftrightarrow> (\<exists>u. s = u @ t \<and> list_all p u)"
proof (induction p s rule: spans.induct)
  case (2 p c s)
  show ?case
  proof
    assume "t \<in> set (spans p (c # s))"
    then consider "t = c # s" | "p c" "t \<in> set (spans p s)" by (auto split: if_splits)
    then show "\<exists>u. c # s = u @ t \<and> list_all p u"
    proof cases
      case 2
      then obtain u where "s = u @ t" "list_all p u" using \<open>p c \<Longrightarrow> t \<in> set (spans p s) \<longleftrightarrow> (\<exists>u. s = u @ t \<and> list_all p u)\<close> by blast
      then show ?thesis using 2(1) by (intro exI [of _ "c # u"]) simp
    qed (rule exI [of _ "[]"], simp)
  next
    assume "\<exists>u. c # s = u @ t \<and> list_all p u"
    then show "t \<in> set (spans p (c # s))" using 2 by (auto simp: Cons_eq_append_conv)
  qed
qed auto

lemma outcomes_sound: "(t, g) \<in> set (outcomes r (s, g0)) \<Longrightarrow> \<exists>u. s = u @ t \<and> lang r u"
proof (induction r arbitrary: s g0 t g)
  case (Then r1 r2)
  then obtain t1 g1 where a: "(t1, g1) \<in> set (outcomes r1 (s, g0))" "(t, g) \<in> set (outcomes r2 (t1, g1))" by auto
  from Then.IH(1) [OF a(1)] Then.IH(2) [OF a(2)] show ?case by (metis append.assoc lang_then)
next
  case (Or r1 r2)
  then show ?case by (auto dest!: Or.IH intro: lang.intros)
next
  case (Opt r)
  then show ?case by (auto dest!: Opt.IH intro: lang.intros)
next
  case (Group r)
  then show ?case by (auto dest!: Group.IH intro: lang.intros)
next
  case (Many p)
  then obtain u where "s = u @ t" "list_all p u" by (auto simp: spans_iff)
  then show ?case using lang_many by blast
next
  case (Lazy p)
  then obtain u where "s = u @ t" "list_all p u" by (auto simp: spans_iff)
  then show ?case using lang_lazy by blast
qed (auto simp: spans_iff intro: lang.intros split: list.splits if_splits)

lemma outcomes_complete: "lang r u \<Longrightarrow> \<exists>g. (t, g) \<in> set (outcomes r (u @ t, g0))"
proof (induction arbitrary: t g0 rule: lang.induct)
  case (lang_then r u q v)
  obtain g1 where "(v @ t, g1) \<in> set (outcomes r (u @ v @ t, g0))" using lang_then.IH(1) by blast
  moreover obtain g where "(t, g) \<in> set (outcomes q (v @ t, g1))" using lang_then.IH(2) by blast
  ultimately show ?case by force
next
  case (lang_group r u)
  then obtain g where "(t, g) \<in> set (outcomes r (u @ t, g0))" by blast
  then show ?case by force
qed (force simp: spans_iff)+

lemma outcomes_Nil_iff: "outcomes r (s, g) = [] \<longleftrightarrow> (\<nexists>u t. s = u @ t \<and> lang r u)"
proof
  assume "outcomes r (s, g) = []"
  then show "\<nexists>u t. s = u @ t \<and> lang r u" by (metis all_not_in_conv empty_set outcomes_complete)
next
  assume n: "\<nexists>u t. s = u @ t \<and> lang r u"
  show "outcomes r (s, g) = []"
  proof (cases "outcomes r (s, g)")
    case (Cons y ys)
    then have "(fst y, snd y) \<in> set (outcomes r (s, g))" by simp
    from outcomes_sound [OF this] n show ?thesis by blast
  qed
qed

text \<open>The search finds a match exactly when a part of the text is in the language of the expression.\<close>

lemma search_iff: "search r s \<noteq> None \<longleftrightarrow> (\<exists>a u b. s = a @ u @ b \<and> lang r u)"
proof (induction r s rule: search.induct)
  case (1 r)
  then show ?case using outcomes_Nil_iff [of r "[]" None] by (auto split: list.splits)
next
  case (2 r c s)
  show ?case
  proof (cases "outcomes r (c # s, None)")
    case Nil
    then have none: "\<nexists>u t. c # s = u @ t \<and> lang r u" by (simp add: outcomes_Nil_iff)
    have "(\<exists>a u b. c # s = a @ u @ b \<and> lang r u) \<longleftrightarrow> (\<exists>a u b. s = a @ u @ b \<and> lang r u)"
    proof
      assume "\<exists>a u b. c # s = a @ u @ b \<and> lang r u"
      then obtain a u b where "c # s = a @ u @ b" "lang r u" by blast
      with none show "\<exists>a u b. s = a @ u @ b \<and> lang r u" by (cases a) auto
    qed (metis append_Cons)
    then show ?thesis using 2 [OF Nil] Nil by simp
  next
    case (Cons y ys)
    then have "\<exists>u t. c # s = u @ t \<and> lang r u" using outcomes_Nil_iff [of r "c # s" None] by auto
    then show ?thesis using Cons by (metis append_Nil list.case(2) option.discI search.simps(2))
  qed
qed

text \<open>What is captured is a part of the text.\<close>

lemma outcomes_group:
  "(t, g) \<in> set (outcomes r (s, g0)) \<Longrightarrow> g = g0 \<or> (\<exists>u v w. g = Some v \<and> s = u @ v @ w)"
proof (induction r arbitrary: s g0 t g)
  case (Then r1 r2)
  then obtain t1 g1 where a: "(t1, g1) \<in> set (outcomes r1 (s, g0))" "(t, g) \<in> set (outcomes r2 (t1, g1))" by auto
  obtain u1 where s: "s = u1 @ t1" using outcomes_sound [OF a(1)] by blast
  from Then.IH(1) [OF a(1)] Then.IH(2) [OF a(2)] show ?case by (metis s append.assoc)
next
  case (Group r)
  then obtain n where "g = Some (take n s)" by auto
  then show ?case by (metis append_Nil append_take_drop_id)
next
  case (Or r1 r2)
  then consider "(t, g) \<in> set (outcomes r1 (s, g0))" | "(t, g) \<in> set (outcomes r2 (s, g0))" by auto
  then show ?case by cases (rule Or.IH, assumption)+
next
  case (Opt r)
  then consider "(t, g) \<in> set (outcomes r (s, g0))" | "g = g0" by auto
  then show ?case by cases (rule Opt.IH, assumption, simp)
qed (auto split: list.splits if_splits)

lemma search_group: "search r s = Some (Some v) \<Longrightarrow> \<exists>u w. s = u @ v @ w"
proof (induction r s rule: search.induct)
  case (1 r)
  then show ?case using outcomes_group [of _ _ r "[]" None]
    by (auto split: list.splits) (metis append_is_Nil_conv list.set_intros(1) option.distinct(1) option.inject prod.collapse)
next
  case (2 r c s)
  show ?case
  proof (cases "outcomes r (c # s, None)")
    case Nil
    then show ?thesis using 2 by simp (metis append_Cons)
  next
    case (Cons y ys)
    then have "(fst y, Some v) \<in> set (outcomes r (c # s, None))" using 2(2) by (metis list.case(2) list.set_intros(1) option.inject prod.collapse search.simps(2))
    from outcomes_group [OF this] show ?thesis by auto
  qed
qed

end
