(* ===== verification/SubdomainEnum.thy ===== *)
theory SubdomainEnum
  imports EstateEffects Wordlists
begin

text \<open>
  Subdomain enumeration, \<open>workers/subdomain_enum.py\<close>. Parameters: the answer of crt.sh, the
  resolver (addresses of a name for a record type), the nameservers of the target,
  \<open>getaddrinfo\<close>, the answer to a zone transfer, and the three random labels of the wildcard
  test. The probes that run concurrently only fill a dictionary that is read in sorted order.
\<close>

definition enum_stage :: string where
  "enum_stage = ''subdomain_enum''"

section \<open>Resolution\<close>

text \<open>The addresses of a name for a record type; None when the query fails.\<close>

type_synonym dns = "string \<Rightarrow> string \<Rightarrow> string list option"

definition answers :: "dns \<Rightarrow> string \<Rightarrow> string \<Rightarrow> string list" where
  "answers dns hostname rdtype = (case dns hostname rdtype of None \<Rightarrow> [] | Some as \<Rightarrow> as)"

definition resolve_a :: "dns \<Rightarrow> string \<Rightarrow> string list" where
  "resolve_a dns hostname = answers dns hostname ''A'' @ answers dns hostname ''AAAA''"

definition detect_wildcard :: "dns \<Rightarrow> string list \<Rightarrow> string \<Rightarrow> string list" where
  "detect_wildcard dns labels domain = remdups (concat (map (\<lambda>l. resolve_a dns (l @ ''.'' @ domain)) labels))"

section \<open>Certificate transparency\<close>

datatype ct_answer = Ct_failed string | Ct_status int | Ct_names "string list"

definition is_line_end :: "char \<Rightarrow> bool" where
  "is_line_end c = (let n = ord c in (10 \<le> n \<and> n \<le> 13) \<or> (28 \<le> n \<and> n \<le> 30) \<or> n = 133)"

text \<open>
  \<open>splitlines\<close>, apart from empty lines, which no later step keeps.
\<close>

fun split_lines :: "string \<Rightarrow> string \<Rightarrow> string list" where
  "split_lines line [] = (if line = [] then [] else [line])"
| "split_lines line (c # s) =
     (if is_line_end c then (if line = [] then split_lines [] s else line # split_lines [] s) else split_lines (line @ [c]) s)"

definition ct_candidate :: "string \<Rightarrow> string" where
  "ct_candidate raw = normalise_host (dropWhile (\<lambda>c. c = CHR ''*'' \<or> c = CHR ''.'') (strip raw))"

definition fetch_crtsh :: "int \<Rightarrow> scan_ctx \<Rightarrow> ct_answer \<Rightarrow> estate \<Rightarrow> estate \<times> string list" where
  "fetch_crtsh now ctx answer es =
    (case answer of
       Ct_failed e \<Rightarrow> (log_line ctx enum_stage now (''Certificate transparency lookup failed: '' @ e) es, [])
     | Ct_status code \<Rightarrow> (log_line ctx enum_stage now (''crt.sh returned HTTP '' @ dec code @ ''; skipping CT source'') es, [])
     | Ct_names values \<Rightarrow> (es, remdups (filter (\<lambda>h. h \<noteq> []) (map ct_candidate (concat (map (split_lines []) values))))))"

section \<open>Zone transfer\<close>

text \<open>The names of a transferred zone; None when the server refuses.\<close>

type_synonym xfr = "string \<Rightarrow> string list option"

definition zone_name :: "string \<Rightarrow> string \<Rightarrow> string" where
  "zone_name target name = normalise_host (if name = ''@'' then target else name @ ''.'' @ target)"

fun first_transfer :: "xfr \<Rightarrow> string list \<Rightarrow> string list option" where
  "first_transfer xfr [] = None"
| "first_transfer xfr (ip # ips) = (case xfr ip of None \<Rightarrow> first_transfer xfr ips | Some names \<Rightarrow> Some names)"

fun transfer_from :: "lookup \<Rightarrow> xfr \<Rightarrow> int \<Rightarrow> scan_ctx \<Rightarrow> string list \<Rightarrow> estate \<times> string list \<times> string list \<Rightarrow> estate \<times> string list \<times> string list" where
  "transfer_from getaddrinfo xfr now ctx [] acc = acc"
| "transfer_from getaddrinfo xfr now ctx (ns # nameservers) (es, names, leaking) =
     transfer_from getaddrinfo xfr now ctx nameservers
       (case resolve_public_addresses getaddrinfo ns 53 of
          Inl _ \<Rightarrow> (es, names, leaking)
        | Inr addresses \<Rightarrow>
            (case first_transfer xfr addresses of
               None \<Rightarrow> (es, names, leaking)
             | Some zone \<Rightarrow>
                 (log_line ctx enum_stage now (''Zone transfer succeeded against '' @ ns @ '' - the full DNS zone is exposed'') es,
                  names @ filter (\<lambda>h. h \<noteq> []) (map (zone_name (cx_target ctx)) zone), leaking @ [ns])))"

definition try_zone_transfer :: "lookup \<Rightarrow> string list option \<Rightarrow> xfr \<Rightarrow> int \<Rightarrow> scan_ctx \<Rightarrow> estate \<Rightarrow> estate \<times> string list \<times> string list" where
  "try_zone_transfer getaddrinfo ns_records xfr now ctx es =
    (case ns_records of
       None \<Rightarrow> (es, [], [])
     | Some nss \<Rightarrow> transfer_from getaddrinfo xfr now ctx (map strip_dots nss) (es, [], []))"

section \<open>Resolution of the candidates\<close>

text \<open>A host whose only addresses are those of the wildcard is not there.\<close>

definition is_live :: "string list \<Rightarrow> string list \<Rightarrow> bool" where
  "is_live wildcard addresses = (addresses \<noteq> [] \<and> \<not> (wildcard \<noteq> [] \<and> set addresses \<subseteq> set wildcard))"

definition bruteforce :: "dns \<Rightarrow> string list \<Rightarrow> string list \<Rightarrow> (string \<times> string list) list" where
  "bruteforce dns candidates wildcard =
    filter (\<lambda>(h, addresses). is_live wildcard addresses) (map (\<lambda>h. (h, resolve_a dns h)) candidates)"

section \<open>Storage\<close>

definition main_address :: "string list \<Rightarrow> string option" where
  "main_address addresses =
    (case filter (\<lambda>a. \<not> is_private_address a) addresses of
       a # _ \<Rightarrow> Some a
     | [] \<Rightarrow> (case addresses of [] \<Rightarrow> None | a # _ \<Rightarrow> Some a))"

definition seen_host :: "int \<Rightarrow> string option \<Rightarrow> asset_row \<Rightarrow> asset_row" where
  "seen_host now ip a =
    (if ip \<noteq> None \<and> ip \<noteq> Some [] \<and> at_ip a \<noteq> ip then a\<lparr>at_ip := ip, at_status := CHANGED, at_last_scanned := Some now\<rparr>
     else a\<lparr>at_last_scanned := Some now\<rparr>)"

definition persist_host :: "int \<Rightarrow> scan_ctx \<Rightarrow> estate \<times> int \<times> int \<Rightarrow> string \<times> string list \<Rightarrow> estate \<times> int \<times> int" where
  "persist_host now ctx acc x =
    (case (acc, x) of ((es, added, known), (hostname, addresses)) \<Rightarrow>
       let ip = main_address addresses in
       case find_asset_host es (cx_org ctx) hostname of
         None \<Rightarrow>
           ((take_id es)\<lparr>es_assets := es_assets es @
              [(new_asset (next_id es) (cx_org ctx) hostname ip None enum_stage now)\<lparr>at_last_scanned := Some now\<rparr>]\<rparr>, added + 1, known)
       | Some a \<Rightarrow> (update_asset_row (at_id a) (seen_host now ip) es, added, known + 1))"

definition persist :: "int \<Rightarrow> scan_ctx \<Rightarrow> (string \<times> string list) list \<Rightarrow> estate \<Rightarrow> estate \<times> int \<times> int" where
  "persist now ctx hosts es = foldl (persist_host now ctx) (es, 0, 0) (sort_key fst hosts)"

definition axfr_title :: "string \<Rightarrow> string" where
  "axfr_title target = ''DNS zone transfer (AXFR) permitted on '' @ target"

definition axfr_finding :: "(string \<Rightarrow> string) \<Rightarrow> int \<Rightarrow> scan_ctx \<Rightarrow> nat \<Rightarrow> nat option \<Rightarrow> string list \<Rightarrow> finding_row" where
  "axfr_finding sha now ctx i asset_id nameservers =
    \<lparr>fi_id = i, fi_org = cx_org ctx, fi_asset = asset_id, fi_scan = Some (cx_scan ctx), fi_title = axfr_title (cx_target ctx),
     fi_cve = None, fi_cvss = None, fi_vector = None, fi_severity = MEDIUM,
     fi_description = Some (''The authoritative nameserver(s) '' @ join '', '' nameservers @ '' answered an unauthenticated AXFR ''
       @ ''request, disclosing every record in the zone. This hands an ''
       @ ''attacker a complete map of internal and external hostnames '' @ ''without any bruteforcing.''),
     fi_remediation = Some (''Restrict AXFR to your secondary nameservers with an ''
       @ ''allow-transfer ACL (BIND) or the equivalent on your DNS '' @ ''provider, and prefer TSIG-authenticated transfers.''),
     fi_status = OPEN, fi_source = Some enum_stage, fi_fingerprint = build_fingerprint sha asset_id (axfr_title (cx_target ctx)) None None,
     fi_evidence = [(''nameservers'', JList (map JStr nameservers))],
     fi_references = [''https://cwe.mitre.org/data/definitions/200.html''],
     fi_first_seen = Some now, fi_last_seen = Some now, fi_resolved = None, fi_created = now\<rparr>"

definition record_axfr_finding :: "(string \<Rightarrow> string) \<Rightarrow> int \<Rightarrow> scan_ctx \<Rightarrow> string list \<Rightarrow> estate \<Rightarrow> estate" where
  "record_axfr_finding sha now ctx nameservers es =
    (if nameservers = [] then es
     else let asset_id = map_option at_id (find_asset_host es (cx_org ctx) (cx_target ctx)) in
       add_counters ctx 0 1
         (fst (upsert_finding (axfr_finding sha now ctx (next_id es) asset_id nameservers) (stamp_seen now ctx) es)))"

section \<open>The task\<close>

definition option_flag :: "scan_ctx \<Rightarrow> string \<Rightarrow> bool" where
  "option_flag ctx key = (map_of (cx_config ctx) key = Some (JBool True))"

definition scope_of :: "scan_ctx \<Rightarrow> estate \<Rightarrow> string list" where
  "scope_of ctx es = (let allowed = allowed_domains (cx_org ctx) (es_db es) in if allowed = [] then [cx_target ctx] else allowed)"

record outside =
  out_ct :: ct_answer
  out_ns :: "string list option"
  out_dns :: dns
  out_getaddrinfo :: lookup
  out_xfr :: xfr
  out_labels :: "string list"

definition gather_candidates :: "outside \<Rightarrow> int \<Rightarrow> scan_ctx \<Rightarrow> estate \<Rightarrow> estate \<times> string list \<times> string list" where
  "gather_candidates out now ctx es =
    (case fetch_crtsh now ctx (out_ct out) es of
       (es1, ct_names) \<Rightarrow>
         let es2 = (if ct_names = [] then es1
               else log_line ctx enum_stage now (''Certificate transparency returned '' @ dec (int (length ct_names)) @ '' unique names'') es1)
         in if passive_only ctx
            then (log_line ctx enum_stage now ''Passive mode: skipping DNS bruteforce and zone transfer'' es2, cx_target ctx # ct_names, [])
            else case try_zone_transfer (out_getaddrinfo out) (out_ns out) (out_xfr out) now ctx es2 of
              (es3, axfr_names, leaking) \<Rightarrow>
                let es4 = (if axfr_names = [] then es3
                      else log_line ctx enum_stage now (''Zone transfer disclosed '' @ dec (int (length (remdups axfr_names))) @ '' records'') es3);
                    words = remdups (map (\<lambda>w. w @ ''.'' @ cx_target ctx) subdomain_wordlist)
                in (log_line ctx enum_stage now (''Bruteforcing '' @ dec (int (length words)) @ '' common subdomain labels'') es4,
                    cx_target ctx # ct_names @ axfr_names @ words, leaking))"

definition subdomain_enum_run ::
    "(string \<Rightarrow> string) \<Rightarrow> outside \<Rightarrow> int \<Rightarrow> scan_ctx \<Rightarrow> estate \<Rightarrow> estate \<times> string list \<times> int option" where
  "subdomain_enum_run sha out now ctx es =
    (let es1 = log_line ctx enum_stage now (''Starting subdomain enumeration for '' @ cx_target ctx) (enter_stage ctx enum_stage 10 es);
         scope = scope_of ctx es1
     in case gather_candidates out now ctx es1 of
       (es2, candidates, leaking) \<Rightarrow>
         let covered = sort (remdups (filter (\<lambda>h. h \<noteq> [] \<and> in_scope h scope) candidates));
             limit = floor (option_num ctx ''max_subdomains'' 500);
             es3 = (if limit < int (length covered)
               then log_line ctx enum_stage now (dec (int (length covered)) @ '' candidates exceeds the configured limit of '' @ dec limit @ ''; truncating'') es2
               else es2);
             chosen = (if limit < int (length covered) then slice_to limit covered else covered)
         in if scan_cancelled ctx es3 then (log_line ctx enum_stage now ''Scan cancelled before resolution'' es3, [], None)
            else
              let wildcard = (if option_flag ctx ''include_wildcards'' then [] else detect_wildcard (out_dns out) (out_labels out) (cx_target ctx));
                  es4 = (if wildcard = [] then es3
                    else log_line ctx enum_stage now (''Wildcard DNS detected on '' @ cx_target ctx @ '' ('' @ join '', '' (sort wildcard)
                      @ ''); filtering catch-all responses'') es3);
                  live = bruteforce (out_dns out) chosen wildcard;
                  es5 = log_line ctx enum_stage now (dec (int (length live)) @ '' of '' @ dec (int (length chosen)) @ '' candidates resolve'') es4
              in case persist now ctx live es5 of
                (es6, added, known) \<Rightarrow>
                  let es7 = log_line ctx enum_stage now (''Inventory updated: '' @ dec added @ '' new host(s), '' @ dec known @ '' already known'')
                        (add_counters ctx added 0 es6)
                  in (record_axfr_finding sha now ctx leaking es7, sort (map fst live), Some added))"

section \<open>What it may touch\<close>

lemma transfer_from_keeps:
  "effects_of org e0 (fst acc) \<Longrightarrow> effects_of org e0 (fst (transfer_from g xfr now ctx nss acc))"
  "es_assets (fst (transfer_from g xfr now ctx nss acc)) = es_assets (fst acc)"
  by (induction g xfr now ctx nss acc rule: transfer_from.induct)
    (auto simp: effects_steps split: sum.splits option.splits)

lemma gather_keeps:
  assumes "gather_candidates out now ctx es = (es', candidates, leaking)"
  shows "effects_of org es es'" and "es_assets es' = es_assets es"
proof -
  have ct: "effects_of org es (fst (fetch_crtsh now ctx a es)) \<and> es_assets (fst (fetch_crtsh now ctx a es)) = es_assets es" for a
    by (simp add: fetch_crtsh_def effects_steps split: ct_answer.splits)
  have zone: "effects_of org es (fst (try_zone_transfer g ns xfr now ctx e))" "es_assets (fst (try_zone_transfer g ns xfr now ctx e)) = es_assets es"
    if "effects_of org es e" "es_assets e = es_assets es" for g ns xfr e
    using that transfer_from_keeps [where acc = "(e, [], [])"] by (simp_all add: try_zone_transfer_def split: option.splits)
  obtain es1 names where c: "fetch_crtsh now ctx (out_ct out) es = (es1, names)" by fastforce
  have "effects_of org es es' \<and> es_assets es' = es_assets es"
    using assms ct [of "out_ct out"] zone
    by (auto simp: gather_candidates_def c Let_def effects_steps split: if_splits prod.splits) (auto simp: effects_steps dest!: arg_cong [where f = fst])
  then show "effects_of org es es'" "es_assets es' = es_assets es" by simp_all
qed

lemma seen_host_keeps: "keeps_asset (seen_host now ip)"
  by (simp add: keeps_asset_def seen_host_def risk_ok_def)

lemma persist_host_effects:
  assumes "estate_ok (fst acc)"
  shows "effects_of (cx_org ctx) (fst acc) (fst (persist_host now ctx acc x))"
proof -
  obtain es n k where acc: "acc = (es, n, k)" by (cases acc) auto
  obtain h as where x: "x = (h, as)" by fastforce
  show ?thesis
  proof (cases "find_asset_host es (cx_org ctx) h")
    case None
    then have fresh: "(cx_org ctx, h) \<notin> asset_key ` set (es_assets es)"
      by (auto simp: find_asset_host_def find_None_iff asset_key_def)
    show ?thesis
      unfolding persist_host_def acc x Let_def None prod.case option.case fst_conv
      by (rule effect_once, rule effect_of.add_asset) (use fresh in \<open>simp_all add: new_asset_def risk_ok_def asset_key_def\<close>)
  next
    case (Some a)
    have "a \<in> set (es_assets es) \<and> at_org a = cx_org ctx" using find_SomeD [OF Some [unfolded find_asset_host_def]] by simp
    then show ?thesis
      using edit_asset_effects [OF assms [unfolded acc fst_conv] _ seen_host_keeps] has_assetI [of a es]
      by (auto simp: persist_host_def acc x Some Let_def)
  qed
qed

lemma persist_effects:
  assumes "estate_ok es"
  shows "effects_of (cx_org ctx) es (fst (persist now ctx hosts es))"
proof -
  have "effects_of (cx_org ctx) (fst acc) (fst (foldl (persist_host now ctx) acc xs))" if "estate_ok (fst acc)" for acc xs
    using that
  proof (induction xs arbitrary: acc)
    case (Cons x xs)
    have step: "effects_of (cx_org ctx) (fst acc) (fst (persist_host now ctx acc x))" by (rule persist_host_effects [OF Cons.prems])
    from effects_then [OF step Cons.IH [OF effects_keep_estate [OF step Cons.prems]]] show ?case by simp
  qed simp
  from this [of "(es, 0, 0)"] show ?thesis using assms by (simp add: persist_def)
qed

lemma record_axfr_effects: "effects_of (cx_org ctx) es (record_axfr_finding sha now ctx ns es)"
proof -
  let ?i = "map_option at_id (find_asset_host es (cx_org ctx) (cx_target ctx))"
  have "tenant_ok (es_assets es) (axfr_finding sha now ctx (next_id es) ?i ns)"
  proof (cases "find_asset_host es (cx_org ctx) (cx_target ctx)")
    case (Some a)
    have a: "a \<in> set (es_assets es)" "at_org a = cx_org ctx" using find_SomeD [OF Some [unfolded find_asset_host_def]] by simp_all
    show ?thesis by (rule tenant_ok_asset [OF has_assetI [OF a(1)]]) (simp_all add: axfr_finding_def Some a(2))
  qed (simp add: tenant_ok_def axfr_finding_def)
  then have "effects_of (cx_org ctx) es (fst (upsert_finding (axfr_finding sha now ctx (next_id es) ?i ns) (stamp_seen now ctx) es))"
    by (rule upsert_effects [rotated 2]) (simp_all add: axfr_finding_def keeps_finding_def stamp_seen_def)
  then show ?thesis by (simp add: record_axfr_finding_def Let_def effects_steps)
qed

lemma subdomain_enum_effects:
  assumes "estate_ok es"
  shows "effects_of (cx_org ctx) es (fst (subdomain_enum_run sha out now ctx es))"
proof -
  let ?org = "cx_org ctx"
  let ?es1 = "log_line ctx enum_stage now (''Starting subdomain enumeration for '' @ cx_target ctx) (enter_stage ctx enum_stage 10 es)"
  obtain es2 candidates leaking where g: "gather_candidates out now ctx ?es1 = (es2, candidates, leaking)"
    by (cases "gather_candidates out now ctx ?es1") auto
  have "effects_of ?org es ?es1" by (simp add: effects_steps)
  from effects_then [OF this gather_keeps(1) [OF g]] have e2: "effects_of ?org es es2" .
  have tail: "effects_of ?org es (record_axfr_finding sha now ctx leaking (log_line ctx enum_stage now m (add_counters ctx n 0 es6)))"
    if p: "persist now ctx live e = (es6, n, k)" and e: "effects_of ?org es e" for e live es6 n k m
  proof -
    have "effects_of ?org e es6" using persist_effects [OF effects_keep_estate [OF e assms], of ctx now live] p by simp
    from effects_then [OF effects_steps(1) [OF effects_steps(3) [OF effects_then [OF e this]]] record_axfr_effects] show ?thesis .
  qed
  show ?thesis
    unfolding subdomain_enum_run_def Let_def g prod.case
    by (auto split: prod.split intro!: effects_steps tail e2)
qed

section \<open>What it stores\<close>

lemma scope_of_steps [simp]:
  "scope_of ctx (log_line ctx' st now m es) = scope_of ctx es" "scope_of ctx (enter_stage ctx' st' n es) = scope_of ctx es"
  by (simp_all add: scope_of_def allowed_domains_def org_domains_def org_by_id_def log_line_def enter_stage_def ctx_log_def set_stage_def)

lemma persist_host_keys:
  "asset_key ` set (es_assets (fst (persist_host now ctx acc x))) =
    insert (cx_org ctx, fst x) (asset_key ` set (es_assets (fst acc)))"
proof -
  obtain es n k where acc: "acc = (es, n, k)" by (cases acc) auto
  obtain h as where x: "x = (h, as)" by fastforce
  show ?thesis
  proof (cases "find_asset_host es (cx_org ctx) h")
    case (Some a)
    have a: "a \<in> set (es_assets es)" "(cx_org ctx, h) = asset_key a"
      using find_SomeD [OF Some [unfolded find_asset_host_def]] by (simp_all add: asset_key_def)
    have "map asset_key (update_where (\<lambda>b. at_id b = at_id a) (seen_host now ip) (es_assets es)) = map asset_key (es_assets es)" for ip
      by (rule map_update_where) (simp add: asset_key_def seen_host_def)
    then have "asset_key ` set (update_where (\<lambda>b. at_id b = at_id a) (seen_host now ip) (es_assets es)) = asset_key ` set (es_assets es)" for ip
      by (metis list.set_map)
    then show ?thesis using a by (simp add: persist_host_def acc x Some Let_def insert_absorb)
  qed (simp add: persist_host_def acc x Let_def asset_key_def new_asset_def)
qed

lemma persist_keys:
  "asset_key ` set (es_assets (fst (persist now ctx hosts es))) = asset_key ` set (es_assets es) \<union> Pair (cx_org ctx) ` set (map fst hosts)"
proof -
  have "asset_key ` set (es_assets (fst (foldl (persist_host now ctx) acc xs))) =
      asset_key ` set (es_assets (fst acc)) \<union> Pair (cx_org ctx) ` set (map fst xs)" for acc xs
    by (induction xs arbitrary: acc) (auto simp: persist_host_keys)
  then show ?thesis by (simp add: persist_def)
qed

lemma bruteforce_live:
  "map fst (bruteforce dns candidates wildcard) = filter (\<lambda>h. is_live wildcard (resolve_a dns h)) candidates"
  by (induction candidates) (simp_all add: bruteforce_def)

lemma is_live_witness: "is_live wildcard addresses \<longleftrightarrow> (\<exists>ip \<in> set addresses. ip \<notin> set wildcard)"
  by (cases addresses) (auto simp: is_live_def)

lemma record_axfr_assets [simp]: "es_assets (record_axfr_finding sha now ctx ns es) = es_assets es"
  by (simp add: record_axfr_finding_def Let_def)

text \<open>The run, step by step.\<close>

lemma subdomain_enum_cases:
  assumes "subdomain_enum_run sha out now ctx es = (es', hosts, added)"
  obtains (cancelled) "hosts = []" "es_assets es' = es_assets es"
  | (finished) chosen where "hosts = filter (\<lambda>h. is_live (if option_flag ctx ''include_wildcards'' then []
          else detect_wildcard (out_dns out) (out_labels out) (cx_target ctx)) (resolve_a (out_dns out) h)) chosen"
      and "asset_key ` set (es_assets es') = asset_key ` set (es_assets es) \<union> Pair (cx_org ctx) ` set hosts"
      and "sorted chosen" and "distinct chosen" and "list_all (\<lambda>h. in_scope h (scope_of ctx es)) chosen"
      and "int (length chosen) \<le> max 0 (floor (option_num ctx ''max_subdomains'' 500))"
proof -
  let ?es1 = "log_line ctx enum_stage now (''Starting subdomain enumeration for '' @ cx_target ctx) (enter_stage ctx enum_stage 10 es)"
  define limit where "limit = floor (option_num ctx ''max_subdomains'' 500)"
  obtain es2 candidates leaking where g: "gather_candidates out now ctx ?es1 = (es2, candidates, leaking)"
    by (cases "gather_candidates out now ctx ?es1") auto
  have as2: "es_assets es2 = es_assets es" using gather_keeps(2) [OF g] by simp
  define covered where "covered = sort (remdups (filter (\<lambda>h. h \<noteq> [] \<and> in_scope h (scope_of ctx es)) candidates))"
  define chosen where "chosen = (if limit < int (length covered) then slice_to limit covered else covered)"
  define wildcard where "wildcard = (if option_flag ctx ''include_wildcards'' then [] else detect_wildcard (out_dns out) (out_labels out) (cx_target ctx))"
  define live where "live = bruteforce (out_dns out) chosen wildcard"
  have c: "sorted covered" "distinct covered" "\<And>h. h \<in> set covered \<Longrightarrow> in_scope h (scope_of ctx es)" by (simp_all add: covered_def)
  have "sorted chosen" "distinct chosen" "set chosen \<subseteq> set covered" "int (length chosen) \<le> max 0 limit"
    using c set_take_subset [of "nat limit" covered] by (auto simp: chosen_def slice_to_take sorted_wrt_take)
  moreover have "sort (map fst live) = map fst live"
    using \<open>sorted chosen\<close> by (simp add: live_def bruteforce_live sort_key_id_if_sorted sorted_wrt_filter)
  moreover have "(hosts = [] \<and> es_assets es' = es_assets es) \<or>
      (hosts = sort (map fst live) \<and> asset_key ` set (es_assets es') = asset_key ` set (es_assets es) \<union> Pair (cx_org ctx) ` set (map fst live))"
  proof -
    define es3 where "es3 = (if limit < int (length covered)
      then log_line ctx enum_stage now (dec (int (length covered)) @ '' candidates exceeds the configured limit of '' @ dec limit @ ''; truncating'') es2
      else es2)"
    define es4 where "es4 = (if wildcard = [] then es3
      else log_line ctx enum_stage now (''Wildcard DNS detected on '' @ cx_target ctx @ '' ('' @ join '', '' (sort wildcard)
        @ ''); filtering catch-all responses'') es3)"
    define es5 where "es5 = log_line ctx enum_stage now (dec (int (length live)) @ '' of '' @ dec (int (length chosen)) @ '' candidates resolve'') es4"
    obtain es6 n k where p: "persist now ctx live es5 = (es6, n, k)" by (cases "persist now ctx live es5") auto
    have "es_assets es3 = es_assets es" "es_assets es5 = es_assets es" using as2 by (simp_all add: es3_def es4_def es5_def)
    moreover have "(es', hosts, added) =
        (if scan_cancelled ctx es3 then (log_line ctx enum_stage now ''Scan cancelled before resolution'' es3, [], None)
         else (record_axfr_finding sha now ctx leaking (log_line ctx enum_stage now (''Inventory updated: '' @ dec n @ '' new host(s), ''
           @ dec k @ '' already known'') (add_counters ctx n 0 es6)), sort (map fst live), Some n))"
      using assms unfolding subdomain_enum_run_def Let_def g prod.case scope_of_steps limit_def [symmetric] covered_def [symmetric]
        chosen_def [symmetric] wildcard_def [symmetric] live_def [symmetric] es3_def [symmetric] es4_def [symmetric] es5_def [symmetric] p
      by (rule sym)
    ultimately show ?thesis using persist_keys [of now ctx live es5] by (simp add: p split: if_splits)
  qed
  ultimately consider "hosts = []" "es_assets es' = es_assets es"
    | "hosts = map fst live" "asset_key ` set (es_assets es') = asset_key ` set (es_assets es) \<union> Pair (cx_org ctx) ` set hosts"
      "sorted chosen" "distinct chosen" "list_all (\<lambda>h. in_scope h (scope_of ctx es)) chosen" "int (length chosen) \<le> max 0 limit"
    using c(3) by (force simp: list_all_iff)
  then show thesis
  proof cases
    case 2
    show thesis by (rule that(2) [of chosen]) (use 2 in \<open>simp_all add: live_def bruteforce_live wildcard_def limit_def\<close>)
  qed (rule that(1))
qed

text \<open>
  Enumeration stays inside what the organisation may scan. Whatever certificate logs,
  name servers and zone transfers say: the assets afterwards are those of before and the hosts
  returned; every host returned is covered by the organisation's verified domains (by the
  target itself when it has none), has an address that the wildcard test did not see, is
  returned once, and there are no more of them than the configured limit.
\<close>

lemma enumeration_stays_in_scope:
  assumes "subdomain_enum_run sha out now ctx es = (es', hosts, added)"
  shows "asset_key ` set (es_assets es') = asset_key ` set (es_assets es) \<union> Pair (cx_org ctx) ` set hosts \<and>
    sorted hosts \<and> distinct hosts \<and> int (length hosts) \<le> max 0 (floor (option_num ctx ''max_subdomains'' 500)) \<and>
    list_all (\<lambda>h. in_scope h (scope_of ctx es)) hosts \<and>
    list_all (\<lambda>h. \<exists>ip \<in> set (resolve_a (out_dns out) h).
      option_flag ctx ''include_wildcards'' \<or> ip \<notin> set (detect_wildcard (out_dns out) (out_labels out) (cx_target ctx))) hosts"
  using assms
proof (cases rule: subdomain_enum_cases)
  case (finished chosen)
  have "int (length hosts) \<le> int (length chosen)" by (simp add: finished(1))
  moreover have "sorted hosts" "distinct hosts" using finished(3,4) by (simp_all add: finished(1) sorted_wrt_filter)
  moreover have "list_all (\<lambda>h. in_scope h (scope_of ctx es)) hosts" using finished(5) by (simp add: finished(1) list_all_iff)
  moreover have "list_all (\<lambda>h. \<exists>ip \<in> set (resolve_a (out_dns out) h).
      option_flag ctx ''include_wildcards'' \<or> ip \<notin> set (detect_wildcard (out_dns out) (out_labels out) (cx_target ctx))) hosts"
    by (auto simp: finished(1) list_all_iff is_live_witness split: if_splits)
  ultimately show ?thesis using finished(2,6) by linarith
qed simp

text \<open>A passive run: the logs name a host of the tenant, one of somebody else, one that only the wildcard answers.\<close>

definition enum_ctx :: scan_ctx where
  "enum_ctx = \<lparr>cx_scan = 9, cx_org = 1, cx_target = ''a.co'', cx_config = [(''passive_only'', JBool True)]\<rparr>"

definition enum_outside :: outside where
  "enum_outside =
    \<lparr>out_ct = Ct_names [''*.N.a.co'' @ [CHR 0x0A] @ ''w.evil.org'', ''ghost.a.co''], out_ns = None,
     out_dns = (\<lambda>h t. if t = ''A'' then (if h = ''n.a.co'' then Some [''10.0.0.1'', ''5.5.5.9''] else Some [''9.9.9.9'']) else None),
     out_getaddrinfo = (\<lambda>h p. None), out_xfr = (\<lambda>ip. None), out_labels = [''k3'', ''q7'', ''z1'']\<rparr>"

lemma enumeration_stays_in_scope_witness:
  "\<exists>es'. subdomain_enum_run id enum_outside 5 enum_ctx lab = (es', [''n.a.co''], Some 1) \<and>
    asset_key ` set (es_assets es') = insert (1, ''n.a.co'') (asset_key ` set (es_assets lab)) \<and> map at_ip (es_assets es') ! 3 = Some ''5.5.5.9''"
proof -
  have r: "snd (subdomain_enum_run id enum_outside 5 enum_ctx lab) = ([''n.a.co''], Some 1)"
    "map at_ip (es_assets (fst (subdomain_enum_run id enum_outside 5 enum_ctx lab))) ! 3 = Some ''5.5.5.9''" by code_simp+
  then obtain es' where es': "subdomain_enum_run id enum_outside 5 enum_ctx lab = (es', [''n.a.co''], Some 1)"
    by (cases "subdomain_enum_run id enum_outside 5 enum_ctx lab") auto
  have org: "cx_org enum_ctx = 1" by (simp add: enum_ctx_def)
  have "asset_key ` set (es_assets es') = insert (1, ''n.a.co'') (asset_key ` set (es_assets lab))"
    using enumeration_stays_in_scope [OF es'] unfolding org by simp
  with es' r(2) show ?thesis by auto
qed

text \<open>
  An organisation whose last domain was withdrawn while the scan was queued has no verified
  domain; the stage then takes the target itself for the scope and stores hosts under it.
\<close>

lemma withdrawn_domains_are_still_enumerated:
  "let es = lab\<lparr>es_db := lab_db\<lparr>db_orgs := map (\<lambda>o'. o'\<lparr>og_verified := []\<rparr>) (db_orgs lab_db)\<rparr>\<rparr>
   in org_domains (es_db es) 1 = [] \<and> fst (snd (subdomain_enum_run id enum_outside 5 enum_ctx es)) = [''n.a.co'']"
  by code_simp

end
