(* ===== verification/PortScanner.thy ===== *)
theory PortScanner
  imports EstateEffects SafeHttp Wordlists
begin

text \<open>
  The port scanner, \<open>workers/port_scanner.py\<close>. What answers on the network is a parameter: for
  an address and a port, nothing, or the text the service sent first. The probes of one address
  run concurrently in the program and their results are sorted, so their order does not matter.
  The rows of a host are written in four transactions, as in the code.
\<close>

definition port_stage :: string where
  "port_stage = ''port_scanner''"

definition sensitive_services :: "(int \<times> string \<times> string) list" where
  "sensitive_services =
    [(23, (''Telnet exposed to the internet'',
       ''Telnet transmits credentials in cleartext. Disable it and use SSH.'')),
     (21, (''FTP exposed to the internet'',
       ''Plain FTP sends credentials and data unencrypted. Move to SFTP or FTPS.'')),
     (445, (''SMB exposed to the internet'',
       ''SMB should never be internet-facing. Block 445 at the perimeter and use a VPN.'')),
     (3389, (''RDP exposed to the internet'',
       ''Put RDP behind a VPN or gateway and enforce MFA; it is a primary ransomware entry point.'')),
     (6379, (''Redis exposed to the internet'',
       ''Redis has no authentication by default. Bind to localhost, set requirepass, and firewall 6379.'')),
     (11211, (''Memcached exposed to the internet'',
       ''Memcached is unauthenticated and amplifies UDP reflection attacks. Bind to localhost.'')),
     (9200, (''Elasticsearch exposed to the internet'',
       ''Enable authentication (X-Pack/OpenSearch security) and restrict 9200 to internal networks.'')),
     (27017, (''MongoDB exposed to the internet'',
       ''Enable authentication and bind MongoDB to a private interface.'')),
     (2375, (''Unencrypted Docker API exposed'',
       ''An open Docker socket is root on the host. Disable TCP exposure or require mTLS.'')),
     (10250, (''Kubelet API exposed'',
       ''Restrict the kubelet read/write port and require authentication and authorisation.'')),
     (5432, (''PostgreSQL exposed to the internet'',
       ''Restrict 5432 to application subnets and require TLS with strong authentication.'')),
     (3306, (''MySQL exposed to the internet'',
       ''Restrict 3306 to application subnets; do not expose the database publicly.'')),
     (5900, (''VNC exposed to the internet'',
       ''VNC authentication is weak. Tunnel it over SSH or a VPN.''))]"

type_synonym network = "string \<Rightarrow> int \<Rightarrow> string option"

definition some_text :: "string \<Rightarrow> string option" where
  "some_text s = (if s = [] then None else Some s)"

definition probe_port :: "network \<Rightarrow> string \<Rightarrow> int \<Rightarrow> port_entry option" where
  "probe_port net host port =
    (case net host port of
       None \<Rightarrow> None
     | Some raw \<Rightarrow>
         Some \<lparr>pe_port = Some port, pe_protocol = ''tcp'', pe_state = Some ''open'', pe_service = Some (service_name port),
           pe_banner = some_text (slice_to 500 (strip raw))\<rparr>)"

definition entry_port :: "port_entry \<Rightarrow> int" where
  "entry_port e = (case pe_port e of None \<Rightarrow> 0 | Some p \<Rightarrow> p)"

definition probe_address :: "network \<Rightarrow> string \<Rightarrow> int list \<Rightarrow> port_entry list" where
  "probe_address net address ports = sort_key entry_port (List.map_filter (probe_port net address) ports)"

definition scan_host :: "lookup \<Rightarrow> network \<Rightarrow> string \<Rightarrow> int list \<Rightarrow> scope_error + port_entry list" where
  "scan_host getaddrinfo net host ports =
    (case scan_address getaddrinfo host ports of Inl e \<Rightarrow> Inl e | Inr address \<Rightarrow> Inr (probe_address net address ports))"

section \<open>Findings\<close>

definition port_description :: "string \<Rightarrow> int \<Rightarrow> port_entry \<Rightarrow> string" where
  "port_description hostname port e =
    hostname @ '' accepts TCP connections on port '' @ dec port @ '' (''
      @ (case pe_service e of None \<Rightarrow> ''unknown service'' | Some s \<Rightarrow> if s = [] then ''unknown service'' else s)
      @ '') from the public internet.''
      @ (case pe_banner e of None \<Rightarrow> [] | Some b \<Rightarrow>
           if b = [] then [] else '' The service returned the banner: '' @ py_repr (slice_to 200 b) @ ''.'')"

definition json_text :: "string option \<Rightarrow> json" where
  "json_text t = (case t of None \<Rightarrow> JNull | Some s \<Rightarrow> JStr s)"

definition port_finding ::
    "(string \<Rightarrow> string) \<Rightarrow> int \<Rightarrow> scan_ctx \<Rightarrow> nat \<Rightarrow> nat \<Rightarrow> string \<Rightarrow> port_entry \<Rightarrow> int \<Rightarrow> string \<times> string \<Rightarrow> finding_row" where
  "port_finding sha now ctx i asset_id hostname e port template =
    \<lparr>fi_id = i, fi_org = cx_org ctx, fi_asset = Some asset_id, fi_scan = Some (cx_scan ctx),
     fi_title = fst template @ '' ('' @ hostname @ '':'' @ dec port @ '')'', fi_cve = None, fi_cvss = None, fi_vector = None,
     fi_severity = port_exposure_severity port, fi_description = Some (port_description hostname port e),
     fi_remediation = Some (snd template), fi_status = OPEN, fi_source = Some port_stage,
     fi_fingerprint = build_fingerprint sha (Some asset_id) (fst template) None (Some port),
     fi_evidence = [(''hostname'', JStr hostname), (''port'', JNum (of_int port)), (''service'', json_text (pe_service e)),
       (''banner'', json_text (pe_banner e))],
     fi_references = [], fi_first_seen = Some now, fi_last_seen = Some now, fi_resolved = None, fi_created = now\<rparr>"

definition reconfirm_port :: "int \<Rightarrow> scan_ctx \<Rightarrow> severity \<Rightarrow> finding_row \<Rightarrow> finding_row" where
  "reconfirm_port now ctx severity f = f\<lparr>fi_last_seen := Some now, fi_scan := Some (cx_scan ctx), fi_severity := severity\<rparr>"

definition record_port_finding ::
    "(string \<Rightarrow> string) \<Rightarrow> int \<Rightarrow> scan_ctx \<Rightarrow> nat \<Rightarrow> string \<Rightarrow> port_entry \<Rightarrow> estate \<times> int \<Rightarrow> estate \<times> int" where
  "record_port_finding sha now ctx asset_id hostname e acc =
    (case acc of (es, recorded) \<Rightarrow>
       let port = entry_port e in
       case map_of sensitive_services port of
         None \<Rightarrow> (es, recorded)
       | Some template \<Rightarrow>
           (fst (upsert_finding (port_finding sha now ctx (next_id es) asset_id hostname e port template)
                   (reconfirm_port now ctx (port_exposure_severity port)) es), recorded + 1))"

definition record_port_findings ::
    "(string \<Rightarrow> string) \<Rightarrow> int \<Rightarrow> scan_ctx \<Rightarrow> nat \<Rightarrow> string \<Rightarrow> port_entry list \<Rightarrow> estate \<Rightarrow> estate \<times> int" where
  "record_port_findings sha now ctx asset_id hostname entries es =
    foldl (\<lambda>acc e. record_port_finding sha now ctx asset_id hostname e acc) (es, 0) entries"

section \<open>The task\<close>

text \<open>The asset of a host, made when the inventory does not have it yet.\<close>

definition ensure_asset :: "int \<Rightarrow> nat \<Rightarrow> string \<Rightarrow> string \<Rightarrow> estate \<Rightarrow> estate \<times> nat" where
  "ensure_asset now org_id source host es =
    (case find_asset_host es org_id host of
       Some a \<Rightarrow> (es, at_id a)
     | None \<Rightarrow>
         ((take_id es)\<lparr>es_assets := es_assets es @ [new_asset (next_id es) org_id host None None source now]\<rparr>, next_id es))"

definition store_ports :: "int \<Rightarrow> scan_ctx \<Rightarrow> string \<Rightarrow> port_entry list \<Rightarrow> estate \<Rightarrow> estate \<times> nat" where
  "store_ports now ctx host entries es =
    (case ensure_asset now (cx_org ctx) port_stage host es of
       (es1, i) \<Rightarrow> (update_asset_row i (\<lambda>a. a\<lparr>at_ports := entries, at_last_scanned := Some now\<rparr>) es1, i))"

definition open_listing :: "string \<Rightarrow> port_entry list \<Rightarrow> string" where
  "open_listing host entries =
    host @ '': '' @ dec (int (length entries)) @ '' open port(s) - '' @ join '', '' (map (\<lambda>e. dec (entry_port e)) entries)"

definition scan_one ::
    "(string \<Rightarrow> string) \<Rightarrow> lookup \<Rightarrow> network \<Rightarrow> int \<Rightarrow> scan_ctx \<Rightarrow> int list \<Rightarrow> string \<Rightarrow> estate \<Rightarrow> estate \<times> port_entry list option" where
  "scan_one sha getaddrinfo net now ctx ports host es =
    (case scan_host getaddrinfo net host ports of
       Inl e \<Rightarrow> (log_line ctx port_stage now (''Skipping '' @ host @ '': '' @ scope_message e) es, None)
     | Inr entries \<Rightarrow>
         (let es1 = (if entries = [] then es else log_line ctx port_stage now (open_listing host entries) es) in
          case store_ports now ctx host entries es1 of
            (es2, i) \<Rightarrow>
              (case record_port_findings sha now ctx i host entries es2 of
                 (es3, added) \<Rightarrow>
                   (let es4 = rescore (cx_org ctx) i (\<lambda>_. map entry_port entries) es3
                    in (if added = 0 then es4 else add_counters ctx 0 added es4, Some entries)))))"

record port_scan =
  ps_estate :: estate
  ps_results :: "(string \<times> port_entry list) list"
  ps_skipped :: "string list"
  ps_scanned :: int
  ps_open :: int

fun scan_all ::
    "(string \<Rightarrow> string) \<Rightarrow> lookup \<Rightarrow> network \<Rightarrow> int \<Rightarrow> scan_ctx \<Rightarrow> int list \<Rightarrow> string list \<Rightarrow> port_scan \<Rightarrow> port_scan" where
  "scan_all sha getaddrinfo net now ctx ports [] ps = ps"
| "scan_all sha getaddrinfo net now ctx ports (host # hosts) ps =
     (if scan_cancelled ctx (ps_estate ps)
      then ps\<lparr>ps_estate := log_line ctx port_stage now ''Scan cancelled; stopping port scan'' (ps_estate ps)\<rparr>
      else case scan_one sha getaddrinfo net now ctx ports host (ps_estate ps) of
        (es, None) \<Rightarrow> scan_all sha getaddrinfo net now ctx ports hosts (ps\<lparr>ps_estate := es, ps_skipped := ps_skipped ps @ [host]\<rparr>)
      | (es, Some entries) \<Rightarrow>
          scan_all sha getaddrinfo net now ctx ports hosts
            (ps\<lparr>ps_estate := es, ps_results := dict_update host (\<lambda>_. entries) (ps_results ps), ps_scanned := ps_scanned ps + 1,
                ps_open := ps_open ps + int (length entries)\<rparr>))"

record port_payload =
  pp_hosts :: "string list"
  pp_results :: "(string \<times> port_entry list) list"
  pp_scanned :: int

definition concurrency :: "scan_ctx \<Rightarrow> int" where
  "concurrency ctx = min (floor (option_num ctx ''rate_limit'' 50)) 500"

definition scan_ports :: "scan_ctx \<Rightarrow> int list" where
  "scan_ports ctx = resolve_port_profile (option_text ctx ''port_profile'' ''top-1000'') (option_ints ctx ''ports'')"

definition port_scanner_run ::
    "(string \<Rightarrow> string) \<Rightarrow> lookup \<Rightarrow> network \<Rightarrow> int \<Rightarrow> scan_ctx \<Rightarrow> string list \<Rightarrow> estate \<Rightarrow> estate \<times> port_payload" where
  "port_scanner_run sha getaddrinfo net now ctx hosts0 es =
    (let es1 = enter_stage ctx port_stage 35 es in
     if passive_only ctx
     then (log_line ctx port_stage now ''Passive mode: skipping port scan'' es1, \<lparr>pp_hosts = hosts0, pp_results = [], pp_scanned = 0\<rparr>)
     else
       let hosts = (if hosts0 = [] then [cx_target ctx] else hosts0);
           ports = scan_ports ctx;
           es2 = log_line ctx port_stage now (''Scanning '' @ dec (int (length ports)) @ '' ports across '' @ dec (int (length hosts))
             @ '' host(s) (timeout '' @ show_float (option_num ctx ''connect_timeout'' 2) @ ''s, '' @ dec (concurrency ctx) @ '' concurrent)'') es1;
           ps = scan_all sha getaddrinfo net now ctx ports hosts
             \<lparr>ps_estate = es2, ps_results = [], ps_skipped = [], ps_scanned = 0, ps_open = 0\<rparr>;
           skipped = ps_skipped ps;
           es3 = (if skipped = [] then ps_estate ps
             else log_line ctx port_stage now (dec (int (length skipped)) @ '' host(s) skipped as unsafe to contact: '' @ join '', '' skipped) (ps_estate ps));
           es4 = log_line ctx port_stage now (''Port scan complete: '' @ dec (ps_open ps) @ '' open port(s) across '' @ dec (ps_scanned ps) @ '' host(s)'') es3
       in (es4, \<lparr>pp_hosts = filter (\<lambda>h. h \<notin> set skipped) hosts, pp_results = ps_results ps, pp_scanned = ps_scanned ps\<rparr>))"

section \<open>What it may touch\<close>

lemma keeps_reconfirm: "keeps_finding (reconfirm_port now ctx sev)"
  by (simp add: keeps_finding_def reconfirm_port_def)

lemma record_port_finding_effects:
  assumes "has_asset (cx_org ctx) i (fst acc)"
  shows "effects_of (cx_org ctx) (fst acc) (fst (record_port_finding sha now ctx i h e acc)) \<and>
    es_assets (fst (record_port_finding sha now ctx i h e acc)) = es_assets (fst acc)"
proof -
  obtain es n where acc: "acc = (es, n)" by fastforce
  have "effects_of (cx_org ctx) es (fst (upsert_finding (port_finding sha now ctx (next_id es) i h e p t) (reconfirm_port now ctx sev) es))" for p t sev
    by (rule upsert_effects)
      (use assms keeps_reconfirm in \<open>auto simp: port_finding_def acc intro: tenant_ok_asset [where org = "cx_org ctx" and i = i]\<close>)
  then show ?thesis by (simp add: record_port_finding_def acc Let_def split: option.splits)
qed

lemma record_port_findings_effects:
  assumes "has_asset (cx_org ctx) i es"
  shows "effects_of (cx_org ctx) es (fst (record_port_findings sha now ctx i h entries es)) \<and>
    es_assets (fst (record_port_findings sha now ctx i h entries es)) = es_assets es"
proof -
  have "effects_of (cx_org ctx) (fst acc) (fst (foldl (\<lambda>acc e. record_port_finding sha now ctx i h e acc) acc entries)) \<and>
      es_assets (fst (foldl (\<lambda>acc e. record_port_finding sha now ctx i h e acc) acc entries)) = es_assets (fst acc)"
    if "has_asset (cx_org ctx) i (fst acc)" for acc
    using that
  proof (induction entries arbitrary: acc)
    case (Cons e entries)
    let ?acc = "record_port_finding sha now ctx i h e acc"
    have step: "effects_of (cx_org ctx) (fst acc) (fst ?acc)" "es_assets (fst ?acc) = es_assets (fst acc)"
      using record_port_finding_effects [OF Cons.prems] by simp_all
    then have "has_asset (cx_org ctx) i (fst ?acc)" using Cons.prems by (simp add: has_asset_def)
    from Cons.IH [OF this] show ?case using step effects_then by auto
  qed simp
  from this [of "(es, 0)"] show ?thesis using assms by (simp add: record_port_findings_def)
qed

lemma find_asset_hostD: "find_asset_host es org h = Some a \<Longrightarrow> a \<in> set (es_assets es) \<and> at_org a = org \<and> at_hostname a = h"
  unfolding find_asset_host_def by (drule find_SomeD) simp

lemma ensure_asset_effects:
  assumes "ensure_asset now org src h es = (es', i)"
  shows "effects_of org es es'" and "has_asset org i es'"
proof -
  have "effects_of org es es' \<and> has_asset org i es'"
  proof (cases "find_asset_host es org h")
    case None
    then have fresh: "(org, h) \<notin> asset_key ` set (es_assets es)"
      by (auto simp: find_asset_host_def find_None_iff asset_key_def)
    let ?a = "new_asset (next_id es) org h None None src now"
    have "effects_of org es ((take_id es)\<lparr>es_assets := es_assets es @ [?a]\<rparr>)"
      by (rule effect_once, rule effect_of.add_asset) (use fresh in \<open>simp_all add: new_asset_def risk_ok_def asset_key_def\<close>)
    then show ?thesis using assms None by (auto simp: ensure_asset_def has_asset_def new_asset_def asset_tag_def)
  next
    case (Some a)
    then show ?thesis using assms find_asset_hostD [OF Some] has_assetI [of a es] by (auto simp: ensure_asset_def)
  qed
  then show "effects_of org es es'" and "has_asset org i es'" by simp_all
qed

lemma store_ports_effects:
  assumes "estate_ok es" and "store_ports now ctx h entries es = (es', i)"
  shows "effects_of (cx_org ctx) es es'" and "has_asset (cx_org ctx) i es'"
proof -
  let ?f = "\<lambda>a. a\<lparr>at_ports := entries, at_last_scanned := Some now\<rparr>"
  obtain es1 where e: "ensure_asset now (cx_org ctx) port_stage h es = (es1, i)" "es' = update_asset_row i ?f es1"
    using assms(2) by (auto simp: store_ports_def split: prod.splits)
  have k: "keeps_asset ?f" by (simp add: keeps_asset_def risk_ok_def)
  note en = ensure_asset_effects [OF e(1)]
  have "estate_ok es1" using effects_keep_estate [OF en(1) assms(1)] .
  then have "effects_of (cx_org ctx) es1 es'" unfolding e(2) using en(2) k by (rule edit_asset_effects)
  then show "effects_of (cx_org ctx) es es'" by (rule effects_then [OF en(1)])
  show "has_asset (cx_org ctx) i es'" unfolding e(2) using en(2) by (simp add: edit_asset_tags [OF k])
qed

text \<open>The steps of one host whose address was accepted.\<close>

lemma scan_one_steps:
  assumes "scan_host g net host ports = Inr entries"
  obtains es1 es2 i es3 added where
    "es1 = (if entries = [] then es else log_line ctx port_stage now (open_listing host entries) es)"
    "store_ports now ctx host entries es1 = (es2, i)"
    "record_port_findings sha now ctx i host entries es2 = (es3, added)"
    "scan_one sha g net now ctx ports host es =
      (let es4 = rescore (cx_org ctx) i (\<lambda>_. map entry_port entries) es3 in
       (if added = 0 then es4 else add_counters ctx 0 added es4, Some entries))"
proof -
  let ?es1 = "if entries = [] then es else log_line ctx port_stage now (open_listing host entries) es"
  obtain es2 i where a: "store_ports now ctx host entries ?es1 = (es2, i)" by fastforce
  obtain es3 added where b: "record_port_findings sha now ctx i host entries es2 = (es3, added)" by fastforce
  show ?thesis by (rule that [OF refl a b]) (simp add: scan_one_def assms a b Let_def)
qed

lemma scan_one_effects:
  assumes "estate_ok es"
  shows "effects_of (cx_org ctx) es (fst (scan_one sha g net now ctx ports host es))"
proof (cases "scan_host g net host ports")
  case (Inl e)
  then show ?thesis by (simp add: scan_one_def context_effects)
next
  case (Inr entries)
  let ?org = "cx_org ctx"
  obtain es1 es2 i es3 added where s:
    "es1 = (if entries = [] then es else log_line ctx port_stage now (open_listing host entries) es)"
    "store_ports now ctx host entries es1 = (es2, i)"
    "record_port_findings sha now ctx i host entries es2 = (es3, added)"
    "scan_one sha g net now ctx ports host es =
      (let es4 = rescore (cx_org ctx) i (\<lambda>_. map entry_port entries) es3 in
       (if added = 0 then es4 else add_counters ctx 0 added es4, Some entries))"
    using scan_one_steps [OF Inr] by blast
  have e1: "effects_of ?org es es1" by (simp add: s(1) context_effects)
  have e2: "effects_of ?org es es2" "has_asset ?org i es2"
    using store_ports_effects [OF effects_keep_estate [OF e1 assms] s(2)] effects_then [OF e1] by simp_all
  have "effects_of ?org es2 es3" "es_assets es3 = es_assets es2"
    using record_port_findings_effects [OF e2(2), of sha now host entries] s(3) by simp_all
  then have e3: "effects_of ?org es es3" "has_asset ?org i es3"
    using effects_then [OF e2(1)] e2(2) by (simp_all add: has_asset_def)
  have e4: "effects_of ?org es (rescore ?org i (\<lambda>_. map entry_port entries) es3)"
    by (rule effects_then [OF e3(1) rescore_effects [OF effects_keep_estate [OF e3(1) assms] e3(2)]])
  then show ?thesis using effects_then [OF e4 context_effects(3)] by (simp add: s(4) Let_def)
qed

lemma scan_all_effects:
  "estate_ok (ps_estate ps) \<Longrightarrow> effects_of (cx_org ctx) (ps_estate ps) (ps_estate (scan_all sha g net now ctx ports hosts ps))"
proof (induction hosts arbitrary: ps)
  case (Cons host hosts)
  show ?case
  proof (cases "scan_cancelled ctx (ps_estate ps)")
    case False
    obtain es r where o: "scan_one sha g net now ctx ports host (ps_estate ps) = (es, r)" by fastforce
    have e: "effects_of (cx_org ctx) (ps_estate ps) es"
      using scan_one_effects [OF Cons.prems, of ctx sha g net now ports host] o by simp
    have "effects_of (cx_org ctx) es (ps_estate (scan_all sha g net now ctx ports hosts ps'))" if "ps_estate ps' = es" for ps'
      using Cons.IH [of ps'] effects_keep_estate [OF e Cons.prems] that by simp
    then show ?thesis using False o effects_then [OF e] by (auto split: option.splits)
  qed (simp add: context_effects)
qed simp

lemma port_scanner_effects:
  assumes "estate_ok es"
  shows "effects_of (cx_org ctx) es (fst (port_scanner_run sha g net now ctx hosts es))"
proof -
  let ?org = "cx_org ctx"
  have log: "effects_of ?org es (log_line ctx port_stage now m es')" if "effects_of ?org es es'" for m es'
    using effects_then [OF that context_effects(1)] .
  have "effects_of ?org es (ps_estate (scan_all sha g net now ctx ports hs ps))"
    if "effects_of ?org es (ps_estate ps)" for ports hs ps
    using effects_then [OF that scan_all_effects [OF effects_keep_estate [OF that assms]]] .
  then show ?thesis
    by (simp add: port_scanner_run_def Let_def log context_effects)
qed

section \<open>What it records\<close>

definition port_key_of :: "(string \<Rightarrow> string) \<Rightarrow> nat \<Rightarrow> nat \<Rightarrow> int \<Rightarrow> string \<Rightarrow> nat \<times> string" where
  "port_key_of sha org i port title = (org, build_fingerprint sha (Some i) title None (Some port))"

lemma port_finding_key: "finding_key (port_finding sha now ctx n i h e port t) = port_key_of sha (cx_org ctx) i port (fst t)"
  by (simp add: finding_key_def port_finding_def port_key_of_def)

lemma reconfirm_key: "finding_key (reconfirm_port now ctx sev f) = finding_key f"
  by (simp add: finding_key_def reconfirm_port_def)

text \<open>The keys of the findings a list of entries stands for.\<close>

definition sensitive_keys :: "(string \<Rightarrow> string) \<Rightarrow> nat \<Rightarrow> nat \<Rightarrow> port_entry list \<Rightarrow> (nat \<times> string) set" where
  "sensitive_keys sha org i entries =
    {port_key_of sha org i (entry_port e) (fst t) | e t. e \<in> set entries \<and> map_of sensitive_services (entry_port e) = Some t}"

lemma record_keys:
  "finding_key ` set (es_findings (fst (foldl (\<lambda>acc e. record_port_finding sha now ctx i h e acc) acc entries))) =
    finding_key ` set (es_findings (fst acc)) \<union> sensitive_keys sha (cx_org ctx) i entries"
proof (induction entries arbitrary: acc)
  case (Cons e entries)
  obtain es n where acc: "acc = (es, n)" by fastforce
  have step: "finding_key ` set (es_findings (fst (record_port_finding sha now ctx i h e acc))) =
      finding_key ` set (es_findings es) \<union> sensitive_keys sha (cx_org ctx) i [e]"
    by (auto simp: record_port_finding_def acc Let_def sensitive_keys_def upsert_keys reconfirm_key port_finding_key split: option.splits)
  have "sensitive_keys sha (cx_org ctx) i (e # entries) = sensitive_keys sha (cx_org ctx) i [e] \<union> sensitive_keys sha (cx_org ctx) i entries"
    by (auto simp: sensitive_keys_def)
  then show ?case unfolding foldl_Cons Cons.IH step by (simp add: acc Un_assoc)
qed (simp add: sensitive_keys_def)

text \<open>What a later scan leaves alone.\<close>

definition triaged :: "finding_row \<Rightarrow> finding_row" where
  "triaged f = f\<lparr>fi_last_seen := None, fi_scan := None, fi_severity := INFO\<rparr>"

lemma triaged_reconfirm [simp]: "triaged (reconfirm_port now ctx sev f) = triaged f"
  by (simp add: triaged_def reconfirm_port_def)

lemma record_again:
  assumes "sensitive_keys sha (cx_org ctx) i entries \<subseteq> finding_key ` set (es_findings (fst acc))"
  shows "map triaged (es_findings (fst (foldl (\<lambda>acc e. record_port_finding sha now ctx i h e acc) acc entries))) =
    map triaged (es_findings (fst acc))"
  using assms
proof (induction entries arbitrary: acc)
  case (Cons e entries)
  obtain es n where acc: "acc = (es, n)" by fastforce
  let ?acc = "record_port_finding sha now ctx i h e acc"
  have split: "sensitive_keys sha (cx_org ctx) i (e # entries) = sensitive_keys sha (cx_org ctx) i [e] \<union> sensitive_keys sha (cx_org ctx) i entries"
    by (auto simp: sensitive_keys_def)
  have step: "map triaged (es_findings (fst ?acc)) = map triaged (es_findings es)"
  proof (cases "map_of sensitive_services (entry_port e)")
    case (Some t)
    let ?f = "port_finding sha now ctx (next_id es) i h e (entry_port e) t"
    have "finding_key ?f \<in> finding_key ` set (es_findings es)"
    proof -
      have "finding_key ?f \<in> sensitive_keys sha (cx_org ctx) i [e]"
        unfolding sensitive_keys_def port_finding_key by (intro CollectI exI [of _ e] exI [of _ t]) (simp add: Some)
      then show ?thesis using Cons.prems split acc by auto
    qed
    then obtain old where "row_by finding_key (finding_key ?f) (es_findings es) = Some old"
      using row_by_None_iff [of finding_key "finding_key ?f" "es_findings es"] by auto
    then show ?thesis by (simp add: record_port_finding_def acc Some Let_def upsert_finding_def map_update_where)
  qed (simp add: record_port_finding_def acc)
  have "finding_key ` set (es_findings es) \<subseteq> finding_key ` set (es_findings (fst ?acc))"
    using record_keys [where acc = acc and entries = "[e]" and sha = sha and now = now and ctx = ctx and i = i and h = h] acc by auto
  then have "sensitive_keys sha (cx_org ctx) i entries \<subseteq> finding_key ` set (es_findings (fst ?acc))"
    using Cons.prems split acc by auto
  from Cons.IH [OF this] show ?case unfolding foldl_Cons step by (simp add: acc)
qed simp

text \<open>The asset of a host.\<close>

lemma store_ports_asset:
  assumes "estate_ok es" and "store_ports now ctx host entries es = (es', i)"
  shows "\<exists>a \<in> set (es_assets es'). at_id a = i \<and> at_org a = cx_org ctx \<and> at_hostname a = host \<and> at_ports a = entries \<and>
    at_last_scanned a = Some now" and "es_findings es' = es_findings es"
proof -
  let ?f = "\<lambda>a. a\<lparr>at_ports := entries, at_last_scanned := Some now\<rparr>"
  obtain es1 where e: "ensure_asset now (cx_org ctx) port_stage host es = (es1, i)" "es' = update_asset_row i ?f es1"
    using assms(2) by (auto simp: store_ports_def split: prod.splits)
  obtain a where a: "a \<in> set (es_assets es1)" "at_id a = i" "at_org a = cx_org ctx" "at_hostname a = host"
  proof (cases "find_asset_host es (cx_org ctx) host")
    case None
    then show ?thesis using e(1) that [of "new_asset i (cx_org ctx) host None None port_stage now"]
      by (auto simp: ensure_asset_def) (simp_all add: new_asset_def)
  next
    case (Some a)
    then show ?thesis using e(1) that [of a] find_asset_hostD [OF Some] by (auto simp: ensure_asset_def)
  qed
  then show "\<exists>a \<in> set (es_assets es'). at_id a = i \<and> at_org a = cx_org ctx \<and> at_hostname a = host \<and> at_ports a = entries \<and>
    at_last_scanned a = Some now"
    by (intro bexI [of _ "?f a"]) (auto simp: e(2) in_update_where_iff)
  show "es_findings es' = es_findings es" using e by (auto simp: ensure_asset_def split: option.splits)
qed

text \<open>A network with a web server and an open Redis at one public address.\<close>

definition lab_ctx :: scan_ctx where
  "lab_ctx = \<lparr>cx_scan = 9, cx_org = 1, cx_target = ''a.co'', cx_config = []\<rparr>"

definition lab_net :: network where
  "lab_net address port =
    (if address \<noteq> ''5.5.5.5'' then None else if port = 443 then Some [] else if port = 6379 then Some ''-ERR'' else None)"

definition lab_dns :: lookup where
  "lab_dns host port = (if host = ''in.a.co'' then Some [''10.0.0.1''] else Some [''5.5.5.5''])"

abbreviation lab_scan :: "int \<Rightarrow> string \<Rightarrow> estate \<Rightarrow> estate \<times> port_entry list option" where
  "lab_scan now host es \<equiv> scan_one (\<lambda>s. s) lab_dns lab_net now lab_ctx [22, 443, 6379] host es"

section \<open>Properties\<close>

text \<open>
  C28: the port scanner never connects inward. Two networks that answer alike at every address
  the guard calls public give the same run, whatever hosts and ports are asked for and
  whatever DNS says: what listens on a private, loopback, link-local or reserved address has no
  influence on the estate, on the log or on the result.
\<close>

theorem only_public_addresses_are_probed:
  assumes "\<And>address port. \<not> is_private_address address \<Longrightarrow> net address port = net' address port"
  shows "port_scanner_run sha g net now ctx hosts es = port_scanner_run sha g net' now ctx hosts es"
proof -
  have "scan_host g net host ports = scan_host g net' host ports" for host ports
  proof (cases "scan_address g host ports")
    case (Inr address)
    then have "\<not> is_private_address address"
      by (auto simp: scan_address_def split: sum.splits dest: public.pick_public)
    then have "probe_port net address = probe_port net' address" using assms by (simp add: fun_eq_iff probe_port_def)
    then show ?thesis by (simp add: scan_host_def Inr probe_address_def)
  qed (simp add: scan_host_def)
  then have one: "scan_one sha g net now ctx ports host es = scan_one sha g net' now ctx ports host es" for ports host es
    by (simp add: scan_one_def)
  have "scan_all sha g net now ctx ports hosts ps = scan_all sha g net' now ctx ports hosts ps" for ports hosts ps
    by (induction hosts arbitrary: ps) (simp_all add: one split: prod.splits option.splits)
  then have "scan_all sha g net now ctx = scan_all sha g net' now ctx" by (intro ext)
  then show ?thesis by (simp only: port_scanner_run_def)
qed

theorem only_public_addresses_are_probed_witness:
  "let inside = (\<lambda>address port. if is_private_address address then Some ''secret'' else lab_net address port);
       run = (\<lambda>net. port_scanner_run (\<lambda>s. s) lab_dns net 5 lab_ctx [''in.a.co'', ''w.a.co''] lab)
   in inside ''10.0.0.1'' 22 \<noteq> lab_net ''10.0.0.1'' 22 \<and> run inside = run lab_net"
proof -
  let ?inside = "\<lambda>address port. if is_private_address address then Some ''secret'' else lab_net address port"
  have "?inside ''10.0.0.1'' 22 \<noteq> lab_net ''10.0.0.1'' 22" by code_simp
  moreover have "port_scanner_run (\<lambda>s. s) lab_dns ?inside 5 lab_ctx [''in.a.co'', ''w.a.co''] lab =
      port_scanner_run (\<lambda>s. s) lab_dns lab_net 5 lab_ctx [''in.a.co'', ''w.a.co''] lab"
    by (rule only_public_addresses_are_probed) simp
  ultimately show ?thesis by (simp only: Let_def simp_thms)
qed

text \<open>
  What a scanned host leaves behind. When the scan of a host returns open ports, the
  inventory has the asset of that host with exactly those ports, stamped with the time of the
  scan; every sensitive service among them has a finding of the organisation; and the asset's
  score is the score of all its findings and of these ports.
\<close>

lemma scanned_host_is_recorded:
  assumes "estate_ok es" and "scan_one sha g net now ctx ports host es = (es', Some entries)"
  shows "\<exists>a \<in> set (es_assets es'). at_org a = cx_org ctx \<and> at_hostname a = host \<and> at_ports a = entries \<and>
    at_last_scanned a = Some now \<and> sensitive_keys sha (cx_org ctx) (at_id a) entries \<subseteq> finding_key ` set (es_findings es') \<and>
    at_risk a = score_asset (asset_severities (cx_org ctx) (at_id a) es') (map entry_port entries)"
proof -
  have "scan_host g net host ports = Inr entries"
    using assms(2) by (auto simp: scan_one_def Let_def split: sum.splits prod.splits)
  from scan_one_steps [OF this, of es ctx now sha] obtain es1 es2 i es3 added where s:
    "es1 = (if entries = [] then es else log_line ctx port_stage now (open_listing host entries) es)"
    "store_ports now ctx host entries es1 = (es2, i)"
    "record_port_findings sha now ctx i host entries es2 = (es3, added)"
    "scan_one sha g net now ctx ports host es =
      (let es4 = rescore (cx_org ctx) i (\<lambda>_. map entry_port entries) es3 in
       (if added = 0 then es4 else add_counters ctx 0 added es4, Some entries))"
    by blast
  have ok: "estate_ok es1"
    by (rule effects_keep_estate [OF _ assms(1)]) (simp add: s(1) context_effects)
  note stored = store_ports_effects(2) [OF ok s(2)]
  obtain a where a: "a \<in> set (es_assets es2)" "at_id a = i" "at_org a = cx_org ctx" "at_hostname a = host" "at_ports a = entries"
      "at_last_scanned a = Some now"
    using store_ports_asset(1) [OF ok s(2)] by blast
  have as3: "es_assets es3 = es_assets es2"
    using record_port_findings_effects [OF stored, of sha now host entries] s(3) by simp
  have keys: "sensitive_keys sha (cx_org ctx) i entries \<subseteq> finding_key ` set (es_findings es3)"
    using record_keys [where acc = "(es2, 0)" and sha = sha and now = now and ctx = ctx and i = i and h = host and entries = entries] s(3)
    by (auto simp: record_port_findings_def)
  let ?f = "\<lambda>a. a\<lparr>at_risk := score_asset (asset_severities (cx_org ctx) i es3) (map entry_port entries)\<rparr>"
  have es': "es_assets es' = update_where (\<lambda>a. at_id a = i) ?f (es_assets es3)" "es_findings es' = es_findings es3"
    using assms(2) s(4) by (auto simp: Let_def rescore_def split: if_splits)
  have "?f a \<in> set (es_assets es')" using a as3 by (auto simp: es'(1) in_update_where_iff)
  then show ?thesis
    using a keys by (intro bexI [of _ "?f a"]) (simp_all add: es'(2) asset_severities_def)
qed

lemma lab_estate_ok: "estate_ok lab"
  by code_simp

lemma snd_SomeE:
  assumes "map_option f (snd x) = Some y"
  obtains e where "x = (fst x, Some e)" and "f e = y"
  using assms by (cases x) auto

lemma lab_scan_redis: "map_option (map entry_port) (snd (lab_scan 5 ''w.a.co'' lab)) = Some [443, 6379]"
  by code_simp

lemma scanned_host_is_recorded_witness:
  "\<exists>a \<in> set (es_assets (fst (lab_scan 5 ''w.a.co'' lab))). at_hostname a = ''w.a.co'' \<and> map entry_port (at_ports a) = [443, 6379] \<and>
    at_risk a = score_asset (asset_severities 1 (at_id a) (fst (lab_scan 5 ''w.a.co'' lab))) [443, 6379]"
proof -
  obtain entries where e: "lab_scan 5 ''w.a.co'' lab = (fst (lab_scan 5 ''w.a.co'' lab), Some entries)" "map entry_port entries = [443, 6379]"
    by (rule snd_SomeE [OF lab_scan_redis])
  show ?thesis using scanned_host_is_recorded [OF lab_estate_ok e(1)] e(2) by (auto simp: lab_ctx_def)
qed

text \<open>
  Scanning a host again keeps the analysts' work. If the host is in the inventory and its
  sensitive ports have their findings, a scan that finds the same ports adds no row and
  changes of the findings only when they were last seen, by which scan, and the severity:
  status, notes, advice, evidence and the time of discovery stay.
\<close>

lemma rescan_keeps_triage:
  assumes "estate_ok es" and "a \<in> set (es_assets es)" and "at_org a = cx_org ctx" and "at_hostname a = host"
    and "sensitive_keys sha (cx_org ctx) (at_id a) entries \<subseteq> finding_key ` set (es_findings es)"
    and "scan_one sha g net now ctx ports host es = (es', Some entries)"
  shows "map triaged (es_findings es') = map triaged (es_findings es) \<and> map asset_tag (es_assets es') = map asset_tag (es_assets es)"
proof -
  have "scan_host g net host ports = Inr entries"
    using assms(6) by (auto simp: scan_one_def Let_def split: sum.splits prod.splits)
  from scan_one_steps [OF this, of es ctx now sha] obtain es1 es2 i es3 added where s:
    "es1 = (if entries = [] then es else log_line ctx port_stage now (open_listing host entries) es)"
    "store_ports now ctx host entries es1 = (es2, i)"
    "record_port_findings sha now ctx i host entries es2 = (es3, added)"
    "scan_one sha g net now ctx ports host es =
      (let es4 = rescore (cx_org ctx) i (\<lambda>_. map entry_port entries) es3 in
       (if added = 0 then es4 else add_counters ctx 0 added es4, Some entries))"
    by blast
  have es1: "es_assets es1 = es_assets es" "es_findings es1 = es_findings es" by (simp_all add: s(1))
  have "find_asset_host es1 (cx_org ctx) host \<noteq> None"
    using assms(2-4) by (auto simp: find_asset_host_def find_None_iff es1)
  then obtain b where b: "find_asset_host es1 (cx_org ctx) host = Some b" by blast
  have "b = a"
    using find_asset_hostD [OF b] assms(2-4) keyed_unique [OF estate_okD(2) [OF assms(1)], of b a] by (simp add: es1 asset_key_def)
  then have st: "i = at_id a" "es2 = update_asset_row i (\<lambda>a. a\<lparr>at_ports := entries, at_last_scanned := Some now\<rparr>) es1"
    using s(2) b by (auto simp: store_ports_def ensure_asset_def)
  have "has_asset (cx_org ctx) i es2"
    using has_assetI [OF assms(2)] assms(3) st(1) edit_asset_tags [of "\<lambda>a. a\<lparr>at_ports := entries, at_last_scanned := Some now\<rparr>"]
    by (simp add: st(2) has_asset_def es1 keeps_asset_def risk_ok_def)
  then have as3: "es_assets es3 = es_assets es2"
    using record_port_findings_effects [of ctx i es2 sha now host entries] s(3) by simp
  have "map triaged (es_findings es3) = map triaged (es_findings es2)"
    using record_again [where acc = "(es2, 0)" and sha = sha and now = now and ctx = ctx and i = i and h = host and entries = entries]
      s(3) assms(5) by (simp add: record_port_findings_def st es1)
  then have "map triaged (es_findings es') = map triaged (es_findings es)"
    using assms(6) s(4) st(2) es1 by (auto simp: Let_def split: if_splits)
  moreover have "map asset_tag (es_assets es') = map asset_tag (es_assets es)"
    using assms(6) s(4) as3 st(2) es1 by (auto simp: Let_def rescore_def map_update_where asset_tag_def split: if_splits)
  ultimately show ?thesis by blast
qed

lemma rescan_keeps_triage_witness:
  "let es = fst (lab_scan 5 ''w.a.co'' lab);
       es1 = fst (update_finding 6 20 1 \<lparr>fp_status = Some (Some ACCEPTED_RISK), fp_severity = None, fp_remediation = None, fp_notes = None\<rparr> es);
       es2 = fst (lab_scan 7 ''w.a.co'' es1)
   in map fi_status (map triaged (es_findings es1)) = [ACCEPTED_RISK] \<and> map triaged (es_findings es2) = map triaged (es_findings es1)"
proof -
  let ?es = "fst (lab_scan 5 ''w.a.co'' lab)"
  let ?p = "\<lparr>fp_status = Some (Some ACCEPTED_RISK), fp_severity = None, fp_remediation = None, fp_notes = None\<rparr>"
  let ?es1 = "fst (update_finding 6 20 1 ?p ?es)"
  let ?a = "hd (es_assets ?es1)"
  let ?es2 = "fst (lab_scan 7 ''w.a.co'' ?es1)"
  have again: "map_option (map entry_port) (snd (lab_scan 7 ''w.a.co'' ?es1)) = Some [443, 6379]" by code_simp
  obtain entries where e: "lab_scan 7 ''w.a.co'' ?es1 = (?es2, Some entries)" "map entry_port entries = [443, 6379]"
    by (rule snd_SomeE [OF again])
  have ok: "estate_ok ?es1" by code_simp
  have a: "at_org ?a = cx_org lab_ctx" "at_hostname ?a = ''w.a.co''" "at_id ?a = 2" "es_assets ?es1 \<noteq> []" by code_simp+
  have sens: "map_of sensitive_services 443 = None" "map_option fst (map_of sensitive_services 6379) = Some ''Redis exposed to the internet''"
    by code_simp+
  have "port_key_of (\<lambda>s. s) 1 2 6379 ''Redis exposed to the internet'' \<in> set (map finding_key (es_findings ?es1))" by code_simp
  then have "sensitive_keys (\<lambda>s. s) (cx_org lab_ctx) (at_id ?a) entries \<subseteq> finding_key ` set (es_findings ?es1)"
    using sens e(2) unfolding a(3) by (auto simp: sensitive_keys_def lab_ctx_def map_eq_Cons_conv)
  from rescan_keeps_triage [OF ok hd_in_set [OF a(4)] a(1,2) this e(1)]
  have "map triaged (es_findings ?es2) = map triaged (es_findings ?es1)" ..
  moreover have "map fi_status (map triaged (es_findings ?es1)) = [ACCEPTED_RISK]" by code_simp
  ultimately show ?thesis by (simp only: Let_def simp_thms)
qed

text \<open>The severity an analyst chose is not kept: the next scan puts its own back.\<close>

lemma rescan_overrides_severity:
  "let es = fst (lab_scan 5 ''w.a.co'' lab);
       es1 = fst (update_finding 6 20 1 \<lparr>fp_status = None, fp_severity = Some (Some CRITICAL), fp_remediation = None, fp_notes = None\<rparr> es);
       es2 = fst (lab_scan 7 ''w.a.co'' es1)
   in map fi_severity (es_findings es1) = [CRITICAL] \<and> map fi_severity (es_findings es2) = [MEDIUM]"
  by code_simp

text \<open>A finding that was closed still counts in the score of its asset.\<close>

lemma closed_finding_still_scores:
  "let es = fst (lab_scan 5 ''w.a.co'' lab);
       es1 = fst (update_finding 6 20 1 \<lparr>fp_status = Some (Some FALSE_POSITIVE), fp_severity = None, fp_remediation = None, fp_notes = None\<rparr> es);
       es2 = fst (lab_scan 7 ''w.a.co'' es1)
   in map at_risk (es_assets es2) = map at_risk (es_assets es) \<and> map fi_status (es_findings es2) = [FALSE_POSITIVE]"
  by code_simp

end
