(* ===== verification/ChangeDetector.thy ===== *)
theory ChangeDetector
  imports EstateEffects
begin

text \<open>
  Change detection, \<open>workers/change_detector.py\<close>. The baseline is the snapshot the orchestrator
  took before the scan; it lives in Redis as JSON and comes back as it was stored, or not at all,
  so it is an argument. A snapshot is a dictionary from host names, in the order of the rows.
\<close>

definition change_stage :: string where
  "change_stage = ''change_detector''"

section \<open>Snapshots\<close>

record snapshot =
  sp_ip :: "string option"
  sp_ports :: "int list"
  sp_tech :: "(string \<times> string option) list"

definition tech_map :: "tech_entry list \<Rightarrow> (string \<times> string option) list" where
  "tech_map ts =
    foldl (\<lambda>d t. case te_name t of None \<Rightarrow> d | Some n \<Rightarrow> if n = [] then d else dict_update n (\<lambda>_. te_version t) d) [] ts"

definition snapshot_of :: "asset_row \<Rightarrow> snapshot" where
  "snapshot_of a = \<lparr>sp_ip = at_ip a, sp_ports = open_ports a, sp_tech = tech_map (at_tech a)\<rparr>"

definition capture_baseline :: "estate \<Rightarrow> nat \<Rightarrow> (string \<times> snapshot) list" where
  "capture_baseline es org_id = map (\<lambda>a. (at_hostname a, snapshot_of a)) (filter (\<lambda>a. at_org a = org_id) (es_assets es))"

section \<open>Changes\<close>

datatype change =
    Host_added string
  | Host_removed string
  | Ports_opened string "int list"
  | Ports_closed string "int list"
  | Ip_changed string string string
  | Tech_added string string "string option"
  | Tech_version_changed string string string string

definition exposure_finding :: "(string \<Rightarrow> string) \<Rightarrow> int \<Rightarrow> scan_ctx \<Rightarrow> nat \<Rightarrow> nat \<Rightarrow> string \<Rightarrow> int \<Rightarrow> finding_row" where
  "exposure_finding sha now ctx i asset_id hostname port =
    (let title = ''New exposure: port '' @ dec port @ '' opened on '' @ hostname in
     \<lparr>fi_id = i, fi_org = cx_org ctx, fi_asset = Some asset_id, fi_scan = Some (cx_scan ctx), fi_title = title, fi_cve = None,
      fi_cvss = None, fi_vector = None, fi_severity = port_exposure_severity port,
      fi_description = Some (''Port '' @ dec port @ '' on '' @ hostname @ '' was not open during the previous ''
        @ ''scan and is now accepting connections. Unplanned exposure '' @ ''often means a firewall change, a new deployment, or a ''
        @ ''service that was never meant to be public.''),
      fi_remediation = Some (''Confirm this exposure was intentional. If not, close the port ''
        @ ''at the perimeter and review the change that introduced it.''),
      fi_status = OPEN, fi_source = Some change_stage,
      fi_fingerprint = build_fingerprint sha (Some asset_id) title None (Some port),
      fi_evidence = [(''hostname'', JStr hostname), (''port'', JNum (of_int port)), (''change'', JStr ''port_opened'')],
      fi_references = [], fi_first_seen = Some now, fi_last_seen = Some now, fi_resolved = None, fi_created = now\<rparr>)"

definition reseen :: "int \<Rightarrow> scan_ctx \<Rightarrow> finding_row \<Rightarrow> finding_row" where
  "reseen now ctx f = f\<lparr>fi_last_seen := Some now, fi_scan := Some (cx_scan ctx)\<rparr>"

fun record_new_exposure ::
    "(string \<Rightarrow> string) \<Rightarrow> int \<Rightarrow> scan_ctx \<Rightarrow> nat \<Rightarrow> string \<Rightarrow> int list \<Rightarrow> estate \<times> int \<Rightarrow> estate \<times> int" where
  "record_new_exposure sha now ctx asset_id hostname [] acc = acc"
| "record_new_exposure sha now ctx asset_id hostname (port # ports) (es, n) =
     record_new_exposure sha now ctx asset_id hostname ports
       (if port_exposure_severity port \<in> {INFO, LOW} then (es, n)
        else (fst (upsert_finding (exposure_finding sha now ctx (next_id es) asset_id hostname port) (reseen now ctx) es), n + 1))"

text \<open>What the loop over the hosts carries along.\<close>

record diff =
  df_estate :: estate
  df_changes :: "change list"
  df_findings :: int
  df_changed :: "nat list"

definition difference :: "int list \<Rightarrow> int list \<Rightarrow> int list" where
  "difference xs ys = sort (remdups (filter (\<lambda>x. x \<notin> set ys) xs))"

definition present :: "string option \<Rightarrow> bool" where
  "present s = (case s of None \<Rightarrow> False | Some t \<Rightarrow> t \<noteq> [])"

definition note_change :: "scan_ctx \<Rightarrow> int \<Rightarrow> change \<Rightarrow> string option \<Rightarrow> diff \<Rightarrow> diff" where
  "note_change ctx now c message d =
    d\<lparr>df_changes := df_changes d @ [c],
      df_estate := (case message of None \<Rightarrow> df_estate d | Some m \<Rightarrow> log_line ctx change_stage now m (df_estate d))\<rparr>"

definition opened_message :: "string \<Rightarrow> int list \<Rightarrow> string" where
  "opened_message hostname opened = hostname @ '': newly opened port(s) '' @ join '', '' (map dec opened)"

definition diff_opened :: "(string \<Rightarrow> string) \<Rightarrow> int \<Rightarrow> scan_ctx \<Rightarrow> nat \<Rightarrow> string \<Rightarrow> int list \<Rightarrow> diff \<Rightarrow> diff" where
  "diff_opened sha now ctx i hostname opened d =
    (if opened = [] then d
     else let d1 = note_change ctx now (Ports_opened hostname opened) (Some (opened_message hostname opened)) d
          in case record_new_exposure sha now ctx i hostname opened (df_estate d1, 0) of
               (es, n) \<Rightarrow> d1\<lparr>df_estate := es, df_findings := df_findings d1 + n\<rparr>)"

definition diff_closed :: "int \<Rightarrow> scan_ctx \<Rightarrow> string \<Rightarrow> int list \<Rightarrow> diff \<Rightarrow> diff" where
  "diff_closed now ctx hostname gone d =
    (if gone = [] then d
     else note_change ctx now (Ports_closed hostname gone)
       (Some (hostname @ '': port(s) '' @ join '', '' (map dec gone) @ '' no longer respond'')) d)"

definition diff_ip :: "int \<Rightarrow> scan_ctx \<Rightarrow> string \<Rightarrow> string option \<Rightarrow> string option \<Rightarrow> diff \<Rightarrow> diff" where
  "diff_ip now ctx hostname old new d =
    (if present old \<and> present new \<and> old \<noteq> new
     then note_change ctx now (Ip_changed hostname (the old) (the new))
       (Some (hostname @ '': address changed '' @ the old @ '' -> '' @ the new)) d
     else d)"

definition diff_tech :: "int \<Rightarrow> scan_ctx \<Rightarrow> string \<Rightarrow> (string \<times> string option) list \<Rightarrow> diff \<Rightarrow> string \<times> string option \<Rightarrow> diff" where
  "diff_tech now ctx hostname base d x =
    (case x of (name, version) \<Rightarrow>
       case map_of base name of
         None \<Rightarrow> note_change ctx now (Tech_added hostname name version) None d
       | Some old \<Rightarrow>
           (if present version \<and> present old \<and> version \<noteq> old
            then note_change ctx now (Tech_version_changed hostname name (the old) (the version))
              (Some (hostname @ '': '' @ name @ '' '' @ the old @ '' -> '' @ the version)) d
            else d))"

text \<open>One host: nothing for a new one, nothing for one this scan did not look at.\<close>

definition diff_host ::
    "(string \<Rightarrow> string) \<Rightarrow> int \<Rightarrow> scan_ctx \<Rightarrow> (string \<times> snapshot) list \<Rightarrow> string list \<Rightarrow> diff \<Rightarrow> string \<times> nat \<times> snapshot \<Rightarrow> diff" where
  "diff_host sha now ctx baseline scanned d x =
    (case x of (hostname, i, state) \<Rightarrow>
       case map_of baseline hostname of
         None \<Rightarrow> d
       | Some base \<Rightarrow>
           (if scanned \<noteq> [] \<and> hostname \<notin> set scanned then d
            else let d1 = diff_opened sha now ctx i hostname (difference (sp_ports state) (sp_ports base)) d;
                     d2 = diff_closed now ctx hostname (difference (sp_ports base) (sp_ports state)) d1;
                     d3 = diff_ip now ctx hostname (sp_ip base) (sp_ip state) d2;
                     d4 = foldl (diff_tech now ctx hostname (sp_tech base)) d3 (sp_tech state)
                 in if df_changes d4 = df_changes d then d4 else d4\<lparr>df_changed := df_changed d4 @ [i]\<rparr>))"

section \<open>The task\<close>

definition mark_changed :: "nat list \<Rightarrow> estate \<Rightarrow> estate" where
  "mark_changed changed es =
    foldl (\<lambda>es i. update_asset_row i (\<lambda>a. if at_status a \<noteq> NEW then a\<lparr>at_status := CHANGED\<rparr> else a) es) es changed"

definition mark_missing :: "nat \<Rightarrow> string list \<Rightarrow> estate \<Rightarrow> estate" where
  "mark_missing org_id missing es =
    foldl (\<lambda>es h. case find_asset_host es org_id h of
        None \<Rightarrow> es | Some a \<Rightarrow> update_asset_row (at_id a) (\<lambda>a. a\<lparr>at_status := INACTIVE\<rparr>) es) es missing"

definition settle :: "int \<Rightarrow> nat \<Rightarrow> string list \<Rightarrow> string list \<Rightarrow> estate \<Rightarrow> estate" where
  "settle now org_id scanned new_hosts es =
    foldl (\<lambda>es h. case find_asset_host es org_id h of
        None \<Rightarrow> es
      | Some a \<Rightarrow>
          (if at_status a = NEW \<and> h \<notin> set new_hosts
           then update_asset_row (at_id a) (\<lambda>a. a\<lparr>at_status := ACTIVE, at_last_scanned := Some now\<rparr>) es else es)) es scanned"

definition sorted_names :: "string list \<Rightarrow> string list \<Rightarrow> string list" where
  "sorted_names xs ys = sort (remdups (filter (\<lambda>x. x \<notin> set ys) xs))"

definition current_state :: "estate \<Rightarrow> nat \<Rightarrow> (string \<times> nat \<times> snapshot) list" where
  "current_state es org_id =
    map (\<lambda>a. (at_hostname a, at_id a, snapshot_of a)) (filter (\<lambda>a. at_org a = org_id) (es_assets es))"

definition change_summary :: "change list \<Rightarrow> string list \<Rightarrow> string list \<Rightarrow> int \<Rightarrow> string" where
  "change_summary changes new_hosts missing findings =
    (if changes = [] then ''Change detection complete: no changes since the previous scan''
     else ''Change detection complete: '' @ dec (int (length changes)) @ '' change(s) - '' @ dec (int (length new_hosts))
       @ '' host(s) added, '' @ dec (int (length missing)) @ '' no longer resolving, '' @ dec findings @ '' new exposure finding(s)'')"

definition change_detector_run ::
    "(string \<Rightarrow> string) \<Rightarrow> int \<Rightarrow> scan_ctx \<Rightarrow> (string \<times> snapshot) list option \<Rightarrow> string list \<Rightarrow> estate \<Rightarrow> estate \<times> change list" where
  "change_detector_run sha now ctx stored scanned es =
    (let org = cx_org ctx;
         es1 = enter_stage ctx change_stage 92 es;
         es2 = (if stored = None
           then log_line ctx change_stage now ''No baseline available - treating this as the first scan of the estate'' es1 else es1);
         baseline = (case stored of None \<Rightarrow> [] | Some b \<Rightarrow> b);
         current = current_state es2 org;
         new_hosts = sorted_names (map fst current) (map fst baseline);
         missing = sorted_names (map fst baseline) (map fst current);
         d = foldl (diff_host sha now ctx baseline scanned)
           \<lparr>df_estate = es2, df_changes = map Host_added new_hosts @ map Host_removed missing, df_findings = 0, df_changed = []\<rparr> current;
         es3 = settle now org (remdups scanned) new_hosts (mark_missing org missing (mark_changed (df_changed d) (df_estate d)));
         es4 = add_counters ctx 0 (df_findings d) es3;
         es5 = log_line ctx change_stage now (change_summary (df_changes d) new_hosts missing (df_findings d)) es4
     in (es5, df_changes d))"

section \<open>What it may touch\<close>

lemma keeps_reseen: "keeps_finding (reseen now ctx)"
  by (simp add: keeps_finding_def reseen_def)

lemma record_new_exposure_effects:
  assumes "has_asset (cx_org ctx) i (fst acc)"
  shows "effects_of (cx_org ctx) (fst acc) (fst (record_new_exposure sha now ctx i h ports acc)) \<and>
    es_assets (fst (record_new_exposure sha now ctx i h ports acc)) = es_assets (fst acc)"
  using assms
proof (induction sha now ctx i h ports acc rule: record_new_exposure.induct)
  case (2 sha now ctx i h port ports es n)
  let ?up = "fst (upsert_finding (exposure_finding sha now ctx (next_id es) i h port) (reseen now ctx) es)"
  let ?acc = "if port_exposure_severity port \<in> {INFO, LOW} then (es, n) else (?up, n + 1)"
  have "effects_of (cx_org ctx) es ?up"
    by (rule upsert_effects)
      (use 2(2) keeps_reseen in \<open>auto simp: exposure_finding_def Let_def intro: tenant_ok_asset [where org = "cx_org ctx" and i = i]\<close>)
  then have e: "effects_of (cx_org ctx) es (fst ?acc)" "es_assets (fst ?acc) = es_assets es" by simp_all
  then have "has_asset (cx_org ctx) i (fst ?acc)" using 2(2) by (simp add: has_asset_def)
  note ih = 2(1) [OF this]
  show ?case
    unfolding record_new_exposure.simps fst_conv
    by (intro conjI effects_then [OF e(1) conjunct1 [OF ih]]) (use ih e(2) in simp)
qed simp

text \<open>What the loop keeps: the assets it started with.\<close>

definition diff_ok :: "nat \<Rightarrow> estate \<Rightarrow> diff \<Rightarrow> bool" where
  "diff_ok org es d \<longleftrightarrow> effects_of org es (df_estate d) \<and> es_assets (df_estate d) = es_assets es \<and>
    list_all (\<lambda>i. has_asset org i es) (df_changed d)"

lemma note_change_ok: "diff_ok org es d \<Longrightarrow> diff_ok org es (note_change ctx now c m d)"
  using effects_then [OF _ context_effects(1)] by (auto simp: diff_ok_def note_change_def split: option.splits)

lemma diff_opened_ok:
  assumes "diff_ok (cx_org ctx) es d" and "has_asset (cx_org ctx) i es"
  shows "diff_ok (cx_org ctx) es (diff_opened sha now ctx i h opened d)"
proof (cases "opened = []")
  case False
  define d1 where "d1 = note_change ctx now (Ports_opened h opened) (Some (opened_message h opened)) d"
  obtain es' n where r: "record_new_exposure sha now ctx i h opened (df_estate d1, 0) = (es', n)" by fastforce
  have ok: "diff_ok (cx_org ctx) es d1" unfolding d1_def using assms(1) by (rule note_change_ok)
  then have "has_asset (cx_org ctx) i (df_estate d1)" using assms(2) by (simp add: diff_ok_def has_asset_def)
  then have e: "effects_of (cx_org ctx) (df_estate d1) es'" "es_assets es' = es_assets (df_estate d1)"
    using record_new_exposure_effects [of ctx i "(df_estate d1, 0)" sha now h opened] r by simp_all
  have "effects_of (cx_org ctx) es es'" by (rule effects_then [OF _ e(1)]) (use ok in \<open>simp add: diff_ok_def\<close>)
  then show ?thesis using ok e(2) using False
    by (simp add: diff_opened_def Let_def r diff_ok_def flip: d1_def)
qed (simp add: diff_opened_def assms(1))

lemma diff_rest_ok:
  "diff_ok org es d \<Longrightarrow> diff_ok org es (diff_closed now ctx h gone d)"
  "diff_ok org es d \<Longrightarrow> diff_ok org es (diff_ip now ctx h old new d)"
  "diff_ok org es d \<Longrightarrow> diff_ok org es (diff_tech now ctx h base d x)"
  by (auto simp: diff_closed_def diff_ip_def diff_tech_def intro: note_change_ok split: prod.splits option.splits)

lemma diff_techs_ok: "diff_ok org es d \<Longrightarrow> diff_ok org es (foldl (diff_tech now ctx h base) d xs)"
  by (induction xs arbitrary: d) (auto intro: diff_rest_ok(3))

lemma diff_host_ok:
  assumes "diff_ok (cx_org ctx) es d" and "has_asset (cx_org ctx) (fst (snd x)) es"
  shows "diff_ok (cx_org ctx) es (diff_host sha now ctx baseline scanned d x)"
proof -
  obtain h i state where x: "x = (h, i, state)" by (cases x) auto
  have "diff_ok (cx_org ctx) es (foldl (diff_tech now ctx h base) (diff_ip now ctx h a b (diff_closed now ctx h gone
      (diff_opened sha now ctx i h opened d))) techs)" for base a b gone opened techs
    using assms by (intro diff_techs_ok diff_rest_ok diff_opened_ok) (simp_all add: x)
  then show ?thesis
    using assms by (auto simp: diff_host_def x Let_def diff_ok_def split: option.splits)
qed

lemma diff_all_ok:
  "diff_ok (cx_org ctx) es d \<Longrightarrow> list_all (\<lambda>x. has_asset (cx_org ctx) (fst (snd x)) es) xs \<Longrightarrow>
    diff_ok (cx_org ctx) es (foldl (diff_host sha now ctx baseline scanned) d xs)"
  by (induction xs arbitrary: d) (auto intro: diff_host_ok)

lemma fold_edits:
  assumes "estate_ok es" and "\<And>es x. x \<in> set xs \<Longrightarrow> estate_ok es \<Longrightarrow> asset_tag ` set (es_assets es) = tags \<Longrightarrow>
      effects_of org es (f es x) \<and> asset_tag ` set (es_assets (f es x)) = tags"
    and "asset_tag ` set (es_assets es) = tags"
  shows "effects_of org es (foldl f es xs) \<and> asset_tag ` set (es_assets (foldl f es xs)) = tags"
  using assms
proof (induction xs arbitrary: es)
  case (Cons x xs)
  have e: "effects_of org es (f es x)" "asset_tag ` set (es_assets (f es x)) = tags" using Cons.prems by simp_all
  have "effects_of org (f es x) (foldl f (f es x) xs) \<and> asset_tag ` set (es_assets (foldl f (f es x) xs)) = tags"
    by (rule Cons.IH) (use effects_keep_estate [OF e(1) Cons.prems(1)] e(2) Cons.prems(2) in auto)
  then show ?case using effects_then [OF e(1)] by auto
qed simp

lemma edit_row_effects:
  assumes "estate_ok es" and "has_asset org i es" and "keeps_asset f"
  shows "effects_of org es (update_asset_row i f es) \<and> asset_tag ` set (es_assets (update_asset_row i f es)) = asset_tag ` set (es_assets es)"
  using edit_asset_effects [OF assms] update_asset_tags [OF assms(3)] by simp

lemma host_tag: "find_asset_host es org h = Some a \<Longrightarrow> has_asset org (at_id a) es"
  unfolding find_asset_host_def by (drule find_SomeD) (auto simp: has_asset_def asset_tag_def)

lemma status_keeps:
  "keeps_asset (\<lambda>a. if at_status a \<noteq> NEW then a\<lparr>at_status := CHANGED\<rparr> else a)" "keeps_asset (\<lambda>a. a\<lparr>at_status := INACTIVE\<rparr>)"
  "keeps_asset (\<lambda>a. a\<lparr>at_status := ACTIVE, at_last_scanned := Some now\<rparr>)"
  by (simp_all add: keeps_asset_def risk_ok_def)

lemma status_effects:
  assumes "estate_ok es" and "list_all (\<lambda>i. has_asset org i es) changed"
  shows "effects_of org es (settle now org scanned new_hosts (mark_missing org missing (mark_changed changed es)))"
proof -
  let ?tags = "asset_tag ` set (es_assets es)"
  have a: "effects_of org es (mark_changed changed es) \<and> asset_tag ` set (es_assets (mark_changed changed es)) = ?tags"
    unfolding mark_changed_def
  proof (rule fold_edits [OF assms(1) _ refl])
    fix es' i
    assume i: "i \<in> set changed" "estate_ok es'" "asset_tag ` set (es_assets es') = ?tags"
    then have "has_asset org i es'" using assms(2) by (simp add: list_all_iff has_asset_def)
    from edit_row_effects [OF i(2) this status_keeps(1)] i(3)
    show "effects_of org es' (update_asset_row i (\<lambda>a. if at_status a \<noteq> NEW then a\<lparr>at_status := CHANGED\<rparr> else a) es') \<and>
      asset_tag ` set (es_assets (update_asset_row i (\<lambda>a. if at_status a \<noteq> NEW then a\<lparr>at_status := CHANGED\<rparr> else a) es')) = ?tags" by simp
  qed
  let ?a = "mark_changed changed es"
  have b: "effects_of org ?a (mark_missing org missing ?a) \<and> asset_tag ` set (es_assets (mark_missing org missing ?a)) = ?tags"
    unfolding mark_missing_def
  proof (rule fold_edits [OF effects_keep_estate [OF conjunct1 [OF a] assms(1)] _ conjunct2 [OF a]])
    fix es' h
    assume "estate_ok es'" "asset_tag ` set (es_assets es') = ?tags"
    then show "effects_of org es' (case find_asset_host es' org h of None \<Rightarrow> es' | Some a \<Rightarrow> update_asset_row (at_id a) (\<lambda>a. a\<lparr>at_status := INACTIVE\<rparr>) es') \<and>
      asset_tag ` set (es_assets (case find_asset_host es' org h of None \<Rightarrow> es'
        | Some a \<Rightarrow> update_asset_row (at_id a) (\<lambda>a. a\<lparr>at_status := INACTIVE\<rparr>) es')) = ?tags"
      using edit_row_effects [of es' org _ "\<lambda>a. a\<lparr>at_status := INACTIVE\<rparr>", OF _ host_tag status_keeps(2)]
      by (cases "find_asset_host es' org h") simp_all
  qed
  let ?b = "mark_missing org missing ?a"
  have b': "effects_of org ?a ?b" "asset_tag ` set (es_assets ?b) = ?tags" using b by simp_all
  have ok: "estate_ok ?b" by (rule effects_keep_estate [OF b'(1) effects_keep_estate [OF conjunct1 [OF a] assms(1)]])
  let ?f = "\<lambda>a. a\<lparr>at_status := ACTIVE, at_last_scanned := Some now\<rparr>"
  have "effects_of org ?b (settle now org scanned new_hosts ?b) \<and> asset_tag ` set (es_assets (settle now org scanned new_hosts ?b)) = ?tags"
    unfolding settle_def
  proof (rule fold_edits [OF ok _ b'(2)])
    fix es' h
    assume "estate_ok es'" "asset_tag ` set (es_assets es') = ?tags"
    then show "effects_of org es' (case find_asset_host es' org h of None \<Rightarrow> es'
        | Some a \<Rightarrow> if at_status a = NEW \<and> h \<notin> set new_hosts then update_asset_row (at_id a) ?f es' else es') \<and>
      asset_tag ` set (es_assets (case find_asset_host es' org h of None \<Rightarrow> es'
        | Some a \<Rightarrow> if at_status a = NEW \<and> h \<notin> set new_hosts then update_asset_row (at_id a) ?f es' else es')) = ?tags"
      using edit_row_effects [of es' org _ ?f, OF _ host_tag status_keeps(3)]
      by (cases "find_asset_host es' org h") simp_all
  qed
  then have c: "effects_of org ?b (settle now org scanned new_hosts ?b)" ..
  show ?thesis by (rule effects_then [OF conjunct1 [OF a] effects_then [OF b'(1) c]])
qed

lemma change_detector_effects:
  assumes "estate_ok es"
  shows "effects_of (cx_org ctx) es (fst (change_detector_run sha now ctx stored scanned es))"
proof -
  let ?org = "cx_org ctx"
  let ?es2 = "if stored = None
      then log_line ctx change_stage now ''No baseline available - treating this as the first scan of the estate'' (enter_stage ctx change_stage 92 es)
      else enter_stage ctx change_stage 92 es"
  have e2: "effects_of ?org es ?es2" using effects_then [OF context_effects(2) context_effects(1)] context_effects(2) by simp
  then have ok2: "estate_ok ?es2" by (rule effects_keep_estate) (rule assms)
  have e3: "effects_of ?org ?es2 (settle now ?org hs nh (mark_missing ?org ms (mark_changed (df_changed d) (df_estate d))))"
    if "diff_ok ?org ?es2 d" for d hs nh ms
  proof -
    have d: "effects_of ?org ?es2 (df_estate d)" using that by (simp add: diff_ok_def)
    show ?thesis
      by (rule effects_then [OF d], rule status_effects [OF effects_keep_estate [OF d ok2]])
        (use that in \<open>simp add: diff_ok_def has_asset_def list_all_iff\<close>)
  qed
  have start: "diff_ok ?org ?es2 \<lparr>df_estate = ?es2, df_changes = cs, df_findings = 0, df_changed = []\<rparr>" for cs
    by (simp add: diff_ok_def)
  have assets: "list_all (\<lambda>x. has_asset ?org (fst (snd x)) ?es2) (current_state ?es2 ?org)"
    by (auto simp: current_state_def list_all_iff has_asset_def asset_tag_def)
  note d = diff_all_ok [OF start assets]
  show ?thesis
    unfolding change_detector_run_def Let_def fst_conv
    by (intro effects_then [OF _ context_effects(1)] effects_then [OF _ context_effects(3)] effects_then [OF e2 e3] d)
qed

section \<open>What it reports\<close>

text \<open>The specification: the two snapshots compared, host by host, with no state.\<close>

definition changed_opt :: "string option \<Rightarrow> string option \<Rightarrow> bool" where
  "changed_opt old new = (present old \<and> present new \<and> old \<noteq> new)"

definition tech_changes :: "string \<Rightarrow> (string \<times> string option) list \<Rightarrow> string \<times> string option \<Rightarrow> change list" where
  "tech_changes hostname base x =
    (case map_of base (fst x) of
       None \<Rightarrow> [Tech_added hostname (fst x) (snd x)]
     | Some old \<Rightarrow> if changed_opt old (snd x) then [Tech_version_changed hostname (fst x) (the old) (the (snd x))] else [])"

definition snapshot_changes :: "string \<Rightarrow> snapshot \<Rightarrow> snapshot \<Rightarrow> change list" where
  "snapshot_changes hostname base state =
    (let opened = difference (sp_ports state) (sp_ports base); gone = difference (sp_ports base) (sp_ports state) in
     (if opened = [] then [] else [Ports_opened hostname opened]) @ (if gone = [] then [] else [Ports_closed hostname gone]) @
     (if changed_opt (sp_ip base) (sp_ip state) then [Ip_changed hostname (the (sp_ip base)) (the (sp_ip state))] else []) @
     concat (map (tech_changes hostname (sp_tech base)) (sp_tech state)))"

definition host_changes :: "(string \<times> snapshot) list \<Rightarrow> string list \<Rightarrow> string \<times> nat \<times> snapshot \<Rightarrow> change list" where
  "host_changes baseline scanned x =
    (case map_of baseline (fst x) of
       None \<Rightarrow> []
     | Some base \<Rightarrow> if scanned \<noteq> [] \<and> fst x \<notin> set scanned then [] else snapshot_changes (fst x) base (snd (snd x)))"

definition reference_changes :: "(string \<times> snapshot) list \<Rightarrow> string list \<Rightarrow> (string \<times> nat \<times> snapshot) list \<Rightarrow> change list" where
  "reference_changes baseline scanned current =
    map Host_added (sorted_names (map fst current) (map fst baseline)) @
    map Host_removed (sorted_names (map fst baseline) (map fst current)) @
    concat (map (host_changes baseline scanned) current)"

lemma note_change_changes [simp]: "df_changes (note_change ctx now c m d) = df_changes d @ [c]"
  by (simp add: note_change_def)

lemma diff_tech_changes: "df_changes (diff_tech now ctx h base d x) = df_changes d @ tech_changes h base x"
  by (cases x) (auto simp: diff_tech_def tech_changes_def changed_opt_def split: option.splits)

lemma diff_techs_changes: "df_changes (foldl (diff_tech now ctx h base) d xs) = df_changes d @ concat (map (tech_changes h base) xs)"
  by (induction xs arbitrary: d) (simp_all add: diff_tech_changes)

lemma diff_parts_changes:
  "df_changes (diff_opened sha now ctx i h opened d) = df_changes d @ (if opened = [] then [] else [Ports_opened h opened])"
  "df_changes (diff_closed now ctx h gone d) = df_changes d @ (if gone = [] then [] else [Ports_closed h gone])"
  "df_changes (diff_ip now ctx h old new d) = df_changes d @ (if changed_opt old new then [Ip_changed h (the old) (the new)] else [])"
  by (simp_all add: diff_opened_def diff_closed_def diff_ip_def changed_opt_def Let_def split: prod.splits)

lemma diff_host_changes: "df_changes (diff_host sha now ctx baseline scanned d x) = df_changes d @ host_changes baseline scanned x"
  by (cases x)
    (simp add: diff_host_def host_changes_def snapshot_changes_def Let_def diff_techs_changes diff_parts_changes split: option.splits)

lemma diff_all_changes:
  "df_changes (foldl (diff_host sha now ctx baseline scanned) d xs) = df_changes d @ concat (map (host_changes baseline scanned) xs)"
  by (induction xs arbitrary: d) (simp_all add: diff_host_changes)

lemma current_state_cong: "es_assets es = es_assets es' \<Longrightarrow> current_state es org = current_state es' org"
  by (simp add: current_state_def)

text \<open>
  C29: what the detector reports is the comparison of the two snapshots. The loop that logs,
  records findings and collects changes as it goes yields, for every estate and every baseline,
  exactly the changes of the stateless comparison, in its order: hosts added, hosts removed,
  then per scanned host the ports opened and closed, the address and the technologies.
\<close>

theorem detector_refines_comparison:
  "snd (change_detector_run sha now ctx stored scanned es) =
    reference_changes (case stored of None \<Rightarrow> [] | Some b \<Rightarrow> b) scanned (current_state es (cx_org ctx))"
proof -
  let ?es2 = "if stored = None
      then log_line ctx change_stage now ''No baseline available - treating this as the first scan of the estate'' (enter_stage ctx change_stage 92 es)
      else enter_stage ctx change_stage 92 es"
  have "current_state ?es2 (cx_org ctx) = current_state es (cx_org ctx)" by (rule current_state_cong) simp
  then show ?thesis
    by (simp only: change_detector_run_def Let_def snd_conv diff_all_changes diff.simps reference_changes_def append.assoc)
qed

text \<open>Comparing a snapshot with itself.\<close>

lemma difference_self [simp]: "difference xs xs = []"
  by (simp add: difference_def)

lemma changed_opt_self [simp]: "\<not> changed_opt x x"
  by (simp add: changed_opt_def)

lemma tech_map_distinct: "distinct (map fst (tech_map ts))"
proof -
  have "distinct (map fst d) \<Longrightarrow> distinct (map fst (foldl (\<lambda>d t. case te_name t of None \<Rightarrow> d
      | Some n \<Rightarrow> if n = [] then d else dict_update n (\<lambda>_. te_version t) d) d ts))" for d
    by (induction ts arbitrary: d) (auto simp: distinct_dict_update split: option.splits)
  then show ?thesis by (simp add: tech_map_def)
qed

lemma snapshot_changes_self:
  assumes "distinct (map fst (sp_tech s))"
  shows "snapshot_changes h s s = []"
  using assms by (auto simp: snapshot_changes_def tech_changes_def Let_def)

lemma diff_techs_quiet:
  "(\<And>x. x \<in> set xs \<Longrightarrow> tech_changes h base x = []) \<Longrightarrow> foldl (diff_tech now ctx h base) d xs = d"
proof (induction xs)
  case (Cons x xs)
  have "tech_changes h base x = []" using Cons.prems by simp
  then have "diff_tech now ctx h base d x = d"
    by (cases x) (auto simp: diff_tech_def tech_changes_def changed_opt_def split: option.splits if_splits)
  then show ?case using Cons by simp
qed simp

lemma diff_host_quiet:
  assumes "host_changes baseline scanned x = []"
  shows "diff_host sha now ctx baseline scanned d x = d"
proof -
  obtain h i state where x: "x = (h, i, state)" by (cases x) auto
  have "diff_host sha now ctx baseline scanned d x = d" if b: "map_of baseline h = Some base" "scanned = [] \<or> h \<in> set scanned" for base
  proof -
    have "snapshot_changes h base state = []" using assms b by (auto simp: host_changes_def x)
    then have q: "difference (sp_ports state) (sp_ports base) = []" "difference (sp_ports base) (sp_ports state) = []"
        "\<not> changed_opt (sp_ip base) (sp_ip state)" "\<And>t. t \<in> set (sp_tech state) \<Longrightarrow> tech_changes h (sp_tech base) t = []"
      by (auto simp: snapshot_changes_def Let_def split: if_splits)
    have "foldl (diff_tech now ctx h (sp_tech base)) d (sp_tech state) = d" by (rule diff_techs_quiet) (rule q(4))
    moreover have "diff_ip now ctx h (sp_ip base) (sp_ip state) d = d" using q(3) by (auto simp: diff_ip_def changed_opt_def)
    ultimately show ?thesis using b q(1,2) by (simp add: diff_host_def x Let_def diff_opened_def diff_closed_def)
  qed
  then show ?thesis by (auto simp: diff_host_def x split: option.splits)
qed

lemma diff_all_quiet:
  "(\<And>x. x \<in> set xs \<Longrightarrow> host_changes baseline scanned x = []) \<Longrightarrow> foldl (diff_host sha now ctx baseline scanned) d xs = d"
  by (induction xs) (simp_all add: diff_host_quiet)

lemma status_findings [simp]:
  "es_findings (mark_changed changed es) = es_findings es" "es_findings (mark_missing org missing es) = es_findings es"
  "es_findings (settle now org hosts new_hosts es) = es_findings es"
proof -
  show "es_findings (mark_changed changed es) = es_findings es"
    unfolding mark_changed_def by (induction changed arbitrary: es) simp_all
  show "es_findings (mark_missing org missing es) = es_findings es"
    unfolding mark_missing_def by (induction missing arbitrary: es) (simp_all split: option.splits)
  show "es_findings (settle now org hosts new_hosts es) = es_findings es"
    unfolding settle_def by (induction hosts arbitrary: es) (simp_all split: option.splits)
qed

lemma quiet_findings:
  assumes "\<And>x. x \<in> set (current_state es (cx_org ctx)) \<Longrightarrow> host_changes base scanned x = []"
  shows "es_findings (fst (change_detector_run sha now ctx (Some base) scanned es)) = es_findings es"
proof -
  have "current_state (enter_stage ctx change_stage 92 es) (cx_org ctx) = current_state es (cx_org ctx)"
    by (rule current_state_cong) simp
  then show ?thesis using diff_all_quiet [of "current_state es (cx_org ctx)" base scanned] assms
    by (simp add: change_detector_run_def Let_def)
qed

text \<open>
  A quiet scan reports nothing. If the assets are what they were when the baseline was
  captured, the detector reports no change, whichever hosts were scanned, and raises no
  finding.
\<close>

lemma quiet_scan_reports_nothing:
  assumes "keyed asset_key (es_assets es)" and "es_assets es0 = es_assets es"
  shows "snd (change_detector_run sha now ctx (Some (capture_baseline es0 (cx_org ctx))) scanned es) = [] \<and>
    es_findings (fst (change_detector_run sha now ctx (Some (capture_baseline es0 (cx_org ctx))) scanned es)) = es_findings es"
proof -
  let ?org = "cx_org ctx" and ?rows = "filter (\<lambda>a. at_org a = cx_org ctx) (es_assets es)"
  let ?b = "capture_baseline es0 (cx_org ctx)"
  have b: "?b = map (\<lambda>a. (at_hostname a, snapshot_of a)) ?rows" by (simp add: capture_baseline_def assms(2))
  have "distinct (map asset_key ?rows)" using assms(1) by (rule distinct_map_filter)
  then have "distinct (map at_hostname ?rows)" by (auto simp: distinct_map inj_on_def asset_key_def)
  then have look: "map_of ?b (at_hostname a) = Some (snapshot_of a)" if "a \<in> set ?rows" for a
    unfolding b using that by (intro map_of_is_SomeI) (auto simp: comp_def)
  have same: "map fst (current_state es ?org) = map fst ?b" by (simp add: b current_state_def comp_def)
  have quiet: "host_changes ?b scanned x = []" if x: "x \<in> set (current_state es ?org)" for x
  proof -
    obtain a where a: "a \<in> set ?rows" "x = (at_hostname a, at_id a, snapshot_of a)" using x by (auto simp: current_state_def)
    show ?thesis
      by (simp add: host_changes_def a(2) look [OF a(1)] snapshot_changes_self tech_map_distinct snapshot_of_def)
  qed
  then have none: "reference_changes ?b scanned (current_state es ?org) = []"
    by (simp add: reference_changes_def same sorted_names_def)
  then have "snd (change_detector_run sha now ctx (Some ?b) scanned es) = []" by (simp add: detector_refines_comparison)
  moreover have "es_findings (fst (change_detector_run sha now ctx (Some ?b) scanned es)) = es_findings es"
    by (rule quiet_findings) (simp add: quiet)
  ultimately show ?thesis by blast
qed

lemma quiet_scan_reports_nothing_witness:
  "snd (change_detector_run (\<lambda>s. s) 5 \<lparr>cx_scan = 9, cx_org = 1, cx_target = ''a.co'', cx_config = []\<rparr>
     (Some (capture_baseline lab 1)) [''w.a.co''] lab) = [] \<and> length (capture_baseline lab 1) = 3"
proof -
  have k: "keyed asset_key (es_assets lab)" by code_simp
  have n: "length (capture_baseline lab 1) = 3" by code_simp
  show ?thesis
    using quiet_scan_reports_nothing [OF k refl, where ctx = "\<lparr>cx_scan = 9, cx_org = 1, cx_target = ''a.co'', cx_config = []\<rparr>"
      and sha = "\<lambda>s. s" and now = 5 and scanned = "[''w.a.co'']"] n by simp
qed

text \<open>
  A host is reported as removed only when the inventory has no asset of that name, so the
  step that would mark such an asset inactive never finds one.
\<close>

lemma missing_hosts_are_never_marked:
  "mark_missing org (sorted_names names (map fst (current_state es org))) es = es"
proof -
  have "find_asset_host es org h = None" if "h \<in> set (sorted_names names (map fst (current_state es org)))" for h
    using that by (auto simp: sorted_names_def current_state_def find_asset_host_def find_None_iff)
  then have "mark_missing org hs es = es" if "set hs \<subseteq> set (sorted_names names (map fst (current_state es org)))" for hs
    using that unfolding mark_missing_def by (induction hs) simp_all
  then show ?thesis by simp
qed

end
