(* ===== verification/Fingerprinter.thy ===== *)
theory Fingerprinter
  imports EstateEffects SafeHttp Regex
begin

text \<open>
  Technology fingerprinting, \<open>workers/fingerprinter.py\<close>. Parameters: what the guarded HTTP
  client answers to a request, \<open>getaddrinfo\<close>, and the TLS handshake with an address. The
  title of a page is not stored anywhere and is left out.
\<close>

definition web_stage :: string where
  "web_stage = ''fingerprinter''"

definition http_ports :: "int list" where
  "http_ports = [80, 8000, 8008, 8080, 8081, 8888, 3000, 5000, 9000]"

definition https_ports :: "int list" where
  "https_ports = [443, 8443, 9443, 4443, 8834, 10443]"

section \<open>Signatures\<close>

record signature =
  sg_category :: string
  sg_server :: "regex option"
  sg_powered :: "regex option"
  sg_generator :: "regex option"
  sg_headers :: "string list"
  sg_cookies :: "string list"
  sg_body :: "regex option"

definition sig_of :: "string \<Rightarrow> signature" where
  "sig_of category =
    \<lparr>sg_category = category, sg_server = None, sg_powered = None, sg_generator = None, sg_headers = [], sg_cookies = [], sg_body = None\<rparr>"

definition digit_dot :: "char \<Rightarrow> bool" where
  "digit_dot c = (is_ascii_digit c \<or> c = CHR ''.'')"

definition chr_is :: "char \<Rightarrow> regex" where
  "chr_is c = One (\<lambda>d. d = c)"

definition version_part :: regex where
  "version_part = Group (Plus digit_dot)"

text \<open>A name, then perhaps a slash and a version.\<close>

definition slash_version :: "string \<Rightarrow> regex" where
  "slash_version name = Then (lit name) (Opt (Then (chr_is (CHR ''/'')) version_part))"

definition spaced_version :: "string \<Rightarrow> regex" where
  "spaced_version name = cat [lit name, Many is_space, Opt version_part]"

definition server_sig :: "string \<Rightarrow> string \<Rightarrow> signature" where
  "server_sig category name = (sig_of category)\<lparr>sg_server := Some (slash_version name)\<rparr>"

definition body_sig :: "string \<Rightarrow> regex \<Rightarrow> signature" where
  "body_sig category r = (sig_of category)\<lparr>sg_body := Some r\<rparr>"

definition signatures :: "(string \<times> signature) list" where
  "signatures =
    [(''nginx'', server_sig ''web-server'' ''nginx''),
     (''apache'', server_sig ''web-server'' ''apache''),
     (''iis'', server_sig ''web-server'' ''microsoft-iis''),
     (''litespeed'', server_sig ''web-server'' ''litespeed''),
     (''caddy'', server_sig ''web-server'' ''caddy''),
     (''tomcat'', server_sig ''app-server'' ''tomcat''),
     (''jetty'', (sig_of ''app-server'')\<lparr>sg_server :=
        Some (cat [lit ''jetty'', Opt (chr_is (CHR ''('')), Opt version_part, Opt (chr_is (CHR '')''))])\<rparr>),
     (''gunicorn'', server_sig ''app-server'' ''gunicorn''),
     (''uvicorn'', server_sig ''app-server'' ''uvicorn''),
     (''express'', (sig_of ''framework'')\<lparr>sg_powered := Some (slash_version ''express'')\<rparr>),
     (''php'', (sig_of ''language'')\<lparr>sg_powered := Some (slash_version ''php'')\<rparr>),
     (''asp.net'', (sig_of ''framework'')\<lparr>sg_powered := Some (slash_version ''asp.net'')\<rparr>),
     (''django'', (sig_of ''framework'')\<lparr>sg_cookies := [''csrftoken'', ''django_language'']\<rparr>),
     (''rails'', (sig_of ''framework'')\<lparr>sg_cookies := [''_rails_session''], sg_powered := Some (lit ''phusion'')\<rparr>),
     (''laravel'', (sig_of ''framework'')\<lparr>sg_cookies := [''laravel_session'', ''xsrf-token'']\<rparr>),
     (''wordpress'', (body_sig ''cms'' (alts [lit ''wp-content'', lit ''wp-includes'', lit ''/wp-json/'']))
        \<lparr>sg_generator := Some (spaced_version ''wordpress'')\<rparr>),
     (''drupal'', (body_sig ''cms'' (Or (lit ''drupal.settings'') (lit ''/sites/default/files'')))
        \<lparr>sg_generator := Some (spaced_version ''drupal'')\<rparr>),
     (''joomla'', (sig_of ''cms'')\<lparr>sg_generator := Some (cat [lit ''joomla'', Opt (chr_is (CHR ''!'')), Many is_space, Opt version_part])\<rparr>),
     (''magento'', (body_sig ''ecommerce'' (Or (lit ''mage/'') (lit ''magento'')))\<lparr>sg_cookies := [''frontend'']\<rparr>),
     (''shopify'', body_sig ''ecommerce'' (lit ''cdn.shopify.com'')),
     (''react'', body_sig ''js-framework'' (alts [lit ''__REACT_DEVTOOLS'', lit ''data-reactroot'',
        cat [lit ''react'', Opt (lit ''-dom''), One (one_of ''.-'')]])),
     (''vue'', body_sig ''js-framework'' (Or (lit ''__VUE__'') (Then (lit ''data-v-'') (cat (replicate 8 (One (one_of ''0123456789abcdef''))))))),
     (''angular'', body_sig ''js-framework'' (Or (lit ''ng-version='') (cat [lit ''angular'', Opt (lit ''.min''), lit ''.js'']))),
     (''next.js'', body_sig ''js-framework'' (Or (lit ''__NEXT_DATA__'') (lit ''/_next/static''))),
     (''nuxt'', body_sig ''js-framework'' (Or (lit ''__NUXT__'') (lit ''/_nuxt/''))),
     (''jquery'', body_sig ''js-library'' (cat [lit ''jquery'', One (one_of ''.-''), Opt version_part, Opt (lit ''.min''), lit ''.js''])),
     (''bootstrap'', body_sig ''css-framework'' (cat [lit ''bootstrap'', One (one_of ''.-''), Opt version_part, Opt (lit ''.min''),
        chr_is (CHR ''.''), Or (lit ''css'') (lit ''js'')])),
     (''cloudflare'', (sig_of ''cdn'')\<lparr>sg_server := Some (lit ''cloudflare'')\<rparr>),
     (''akamai'', (sig_of ''cdn'')\<lparr>sg_server := Some (lit ''akamai'')\<rparr>),
     (''fastly'', (sig_of ''cdn'')\<lparr>sg_headers := [''x-served-by'', ''x-fastly-request-id'']\<rparr>),
     (''varnish'', (sig_of ''cache'')\<lparr>sg_headers := [''x-varnish'']\<rparr>),
     (''kubernetes-ingress'', (sig_of ''infrastructure'')\<lparr>sg_headers := [''x-kubernetes-ingress'']\<rparr>),
     (''grafana'', body_sig ''monitoring'' (Or (cat [lit ''grafana'', Opt (One (one_of ''_-'')), lit ''bootdata'']) (lit ''grafana.app''))),
     (''kibana'', body_sig ''monitoring'' (Or (lit ''kbn-name'') (lit ''kibana''))),
     (''jenkins'', (sig_of ''ci'')\<lparr>sg_headers := [''x-jenkins'']\<rparr>),
     (''gitlab'', body_sig ''devops'' (Or (lit ''gitlab'') (lit ''gon.gitlab''))),
     (''sentry'', body_sig ''monitoring'' (cat [lit ''sentry'', Opt (One (one_of ''_-'')), lit ''dsn''])),
     (''swagger'', body_sig ''api-docs'' (Or (lit ''swagger-ui'') (lit ''openapi.json''))),
     (''phpmyadmin'', body_sig ''admin-panel'' (lit ''phpmyadmin''))]"

definition quote_char :: "char \<Rightarrow> bool" where
  "quote_char c = (ord c = 34 \<or> ord c = 39)"

definition generator_re :: regex where
  "generator_re =
    cat [lit ''<meta'', Plus (\<lambda>c. c \<noteq> CHR ''>''), lit ''name='', One quote_char, lit ''generator'', One quote_char,
      Plus (\<lambda>c. c \<noteq> CHR ''>''), lit ''content='', One quote_char, Group (Plus (\<lambda>c. \<not> quote_char c))]"

section \<open>One response\<close>

text \<open>A response: header names in lower case, the text cut at 200 000 characters, the names of its cookies.\<close>

record web_page =
  wp_status :: int
  wp_headers :: "(string \<times> string) list"
  wp_body :: string
  wp_cookies :: "string list"

definition header :: "web_page \<Rightarrow> string \<Rightarrow> string" where
  "header page name = text_of (map_of (wp_headers page) name)"

definition match_version :: "regex \<Rightarrow> string \<Rightarrow> bool \<times> string option" where
  "match_version r text = (case search r text of None \<Rightarrow> (False, None) | Some g \<Rightarrow> (True, if has_group r then g else None))"

definition generator_of :: "web_page \<Rightarrow> string" where
  "generator_of page = (case search generator_re (wp_body page) of Some (Some g) \<Rightarrow> g | _ \<Rightarrow> [])"

text \<open>A detection in progress: the version and the confidence so far.\<close>

type_synonym signal = "string option \<times> int"

definition scored :: "string option \<Rightarrow> int \<Rightarrow> int \<Rightarrow> int" where
  "scored version yes no = (if text_of version \<noteq> [] then yes else no)"

definition server_signal :: "signature \<Rightarrow> web_page \<Rightarrow> signal" where
  "server_signal sg page =
    (case sg_server sg of
       None \<Rightarrow> (None, 0)
     | Some r \<Rightarrow> (case match_version r (header page ''server'') of (hit, version) \<Rightarrow> (version, if hit then scored version 95 85 else 0)))"

definition text_signal :: "int \<Rightarrow> int \<Rightarrow> int \<Rightarrow> regex option \<Rightarrow> string \<Rightarrow> signal \<Rightarrow> signal" where
  "text_signal limit yes no pattern text acc =
    (case (pattern, acc) of
       (None, _) \<Rightarrow> acc
     | (Some r, version, confidence) \<Rightarrow>
         (if confidence < limit
          then (case match_version r text of (hit, ver) \<Rightarrow>
            if hit then (if text_of version \<noteq> [] then version else ver, max confidence (scored ver yes no)) else acc)
          else acc))"

definition presence_signal :: "int \<Rightarrow> bool \<Rightarrow> signal \<Rightarrow> signal" where
  "presence_signal score present acc =
    (case acc of (version, confidence) \<Rightarrow> if confidence < 80 \<and> present then (version, max confidence score) else acc)"

definition detect :: "signature \<Rightarrow> web_page \<Rightarrow> signal" where
  "detect sg page =
    text_signal 70 60 60 (sg_body sg) (wp_body page)
      (presence_signal 75 (list_ex (\<lambda>c. c \<in> lower ` set (wp_cookies page)) (sg_cookies sg))
        (presence_signal 80 (list_ex (\<lambda>h. h \<in> fst ` set (wp_headers page)) (sg_headers sg))
          (text_signal 95 95 85 (sg_generator sg) (generator_of page)
            (text_signal 95 90 80 (sg_powered sg) (header page ''x-powered-by'') (server_signal sg page)))))"

definition tech_cpe :: "string \<Rightarrow> string \<Rightarrow> string" where
  "tech_cpe name version = ''cpe:2.3:a:'' @ name @ '':'' @ name @ '':'' @ version @ '':*:*:*:*:*:*:*''"

definition tech_of :: "web_page \<Rightarrow> string \<times> signature \<Rightarrow> tech_entry option" where
  "tech_of page x =
    (case x of (name, sg) \<Rightarrow>
      (case detect sg page of (version, confidence) \<Rightarrow>
        if confidence = 0 then None
        else Some \<lparr>te_name = Some name, te_version = version, te_categories = [sg_category sg], te_confidence = confidence,
          te_cpe = (if text_of version \<noteq> [] then Some (tech_cpe name (text_of version)) else None)\<rparr>))"

definition identify :: "web_page \<Rightarrow> tech_entry list" where
  "identify page = sort_key (\<lambda>t. - te_confidence t) (List.map_filter (tech_of page) signatures)"

section \<open>TLS\<close>

record certificate =
  ce_not_after :: int
  ce_subject :: "string option"
  ce_issuer :: "string option"
  ce_san :: "string list"

record tls_session =
  ts_version :: string
  ts_cipher :: "string option"
  ts_peer :: "certificate option"

text \<open>
  \<open>SSLSocket.getpeercert()\<close>: without validation (\<open>CERT_NONE\<close>) the dictionary is empty, whatever
  certificate the peer sent.
\<close>

definition getpeercert :: "bool \<Rightarrow> tls_session \<Rightarrow> certificate option" where
  "getpeercert validated session = (if validated then ts_peer session else None)"

record tls_info =
  tl_version :: string
  tl_cipher :: "string option"
  tl_days :: "int option"
  tl_cert :: "certificate option"

type_synonym handshake = "string \<Rightarrow> int \<Rightarrow> string \<Rightarrow> tls_session option"

definition check_tls :: "lookup \<Rightarrow> handshake \<Rightarrow> int \<Rightarrow> string \<Rightarrow> int \<Rightarrow> tls_info option" where
  "check_tls getaddrinfo handshake now hostname port =
    (case resolve_public_addresses getaddrinfo hostname port of
       Inl _ \<Rightarrow> None
     | Inr addresses \<Rightarrow>
         map_option
           (\<lambda>session. let cert = getpeercert False session in
             \<lparr>tl_version = ts_version session, tl_cipher = ts_cipher session,
              tl_days = map_option (\<lambda>c. (ce_not_after c - now) div us_day) cert, tl_cert = cert\<rparr>)
           (handshake (preferred_address addresses) port hostname))"

section \<open>One host\<close>

datatype fetch_answer = Refused string | No_response | Page web_page

type_synonym fetcher = "string \<Rightarrow> fetch_answer"

definition web_targets :: "port_entry list \<Rightarrow> (string \<times> int) list" where
  "web_targets ports =
    (let found = List.map_filter (\<lambda>p. if pe_state p = Some ''open'' then pe_port p else None) ports;
         open_ports = (if found = [] then [80, 443] else sort (remdups found))
     in List.map_filter (\<lambda>p. if p \<in> set https_ports then Some (''https'', p) else if p \<in> set http_ports then Some (''http'', p) else None)
          open_ports)"

definition target_url :: "string \<Rightarrow> string \<times> int \<Rightarrow> string" where
  "target_url hostname target =
    (case target of (scheme, port) \<Rightarrow>
      scheme @ ''://'' @ hostname @
        (if (scheme = ''http'' \<and> port = 80) \<or> (scheme = ''https'' \<and> port = 443) then [] else '':'' @ dec port))"

definition merge_tech :: "(string \<times> tech_entry) list \<Rightarrow> tech_entry \<Rightarrow> (string \<times> tech_entry) list" where
  "merge_tech techs t =
    (let name = text_of (te_name t) in
     case map_of techs name of
       None \<Rightarrow> techs @ [(name, t)]
     | Some old \<Rightarrow> if te_confidence old < te_confidence t then dict_update name (\<lambda>_. t) techs else techs)"

record profile =
  pf_estate :: estate
  pf_tech :: "(string \<times> tech_entry) list"
  pf_http :: "(string \<times> web_page) list"

definition probe_target :: "fetcher \<Rightarrow> int \<Rightarrow> scan_ctx \<Rightarrow> string \<Rightarrow> profile \<Rightarrow> string \<times> int \<Rightarrow> profile" where
  "probe_target fetch now ctx hostname pf target =
    (let url = target_url hostname target in
     case fetch url of
       Refused e \<Rightarrow> pf\<lparr>pf_estate := log_line ctx web_stage now (''Refusing '' @ url @ '': '' @ e) (pf_estate pf)\<rparr>
     | No_response \<Rightarrow> pf
     | Page page \<Rightarrow> pf\<lparr>pf_tech := foldl merge_tech (pf_tech pf) (identify page), pf_http := pf_http pf @ [(url, page)]\<rparr>)"

record host_profile =
  hp_tech :: "tech_entry list"
  hp_http :: "(string \<times> web_page) list"
  hp_tls :: "tls_info option"

definition fingerprint_host ::
    "fetcher \<Rightarrow> lookup \<Rightarrow> handshake \<Rightarrow> int \<Rightarrow> scan_ctx \<Rightarrow> string \<Rightarrow> port_entry list \<Rightarrow> estate \<Rightarrow> estate \<times> host_profile" where
  "fingerprint_host fetch getaddrinfo handshake now ctx hostname ports es =
    (let targets = web_targets ports;
         pf = foldl (probe_target fetch now ctx hostname) \<lparr>pf_estate = es, pf_tech = [], pf_http = []\<rparr> targets
     in (pf_estate pf,
         \<lparr>hp_tech = map snd (pf_tech pf), hp_http = pf_http pf,
          hp_tls = (case filter (\<lambda>t. snd t \<in> set https_ports) targets of [] \<Rightarrow> None
                    | t # _ \<Rightarrow> check_tls getaddrinfo handshake now hostname (snd t))\<rparr>))"

section \<open>Dates in text\<close>

text \<open>Year, month and day of a number of days since 1970-01-01 in the Gregorian calendar.\<close>

definition civil :: "int \<Rightarrow> int \<times> int \<times> int" where
  "civil days =
    (let z = days + 719468; era = z div 146097; doe = z mod 146097;
         yoe = (doe - doe div 1460 + doe div 36524 - doe div 146096) div 365;
         doy = doe - (365 * yoe + yoe div 4 - yoe div 100); mp = (5 * doy + 2) div 153;
         m = (if mp < 10 then mp + 3 else mp - 9)
     in (yoe + era * 400 + (if m \<le> 2 then 1 else 0), m, doy - (153 * mp + 2) div 5 + 1))"

definition digits :: "nat \<Rightarrow> int \<Rightarrow> string" where
  "digits n k = map (\<lambda>i. char_of (48 + k div 10 ^ i mod 10)) (rev [0..<n])"

text \<open>\<open>isoformat\<close> of an instant in UTC on a full second.\<close>

definition iso_utc :: "int \<Rightarrow> string" where
  "iso_utc t =
    (case civil (t div us_day) of (y, m, d) \<Rightarrow>
       let sec = t mod us_day div 1000000
       in digits 4 y @ ''-'' @ digits 2 m @ ''-'' @ digits 2 d @ ''T'' @ digits 2 (sec div 3600) @ '':'' @ digits 2 (sec div 60 mod 60)
         @ '':'' @ digits 2 (sec mod 60) @ ''+00:00'')"

section \<open>Findings\<close>

text \<open>Headers whose absence is reported: title, severity, advice.\<close>

definition security_headers :: "(string \<times> string \<times> severity \<times> string) list" where
  "security_headers =
    [(''strict-transport-security'', ''HSTS not enforced'', MEDIUM,
        ''Without Strict-Transport-Security a first request over plain HTTP can be ''
        @ ''intercepted and downgraded. Send '' @ [CHR 0x27] @ ''Strict-Transport-Security: max-age=31536000; includeSubDomains'' @ [CHR 0x27] @ ''.''),
     (''content-security-policy'', ''No Content-Security-Policy'', LOW,
        ''A CSP is the main defence-in-depth control against XSS. Start in ''
        @ ''report-only mode, then enforce a policy without '' @ [CHR 0x27] @ ''unsafe-inline'' @ [CHR 0x27] @ ''.''),
     (''x-content-type-options'', ''Missing X-Content-Type-Options'', LOW,
        ''Send '' @ [CHR 0x27] @ ''X-Content-Type-Options: nosniff'' @ [CHR 0x27] @ '' so browsers do not MIME-sniff ''
        @ ''responses into executable types.''),
     (''x-frame-options'', ''Clickjacking protection missing'', LOW,
        ''Send '' @ [CHR 0x27] @ ''X-Frame-Options: DENY'' @ [CHR 0x27] @ '' or a CSP '' @ [CHR 0x27] @ ''frame-ancestors'' @ [CHR 0x27] @ '' directive.''),
     (''referrer-policy'', ''No Referrer-Policy'', INFO,
        ''Set '' @ [CHR 0x27] @ ''Referrer-Policy: strict-origin-when-cross-origin'' @ [CHR 0x27] @ '' to avoid leaking '' @ ''full URLs to third parties.'')]"

record issue =
  is_title :: string
  is_severity :: severity
  is_description :: string
  is_advice :: string
  is_evidence :: json_object

definition missing_headers :: "string \<Rightarrow> string \<Rightarrow> web_page \<Rightarrow> issue list" where
  "missing_headers hostname url page =
    map (\<lambda>(name, title, severity, advice).
          \<lparr>is_title = title @ '' on '' @ hostname, is_severity = severity,
           is_description = url @ '' responded without the '' @ [CHR 0x27] @ name @ [CHR 0x27] @ '' header.'', is_advice = advice,
           is_evidence = [(''url'', JStr url), (''missing_header'', JStr name)]\<rparr>)
      (filter (\<lambda>h. fst h \<notin> fst ` set (wp_headers page)) security_headers)"

definition version_re :: regex where
  "version_re = cat [Plus is_ascii_digit, chr_is (CHR ''.''), Plus is_ascii_digit]"

definition page_issues :: "string \<Rightarrow> string \<times> web_page \<Rightarrow> issue list" where
  "page_issues hostname x =
    (case x of (url, page) \<Rightarrow>
      if wp_status page < 200 \<or> 400 \<le> wp_status page then []
      else
        let server = header page ''server'' in
        (if prefix ''https://'' url then missing_headers hostname url page else []) @
        (if search version_re server = None then []
         else [\<lparr>is_title = ''Server version disclosed by '' @ hostname, is_severity = INFO,
                is_description = url @ '' advertises '' @ [CHR 0x27] @ server @ [CHR 0x27] @ '' in its Server header.'',
                is_advice = ''Suppress version details (nginx: server_tokens off; '' @ ''Apache: ServerTokens Prod).'',
                is_evidence = [(''url'', JStr url), (''server'', JStr server)]\<rparr>]))"

definition opt_json :: "string option \<Rightarrow> json" where
  "opt_json s = (case s of None \<Rightarrow> JNull | Some t \<Rightarrow> JStr t)"

definition tls_json :: "tls_info \<Rightarrow> json_object" where
  "tls_json tls =
    [(''version'', JStr (tl_version tls)), (''cipher'', opt_json (tl_cipher tls))] @
    (case tl_cert tls of None \<Rightarrow> []
     | Some c \<Rightarrow> [(''not_after'', JStr (iso_utc (ce_not_after c))),
         (''days_until_expiry'', (case tl_days tls of None \<Rightarrow> JNull | Some d \<Rightarrow> JNum (of_int d))),
         (''subject_cn'', opt_json (ce_subject c)), (''issuer_cn'', opt_json (ce_issuer c)), (''san'', JList (map JStr (ce_san c)))])"

definition not_after_text :: "tls_info \<Rightarrow> string" where
  "not_after_text tls = ''(notAfter '' @ (case tl_cert tls of None \<Rightarrow> ''None'' | Some c \<Rightarrow> iso_utc (ce_not_after c)) @ '').''"

definition tls_issues :: "string \<Rightarrow> tls_info \<Rightarrow> issue list" where
  "tls_issues hostname tls =
    (case tl_days tls of
       None \<Rightarrow> []
     | Some days \<Rightarrow>
         (if days < 0
          then [\<lparr>is_title = ''TLS certificate expired for '' @ hostname, is_severity = HIGH,
                 is_description = ''The certificate expired '' @ dec \<bar>days\<bar> @ '' day(s) ago '' @ not_after_text tls @ '' Browsers will block the site.'',
                 is_advice = ''Renew the certificate and automate renewal (e.g. ACME/certbot).'', is_evidence = tls_json tls\<rparr>]
          else if days < 30
          then [\<lparr>is_title = ''TLS certificate expiring soon for '' @ hostname, is_severity = LOW,
                 is_description = ''The certificate expires in '' @ dec days @ '' day(s) '' @ not_after_text tls,
                 is_advice = ''Renew ahead of expiry and set up automated renewal with alerting.'', is_evidence = tls_json tls\<rparr>]
          else [])) @
    (if tl_version tls \<in> {''TLSv1'', ''TLSv1.1'', ''SSLv3''}
     then [\<lparr>is_title = ''Obsolete TLS version accepted by '' @ hostname, is_severity = MEDIUM,
            is_description = ''The endpoint negotiated '' @ tl_version tls @ '', which is deprecated and ''
              @ ''vulnerable to known downgrade and padding-oracle attacks.'',
            is_advice = ''Disable TLS 1.1 and below; require TLS 1.2 with modern ciphers, '' @ ''preferably TLS 1.3.'',
            is_evidence = tls_json tls\<rparr>]
     else [])"

definition host_issues :: "string \<Rightarrow> (string \<times> web_page) list \<Rightarrow> tls_info option \<Rightarrow> issue list" where
  "host_issues hostname http tls =
    concat (map (page_issues hostname) http) @ (case tls of None \<Rightarrow> [] | Some t \<Rightarrow> tls_issues hostname t)"

definition issue_finding :: "(string \<Rightarrow> string) \<Rightarrow> int \<Rightarrow> scan_ctx \<Rightarrow> nat \<Rightarrow> nat \<Rightarrow> issue \<Rightarrow> finding_row" where
  "issue_finding sha now ctx i asset_id x =
    \<lparr>fi_id = i, fi_org = cx_org ctx, fi_asset = Some asset_id, fi_scan = Some (cx_scan ctx), fi_title = is_title x,
     fi_cve = None, fi_cvss = None, fi_vector = None, fi_severity = is_severity x, fi_description = Some (is_description x),
     fi_remediation = Some (is_advice x), fi_status = OPEN, fi_source = Some web_stage,
     fi_fingerprint = build_fingerprint sha (Some asset_id) (is_title x) None None, fi_evidence = is_evidence x,
     fi_references = [], fi_first_seen = Some now, fi_last_seen = Some now, fi_resolved = None, fi_created = now\<rparr>"

definition record_issue :: "(string \<Rightarrow> string) \<Rightarrow> int \<Rightarrow> scan_ctx \<Rightarrow> nat \<Rightarrow> estate \<Rightarrow> issue \<Rightarrow> estate" where
  "record_issue sha now ctx asset_id es x =
    fst (upsert_finding (issue_finding sha now ctx (next_id es) asset_id x) (stamp_seen now ctx) es)"

text \<open>The estate afterwards and the number of findings written.\<close>

definition record_findings ::
    "(string \<Rightarrow> string) \<Rightarrow> int \<Rightarrow> scan_ctx \<Rightarrow> nat \<Rightarrow> string \<Rightarrow> (string \<times> web_page) list \<Rightarrow> tls_info option \<Rightarrow> estate \<Rightarrow> estate \<times> int" where
  "record_findings sha now ctx asset_id hostname http tls es =
    (let issues = host_issues hostname http tls
     in (foldl (record_issue sha now ctx asset_id) es issues, int (length issues)))"

section \<open>The task\<close>

record fingerprinting =
  fp_estate :: estate
  fp_hosts :: int
  fp_findings :: int

definition tech_listing :: "string \<Rightarrow> tech_entry list \<Rightarrow> string" where
  "tech_listing host techs =
    host @ '': '' @ join '', ''
      (map (\<lambda>t. text_of (te_name t) @ (if text_of (te_version t) \<noteq> [] then ''/'' @ text_of (te_version t) else [])) (take 8 techs))"

definition fingerprint_one ::
    "(string \<Rightarrow> string) \<Rightarrow> fetcher \<Rightarrow> lookup \<Rightarrow> handshake \<Rightarrow> int \<Rightarrow> scan_ctx \<Rightarrow> (string \<times> port_entry list) list \<Rightarrow> string \<Rightarrow>
      fingerprinting \<Rightarrow> fingerprinting" where
  "fingerprint_one sha fetch getaddrinfo handshake now ctx port_results host fp =
    (case fingerprint_host fetch getaddrinfo handshake now ctx host
        (case map_of port_results host of None \<Rightarrow> [] | Some ports \<Rightarrow> ports) (fp_estate fp) of
       (es1, hp) \<Rightarrow>
         if hp_http hp = [] then fp\<lparr>fp_estate := es1\<rparr>
         else
           let es2 = (if hp_tech hp = [] then es1 else log_line ctx web_stage now (tech_listing host (hp_tech hp)) es1)
           in case find_asset_host es2 (cx_org ctx) host of
                None \<Rightarrow> fp\<lparr>fp_estate := es2, fp_hosts := fp_hosts fp + 1\<rparr>
              | Some a \<Rightarrow>
                  (case record_findings sha now ctx (at_id a) host (hp_http hp) (hp_tls hp)
                      (update_asset_row (at_id a) (\<lambda>a. a\<lparr>at_tech := hp_tech hp, at_last_scanned := Some now\<rparr>) es2) of
                     (es3, n) \<Rightarrow> \<lparr>fp_estate = es3, fp_hosts = fp_hosts fp + 1, fp_findings = fp_findings fp + n\<rparr>))"

fun fingerprint_all ::
    "(string \<Rightarrow> string) \<Rightarrow> fetcher \<Rightarrow> lookup \<Rightarrow> handshake \<Rightarrow> int \<Rightarrow> scan_ctx \<Rightarrow> (string \<times> port_entry list) list \<Rightarrow> string list \<Rightarrow>
      fingerprinting \<Rightarrow> fingerprinting" where
  "fingerprint_all sha fetch getaddrinfo handshake now ctx port_results [] fp = fp"
| "fingerprint_all sha fetch getaddrinfo handshake now ctx port_results (host # hosts) fp =
     (if scan_cancelled ctx (fp_estate fp)
      then fp\<lparr>fp_estate := log_line ctx web_stage now ''Scan cancelled; stopping fingerprinting'' (fp_estate fp)\<rparr>
      else fingerprint_all sha fetch getaddrinfo handshake now ctx port_results hosts
        (fingerprint_one sha fetch getaddrinfo handshake now ctx port_results host fp))"

definition fingerprinter_run ::
    "(string \<Rightarrow> string) \<Rightarrow> fetcher \<Rightarrow> lookup \<Rightarrow> handshake \<Rightarrow> int \<Rightarrow> scan_ctx \<Rightarrow> string list \<Rightarrow> (string \<times> port_entry list) list \<Rightarrow>
      estate \<Rightarrow> estate" where
  "fingerprinter_run sha fetch getaddrinfo handshake now ctx hosts0 port_results es =
    (let es1 = enter_stage ctx web_stage 60 es in
     if passive_only ctx then log_line ctx web_stage now ''Passive mode: skipping HTTP fingerprinting'' es1
     else
       let hosts = (if hosts0 = [] then [cx_target ctx] else hosts0);
           fp = fingerprint_all sha fetch getaddrinfo handshake now ctx port_results hosts
             \<lparr>fp_estate = log_line ctx web_stage now (''Fingerprinting '' @ dec (int (length hosts)) @ '' host(s)'') es1, fp_hosts = 0, fp_findings = 0\<rparr>
       in log_line ctx web_stage now (''Fingerprinting complete: '' @ dec (fp_hosts fp) @ '' host(s) profiled, '' @ dec (fp_findings fp)
            @ '' configuration finding(s)'') (add_counters ctx 0 (fp_findings fp) (fp_estate fp)))"

section \<open>What it may touch\<close>

lemma fingerprint_host_keeps:
  "effects_of org e0 es \<Longrightarrow> effects_of org e0 (fst (fingerprint_host fetch g hs now ctx h ports es))"
  "es_assets (fst (fingerprint_host fetch g hs now ctx h ports es)) = es_assets es"
proof -
  have "effects_of org e0 (pf_estate pf) \<Longrightarrow> effects_of org e0 (pf_estate (foldl (probe_target fetch now ctx h) pf ts))" for pf ts
    by (induction ts arbitrary: pf) (simp_all add: probe_target_def Let_def effects_steps split: fetch_answer.splits)
  then show "effects_of org e0 es \<Longrightarrow> effects_of org e0 (fst (fingerprint_host fetch g hs now ctx h ports es))"
    by (simp add: fingerprint_host_def Let_def)
  have "es_assets (pf_estate (foldl (probe_target fetch now ctx h) pf ts)) = es_assets (pf_estate pf)" for pf ts
    by (induction ts arbitrary: pf) (simp_all add: probe_target_def Let_def split: fetch_answer.splits)
  then show "es_assets (fst (fingerprint_host fetch g hs now ctx h ports es)) = es_assets es"
    by (simp add: fingerprint_host_def Let_def)
qed

lemma record_issue_effects:
  assumes "has_asset (cx_org ctx) i es"
  shows "effects_of (cx_org ctx) es (record_issue sha now ctx i es x)" and "has_asset (cx_org ctx) i (record_issue sha now ctx i es x)"
proof -
  have "tenant_ok (es_assets es) (issue_finding sha now ctx (next_id es) i x)"
    by (rule tenant_ok_asset [OF assms]) (simp_all add: issue_finding_def)
  then show "effects_of (cx_org ctx) es (record_issue sha now ctx i es x)"
    unfolding record_issue_def by (rule upsert_effects [rotated 2]) (simp_all add: issue_finding_def keeps_stamp_seen)
  show "has_asset (cx_org ctx) i (record_issue sha now ctx i es x)"
    using assms by (simp add: record_issue_def has_asset_def)
qed

lemma record_findings_effects:
  assumes "effects_of (cx_org ctx) e0 es" and "has_asset (cx_org ctx) i es"
  shows "effects_of (cx_org ctx) e0 (fst (record_findings sha now ctx i h http tls es))"
proof -
  have "effects_of (cx_org ctx) e0 (foldl (record_issue sha now ctx i) es xs)" for xs
    using assms
  proof (induction xs arbitrary: es)
    case (Cons x xs)
    from Cons.IH [OF effects_then [OF Cons.prems(1) record_issue_effects(1) [OF Cons.prems(2)]] record_issue_effects(2) [OF Cons.prems(2)]]
    show ?case by simp
  qed simp
  then show ?thesis by (simp add: record_findings_def Let_def)
qed

lemma fingerprint_one_effects:
  assumes "estate_ok e0" and e: "effects_of (cx_org ctx) e0 (fp_estate fp)"
  shows "effects_of (cx_org ctx) e0 (fp_estate (fingerprint_one sha fetch g hs now ctx results host fp))"
proof -
  let ?ports = "case map_of results host of None \<Rightarrow> [] | Some ports \<Rightarrow> ports"
  obtain es1 hp where h: "fingerprint_host fetch g hs now ctx host ?ports (fp_estate fp) = (es1, hp)" by fastforce
  have e1: "effects_of (cx_org ctx) e0 es1" using fingerprint_host_keeps(1) [OF e, of fetch g hs now ctx host ?ports] h by simp
  define es2 where "es2 = (if hp_tech hp = [] then es1 else log_line ctx web_stage now (tech_listing host (hp_tech hp)) es1)"
  have e2: "effects_of (cx_org ctx) e0 es2" using e1 by (simp add: es2_def effects_steps)
  let ?f = "\<lambda>a. a\<lparr>at_tech := hp_tech hp, at_last_scanned := Some now\<rparr>"
  have f: "keeps_asset ?f" by (simp add: keeps_asset_def risk_ok_def)
  have "effects_of (cx_org ctx) e0 (fst (record_findings sha now ctx (at_id a) host (hp_http hp) (hp_tls hp) (update_asset_row (at_id a) ?f es2)))"
    if "find_asset_host es2 (cx_org ctx) host = Some a" for a
  proof -
    have "a \<in> set (es_assets es2)" "at_org a = cx_org ctx" using find_SomeD [OF that [unfolded find_asset_host_def]] by simp_all
    then have has: "has_asset (cx_org ctx) (at_id a) es2" using has_assetI by metis
    show ?thesis
    proof (rule record_findings_effects)
      show "effects_of (cx_org ctx) e0 (update_asset_row (at_id a) ?f es2)"
        by (rule effects_then [OF e2 edit_asset_effects [OF effects_keep_estate [OF e2 assms(1)] has f]])
      show "has_asset (cx_org ctx) (at_id a) (update_asset_row (at_id a) ?f es2)" using has by (simp add: edit_asset_tags [OF f])
    qed
  qed
  then show ?thesis
    using e1 e2 unfolding fingerprint_one_def h prod.case Let_def es2_def [symmetric]
    by (simp split: option.split prod.split) (metis fst_conv)
qed

lemma fingerprint_all_effects:
  "estate_ok e0 \<Longrightarrow> effects_of (cx_org ctx) e0 (fp_estate fp) \<Longrightarrow>
    effects_of (cx_org ctx) e0 (fp_estate (fingerprint_all sha fetch g hs now ctx results hosts fp))"
  by (induction sha fetch g hs now ctx results hosts fp rule: fingerprint_all.induct)
    (simp_all add: effects_steps fingerprint_one_effects)

lemma fingerprinter_effects:
  assumes "estate_ok es"
  shows "effects_of (cx_org ctx) es (fingerprinter_run sha fetch g hs now ctx hosts results es)"
  using fingerprint_all_effects [OF assms] by (simp add: fingerprinter_run_def Let_def effects_steps)

section \<open>What is detected\<close>

definition mentions :: "regex \<Rightarrow> string \<Rightarrow> bool" where
  "mentions r str \<longleftrightarrow> (\<exists>a u b. str = a @ u @ b \<and> lang r u)"

text \<open>The evidence for a technology in a response.\<close>

definition evident :: "signature \<Rightarrow> web_page \<Rightarrow> bool" where
  "evident sg page \<longleftrightarrow>
    (\<exists>r. sg_server sg = Some r \<and> mentions r (header page ''server'')) \<or>
    (\<exists>r. sg_powered sg = Some r \<and> mentions r (header page ''x-powered-by'')) \<or>
    (\<exists>r. sg_generator sg = Some r \<and> mentions r (generator_of page)) \<or>
    (\<exists>h \<in> set (sg_headers sg). h \<in> fst ` set (wp_headers page)) \<or>
    (\<exists>c \<in> set (sg_cookies sg). c \<in> lower ` set (wp_cookies page)) \<or>
    (\<exists>r. sg_body sg = Some r \<and> mentions r (wp_body page))"

text \<open>The texts a version can come from.\<close>

definition quoted :: "web_page \<Rightarrow> string \<Rightarrow> bool" where
  "quoted page v \<longleftrightarrow> sublist v (header page ''server'') \<or> sublist v (header page ''x-powered-by'') \<or>
    sublist v (generator_of page) \<or> sublist v (wp_body page)"

lemma match_version_hit: "fst (match_version r str) \<longleftrightarrow> mentions r str"
  unfolding mentions_def search_iff [symmetric] by (simp add: match_version_def split: option.splits)

lemma match_version_quotes: "snd (match_version r str) = Some v \<Longrightarrow> sublist v str"
  by (auto simp: match_version_def sublist_def split: option.splits if_splits dest: search_group)

definition signal_ok :: "web_page \<Rightarrow> bool \<Rightarrow> signal \<Rightarrow> bool" where
  "signal_ok page seen x \<longleftrightarrow> (case x of (version, confidence) \<Rightarrow>
    (confidence = 0 \<longleftrightarrow> \<not> seen) \<and> (seen \<longrightarrow> 60 \<le> confidence \<and> confidence \<le> 95) \<and> (\<forall>v. version = Some v \<longrightarrow> quoted page v))"

lemma text_signal_ok:
  assumes "signal_ok page seen x" and "\<And>v. sublist v str \<Longrightarrow> quoted page v"
    and "60 \<le> yes" "yes \<le> 95" "60 \<le> no" "no \<le> 95" "60 \<le> limit"
  shows "signal_ok page (seen \<or> (\<exists>r. pattern = Some r \<and> mentions r str)) (text_signal limit yes no pattern str x)"
proof -
  obtain version confidence where x: "x = (version, confidence)" by fastforce
  show ?thesis
  proof (cases pattern)
    case None
    then show ?thesis using assms(1) by (simp add: text_signal_def x)
  next
    case (Some r)
    obtain hit ver where m: "match_version r str = (hit, ver)" by fastforce
    have hit: "hit \<longleftrightarrow> mentions r str" using match_version_hit [of r str] m by simp
    have q: "ver = Some v \<Longrightarrow> quoted page v" for v using match_version_quotes [of r str v] assms(2) m by simp
    show ?thesis
    proof (cases "confidence < limit \<and> hit")
      case True
      then show ?thesis using assms hit q by (auto simp: text_signal_def x Some m signal_ok_def scored_def)
    next
      case False
      then have "text_signal limit yes no pattern str x = x" by (auto simp: text_signal_def x Some m)
      moreover have "seen \<or> \<not> hit" using False assms(1,7) by (auto simp: signal_ok_def x)
      ultimately show ?thesis using assms(1) hit Some by (auto simp: signal_ok_def)
    qed
  qed
qed

lemma presence_signal_ok:
  assumes "signal_ok page seen x" and "60 \<le> score" "score \<le> 80"
  shows "signal_ok page (seen \<or> present) (presence_signal score present x)"
  using assms by (cases x) (auto simp: signal_ok_def presence_signal_def)

lemma server_signal_ok: "signal_ok page (\<exists>r. sg_server sg = Some r \<and> mentions r (header page ''server'')) (server_signal sg page)"
proof (cases "sg_server sg")
  case (Some r)
  obtain hit ver where m: "match_version r (header page ''server'') = (hit, ver)" by fastforce
  have "hit \<longleftrightarrow> mentions r (header page ''server'')" using match_version_hit [of r "header page ''server''"] m by simp
  moreover have "ver = Some v \<Longrightarrow> quoted page v" for v using match_version_quotes [of r _ v] m by (auto simp: quoted_def)
  ultimately show ?thesis by (auto simp: signal_ok_def server_signal_def Some m scored_def)
qed (simp add: signal_ok_def server_signal_def)

lemma detect_ok: "signal_ok page (evident sg page) (detect sg page)"
proof -
  have "signal_ok page
      (((((( \<exists>r. sg_server sg = Some r \<and> mentions r (header page ''server'')) \<or>
        (\<exists>r. sg_powered sg = Some r \<and> mentions r (header page ''x-powered-by''))) \<or>
        (\<exists>r. sg_generator sg = Some r \<and> mentions r (generator_of page))) \<or>
        list_ex (\<lambda>h. h \<in> fst ` set (wp_headers page)) (sg_headers sg)) \<or>
        list_ex (\<lambda>c. c \<in> lower ` set (wp_cookies page)) (sg_cookies sg)) \<or>
        (\<exists>r. sg_body sg = Some r \<and> mentions r (wp_body page)))
      (detect sg page)"
    unfolding detect_def by (intro text_signal_ok presence_signal_ok server_signal_ok) (auto simp: quoted_def)
  then show ?thesis by (simp add: evident_def list_ex_iff disj_assoc Bex_def)
qed

lemma tech_of_ok:
  "tech_of page (name, sg) = Some t \<Longrightarrow>
    te_name t = Some name \<and> evident sg page \<and> 60 \<le> te_confidence t \<and> te_confidence t \<le> 95 \<and>
    (te_version t = None \<or> quoted page (text_of (te_version t)))"
  "tech_of page (name, sg) = None \<longleftrightarrow> \<not> evident sg page"
  using detect_ok [of page sg]
  by (auto simp: tech_of_def signal_ok_def text_of_def split: prod.splits if_splits option.splits)

text \<open>
  C32: detections are exactly the evident ones. A technology is reported for a response if and
  only if one of its signals is there: its pattern occurs in the header, the generator or the
  body it is about, or one of its headers or cookies is present. Each is reported once, the
  most certain first, with a confidence from 60 to 95, and a version is always a text the
  response itself contains.
\<close>

theorem detections_are_evident:
  "(\<lambda>t. text_of (te_name t)) ` set (identify page) = fst ` {x \<in> set signatures. evident (snd x) page} \<and>
   distinct (map te_name (identify page)) \<and> sorted_wrt (\<lambda>s t. te_confidence t \<le> te_confidence s) (identify page) \<and>
   list_all (\<lambda>t. 60 \<le> te_confidence t \<and> te_confidence t \<le> 95 \<and>
     (te_version t = None \<or> quoted page (text_of (te_version t)))) (identify page)"
proof -
  have set_id: "set (identify page) = {t. \<exists>x \<in> set signatures. tech_of page x = Some t}"
    by (simp add: identify_def map_filter_def) force
  have "sorted_wrt (\<lambda>s t. te_confidence t \<le> te_confidence s) (identify page)"
    using sorted_sort_key [of "\<lambda>t. - te_confidence t" "List.map_filter (tech_of page) signatures"]
    by (simp add: identify_def sorted_map)
  moreover have "distinct (map te_name (identify page))"
  proof -
    have "distinct (map fst signatures)" by (simp add: signatures_def)
    moreover have "map te_name (List.map_filter (tech_of page) xs) = map (Some \<circ> fst) (filter (\<lambda>x. tech_of page x \<noteq> None) xs)" for xs
      by (induction xs) (auto simp: map_filter_simps tech_of_ok split: option.splits)
    ultimately have "distinct (map te_name (List.map_filter (tech_of page) signatures))"
      by (simp add: distinct_map inj_on_def distinct_filter)
    then show ?thesis by (simp add: identify_def distinct_map)
  qed
  moreover have "(\<lambda>t. text_of (te_name t)) ` set (identify page) = fst ` {x \<in> set signatures. evident (snd x) page}"
  proof (intro set_eqI iffI)
    fix n assume "n \<in> (\<lambda>t. text_of (te_name t)) ` set (identify page)"
    then obtain t name sg where "(name, sg) \<in> set signatures" "tech_of page (name, sg) = Some t" "n = text_of (te_name t)"
      by (auto simp: set_id)
    then show "n \<in> fst ` {x \<in> set signatures. evident (snd x) page}" using tech_of_ok(1) [of page name sg t] by (force simp: text_of_def)
  next
    fix n assume "n \<in> fst ` {x \<in> set signatures. evident (snd x) page}"
    then obtain sg where sg: "(n, sg) \<in> set signatures" "evident sg page" by auto
    then obtain t where t: "tech_of page (n, sg) = Some t" using tech_of_ok(2) [of page n sg] by auto
    then have "n = text_of (te_name t)" using tech_of_ok(1) [OF t] by (simp add: text_of_def)
    then show "n \<in> (\<lambda>t. text_of (te_name t)) ` set (identify page)" using sg t by (auto simp: set_id)
  qed
  moreover have "list_all (\<lambda>t. 60 \<le> te_confidence t \<and> te_confidence t \<le> 95 \<and>
     (te_version t = None \<or> quoted page (text_of (te_version t)))) (identify page)"
    using tech_of_ok(1) by (fastforce simp: set_id list_all_iff)
  ultimately show ?thesis by blast
qed

section \<open>The certificate checks\<close>

text \<open>
  An expired certificate is never reported. The handshake runs without validation, and
  then Python gives no certificate fields, so that whatever the server presents and however
  long ago it expired, no finding about a certificate comes out of a host.
\<close>

lemma expiry_is_never_reported:
  "let hp = snd (fingerprint_host fetch getaddrinfo handshake now ctx hostname ports es)
   in list_all (\<lambda>x. \<not> prefix ''TLS certificate'' (is_title x)) (host_issues hostname (hp_http hp) (hp_tls hp))"
proof -
  let ?hp = "snd (fingerprint_host fetch getaddrinfo handshake now ctx hostname ports es)"
  have "tl_days tls = None" if "check_tls getaddrinfo handshake now hostname port = Some tls" for port tls
    using that by (auto simp: check_tls_def getpeercert_def Let_def split: sum.splits)
  then have tls: "tl_days tls = None" if "hp_tls ?hp = Some tls" for tls
    using that by (auto simp: fingerprint_host_def Let_def split: list.splits)
  have "list_all (\<lambda>x. \<not> prefix ''TLS certificate'' (is_title x)) (page_issues hostname x)" for x
    by (cases x) (simp add: page_issues_def missing_headers_def security_headers_def Let_def)
  then have "list_all (\<lambda>x. \<not> prefix ''TLS certificate'' (is_title x)) (concat (map (page_issues hostname) http))" for http
    by (induction http) simp_all
  moreover have "list_all (\<lambda>x. \<not> prefix ''TLS certificate'' (is_title x)) (tls_issues hostname tls)" if "tl_days tls = None" for tls
    by (simp add: tls_issues_def that)
  ultimately show ?thesis using tls by (simp add: host_issues_def Let_def split: option.split)
qed

text \<open>Examples of the patterns at work.\<close>

lemma jquery_version: "match_version (the (sg_body (the (map_of signatures ''jquery'')))) ''<script src=/js/jquery-3.6.0.min.js>'' = (True, Some ''3.6.0'')"
  by code_simp

lemma wordpress_generator:
  "generator_of \<lparr>wp_status = 200, wp_headers = [], wp_body = ''<head><meta name='' @ [CHR 0x22] @ ''generator'' @ [CHR 0x22] @ '' content=''
     @ [CHR 0x22] @ ''WordPress 6.4'' @ [CHR 0x22] @ ''/>'', wp_cookies = []\<rparr> = ''WordPress 6.4''"
  by code_simp

lemma iso_example: "iso_utc 1709210096000000 = ''2024-02-29T12:34:56+00:00''"
  by code_simp

end
