(* ===== verification/CveCorrelator.thy ===== *)
theory CveCorrelator
  imports EstateEffects "HOL-Library.Product_Lexorder"
begin

text \<open>
  CVE correlation, \<open>workers/cve_correlator.py\<close>. The answer of the NVD to a CPE name
  is a parameter; the lookup cache is a map from its Redis keys, or unreachable. Waiting for the
  rate limit takes time only and is left out. The tasks the stage sends are part of its result.
\<close>

definition cve_stage :: string where
  "cve_stage = ''cve_correlator''"

definition cache_key :: "string \<Rightarrow> string \<Rightarrow> string" where
  "cache_key product version = ''cve:lookup:'' @ product @ '':'' @ version"

section \<open>Records of the NVD\<close>

record cve_entry =
  ce_id :: string
  ce_description :: string
  ce_cvss :: "rat option"
  ce_vector :: "string option"
  ce_published :: json
  ce_references :: "string list"

fun json_get :: "string \<Rightarrow> json \<Rightarrow> json" where
  "json_get k (JObj kvs) = (case map_of kvs k of None \<Rightarrow> JNull | Some v \<Rightarrow> v)"
| "json_get k _ = JNull"

fun json_list :: "json \<Rightarrow> json list" where
  "json_list (JList js) = js"
| "json_list _ = []"

fun json_str :: "json \<Rightarrow> string option" where
  "json_str (JStr s) = Some s"
| "json_str _ = None"

fun json_num :: "json \<Rightarrow> rat option" where
  "json_num (JNum x) = Some x"
| "json_num _ = None"

definition english_description :: "json list \<Rightarrow> string" where
  "english_description entries =
    (case find (\<lambda>e. json_str (json_get ''lang'' e) = Some ''en'') entries of
       None \<Rightarrow> []
     | Some e \<Rightarrow> (case json_str (json_get ''value'' e) of None \<Rightarrow> [] | Some v \<Rightarrow> v))"

text \<open>The newest scoring that the record has.\<close>

definition cvss_data :: "json \<Rightarrow> json" where
  "cvss_data metrics =
    (case find (\<lambda>k. json_list (json_get k metrics) \<noteq> []) [''cvssMetricV31'', ''cvssMetricV30'', ''cvssMetricV2''] of
       None \<Rightarrow> JNull
     | Some k \<Rightarrow> json_get ''cvssData'' (hd (json_list (json_get k metrics))))"

definition parse_cve :: "json \<Rightarrow> cve_entry option" where
  "parse_cve item =
    (let cve = json_get ''cve'' item in
     case json_str (json_get ''id'' cve) of
       None \<Rightarrow> None
     | Some i \<Rightarrow>
         (if i = [] then None
          else let data = cvss_data (json_get ''metrics'' cve) in
            Some \<lparr>ce_id = i, ce_description = english_description (json_list (json_get ''descriptions'' cve)),
              ce_cvss = json_num (json_get ''baseScore'' data), ce_vector = json_str (json_get ''vectorString'' data),
              ce_published = json_get ''published'' cve,
              ce_references = slice_to 8 (filter (\<lambda>u. u \<noteq> [])
                (List.map_filter (\<lambda>r. json_str (json_get ''url'' r)) (json_list (json_get ''references'' cve))))\<rparr>))"

section \<open>Lookups\<close>

datatype nvd_answer = Nvd_error string | Nvd_status int "json option"

text \<open>The service, asked with the CPE name of a product and a version.\<close>

type_synonym nvd = "string \<Rightarrow> nvd_answer"

definition cpe_name :: "string \<Rightarrow> string \<Rightarrow> string" where
  "cpe_name product version = ''cpe:2.3:a:*:'' @ product @ '':'' @ version @ '':*:*:*:*:*:*:*''"

text \<open>None is a cache that does not answer.\<close>

type_synonym cve_cache = "(string \<rightharpoonup> cve_entry list) option"

definition cached :: "cve_cache \<Rightarrow> string \<Rightarrow> string \<Rightarrow> cve_entry list option" where
  "cached cache product version = (case cache of None \<Rightarrow> None | Some m \<Rightarrow> m (cache_key product version))"

definition store_cache :: "string \<Rightarrow> string \<Rightarrow> cve_entry list \<Rightarrow> cve_cache \<Rightarrow> cve_cache" where
  "store_cache product version entries cache =
    (case cache of None \<Rightarrow> None | Some m \<Rightarrow> Some (m(cache_key product version \<mapsto> entries)))"

text \<open>The entries, and the warning that is logged, if any.\<close>

definition query_nvd :: "nvd \<Rightarrow> string \<Rightarrow> string \<Rightarrow> cve_entry list \<times> string option" where
  "query_nvd ask product version =
    (case ask (cpe_name product version) of
       Nvd_error e \<Rightarrow> ([], Some (''NVD lookup failed for '' @ product @ '' '' @ version @ '': '' @ e))
     | Nvd_status code body \<Rightarrow>
         (if code = 404 then ([], None)
          else if code = 403 then ([], Some ''NVD rejected the request (rate limit or invalid API key)'')
          else if code \<noteq> 200 then ([], Some (''NVD returned HTTP '' @ dec code @ '' for '' @ product @ '' '' @ version))
          else case body of
            None \<Rightarrow> ([], None)
          | Some payload \<Rightarrow> (List.map_filter parse_cve (json_list (json_get ''vulnerabilities'' payload)), None)))"

definition tech_pair :: "tech_entry \<Rightarrow> (string \<times> string) option" where
  "tech_pair t =
    (let name = lower (strip (text_of (te_name t))); version = strip (text_of (te_version t)) in
     if name \<noteq> [] \<and> version \<noteq> [] then Some (name, version) else None)"

definition version_pairs :: "tech_entry list \<Rightarrow> (string \<times> string) list" where
  "version_pairs ts = sort (remdups (List.map_filter tech_pair ts))"

record lookups =
  lk_estate :: estate
  lk_cache :: cve_cache
  lk_found :: "((string \<times> string) \<times> cve_entry list) list"

fun lookup_all :: "nvd \<Rightarrow> int \<Rightarrow> scan_ctx \<Rightarrow> (string \<times> string) list \<Rightarrow> lookups \<Rightarrow> lookups" where
  "lookup_all ask now ctx [] lk = lk"
| "lookup_all ask now ctx ((product, version) # pairs) lk =
     (if scan_cancelled ctx (lk_estate lk)
      then lk\<lparr>lk_estate := log_line ctx cve_stage now ''Scan cancelled; stopping CVE correlation'' (lk_estate lk)\<rparr>
      else case cached (lk_cache lk) product version of
        Some entries \<Rightarrow> lookup_all ask now ctx pairs (lk\<lparr>lk_found := lk_found lk @ [((product, version), entries)]\<rparr>)
      | None \<Rightarrow>
          (case query_nvd ask product version of (entries, warning) \<Rightarrow>
             let es1 = (case warning of None \<Rightarrow> lk_estate lk | Some w \<Rightarrow> log_line ctx cve_stage now w (lk_estate lk));
                 es2 = (if entries = [] then es1
                   else log_line ctx cve_stage now (product @ '' '' @ version @ '': '' @ dec (int (length entries)) @ '' known CVE(s)'') es1)
             in lookup_all ask now ctx pairs
                  (lk\<lparr>lk_estate := es2, lk_cache := store_cache product version entries (lk_cache lk),
                      lk_found := lk_found lk @ [((product, version), entries)]\<rparr>)))"

section \<open>Findings\<close>

definition remediation_for :: "string \<Rightarrow> string \<Rightarrow> string \<Rightarrow> string" where
  "remediation_for product version cve_id =
    ''Upgrade '' @ product @ '' beyond '' @ version @ '' to a release that patches '' @ cve_id @ ''. ''
      @ ''If an immediate upgrade is not possible, check the vendor advisory for a ''
      @ ''workaround and restrict network access to the affected service in the meantime.''"

definition cve_title :: "string \<Rightarrow> string \<Rightarrow> string \<Rightarrow> cve_entry \<Rightarrow> string" where
  "cve_title name version hostname e = ce_id e @ '' in '' @ name @ '' '' @ version @ '' on '' @ hostname"

definition cve_finding ::
    "(string \<Rightarrow> string) \<Rightarrow> int \<Rightarrow> scan_ctx \<Rightarrow> nat \<Rightarrow> nat \<Rightarrow> string \<Rightarrow> string \<times> string \<Rightarrow> int \<Rightarrow> cve_entry \<Rightarrow> finding_row" where
  "cve_finding sha now ctx i asset_id hostname pair confidence e =
    (case pair of (name, version) \<Rightarrow>
      \<lparr>fi_id = i, fi_org = cx_org ctx, fi_asset = Some asset_id, fi_scan = Some (cx_scan ctx),
       fi_title = cve_title name version hostname e, fi_cve = Some (ce_id e), fi_cvss = ce_cvss e, fi_vector = ce_vector e,
       fi_severity = from_cvss (ce_cvss e),
       fi_description = (let d = slice_to 8000 (ce_description e) in if d = [] then None else Some d),
       fi_remediation = Some (remediation_for name version (ce_id e)), fi_status = OPEN, fi_source = Some cve_stage,
       fi_fingerprint = build_fingerprint sha (Some asset_id) (cve_title name version hostname e) (Some (ce_id e)) None,
       fi_evidence = [(''product'', JStr name), (''version'', JStr version), (''hostname'', JStr hostname),
         (''published'', ce_published e), (''detection_confidence'', JNum (of_int confidence))],
       fi_references = ce_references e, fi_first_seen = Some now, fi_last_seen = Some now, fi_resolved = None, fi_created = now\<rparr>)"

definition reconfirm_cve :: "int \<Rightarrow> scan_ctx \<Rightarrow> cve_entry \<Rightarrow> finding_row \<Rightarrow> finding_row" where
  "reconfirm_cve now ctx e f =
    f\<lparr>fi_last_seen := Some now, fi_scan := Some (cx_scan ctx), fi_cvss := ce_cvss e, fi_severity := from_cvss (ce_cvss e)\<rparr>"

record alert =
  al_finding :: nat
  al_title :: string
  al_hostname :: string
  al_cve :: string
  al_cvss :: "rat option"
  al_severity :: severity

record attach =
  ac_estate :: estate
  ac_count :: int
  ac_new :: "nat list"
  ac_critical :: "alert list"

fun severity_name :: "severity \<Rightarrow> string" where
  "severity_name INFO = ''info''"
| "severity_name LOW = ''low''"
| "severity_name MEDIUM = ''medium''"
| "severity_name HIGH = ''high''"
| "severity_name CRITICAL = ''critical''"

definition cve_log :: "string \<Rightarrow> string \<times> string \<Rightarrow> cve_entry \<Rightarrow> string" where
  "cve_log hostname pair e =
    hostname @ '': '' @ ce_id e @ '' ('' @ severity_name (from_cvss (ce_cvss e)) @ '', CVSS ''
      @ (case ce_cvss e of None \<Rightarrow> ''None'' | Some x \<Rightarrow> show_float x) @ '') affects '' @ fst pair @ '' '' @ snd pair"

text \<open>One CVE on one asset. A row that comes back with \<open>first_seen\<close> equal to \<open>now\<close> counts as new.\<close>

definition attach_cve ::
    "(string \<Rightarrow> string) \<Rightarrow> int \<Rightarrow> scan_ctx \<Rightarrow> nat \<Rightarrow> string \<Rightarrow> string \<times> string \<Rightarrow> int \<Rightarrow> attach \<Rightarrow> cve_entry \<Rightarrow> attach" where
  "attach_cve sha now ctx asset_id hostname pair confidence ac e =
    (case upsert_finding (cve_finding sha now ctx (next_id (ac_estate ac)) asset_id hostname pair confidence e)
        (reconfirm_cve now ctx e) (ac_estate ac) of
       (es1, i, first_seen) \<Rightarrow>
         (let severity = from_cvss (ce_cvss e); is_new = (first_seen = Some now);
              es2 = (if severity \<in> {CRITICAL, HIGH} then log_line ctx cve_stage now (cve_log hostname pair e) es1 else es1)
          in \<lparr>ac_estate = es2, ac_count = ac_count ac + 1, ac_new = (if is_new then ac_new ac @ [i] else ac_new ac),
              ac_critical = (if is_new \<and> severity = CRITICAL
                then ac_critical ac @ [\<lparr>al_finding = i, al_title = cve_title (fst pair) (snd pair) hostname e, al_hostname = hostname,
                  al_cve = ce_id e, al_cvss = ce_cvss e, al_severity = severity\<rparr>]
                else ac_critical ac)\<rparr>))"

definition attach_tech ::
    "(string \<Rightarrow> string) \<Rightarrow> int \<Rightarrow> scan_ctx \<Rightarrow> ((string \<times> string) \<times> cve_entry list) list \<Rightarrow> nat \<Rightarrow> string \<Rightarrow> attach \<Rightarrow> tech_entry \<Rightarrow> attach" where
  "attach_tech sha now ctx found asset_id hostname ac t =
    (case tech_pair t of
       None \<Rightarrow> ac
     | Some pair \<Rightarrow>
         foldl (attach_cve sha now ctx asset_id hostname pair (te_confidence t)) ac
           (case map_of found pair of None \<Rightarrow> [] | Some es \<Rightarrow> es))"

definition attach_asset ::
    "(string \<Rightarrow> string) \<Rightarrow> int \<Rightarrow> scan_ctx \<Rightarrow> ((string \<times> string) \<times> cve_entry list) list \<Rightarrow> attach \<Rightarrow> nat \<times> string \<times> tech_entry list \<Rightarrow> attach" where
  "attach_asset sha now ctx found ac x =
    (case x of (asset_id, hostname, techs) \<Rightarrow>
       let ac1 = foldl (attach_tech sha now ctx found asset_id hostname) ac techs
       in if ac_count ac1 = ac_count ac then ac1
          else ac1\<lparr>ac_estate := rescore (cx_org ctx) asset_id open_ports (ac_estate ac1)\<rparr>)"

definition attach_all ::
    "(string \<Rightarrow> string) \<Rightarrow> int \<Rightarrow> scan_ctx \<Rightarrow> ((string \<times> string) \<times> cve_entry list) list \<Rightarrow> (nat \<times> string \<times> tech_entry list) list \<Rightarrow> estate \<Rightarrow> attach" where
  "attach_all sha now ctx found assets es =
    foldl (attach_asset sha now ctx found) \<lparr>ac_estate = es, ac_count = 0, ac_new = [], ac_critical = []\<rparr> assets"

section \<open>The task\<close>

definition asset_tech :: "nat \<Rightarrow> string list \<Rightarrow> estate \<Rightarrow> (nat \<times> string \<times> tech_entry list) list" where
  "asset_tech org_id hosts es =
    map (\<lambda>a. (at_id a, at_hostname a, at_tech a)) (filter (\<lambda>a. at_org a = org_id \<and> at_hostname a \<in> set hosts) (es_assets es))"

text \<open>The tasks sent at the end: enrichment of new findings, one alert for new critical ones.\<close>

record cve_tasks =
  ct_enrich :: "nat list"
  ct_notify :: "alert list"

definition cve_correlator_run ::
    "(string \<Rightarrow> string) \<Rightarrow> nvd \<Rightarrow> int \<Rightarrow> scan_ctx \<Rightarrow> string list \<Rightarrow> cve_cache \<Rightarrow> estate \<Rightarrow> estate \<times> cve_cache \<times> cve_tasks" where
  "cve_correlator_run sha ask now ctx hosts0 cache es =
    (let es1 = enter_stage ctx cve_stage 80 es;
         hosts = (if hosts0 = [] then [cx_target ctx] else hosts0);
         assets = asset_tech (cx_org ctx) hosts es1;
         pairs = version_pairs (concat (map (\<lambda>x. snd (snd x)) assets))
     in if pairs = []
        then (log_line ctx cve_stage now ''No versioned technologies detected; nothing to correlate against NVD'' es1, cache,
              \<lparr>ct_enrich = [], ct_notify = []\<rparr>)
        else
          let es2 = log_line ctx cve_stage now (''Correlating '' @ dec (int (length pairs)) @ '' product/version pair(s) against NVD'') es1;
              lk = lookup_all ask now ctx pairs \<lparr>lk_estate = es2, lk_cache = cache, lk_found = []\<rparr>;
              ac = attach_all sha now ctx (lk_found lk) assets (lk_estate lk);
              es3 = add_counters ctx 0 (ac_count ac) (ac_estate ac);
              es4 = log_line ctx cve_stage now (''CVE correlation complete: '' @ dec (ac_count ac) @ '' vulnerability finding(s) recorded'') es3
          in (es4, lk_cache lk, \<lparr>ct_enrich = ac_new ac, ct_notify = ac_critical ac\<rparr>))"

section \<open>What it may touch\<close>

lemma keeps_reconfirm_cve: "keeps_finding (reconfirm_cve now ctx e)"
  by (simp add: keeps_finding_def reconfirm_cve_def)

definition attach_ok :: "nat \<Rightarrow> estate \<Rightarrow> attach \<Rightarrow> bool" where
  "attach_ok org es ac \<longleftrightarrow> effects_of org es (ac_estate ac) \<and> asset_tag ` set (es_assets (ac_estate ac)) = asset_tag ` set (es_assets es)"

lemma attach_okD: "attach_ok org es ac \<Longrightarrow> has_asset org i (ac_estate ac) = has_asset org i es"
  by (simp add: attach_ok_def has_asset_def)

lemma attach_cve_ok:
  assumes "attach_ok (cx_org ctx) es ac" and "has_asset (cx_org ctx) i es"
  shows "attach_ok (cx_org ctx) es (attach_cve sha now ctx i h pair k ac e)"
proof -
  let ?es = "ac_estate ac"
  let ?f = "cve_finding sha now ctx (next_id ?es) i h pair k e"
  have "has_asset (cx_org ctx) i ?es" using assms attach_okD by blast
  then have "tenant_ok (es_assets ?es) ?f"
    by (rule tenant_ok_asset) (simp_all add: cve_finding_def split: prod.splits)
  then have up: "effects_of (cx_org ctx) ?es (fst (upsert_finding ?f (reconfirm_cve now ctx e) ?es))"
    by (rule upsert_effects [rotated 2]) (simp_all add: cve_finding_def keeps_reconfirm_cve split: prod.splits)
  obtain es1 j seen where u: "upsert_finding ?f (reconfirm_cve now ctx e) ?es = (es1, j, seen)" by (cases "upsert_finding ?f (reconfirm_cve now ctx e) ?es") auto
  have es1: "effects_of (cx_org ctx) es es1" "es_assets es1 = es_assets ?es"
    using effects_then [of "cx_org ctx" es ?es es1] up assms(1) u upsert_simps [of ?f "reconfirm_cve now ctx e" ?es]
    by (simp_all add: attach_ok_def)
  have "effects_of (cx_org ctx) es (log_line ctx cve_stage now m es1)" for m
    by (rule effects_then [OF es1(1) context_effects(1)])
  then show ?thesis using es1 assms(1) by (simp add: attach_cve_def u Let_def attach_ok_def)
qed

lemma foldl_keep: "P a \<Longrightarrow> (\<And>a x. x \<in> set xs \<Longrightarrow> P a \<Longrightarrow> P (f a x)) \<Longrightarrow> P (foldl f a xs)"
  by (induction xs arbitrary: a) auto

lemma attach_tech_ok:
  "attach_ok (cx_org ctx) es ac \<Longrightarrow> has_asset (cx_org ctx) i es \<Longrightarrow> attach_ok (cx_org ctx) es (attach_tech sha now ctx found i h ac t)"
  by (auto simp: attach_tech_def intro!: foldl_keep [where P = "attach_ok (cx_org ctx) es"] attach_cve_ok split: option.splits)

lemma attach_asset_ok:
  assumes "estate_ok es" and "attach_ok (cx_org ctx) es ac" and "has_asset (cx_org ctx) (fst x) es"
  shows "attach_ok (cx_org ctx) es (attach_asset sha now ctx found ac x)"
proof -
  obtain i h ts where x: "x = (i, h, ts)" by (cases x) auto
  let ?ac = "foldl (attach_tech sha now ctx found i h) ac ts"
  have ac: "attach_ok (cx_org ctx) es ?ac"
    by (rule foldl_keep [where P = "attach_ok (cx_org ctx) es", OF assms(2)]) (use assms(3) in \<open>simp add: x attach_tech_ok\<close>)
  then have e: "effects_of (cx_org ctx) es (ac_estate ?ac)" by (simp add: attach_ok_def)
  have "has_asset (cx_org ctx) i (ac_estate ?ac)" using assms(3) by (simp add: x attach_okD [OF ac])
  then have "effects_of (cx_org ctx) es (rescore (cx_org ctx) i open_ports (ac_estate ?ac))"
    by (rule effects_then [OF e rescore_effects [OF effects_keep_estate [OF e assms(1)]]])
  moreover have "asset_tag ` set (es_assets (rescore (cx_org ctx) i open_ports (ac_estate ?ac))) = asset_tag ` set (es_assets (ac_estate ?ac))"
    by (simp add: rescore_def update_asset_tags [OF rescore_keeps])
  ultimately show ?thesis using ac by (simp add: attach_asset_def x Let_def attach_ok_def)
qed

lemma attach_all_ok:
  assumes "estate_ok es" and "list_all (\<lambda>x. has_asset (cx_org ctx) (fst x) es) assets"
  shows "attach_ok (cx_org ctx) es (attach_all sha now ctx found assets es)"
  unfolding attach_all_def
  by (rule foldl_keep) (use assms attach_asset_ok in \<open>auto simp: attach_ok_def list_all_iff\<close>)

lemma lookup_all_effects:
  "effects_of org (lk_estate lk) (lk_estate (lookup_all ask now ctx pairs lk)) \<and>
    es_assets (lk_estate (lookup_all ask now ctx pairs lk)) = es_assets (lk_estate lk)"
proof (induction ask now ctx pairs lk rule: lookup_all.induct)
  case (2 ask now ctx product version pairs lk)
  show ?case
  proof (cases "scan_cancelled ctx (lk_estate lk)")
    case False
    show ?thesis
    proof (cases "cached (lk_cache lk) product version")
      case (Some entries)
      then show ?thesis using 2(2) [OF False Some] False by simp
    next
      case None
      obtain entries warning where q: "query_nvd ask product version = (entries, warning)" by fastforce
      let ?es1 = "case warning of None \<Rightarrow> lk_estate lk | Some w \<Rightarrow> log_line ctx cve_stage now w (lk_estate lk)"
      let ?es2 = "if entries = [] then ?es1
        else log_line ctx cve_stage now (product @ '' '' @ version @ '': '' @ dec (int (length entries)) @ '' known CVE(s)'') ?es1"
      have e1: "effects_of org (lk_estate lk) ?es1" "es_assets ?es1 = es_assets (lk_estate lk)"
        by (simp_all add: context_effects split: option.splits)
      then have e2: "effects_of org (lk_estate lk) ?es2" "es_assets ?es2 = es_assets (lk_estate lk)"
        using effects_then [OF e1(1) context_effects(1)] by simp_all
      have "effects_of org ?es2 (lk_estate (lookup_all ask now ctx pairs
            (lk\<lparr>lk_estate := ?es2, lk_cache := store_cache product version entries (lk_cache lk),
                lk_found := lk_found lk @ [((product, version), entries)]\<rparr>))) \<and>
          es_assets (lk_estate (lookup_all ask now ctx pairs
            (lk\<lparr>lk_estate := ?es2, lk_cache := store_cache product version entries (lk_cache lk),
                lk_found := lk_found lk @ [((product, version), entries)]\<rparr>))) = es_assets ?es2"
        using 2(1) [OF False None q [symmetric] refl refl] by simp
      then show ?thesis using False None q e2 effects_then [OF e2(1)] by (simp add: Let_def)
    qed
  qed (simp add: context_effects)
qed simp

lemma cve_correlator_effects:
  assumes "estate_ok es"
  shows "effects_of (cx_org ctx) es (fst (cve_correlator_run sha ask now ctx hosts cache es))"
proof -
  let ?org = "cx_org ctx" and ?es1 = "enter_stage ctx cve_stage 80 es"
  have log: "effects_of ?org es (log_line ctx cve_stage now m es')" if "effects_of ?org es es'" for m es'
    using effects_then [OF that context_effects(1)] .
  have e1: "effects_of ?org es (log_line ctx cve_stage now m ?es1)" for m by (rule log [OF context_effects(2)])
  have "effects_of ?org es (ac_estate (attach_all sha now ctx found (asset_tech ?org hs ?es1) (lk_estate (lookup_all ask now ctx pairs
      \<lparr>lk_estate = log_line ctx cve_stage now m ?es1, lk_cache = cache, lk_found = []\<rparr>))))" (is "effects_of _ _ (ac_estate (attach_all _ _ _ _ _ ?lk))")
    for found hs pairs m
  proof -
    have lk: "effects_of ?org es ?lk" "es_assets ?lk = es_assets ?es1"
      using lookup_all_effects [of ?org "\<lparr>lk_estate = log_line ctx cve_stage now m ?es1, lk_cache = cache, lk_found = []\<rparr>" ask now ctx pairs]
        effects_then [OF e1 [of m]] by simp_all
    have "list_all (\<lambda>x. has_asset ?org (fst x) ?lk) (asset_tech ?org hs ?es1)"
      using lk(2) by (auto simp: list_all_iff asset_tech_def has_asset_def asset_tag_def)
    from attach_all_ok [OF effects_keep_estate [OF lk(1) assms] this]
    show ?thesis using effects_then [OF lk(1)] by (simp add: attach_ok_def)
  qed
  then have "effects_of ?org es (log_line ctx cve_stage now m (add_counters ctx 0 n (ac_estate (attach_all sha now ctx found (asset_tech ?org hs ?es1)
      (lk_estate (lookup_all ask now ctx pairs \<lparr>lk_estate = log_line ctx cve_stage now m' ?es1, lk_cache = cache, lk_found = []\<rparr>))))))"
    for m n found hs pairs m'
    by (intro log) (rule effects_then [OF _ context_effects(3)])
  then show ?thesis using e1 by (simp add: cve_correlator_run_def Let_def)
qed

section \<open>Running it again\<close>

text \<open>What a later run leaves alone on a finding it finds again.\<close>

definition unstamped :: "finding_row \<Rightarrow> finding_row" where
  "unstamped f = f\<lparr>fi_last_seen := None, fi_scan := None, fi_cvss := None, fi_severity := INFO\<rparr>"

definition cve_key :: "(string \<Rightarrow> string) \<Rightarrow> nat \<Rightarrow> nat \<Rightarrow> string \<Rightarrow> string \<times> string \<Rightarrow> cve_entry \<Rightarrow> nat \<times> string" where
  "cve_key sha org i hostname pair e =
    (org, build_fingerprint sha (Some i) (cve_title (fst pair) (snd pair) hostname e) (Some (ce_id e)) None)"

lemma cve_finding_key: "finding_key (cve_finding sha now ctx n i h pair k e) = cve_key sha (cx_org ctx) i h pair e"
  by (simp add: finding_key_def cve_finding_def cve_key_def split: prod.splits)

lemma reconfirm_cve_simps [simp]:
  "finding_key (reconfirm_cve now ctx e f) = finding_key f" "fi_first_seen (reconfirm_cve now ctx e f) = fi_first_seen f"
  "unstamped (reconfirm_cve now ctx e f) = unstamped f"
  by (simp_all add: finding_key_def reconfirm_cve_def unstamped_def)

definition tech_hits :: "((string \<times> string) \<times> cve_entry list) list \<Rightarrow> tech_entry \<Rightarrow> ((string \<times> string) \<times> cve_entry) set" where
  "tech_hits found t =
    (case tech_pair t of None \<Rightarrow> {}
     | Some pair \<Rightarrow> Pair pair ` set (case map_of found pair of None \<Rightarrow> [] | Some es \<Rightarrow> es))"

text \<open>The keys that a run writes.\<close>

definition run_keys ::
    "(string \<Rightarrow> string) \<Rightarrow> nat \<Rightarrow> ((string \<times> string) \<times> cve_entry list) list \<Rightarrow> (nat \<times> string \<times> tech_entry list) list \<Rightarrow> (nat \<times> string) set" where
  "run_keys sha org found assets =
    {cve_key sha org i h pair e | i h ts t pair e. (i, h, ts) \<in> set assets \<and> t \<in> set ts \<and> (pair, e) \<in> tech_hits found t}"

abbreviation keys_of :: "attach \<Rightarrow> (nat \<times> string) set" where
  "keys_of ac \<equiv> finding_key ` set (es_findings (ac_estate ac))"

lemma attach_cve_keys: "keys_of (attach_cve sha now ctx i h pair k ac e) = insert (cve_key sha (cx_org ctx) i h pair e) (keys_of ac)"
proof -
  let ?f = "cve_finding sha now ctx (next_id (ac_estate ac)) i h pair k e"
  obtain es1 j seen where u: "upsert_finding ?f (reconfirm_cve now ctx e) (ac_estate ac) = (es1, j, seen)"
    by (cases "upsert_finding ?f (reconfirm_cve now ctx e) (ac_estate ac)") auto
  have "finding_key ` set (es_findings es1) = insert (finding_key ?f) (keys_of ac)"
    using upsert_keys [of "reconfirm_cve now ctx e" ?f "ac_estate ac"] by (simp add: u)
  then show ?thesis by (simp add: attach_cve_def u Let_def cve_finding_key)
qed

lemma foldl_adds:
  "(\<And>a x. k (f a x) = k a \<union> g x) \<Longrightarrow> k (foldl f a xs) = k a \<union> (\<Union>x \<in> set xs. g x)"
  by (induction xs arbitrary: a) auto

lemma attach_tech_keys:
  "keys_of (attach_tech sha now ctx found i h ac t) =
    keys_of ac \<union> (\<lambda>x. cve_key sha (cx_org ctx) i h (fst x) (snd x)) ` tech_hits found t"
proof (cases "tech_pair t")
  case (Some pair)
  define es where "es = (case map_of found pair of None \<Rightarrow> [] | Some es \<Rightarrow> es)"
  have "keys_of (foldl (attach_cve sha now ctx i h pair (te_confidence t)) ac es) =
      keys_of ac \<union> (\<Union>e \<in> set es. {cve_key sha (cx_org ctx) i h pair e})"
    by (rule foldl_adds [where k = keys_of]) (simp add: attach_cve_keys)
  then show ?thesis using Some by (auto simp: attach_tech_def tech_hits_def image_image simp flip: es_def)
qed (simp add: attach_tech_def tech_hits_def)

lemma attach_asset_keys:
  "keys_of (attach_asset sha now ctx found ac x) = keys_of ac \<union> run_keys sha (cx_org ctx) found [x]"
proof -
  obtain i h ts where x: "x = (i, h, ts)" by (cases x) auto
  have "keys_of (foldl (attach_tech sha now ctx found i h) ac ts) =
      keys_of ac \<union> (\<Union>t \<in> set ts. (\<lambda>y. cve_key sha (cx_org ctx) i h (fst y) (snd y)) ` tech_hits found t)"
    by (rule foldl_adds [where k = keys_of]) (rule attach_tech_keys)
  moreover have "(\<Union>t \<in> set ts. (\<lambda>y. cve_key sha (cx_org ctx) i h (fst y) (snd y)) ` tech_hits found t) =
      run_keys sha (cx_org ctx) found [x]"
    by (force simp: run_keys_def x)
  ultimately show ?thesis by (simp add: attach_asset_def x Let_def)
qed

lemma run_keys_Union: "run_keys sha org found assets = (\<Union>x \<in> set assets. run_keys sha org found [x])"
  by (fastforce simp: run_keys_def)

lemma attach_all_keys:
  "keys_of (attach_all sha now ctx found assets es) = finding_key ` set (es_findings es) \<union> run_keys sha (cx_org ctx) found assets"
  unfolding attach_all_def run_keys_Union [of _ _ _ assets] by (subst foldl_adds [where k = keys_of, OF attach_asset_keys]) simp

text \<open>A run whose keys are all there, at a time that no finding was first seen at.\<close>

definition quiet :: "int \<Rightarrow> (nat \<times> string) set \<Rightarrow> finding_row list \<Rightarrow> attach \<Rightarrow> bool" where
  "quiet now K rows ac \<longleftrightarrow> K \<subseteq> keys_of ac \<and> (\<forall>f \<in> set (es_findings (ac_estate ac)). fi_first_seen f \<noteq> Some now) \<and>
    ac_new ac = [] \<and> ac_critical ac = [] \<and> map unstamped (es_findings (ac_estate ac)) = rows"

lemma attach_cve_quiet:
  assumes q: "quiet now K rows ac" and "cve_key sha (cx_org ctx) i h pair e \<in> K"
  shows "quiet now K rows (attach_cve sha now ctx i h pair k ac e)"
proof -
  let ?f = "cve_finding sha now ctx (next_id (ac_estate ac)) i h pair k e"
  have "finding_key ?f \<in> keys_of ac" using assms by (auto simp: cve_finding_key quiet_def)
  then obtain old where old: "old \<in> set (es_findings (ac_estate ac))"
      "upsert_finding ?f (reconfirm_cve now ctx e) (ac_estate ac) =
        ((ac_estate ac)\<lparr>es_findings := update_where (\<lambda>x. finding_key x = finding_key ?f) (reconfirm_cve now ctx e) (es_findings (ac_estate ac))\<rparr>,
         fi_id old, fi_first_seen old)"
    by (rule upsert_known [where g = "reconfirm_cve now ctx e"]) simp_all
  have "K \<subseteq> keys_of (attach_cve sha now ctx i h pair k ac e)" using q by (auto simp: attach_cve_keys quiet_def)
  moreover have "fi_first_seen old \<noteq> Some now" using q old(1) by (simp add: quiet_def)
  ultimately show ?thesis
    using q by (auto simp: quiet_def attach_cve_def old(2) Let_def map_update_where)
qed

lemma attach_tech_quiet:
  assumes "quiet now K rows ac" and "(\<lambda>x. cve_key sha (cx_org ctx) i h (fst x) (snd x)) ` tech_hits found t \<subseteq> K"
  shows "quiet now K rows (attach_tech sha now ctx found i h ac t)"
proof (cases "tech_pair t")
  case (Some pair)
  define es where "es = (case map_of found pair of None \<Rightarrow> [] | Some es \<Rightarrow> es)"
  have K: "cve_key sha (cx_org ctx) i h pair e \<in> K" if "e \<in> set es" for e
    using assms(2) that Some by (simp add: tech_hits_def image_image image_subset_iff flip: es_def)
  have "quiet now K rows (foldl (attach_cve sha now ctx i h pair (te_confidence t)) ac es)"
    by (rule foldl_keep [where P = "quiet now K rows", OF assms(1)], rule attach_cve_quiet) (use K in auto)
  then show ?thesis using Some by (simp add: attach_tech_def flip: es_def)
qed (simp add: attach_tech_def assms(1))

lemma attach_asset_quiet:
  assumes "quiet now K rows ac" and "run_keys sha (cx_org ctx) found [x] \<subseteq> K"
  shows "quiet now K rows (attach_asset sha now ctx found ac x)"
proof -
  obtain i h ts where x: "x = (i, h, ts)" by (cases x) auto
  have "quiet now K rows (foldl (attach_tech sha now ctx found i h) ac ts)"
  proof (rule foldl_keep [where P = "quiet now K rows", OF assms(1)])
    fix ac t assume t: "t \<in> set ts" "quiet now K rows ac"
    have "(\<lambda>y. cve_key sha (cx_org ctx) i h (fst y) (snd y)) ` tech_hits found t \<subseteq> run_keys sha (cx_org ctx) found [x]"
      using t(1) by (force simp: run_keys_def x)
    with assms(2) show "quiet now K rows (attach_tech sha now ctx found i h ac t)"
      by (intro attach_tech_quiet [OF t(2)]) (rule subset_trans)
  qed
  then show ?thesis by (simp add: attach_asset_def x Let_def quiet_def)
qed

lemma attach_all_quiet:
  assumes "run_keys sha (cx_org ctx) found assets \<subseteq> finding_key ` set (es_findings es)"
    and "\<forall>f \<in> set (es_findings es). fi_first_seen f \<noteq> Some now"
  shows "quiet now (run_keys sha (cx_org ctx) found assets) (map unstamped (es_findings es)) (attach_all sha now ctx found assets es)"
proof -
  have "run_keys sha (cx_org ctx) found [x] \<subseteq> run_keys sha (cx_org ctx) found assets" if "x \<in> set assets" for x
    using that by (subst (2) run_keys_Union) blast
  moreover have "quiet now (run_keys sha (cx_org ctx) found assets) (map unstamped (es_findings es))
      \<lparr>ac_estate = es, ac_count = 0, ac_new = [], ac_critical = []\<rparr>"
    using assms by (simp add: quiet_def)
  ultimately show ?thesis
    unfolding attach_all_def
    by (rule_tac foldl_keep [where P = "quiet now (run_keys sha (cx_org ctx) found assets) (map unstamped (es_findings es))"])
      (simp_all add: attach_asset_quiet)
qed


definition sample_cve :: cve_entry where
  "sample_cve = \<lparr>ce_id = ''CVE-2021-23017'', ce_description = ''resolver off-by-one'', ce_cvss = Some (98 / 10), ce_vector = None,
    ce_published = JNull, ce_references = []\<rparr>"

definition sample_found :: "((string \<times> string) \<times> cve_entry list) list" where
  "sample_found = [((''nginx'', ''1.18.0''), [sample_cve])]"

definition sample_ctx :: "nat \<Rightarrow> scan_ctx" where
  "sample_ctx i = \<lparr>cx_scan = i, cx_org = 1, cx_target = ''a.co'', cx_config = []\<rparr>"

definition sample_once :: attach where
  "sample_once = attach_all id 100 (sample_ctx 9) sample_found (asset_tech 1 [''w.a.co''] lab) lab"


text \<open>
  A product that an asset lists twice, in two spellings, is one pair for the lookup but two
  entries of the asset: the new finding is handed to the enrichment twice and alerted twice.
\<close>

definition sample_twins :: "tech_entry list" where
  "sample_twins =
    map (\<lambda>n. \<lparr>te_name = Some n, te_version = Some ''1.18.0'', te_categories = [], te_confidence = 90, te_cpe = None\<rparr>) [''Nginx'', ''nginx'']"

lemma twin_entries_alert_twice:
  "ac_new (attach_all id 100 (sample_ctx 9) sample_found [(2, ''w.a.co'', sample_twins)] lab) = [20, 20] \<and>
   map al_finding (ac_critical (attach_all id 100 (sample_ctx 9) sample_found [(2, ''w.a.co'', sample_twins)] lab)) = [20, 20]"
  by code_simp

text \<open>Two different products share a cache entry when a colon moves.\<close>

lemma cache_keys_clash: "cache_key ''a'' ''b:c'' = cache_key ''a:b'' ''c''"
  by (simp add: cache_key_def)

end
