(* ===== verification/Pipeline.thy ===== *)
theory Pipeline
  imports SubdomainEnum PortScanner Fingerprinter CveCorrelator ChangeDetector
begin

text \<open>
  A whole scan, \<open>workers/orchestrator.py\<close>: the chain of the requested stages in pipeline order,
  each handing its payload to the one after it, between the start of the scan and its close.
  The stages themselves are the operations of their theories; here is what they pass along
  (\<open>hosts\<close>, \<open>port_results\<close>, \<open>changes\<close>) and what a complete run may do. Everything outside the
  program is one record of answers, and \<open>sv_clock\<close> gives the time at which a stage runs. A run is
  sequential: what other requests do in between is the subject of \<open>Lifecycle\<close> and
  \<open>InventoryHistory\<close>, and a stage that raises ends in \<open>fail_scan\<close> of \<open>Scans\<close>.
\<close>

section \<open>The chain\<close>

record services =
  sv_sha :: "string \<Rightarrow> string"
  sv_outside :: outside
  sv_net :: network
  sv_fetch :: fetcher
  sv_handshake :: handshake
  sv_nvd :: nvd
  sv_clock :: "string \<Rightarrow> int"

record relay =
  rl_estate :: estate
  rl_cache :: cve_cache
  rl_hosts :: "string list"
  rl_ports :: "(string \<times> port_entry list) list"
  rl_tasks :: cve_tasks
  rl_changes :: "change list"

definition run_stage :: "services \<Rightarrow> scan_ctx \<Rightarrow> (string \<times> snapshot) list option \<Rightarrow> relay \<Rightarrow> string \<Rightarrow> relay" where
  "run_stage sv ctx baseline rl m =
    (let sha = sv_sha sv; now = sv_clock sv m; getaddrinfo = out_getaddrinfo (sv_outside sv) in
     if m = enum_stage then
       (case subdomain_enum_run sha (sv_outside sv) now ctx (rl_estate rl) of
          (es, hosts, _) \<Rightarrow> rl\<lparr>rl_estate := es, rl_hosts := hosts\<rparr>)
     else if m = port_stage then
       (case port_scanner_run sha getaddrinfo (sv_net sv) now ctx (rl_hosts rl) (rl_estate rl) of
          (es, pp) \<Rightarrow> rl\<lparr>rl_estate := es, rl_hosts := pp_hosts pp, rl_ports := pp_results pp\<rparr>)
     else if m = web_stage then
       rl\<lparr>rl_estate := fingerprinter_run sha (sv_fetch sv) getaddrinfo (sv_handshake sv) now ctx (rl_hosts rl) (rl_ports rl) (rl_estate rl)\<rparr>
     else if m = cve_stage then
       (case cve_correlator_run sha (sv_nvd sv) now ctx (rl_hosts rl) (rl_cache rl) (rl_estate rl) of
          (es, cache, tasks) \<Rightarrow> rl\<lparr>rl_estate := es, rl_cache := cache, rl_tasks := tasks\<rparr>)
     else
       (case change_detector_run sha now ctx baseline (rl_hosts rl) (rl_estate rl) of
          (es, changes) \<Rightarrow> rl\<lparr>rl_estate := es, rl_changes := changes\<rparr>))"

definition run_chain :: "services \<Rightarrow> scan_ctx \<Rightarrow> (string \<times> snapshot) list option \<Rightarrow> string list \<Rightarrow> relay \<Rightarrow> relay" where
  "run_chain sv ctx baseline modules rl = foldl (run_stage sv ctx baseline) rl modules"

text \<open>
  From the task that starts the scan to the callback that closes it. The baseline is taken
  before the first stage, and only when change detection is requested.
\<close>

definition start_relay :: "cve_cache \<Rightarrow> estate \<Rightarrow> relay" where
  "start_relay cache es =
    \<lparr>rl_estate = es, rl_cache = cache, rl_hosts = [], rl_ports = [], rl_tasks = \<lparr>ct_enrich = [], ct_notify = []\<rparr>, rl_changes = []\<rparr>"

definition whole_scan :: "services \<Rightarrow> scan_ctx \<Rightarrow> cve_cache \<Rightarrow> estate \<Rightarrow> relay \<times> scan_status option" where
  "whole_scan sv ctx cache es =
    (case run_pipeline (sv_clock sv ''orchestrator'') (cx_scan ctx) (cx_target ctx) (cx_config ctx) (es_db es) of
       (db, Dispatched _) \<Rightarrow>
         (let es1 = es\<lparr>es_db := db\<rparr>; modules = requested_modules (cx_config ctx);
              baseline = (if change_stage \<in> set modules then Some (capture_baseline es1 (cx_org ctx)) else None);
              rl = run_chain sv ctx baseline modules (start_relay cache es1)
          in case finalise_scan (sv_clock sv ''finalise'') (cx_scan ctx) (es_db (rl_estate rl)) of
               (db', status) \<Rightarrow> (rl\<lparr>rl_estate := (rl_estate rl)\<lparr>es_db := db'\<rparr>\<rparr>, status))
     | (db, _) \<Rightarrow> (start_relay cache (es\<lparr>es_db := db\<rparr>), None))"

section \<open>Which assets a stage leaves\<close>

definition asset_keys :: "estate \<Rightarrow> (nat \<times> string) set" where
  "asset_keys es = asset_key ` set (es_assets es)"

lemma asset_keys_steps [simp]:
  "asset_keys (log_line ctx st now m es) = asset_keys es" "asset_keys (enter_stage ctx st n es) = asset_keys es"
  "asset_keys (add_counters ctx a f es) = asset_keys es" "asset_keys (fst (upsert_finding x g es)) = asset_keys es"
  "asset_keys (es\<lparr>es_db := db\<rparr>) = asset_keys es"
  by (simp_all add: asset_keys_def)

lemma asset_keys_edit [simp]: "keeps_asset f \<Longrightarrow> asset_keys (update_asset_row i f es) = asset_keys es"
proof -
  assume "keeps_asset f"
  then have "map asset_key (update_where p f rows) = map asset_key rows" for p rows
    by (intro map_update_where) (simp add: keeps_assetD)
  then show ?thesis by (simp add: asset_keys_def flip: set_map)
qed

lemma asset_keys_rescore [simp]: "asset_keys (rescore org i ports es) = asset_keys es"
  by (simp add: rescore_def rescore_keeps)

lemma ensure_asset_keys: "asset_keys (fst (ensure_asset now org src h es)) = insert (org, h) (asset_keys es)"
proof (cases "find_asset_host es org h")
  case (Some a)
  then have "(org, h) \<in> asset_keys es" using find_asset_hostD by (fastforce simp: asset_keys_def asset_key_def image_iff)
  then show ?thesis by (simp add: ensure_asset_def Some insert_absorb)
qed (simp add: ensure_asset_def asset_keys_def asset_key_def new_asset_def)

lemma record_port_findings_keys: "asset_keys (fst (record_port_findings sha now ctx i h entries es)) = asset_keys es"
proof -
  have one: "asset_keys (fst (record_port_finding sha now ctx i h e acc)) = asset_keys (fst acc)" for e acc
    by (cases acc) (simp add: record_port_finding_def Let_def split: option.split)
  have "asset_keys (fst (foldl (\<lambda>acc e. record_port_finding sha now ctx i h e acc) acc entries)) = asset_keys (fst acc)" for acc
    by (induction entries arbitrary: acc) (simp_all add: one)
  then show ?thesis by (simp add: record_port_findings_def)
qed

lemma store_ports_keys: "asset_keys (fst (store_ports now ctx h entries es)) = insert (cx_org ctx, h) (asset_keys es)"
  using ensure_asset_keys [of now "cx_org ctx" port_stage h es]
  by (cases "ensure_asset now (cx_org ctx) port_stage h es") (simp add: store_ports_def keeps_asset_def risk_ok_def)

lemma scan_one_keys: "asset_keys (fst (scan_one sha g net now ctx ports h es)) \<subseteq> insert (cx_org ctx, h) (asset_keys es)"
proof (cases "scan_host g net h ports")
  case (Inr entries)
  show ?thesis
  proof (rule scan_one_steps [OF Inr, where sha = sha and now = now and ctx = ctx and es = es])
    fix es1 es2 i es3 added
    assume s: "es1 = (if entries = [] then es else log_line ctx port_stage now (open_listing h entries) es)"
      "store_ports now ctx h entries es1 = (es2, i)" "record_port_findings sha now ctx i h entries es2 = (es3, added)"
      and r: "scan_one sha g net now ctx ports h es =
        (let es4 = rescore (cx_org ctx) i (\<lambda>_. map entry_port entries) es3 in (if added = 0 then es4 else add_counters ctx 0 added es4, Some entries))"
    have "asset_keys es3 = insert (cx_org ctx, h) (asset_keys es1)"
      using store_ports_keys [of now ctx h entries es1] record_port_findings_keys [of sha now ctx i h entries es2] s(2,3) by simp
    moreover have "asset_keys es1 = asset_keys es" by (simp add: s(1))
    ultimately show ?thesis by (simp add: r Let_def)
  qed
qed (simp add: scan_one_def subset_insertI)

lemma scan_all_keys:
  "asset_keys (ps_estate (scan_all sha g net now ctx ports hosts ps)) \<subseteq> asset_keys (ps_estate ps) \<union> Pair (cx_org ctx) ` set hosts"
proof (induction hosts arbitrary: ps)
  case (Cons h hosts)
  obtain es r where o: "scan_one sha g net now ctx ports h (ps_estate ps) = (es, r)" by fastforce
  then have "asset_keys es \<subseteq> insert (cx_org ctx, h) (asset_keys (ps_estate ps))"
    using scan_one_keys [of sha g net now ctx ports h "ps_estate ps"] by simp
  moreover have "asset_keys (ps_estate (scan_all sha g net now ctx ports hosts ps')) \<subseteq> asset_keys es \<union> Pair (cx_org ctx) ` set hosts"
    if "ps_estate ps' = es" for ps'
    using Cons.IH [of ps'] that by simp
  ultimately have "asset_keys (ps_estate (scan_all sha g net now ctx ports hosts ps')) \<subseteq>
      asset_keys (ps_estate ps) \<union> Pair (cx_org ctx) ` set (h # hosts)" if "ps_estate ps' = es" for ps'
    using that by fastforce
  then show ?case by (auto simp: o split: option.split)
qed simp

lemma port_scanner_keys:
  assumes "port_scanner_run sha g net now ctx hosts es = (es', pp)"
  shows "asset_keys es' \<subseteq> asset_keys es \<union> Pair (cx_org ctx) ` set (if hosts = [] then [cx_target ctx] else hosts)"
    and "set (pp_hosts pp) \<subseteq> set (if hosts = [] then [cx_target ctx] else hosts)"
proof -
  let ?hosts = "if hosts = [] then [cx_target ctx] else hosts"
  have "asset_keys (ps_estate (scan_all sha g net now ctx ports ?hosts ps)) \<subseteq> asset_keys es \<union> Pair (cx_org ctx) ` set ?hosts"
    if "asset_keys (ps_estate ps) = asset_keys es" for ports ps
    using scan_all_keys [of sha g net now ctx ports ?hosts ps] that by simp
  then have "asset_keys (fst (port_scanner_run sha g net now ctx hosts es)) \<subseteq> asset_keys es \<union> Pair (cx_org ctx) ` set ?hosts"
    unfolding port_scanner_run_def Let_def by (simp split del: if_split) (simp add: if_split)
  then show "asset_keys es' \<subseteq> asset_keys es \<union> Pair (cx_org ctx) ` set ?hosts" by (simp add: assms)
  have "set (pp_hosts (snd (port_scanner_run sha g net now ctx hosts es))) \<subseteq> set ?hosts"
    by (simp add: port_scanner_run_def Let_def)
  then show "set (pp_hosts pp) \<subseteq> set ?hosts" by (simp add: assms)
qed

text \<open>The later stages edit the assets they find and add none.\<close>

lemma fingerprinter_keys: "asset_keys (fingerprinter_run sha fetch g hs now ctx hosts results es) = asset_keys es"
proof -
  have host: "asset_keys (fst (fingerprint_host fetch g hs now ctx h ports e)) = asset_keys e" for h ports e
    by (simp add: asset_keys_def fingerprint_host_keeps(2))
  have "asset_keys (foldl (record_issue sha now ctx i) e xs) = asset_keys e" for i e xs
    by (induction xs arbitrary: e) (simp_all add: record_issue_def)
  then have issues: "asset_keys (fst (record_findings sha now ctx i h http tls e)) = asset_keys e" for i h http tls e
    by (simp add: record_findings_def Let_def)
  have edit: "keeps_asset (\<lambda>a. a\<lparr>at_tech := ts, at_last_scanned := Some now\<rparr>)" for ts
    by (simp add: keeps_asset_def risk_ok_def)
  have one: "asset_keys (fp_estate (fingerprint_one sha fetch g hs now ctx results h fp)) = asset_keys (fp_estate fp)" for h fp
  proof -
    let ?ports = "case map_of results h of None \<Rightarrow> [] | Some ports \<Rightarrow> ports"
    obtain es1 hp where h: "fingerprint_host fetch g hs now ctx h ?ports (fp_estate fp) = (es1, hp)" by fastforce
    define es2 where "es2 = (if hp_tech hp = [] then es1 else log_line ctx web_stage now (tech_listing h (hp_tech hp)) es1)"
    have es: "asset_keys es1 = asset_keys (fp_estate fp)" "asset_keys es2 = asset_keys (fp_estate fp)"
      using host [of h ?ports "fp_estate fp"] by (simp_all add: es2_def h)
    show ?thesis
    proof (cases "find_asset_host es2 (cx_org ctx) h")
      case (Some a)
      obtain es3 n where "record_findings sha now ctx (at_id a) h (hp_http hp) (hp_tls hp)
          (update_asset_row (at_id a) (\<lambda>a. a\<lparr>at_tech := hp_tech hp, at_last_scanned := Some now\<rparr>) es2) = (es3, n)" (is "?r = _") by fastforce
      moreover have "asset_keys (fst ?r) = asset_keys es2" unfolding issues by (rule asset_keys_edit) (rule edit)
      ultimately show ?thesis
        unfolding fingerprint_one_def h prod.case Let_def es2_def [symmetric] Some option.case using es by simp
    next
      case None
      show ?thesis unfolding fingerprint_one_def h prod.case Let_def es2_def [symmetric] None option.case using es by simp
    qed
  qed
  have "asset_keys (fp_estate (fingerprint_all sha fetch g hs now ctx results hs' fp)) = asset_keys (fp_estate fp)" for hs' fp
    by (induction hs' arbitrary: fp) (simp_all add: one)
  then show ?thesis by (simp add: fingerprinter_run_def Let_def)
qed

lemma cve_correlator_keys: "asset_keys (fst (cve_correlator_run sha ask now ctx hosts cache es)) = asset_keys es"
proof -
  let ?same = "\<lambda>e ac. asset_keys (ac_estate ac) = asset_keys e"
  have cve: "asset_keys (ac_estate (attach_cve sha now ctx i h pair k ac e)) = asset_keys (ac_estate ac)" for i h pair k ac e
    using asset_keys_steps(4) [of "cve_finding sha now ctx (next_id (ac_estate ac)) i h pair k e" "reconfirm_cve now ctx e" "ac_estate ac"]
    by (cases "upsert_finding (cve_finding sha now ctx (next_id (ac_estate ac)) i h pair k e) (reconfirm_cve now ctx e) (ac_estate ac)")
      (simp add: attach_cve_def Let_def)
  have tech: "?same e (attach_tech sha now ctx found i h ac t)" if "?same e ac" for e found i h ac t
    using that by (auto simp: attach_tech_def cve intro!: foldl_keep [where P = "?same e"] split: option.split)
  have asset: "?same e (attach_asset sha now ctx found ac x)" if "?same e ac" for e found ac x
  proof -
    obtain i h ts where x: "x = (i, h, ts)" by (cases x) auto
    have "?same e (foldl (attach_tech sha now ctx found i h) ac ts)"
      by (rule foldl_keep [where P = "?same e", OF that]) (rule tech)
    then show ?thesis by (simp add: attach_asset_def x Let_def)
  qed
  have "?same e (attach_all sha now ctx found xs e)" for e found xs
    unfolding attach_all_def by (rule foldl_keep [where P = "?same e"]) (simp_all add: asset)
  moreover have "asset_keys (lk_estate (lookup_all ask now ctx pairs lk)) = asset_keys (lk_estate lk)" for pairs lk
    using lookup_all_effects [of 0 lk ask now ctx pairs] by (simp add: asset_keys_def)
  ultimately show ?thesis by (simp add: cve_correlator_run_def Let_def)
qed

lemma change_detector_keys: "asset_keys (fst (change_detector_run sha now ctx stored scanned es)) = asset_keys es"
proof -
  have one: "asset_keys (fst (record_new_exposure sha now ctx i h ports acc)) = asset_keys (fst acc)" for i h ports acc
    by (induction sha now ctx i h ports acc rule: record_new_exposure.induct) simp_all
  have "asset_keys (df_estate (diff_opened sha now ctx i h ps d)) = asset_keys (df_estate d)" for i h ps d
    using one [of i h ps] by (simp add: diff_opened_def note_change_def Let_def split: prod.split option.split) (metis asset_keys_steps(1) fst_conv)
  moreover have noted: "asset_keys (df_estate (note_change ctx now c m d)) = asset_keys (df_estate d)" for c m d
    by (simp add: note_change_def split: option.split)
  moreover have "asset_keys (df_estate (foldl (diff_tech now ctx h base) d xs)) = asset_keys (df_estate d)" for h base d xs
    by (induction xs arbitrary: d) (auto simp: diff_tech_def noted split: prod.split option.split)
  ultimately have "asset_keys (df_estate (diff_host sha now ctx b sc d x)) = asset_keys (df_estate d)" for b sc d x
    by (simp add: diff_host_def diff_closed_def diff_ip_def Let_def split: prod.split option.split)
  then have hosts: "asset_keys (df_estate (foldl (diff_host sha now ctx b sc) d xs)) = asset_keys (df_estate d)" for b sc d xs
    by (induction xs arbitrary: d) simp_all
  have "asset_keys (mark_changed is e) = asset_keys e" for "is" e
    unfolding mark_changed_def by (rule foldl_keep [where P = "\<lambda>x. asset_keys x = asset_keys e"]) (simp_all add: status_keeps)
  moreover have "asset_keys (mark_missing org hs e) = asset_keys e" for org hs e
    unfolding mark_missing_def by (rule foldl_keep [where P = "\<lambda>x. asset_keys x = asset_keys e"]) (simp_all add: status_keeps split: option.split)
  moreover have "asset_keys (settle now org hs nh e) = asset_keys e" for org hs nh e
    unfolding settle_def by (rule foldl_keep [where P = "\<lambda>x. asset_keys x = asset_keys e"]) (simp_all add: status_keeps split: option.split)
  ultimately show ?thesis by (simp add: change_detector_run_def Let_def hosts)
qed

section \<open>Scope of a whole scan\<close>

definition hosts_covered :: "scan_ctx \<Rightarrow> estate \<Rightarrow> string list \<Rightarrow> bool" where
  "hosts_covered ctx es hosts = list_all (\<lambda>h. in_scope h (scope_of ctx es)) hosts"

lemma scope_of_cong: "db_orgs (es_db es) = db_orgs (es_db es') \<Longrightarrow> scope_of ctx es = scope_of ctx es'"
  by (simp add: scope_of_def allowed_domains_def org_domains_def org_by_id_def)

lemma hosts_covered_mono: "hosts_covered ctx es hosts \<Longrightarrow> set hs \<subseteq> set hosts \<Longrightarrow> hosts_covered ctx es hs"
  by (auto simp: hosts_covered_def list_all_iff)

text \<open>What the chain keeps: the hosts handed on are covered, and so are the new assets.\<close>

definition relay_ok :: "scan_ctx \<Rightarrow> estate \<Rightarrow> relay \<Rightarrow> bool" where
  "relay_ok ctx es rl \<longleftrightarrow> hosts_covered ctx es (rl_hosts rl) \<and>
    asset_keys (rl_estate rl) \<subseteq> asset_keys es \<union> Pair (cx_org ctx) ` {h. in_scope h (scope_of ctx es)}"

lemma relay_ok_enum:
  assumes "rl_estate rl = es"
  shows "relay_ok ctx es (run_stage sv ctx baseline rl enum_stage)"
proof -
  obtain es' hosts n where r: "subdomain_enum_run (sv_sha sv) (sv_outside sv) (sv_clock sv enum_stage) ctx es = (es', hosts, n)"
    by (cases "subdomain_enum_run (sv_sha sv) (sv_outside sv) (sv_clock sv enum_stage) ctx es") auto
  have "hosts_covered ctx es hosts \<and> asset_keys es' \<subseteq> asset_keys es \<union> Pair (cx_org ctx) ` set hosts"
    by (rule subdomain_enum_cases [OF r]) (auto simp: hosts_covered_def asset_keys_def list_all_iff)
  then show ?thesis by (auto simp: run_stage_def assms r Let_def relay_ok_def hosts_covered_def list_all_iff)
qed

lemma relay_ok_later:
  assumes target: "in_scope (cx_target ctx) (scope_of ctx es)" and ok: "relay_ok ctx es rl" and m: "m \<noteq> enum_stage"
  shows "relay_ok ctx es (run_stage sv ctx baseline rl m)"
proof -
  have port: "relay_ok ctx es (rl\<lparr>rl_estate := es', rl_hosts := pp_hosts pp, rl_ports := pp_results pp\<rparr>)"
    if r: "port_scanner_run sha g net now ctx (rl_hosts rl) (rl_estate rl) = (es', pp)" for sha g net now es' pp
  proof -
    let ?hosts = "if rl_hosts rl = [] then [cx_target ctx] else rl_hosts rl"
    have c: "hosts_covered ctx es ?hosts" using target ok by (simp add: relay_ok_def hosts_covered_def)
    then have "Pair (cx_org ctx) ` set ?hosts \<subseteq> Pair (cx_org ctx) ` {h. in_scope h (scope_of ctx es)}"
      by (auto simp: hosts_covered_def list_all_iff)
    then have "asset_keys es' \<subseteq> asset_keys es \<union> Pair (cx_org ctx) ` {h. in_scope h (scope_of ctx es)}"
      using port_scanner_keys(1) [OF r] ok unfolding relay_ok_def by blast
    moreover have "hosts_covered ctx es (pp_hosts pp)" by (rule hosts_covered_mono [OF c port_scanner_keys(2) [OF r]])
    ultimately show ?thesis by (simp add: relay_ok_def)
  qed
  have same: "relay_ok ctx es rl'" if "rl_hosts rl' = rl_hosts rl" "asset_keys (rl_estate rl') = asset_keys (rl_estate rl)" for rl' :: relay
    using ok that by (simp add: relay_ok_def)
  show ?thesis
  proof (cases "m = port_stage")
    case True
    obtain es' pp where r: "port_scanner_run (sv_sha sv) (out_getaddrinfo (sv_outside sv)) (sv_net sv) (sv_clock sv m) ctx (rl_hosts rl) (rl_estate rl) = (es', pp)"
      by (cases "port_scanner_run (sv_sha sv) (out_getaddrinfo (sv_outside sv)) (sv_net sv) (sv_clock sv m) ctx (rl_hosts rl) (rl_estate rl)") auto
    show ?thesis using m port [OF r] r by (simp add: run_stage_def Let_def True)
  next
    case False
    obtain es1 c t where cve: "cve_correlator_run (sv_sha sv) (sv_nvd sv) (sv_clock sv m) ctx (rl_hosts rl) (rl_cache rl) (rl_estate rl) = (es1, c, t)"
      by (cases "cve_correlator_run (sv_sha sv) (sv_nvd sv) (sv_clock sv m) ctx (rl_hosts rl) (rl_cache rl) (rl_estate rl)") auto
    obtain es2 cs where ch: "change_detector_run (sv_sha sv) (sv_clock sv m) ctx baseline (rl_hosts rl) (rl_estate rl) = (es2, cs)" by fastforce
    have "asset_keys es1 = asset_keys (rl_estate rl)" "asset_keys es2 = asset_keys (rl_estate rl)"
      using cve_correlator_keys [of "sv_sha sv" "sv_nvd sv" "sv_clock sv m" ctx "rl_hosts rl" "rl_cache rl" "rl_estate rl"]
        change_detector_keys [of "sv_sha sv" "sv_clock sv m" ctx baseline "rl_hosts rl" "rl_estate rl"] by (simp_all add: cve ch)
    then show ?thesis unfolding run_stage_def Let_def cve ch prod.case by (intro same) (simp_all add: m False fingerprinter_keys)
  qed
qed

lemma relay_ok_chain:
  assumes "in_scope (cx_target ctx) (scope_of ctx es)"
  shows "relay_ok ctx es rl \<Longrightarrow> enum_stage \<notin> set ms \<Longrightarrow> relay_ok ctx es (run_chain sv ctx baseline ms rl)"
  unfolding run_chain_def by (rule foldl_keep [where P = "relay_ok ctx es"]) (auto intro: relay_ok_later [OF assms])

text \<open>Enumeration comes first or not at all.\<close>

lemma requested_modules_order:
  obtains "enum_stage \<notin> set (requested_modules config)"
  | ms where "requested_modules config = enum_stage # ms" "enum_stage \<notin> set ms"
proof -
  have "enum_stage \<notin> set (filter P module_order) \<or> (\<exists>ms. filter P module_order = enum_stage # ms \<and> enum_stage \<notin> set ms)" for P
    by (simp add: module_order_def enum_stage_def)
  from this [of "\<lambda>_. True"] this [of "\<lambda>m. m \<in> set (if config_modules config = [] then module_order else config_modules config)"]
  have "enum_stage \<notin> set (requested_modules config) \<or> (\<exists>ms. requested_modules config = enum_stage # ms \<and> enum_stage \<notin> set ms)"
    by (simp add: requested_modules_def Let_def split del: if_split split: if_split_asm) (auto split: if_splits)
  then show thesis using that by blast
qed

lemma run_pipeline_orgs: "db_orgs (fst (run_pipeline now i t c db)) = db_orgs db"
  by (simp add: run_pipeline_def Let_def ctx_log_def split: option.split)

text \<open>The steps of a scan that is neither missing nor cancelled when it starts.\<close>

lemma whole_scan_relay:
  assumes "in_scope (cx_target ctx) (scope_of ctx es)"
  shows "relay_ok ctx es (fst (whole_scan sv ctx cache es))"
proof -
  obtain db r where p: "run_pipeline (sv_clock sv ''orchestrator'') (cx_scan ctx) (cx_target ctx) (cx_config ctx) (es_db es) = (db, r)" by fastforce
  let ?es1 = "es\<lparr>es_db := db\<rparr>"
  have "db_orgs db = db_orgs (es_db es)"
    using run_pipeline_orgs [of "sv_clock sv ''orchestrator''" "cx_scan ctx" "cx_target ctx" "cx_config ctx" "es_db es"] p by simp
  then have scope: "scope_of ctx ?es1 = scope_of ctx es" by (intro scope_of_cong) simp
  have start: "relay_ok ctx ?es1 (start_relay cache ?es1)" by (simp add: relay_ok_def start_relay_def hosts_covered_def)
  have target: "in_scope (cx_target ctx) (scope_of ctx ?es1)" using assms by (simp only: scope)
  have chain: "relay_ok ctx ?es1 (run_chain sv ctx baseline (requested_modules (cx_config ctx)) (start_relay cache ?es1))" for baseline
  proof (cases rule: requested_modules_order [of "cx_config ctx"])
    case 1
    then show ?thesis by (rule relay_ok_chain [OF target start])
  next
    case (2 ms)
    have "relay_ok ctx ?es1 (run_stage sv ctx baseline (start_relay cache ?es1) enum_stage)"
      by (rule relay_ok_enum) (simp add: start_relay_def)
    from relay_ok_chain [OF target this 2(2), of sv baseline] show ?thesis by (simp add: 2(1) run_chain_def)
  qed
  have close: "relay_ok ctx es (rl\<lparr>rl_estate := (rl_estate rl)\<lparr>es_db := db'\<rparr>\<rparr>)" if "relay_ok ctx ?es1 rl" for rl db'
    using that by (simp add: relay_ok_def hosts_covered_def scope)
  from close [OF start, of db] have begun: "relay_ok ctx es (start_relay cache ?es1)" by (simp add: start_relay_def)
  show ?thesis
    by (cases r) (simp_all add: whole_scan_def p begun Let_def close [OF chain] split: prod.split)
qed

text \<open>
  C12: a whole scan stays inside what the organisation may scan. When the target is covered by
  its verified domains, then whatever the network, the logs, the name servers and the web
  servers answer and whichever modules are requested: the assets afterwards are assets of
  before or hosts of that organisation covered by its verified domains, and every host that
  one stage hands to the next is covered too.
\<close>

theorem scan_adds_only_covered_hosts:
  assumes "in_scope (cx_target ctx) (scope_of ctx es)" and "whole_scan sv ctx cache es = (rl, status)"
  shows "asset_key ` set (es_assets (rl_estate rl)) \<subseteq>
      asset_key ` set (es_assets es) \<union> Pair (cx_org ctx) ` {h. in_scope h (scope_of ctx es)} \<and>
    list_all (\<lambda>h. in_scope h (scope_of ctx es)) (rl_hosts rl)"
  using whole_scan_relay [OF assms(1), of sv cache] assms(2) by (simp add: relay_ok_def asset_keys_def hosts_covered_def)

text \<open>Two runs on the lab: its network answers, its certificate logs name a host of the tenant and one of somebody else.\<close>

definition lab_services :: services where
  "lab_services =
    \<lparr>sv_sha = id, sv_outside = enum_outside\<lparr>out_getaddrinfo := lab_dns\<rparr>, sv_net = lab_net, sv_fetch = (\<lambda>url. No_response),
     sv_handshake = (\<lambda>a p h. None), sv_nvd = (\<lambda>q. Nvd_error ''down''), sv_clock = (\<lambda>m. 5)\<rparr>"

definition scan_setup :: "bool \<Rightarrow> string list \<Rightarrow> scan_ctx" where
  "scan_setup passive modules =
    \<lparr>cx_scan = 9, cx_org = 1, cx_target = ''a.co'',
     cx_config = [(''passive_only'', JBool passive), (''modules'', JList (map JStr modules)), (''port_profile'', JStr ''custom''),
       (''ports'', JList [JNum 443, JNum 6379])]\<rparr>"

theorem scan_adds_only_covered_hosts_witness:
  "let ctx = scan_setup False [''port_scanner'', ''change_detector'']; run = whole_scan lab_services ctx None lab
   in snd run = Some COMPLETED \<and> (1, ''a.co'') \<notin> asset_key ` set (es_assets lab) \<and>
     (1, ''a.co'') \<in> asset_key ` set (es_assets (rl_estate (fst run))) \<and>
     asset_key ` set (es_assets (rl_estate (fst run))) \<subseteq>
       asset_key ` set (es_assets lab) \<union> Pair (cx_org ctx) ` {h. in_scope h (scope_of ctx lab)}"
proof -
  let ?ctx = "scan_setup False [''port_scanner'', ''change_detector'']"
  have run: "snd (whole_scan lab_services ?ctx None lab) = Some COMPLETED"
    "(1, ''a.co'') \<notin> set (map asset_key (es_assets lab))"
    "(1, ''a.co'') \<in> set (map asset_key (es_assets (rl_estate (fst (whole_scan lab_services ?ctx None lab)))))"
    by code_simp+
  have "in_scope (cx_target ?ctx) (scope_of ?ctx lab)" by code_simp
  note scan_adds_only_covered_hosts [OF this, of lab_services None "fst (whole_scan lab_services ?ctx None lab)"
      "snd (whole_scan lab_services ?ctx None lab)", OF prod.collapse [symmetric], THEN conjunct1]
  then show ?thesis using run unfolding Let_def set_map by (intro conjI)
qed

section \<open>Passive scans\<close>

definition answering ::
    "network \<Rightarrow> fetcher \<Rightarrow> handshake \<Rightarrow> string list option \<Rightarrow> xfr \<Rightarrow> lookup \<Rightarrow> services \<Rightarrow> services" where
  "answering net fetch hs ns xfr g sv =
    sv\<lparr>sv_net := net, sv_fetch := fetch, sv_handshake := hs,
      sv_outside := (sv_outside sv)\<lparr>out_ns := ns, out_xfr := xfr, out_getaddrinfo := g\<rparr>\<rparr>"

lemma passive_stage:
  assumes "passive_only ctx"
  shows "run_stage (answering net fetch hs ns xfr g sv) ctx baseline rl m = run_stage sv ctx baseline rl m"
proof -
  have "gather_candidates (out\<lparr>out_ns := ns, out_xfr := xfr, out_getaddrinfo := g\<rparr>) now ctx es = gather_candidates out now ctx es" for out now es
    using assms by (simp add: gather_candidates_def)
  moreover have same: "out_dns (out\<lparr>out_ns := ns, out_xfr := xfr, out_getaddrinfo := g\<rparr>) = out_dns out"
    "out_labels (out\<lparr>out_ns := ns, out_xfr := xfr, out_getaddrinfo := g\<rparr>) = out_labels out" for out :: outside
    by simp_all
  ultimately have "subdomain_enum_run sha (out\<lparr>out_ns := ns, out_xfr := xfr, out_getaddrinfo := g\<rparr>) now ctx es = subdomain_enum_run sha out now ctx es"
    for sha out now es
    by (simp only: subdomain_enum_run_def same)
  moreover have "port_scanner_run sha g' net' now ctx hosts es = (log_line ctx port_stage now ''Passive mode: skipping port scan''
      (enter_stage ctx port_stage 35 es), \<lparr>pp_hosts = hosts, pp_results = [], pp_scanned = 0\<rparr>)" for sha g' net' now hosts es
    using assms by (simp only: port_scanner_run_def Let_def if_True)
  moreover have "fingerprinter_run sha f' g' hs' now ctx hosts results es = log_line ctx web_stage now ''Passive mode: skipping HTTP fingerprinting''
      (enter_stage ctx web_stage 60 es)" for sha f' g' hs' now hosts results es
    using assms by (simp only: fingerprinter_run_def Let_def if_True)
  moreover have "sv_sha (answering net fetch hs ns xfr g sv) = sv_sha sv" "sv_clock (answering net fetch hs ns xfr g sv) = sv_clock sv" "sv_nvd (answering net fetch hs ns xfr g sv) = sv_nvd sv"
    "sv_outside (answering net fetch hs ns xfr g sv) = (sv_outside sv)\<lparr>out_ns := ns, out_xfr := xfr, out_getaddrinfo := g\<rparr>"
    by (simp_all add: answering_def)
  ultimately show ?thesis unfolding run_stage_def Let_def by (simp only: )
qed

text \<open>
  C13: a passive scan contacts nothing of the target. With \<open>passive_only\<close> set, the answers of everything
  the target runs - its ports, web servers, TLS endpoints, name servers (\<open>NS\<close> lists and zone
  transfers) and the addresses its names resolve to for a connection - have no influence on any
  part of the scan: estate, log, payload, tasks, recorded changes and final status are the same
  whatever they answer. Names are still looked up, through the resolver.
\<close>

theorem passive_scan_contacts_nobody:
  assumes "passive_only ctx"
  shows "whole_scan (answering net fetch hs ns xfr g sv) ctx cache es = whole_scan sv ctx cache es"
proof -
  have "run_chain (answering net fetch hs ns xfr g sv) ctx = run_chain sv ctx"
    by (intro ext, unfold run_chain_def, intro foldl_cong refl) (rule passive_stage [OF assms])
  moreover have "sv_clock (answering net fetch hs ns xfr g sv) = sv_clock sv" by (simp add: answering_def)
  ultimately show ?thesis by (simp only: whole_scan_def)
qed

theorem passive_scan_contacts_nobody_witness:
  "let hostile = answering (\<lambda>a p. Some ''220 ready'') (\<lambda>url. Refused ''no'') (\<lambda>a p h. None) (Some [''ns.a.co'']) (\<lambda>ip. Some [''x.a.co'']) (\<lambda>h p. None) lab_services;
       run = (\<lambda>sv. whole_scan sv (scan_setup True []) None lab)
   in run hostile = run lab_services \<and> rl_hosts (fst (run lab_services)) = [''n.a.co''] \<and> snd (run lab_services) = Some COMPLETED"
proof -
  have "passive_only (scan_setup True [])" by code_simp
  note same = passive_scan_contacts_nobody [OF this]
  have "rl_hosts (fst (whole_scan lab_services (scan_setup True []) None lab)) = [''n.a.co'']"
    "snd (whole_scan lab_services (scan_setup True []) None lab) = Some COMPLETED" by code_simp+
  then show ?thesis unfolding Let_def by (intro conjI same)
qed

section \<open>Hosts that are dropped\<close>

text \<open>
  The port scanner drops a host it must not contact ``so later stages do not try the same
  names''. When it drops the last one, the payload is empty and an empty payload means the
  target: the fingerprinter and the correlator take up the name that was dropped.
\<close>

lemma dropped_target_is_tried_again:
  assumes "scan_host g net (cx_target ctx) (scan_ports ctx) = Inl e" and "\<not> passive_only ctx" and "\<not> scan_cancelled ctx es"
  shows "pp_hosts (snd (port_scanner_run sha g net now ctx [cx_target ctx] es)) = [] \<and>
    fingerprinter_run sha fetch g hs now' ctx [] results es' = fingerprinter_run sha fetch g hs now' ctx [cx_target ctx] results es'"
proof -
  have "\<not> scan_cancelled ctx (log_line ctx port_stage now m (enter_stage ctx port_stage 35 es))" for m
    using assms(3) by (auto simp: scan_cancelled_def is_cancelled_def log_line_def enter_stage_def set_stage_def row_by_update)
  then show ?thesis using assms by (simp add: port_scanner_run_def fingerprinter_run_def Let_def scan_one_def)
qed

end
