(* ===== verification/AiRemediation.thy ===== *)
theory AiRemediation
  imports CveCorrelator
begin

text \<open>
  Remediation advice from a model, \<open>services/ai_remediation.py\<close> and
  \<open>workers/ai_remediation.py\<close>. Parameters: the answer of the API to a prompt, \<open>json.loads\<close>,
  \<open>str\<close> of a JSON value that is not a string, SHA-256. The cache is a map from its Redis keys to
  what was stored there (None for text that is not JSON), or unreachable. An exception of
  Python that nothing catches is an error value and ends the task.
\<close>

definition ai_stage :: string where
  "ai_stage = ''ai_remediation''"

section \<open>Settings\<close>

record ai_settings =
  ai_enabled :: bool
  ai_key :: string
  ai_model :: string
  ai_max_per_scan :: int

definition ai_active :: "ai_settings \<Rightarrow> bool" where
  "ai_active cfg = (ai_enabled cfg \<and> strip (ai_key cfg) \<noteq> [])"

definition nl :: string where
  "nl = [CHR 0x0A]"

section \<open>The host as the model sees it\<close>

record host_facts =
  hf_hostname :: string
  hf_ip :: "string option"
  hf_ports :: "port_entry list"
  hf_tech :: "tech_entry list"

definition or_text :: "string \<Rightarrow> string option \<Rightarrow> string" where
  "or_text dflt s = (if text_of s = [] then dflt else text_of s)"

definition facts_fingerprint :: "(string \<Rightarrow> string) \<Rightarrow> host_facts \<Rightarrow> string" where
  "facts_fingerprint sha h =
    (let ports = sort (List.map_filter (\<lambda>p. map_option (\<lambda>n. dec n @ ''/'' @ or_text ''?'' (pe_service p)) (pe_port p)) (hf_ports h));
         tech = sort (map (\<lambda>t. text_of (te_name t) @ ''@'' @ or_text ''?'' (te_version t)) (filter (\<lambda>t. text_of (te_name t) \<noteq> []) (hf_tech h)))
     in take 16 (sha (join ''|'' (ports @ [''~''] @ tech))))"

definition ai_cache_key :: "(string \<Rightarrow> string) \<Rightarrow> string \<Rightarrow> string \<Rightarrow> string \<Rightarrow> host_facts \<Rightarrow> string" where
  "ai_cache_key sha cve_id product version h =
    ''ai:remediation:'' @ cve_id @ '':'' @ product @ '':'' @ version @ '':'' @ facts_fingerprint sha h"

definition port_number :: "port_entry \<Rightarrow> int" where
  "port_number p = (case pe_port p of None \<Rightarrow> 0 | Some n \<Rightarrow> n)"

definition describe_port :: "port_entry \<Rightarrow> string" where
  "describe_port p =
    join '' '' ([''  - '' @ (case pe_port p of None \<Rightarrow> ''None'' | Some n \<Rightarrow> dec n) @ ''/'' @ pe_protocol p] @
      (if text_of (pe_service p) = [] then [] else [''service='' @ text_of (pe_service p)]) @
      (if text_of (pe_banner p) = [] then [] else [''banner='' @ py_repr (slice_to 120 (text_of (pe_banner p)))]))"

definition describe_ports :: "port_entry list \<Rightarrow> string" where
  "describe_ports ports = (if ports = [] then ''None detected as open.'' else join nl (map describe_port (sort_key port_number ports)))"

definition describe_tech :: "tech_entry list \<Rightarrow> string" where
  "describe_tech ts =
    (let lines = join nl (map (\<lambda>t. ''  - '' @ text_of (te_name t) @ '' '' @ or_text ''version unknown'' (te_version t)
               @ (if te_confidence t = 0 then [] else '' (detection confidence '' @ dec (te_confidence t) @ ''%)''))
             (filter (\<lambda>t. text_of (te_name t) \<noteq> []) ts))
     in if lines = [] then ''  Nothing fingerprinted.'' else lines)"

section \<open>The prompt\<close>

record work_item =
  wk_id :: nat
  wk_cve :: string
  wk_cvss :: "rat option"
  wk_vector :: "string option"
  wk_severity :: severity
  wk_description :: "string option"
  wk_fallback :: string
  wk_evidence :: json_object
  wk_facts :: host_facts

definition build_prompt :: "work_item \<Rightarrow> string \<Rightarrow> string \<Rightarrow> string" where
  "build_prompt w product version =
    ''CVE: '' @ wk_cve w @ nl
    @ ''CVSS base score: '' @ (case wk_cvss w of None \<Rightarrow> ''not scored by NVD'' | Some x \<Rightarrow> show_float x) @ nl
    @ ''CVSS vector: '' @ or_text ''not published'' (wk_vector w) @ nl
    @ ''Severity band we assigned: '' @ severity_name (wk_severity w) @ nl @ nl
    @ ''NVD description:'' @ nl @ slice_to 2000 (or_text ''No description published.'' (wk_description w)) @ nl @ nl
    @ ''AFFECTED COMPONENT ON THIS HOST'' @ nl @ ''  '' @ product @ '' '' @ version @ nl @ nl
    @ ''HOST'' @ nl @ ''  hostname: '' @ hf_hostname (wk_facts w) @ nl @ ''  ip: '' @ or_text ''not resolved'' (hf_ip (wk_facts w)) @ nl @ nl
    @ ''OPEN PORTS OBSERVED BY OUR SCAN'' @ nl @ describe_ports (hf_ports (wk_facts w)) @ nl @ nl
    @ ''FULL TECHNOLOGY STACK FINGERPRINTED ON THIS HOST'' @ nl @ describe_tech (hf_tech (wk_facts w)) @ nl @ nl
    @ ''Write the remediation for this host.'' @ nl"

section \<open>The reply\<close>

datatype py_error = Attribute_error | Type_error

text \<open>Python's truth of a JSON value.\<close>

fun falsy :: "json \<Rightarrow> bool" where
  "falsy JNull = True"
| "falsy (JBool b) = (\<not> b)"
| "falsy (JNum x) = (x = 0)"
| "falsy (JStr s) = (s = [])"
| "falsy (JList js) = (js = [])"
| "falsy (JObj kvs) = (kvs = [])"

text \<open>\<open>(payload.get(k) or "").strip()\<close>\<close>

definition text_field :: "json \<Rightarrow> py_error + string" where
  "text_field j = (if falsy j then Inr [] else case j of JStr s \<Rightarrow> Inr (strip s) | _ \<Rightarrow> Inl Attribute_error)"

text \<open>What iterating over \<open>payload.get(k) or []\<close> yields.\<close>

definition items_of :: "json \<Rightarrow> py_error + json list" where
  "items_of j =
    (if falsy j then Inr []
     else case j of
       JList js \<Rightarrow> Inr js
     | JStr s \<Rightarrow> Inr (map (\<lambda>c. JStr [c]) s)
     | JObj kvs \<Rightarrow> Inr (map (\<lambda>kv. JStr (fst kv)) kvs)
     | _ \<Rightarrow> Inl Type_error)"

fun py_str :: "(json \<Rightarrow> string) \<Rightarrow> json \<Rightarrow> string" where
  "py_str shown (JStr s) = s"
| "py_str shown j = shown j"

definition str_items :: "(json \<Rightarrow> string) \<Rightarrow> json \<Rightarrow> py_error + string list" where
  "str_items shown j = (case items_of j of Inl e \<Rightarrow> Inl e | Inr js \<Rightarrow> Inr (filter (\<lambda>s. s \<noteq> []) (map (\<lambda>x. strip (py_str shown x)) js)))"

definition numbered :: "string list \<Rightarrow> string" where
  "numbered steps = join nl (map (\<lambda>(i, s). dec (int i) @ ''. '' @ s) (zip [1..<length steps + 1] steps))"

definition labelled :: "string \<Rightarrow> string \<Rightarrow> string list" where
  "labelled label s = (if s = [] \<or> lower s \<in> {''null'', ''none''} then [] else [label @ s])"

definition render :: "(json \<Rightarrow> string) \<Rightarrow> json \<Rightarrow> py_error + string" where
  "render shown payload =
    (case text_field (json_get ''summary'' payload) of Inl e \<Rightarrow> Inl e | Inr summary \<Rightarrow>
     case str_items shown (json_get ''steps'' payload) of Inl e \<Rightarrow> Inl e | Inr steps \<Rightarrow>
     case text_field (json_get ''mitigation'' payload) of Inl e \<Rightarrow> Inl e | Inr mitigation \<Rightarrow>
     case text_field (json_get ''exposure_note'' payload) of Inl e \<Rightarrow> Inl e | Inr exposure \<Rightarrow>
     case str_items shown (json_get ''uncertain'' payload) of Inl e \<Rightarrow> Inl e | Inr uncertain \<Rightarrow>
       Inr (strip (join (nl @ nl)
         ((if summary = [] then [] else [summary]) @ (if steps = [] then [] else [numbered steps]) @
          labelled ''**If you cannot patch today:** '' mitigation @ labelled ''**Exposure on this host:** '' exposure @
          (if uncertain = [] then []
           else [''**Not determined from scan data:**'' @ nl @ join nl (map (\<lambda>u. ''- '' @ u) uncertain)])))))"

text \<open>The reply without a code fence, from the first opening brace to the last closing one.\<close>

definition fence :: string where
  "fence = replicate 3 (CHR 0x60)"

definition lstrip :: "string \<Rightarrow> string" where
  "lstrip s = dropWhile is_space s"

definition unfence :: "string \<Rightarrow> string" where
  "unfence s =
    (if prefix fence s
     then let rest = drop 3 s;
              body = (case cut fence rest of None \<Rightarrow> rest | Some (inner, _) \<Rightarrow> inner)
          in if prefix ''json'' (lower (lstrip body)) then drop 4 (lstrip body) else body
     else s)"

definition braces :: "string \<Rightarrow> string option" where
  "braces s =
    (let start = length (takeWhile (\<lambda>c. c \<noteq> CHR 0x7B) s);
         stop = length s - length (takeWhile (\<lambda>c. c \<noteq> CHR 0x7D) (rev s))
     in if start = length s \<or> stop \<le> start + 1 then None else Some (take (stop - start) (drop start s)))"

definition parse_response :: "(string \<Rightarrow> json option) \<Rightarrow> string \<Rightarrow> json option" where
  "parse_response loads raw =
    (case braces (unfence (strip raw)) of
       None \<Rightarrow> None
     | Some s \<Rightarrow> (case loads s of Some (JObj kvs) \<Rightarrow> Some (JObj kvs) | _ \<Rightarrow> None))"

datatype api_answer = Api_failed | Api_status int "json option"

type_synonym claude = "string \<Rightarrow> api_answer"

text \<open>
  \<open>payload.get("content", [])\<close> iterated: a null or a number cannot be, and the members have to be
  objects; a text that is no string fails in \<open>"".join\<close>.
\<close>

definition content_items :: "json \<Rightarrow> py_error + json list" where
  "content_items payload =
    (case payload of
       JObj kvs \<Rightarrow> (case map_of kvs ''content'' of
           None \<Rightarrow> Inr []
         | Some j \<Rightarrow> if falsy j \<and> j \<notin> {JStr [], JList [], JObj []} then Inl Type_error else items_of j)
     | _ \<Rightarrow> Inl Attribute_error)"

definition block_text :: "json \<Rightarrow> json option" where
  "block_text b =
    (if json_get ''type'' b \<noteq> JStr ''text'' then None
     else case b of JObj kvs \<Rightarrow> (case map_of kvs ''text'' of None \<Rightarrow> Some (JStr []) | Some j \<Rightarrow> Some j) | _ \<Rightarrow> None)"

definition text_chunks :: "json \<Rightarrow> py_error + string list" where
  "text_chunks payload =
    (case content_items payload of
       Inl e \<Rightarrow> Inl e
     | Inr blocks \<Rightarrow>
         (if list_ex (\<lambda>b. case b of JObj _ \<Rightarrow> False | _ \<Rightarrow> True) blocks then Inl Attribute_error
          else let chunks = List.map_filter block_text blocks in
            if list_ex (\<lambda>c. json_str c = None) chunks then Inl Type_error else Inr (map (\<lambda>c. text_of (json_str c)) chunks)))"

definition call_claude :: "(string \<Rightarrow> json option) \<Rightarrow> claude \<Rightarrow> string \<Rightarrow> py_error + json option" where
  "call_claude loads claude prompt =
    (case claude prompt of
       Api_failed \<Rightarrow> Inr None
     | Api_status code body \<Rightarrow>
         (if code = 401 \<or> code = 429 \<or> 400 \<le> code then Inr None
          else case body of
            None \<Rightarrow> Inr None
          | Some payload \<Rightarrow>
              (case text_chunks payload of
                 Inl e \<Rightarrow> Inl e
               | Inr chunks \<Rightarrow> if chunks = [] then Inr None else Inr (parse_response loads (concat chunks)))))"

section \<open>One finding\<close>

record advice =
  ad_text :: string
  ad_source :: string
  ad_model :: json
  ad_confidence :: json
  ad_uncertain :: json

definition is_ai :: "advice \<Rightarrow> bool" where
  "is_ai r = (ad_source r \<in> {''claude'', ''claude-cached''})"

definition from_template :: "string \<Rightarrow> advice" where
  "from_template fallback = \<lparr>ad_text = fallback, ad_source = ''template'', ad_model = JNull, ad_confidence = JNull, ad_uncertain = JNull\<rparr>"

type_synonym ai_cache = "(string \<rightharpoonup> json option) option"

text \<open>An entry without a text, or that is no object, is regenerated; the module stores only strings there.\<close>

definition read_stored :: "json option \<Rightarrow> advice option" where
  "read_stored entry =
    (case entry of
       Some (JObj kvs) \<Rightarrow>
         (case map_of kvs ''text'' of
            Some (JStr t) \<Rightarrow> Some \<lparr>ad_text = t, ad_source = ''claude-cached'', ad_model = json_get ''model'' (JObj kvs),
                ad_confidence = json_get ''confidence'' (JObj kvs), ad_uncertain = json_get ''uncertain'' (JObj kvs)\<rparr>
          | _ \<Rightarrow> None)
     | _ \<Rightarrow> None)"

definition ai_cached :: "ai_cache \<Rightarrow> string \<Rightarrow> advice option" where
  "ai_cached cache key =
    (case cache of None \<Rightarrow> None | Some m \<Rightarrow> (case m key of None \<Rightarrow> None | Some entry \<Rightarrow> read_stored entry))"

definition to_store :: "advice \<Rightarrow> json" where
  "to_store r = JObj [(''text'', JStr (ad_text r)), (''model'', ad_model r), (''confidence'', ad_confidence r), (''uncertain'', ad_uncertain r)]"

definition ai_store :: "ai_cache \<Rightarrow> string \<Rightarrow> advice \<Rightarrow> ai_cache" where
  "ai_store cache key r = (case cache of None \<Rightarrow> None | Some m \<Rightarrow> Some (m(key \<mapsto> Some (to_store r))))"

definition from_payload :: "(json \<Rightarrow> string) \<Rightarrow> ai_settings \<Rightarrow> json \<Rightarrow> string \<Rightarrow> py_error + advice" where
  "from_payload shown cfg payload text =
    (case items_of (json_get ''uncertain'' payload) of
       Inl e \<Rightarrow> Inl e
     | Inr us \<Rightarrow> Inr \<lparr>ad_text = text, ad_source = ''claude'', ad_model = JStr (ai_model cfg),
         ad_confidence = json_get ''confidence'' payload, ad_uncertain = JList (map (\<lambda>u. JStr (py_str shown u)) us)\<rparr>)"

record ai_outside =
  ao_sha :: "string \<Rightarrow> string"
  ao_loads :: "string \<Rightarrow> json option"
  ao_shown :: "json \<Rightarrow> string"
  ao_claude :: claude

definition generate :: "ai_settings \<Rightarrow> ai_outside \<Rightarrow> work_item \<Rightarrow> string \<Rightarrow> string \<Rightarrow> ai_cache \<Rightarrow> py_error + advice \<times> ai_cache" where
  "generate cfg out w product version cache =
    (if \<not> ai_active cfg then Inr (from_template (wk_fallback w), cache)
     else let key = ai_cache_key (ao_sha out) (wk_cve w) product version (wk_facts w) in
       case ai_cached cache key of
         Some r \<Rightarrow> Inr (r, cache)
       | None \<Rightarrow>
           (case call_claude (ao_loads out) (ao_claude out) (build_prompt w product version) of
              Inl e \<Rightarrow> Inl e
            | Inr None \<Rightarrow> Inr (from_template (wk_fallback w), cache)
            | Inr (Some payload) \<Rightarrow>
                (case render (ao_shown out) payload of
                   Inl e \<Rightarrow> Inl e
                 | Inr text \<Rightarrow>
                     (if text = [] then Inr (from_template (wk_fallback w), cache)
                      else case from_payload (ao_shown out) cfg payload text of
                        Inl e \<Rightarrow> Inl e
                      | Inr r \<Rightarrow> Inr (r, ai_store cache key r)))))"

section \<open>The task\<close>

fun ai_rank :: "severity \<Rightarrow> int" where
  "ai_rank CRITICAL = 0"
| "ai_rank HIGH = 1"
| "ai_rank MEDIUM = 2"
| "ai_rank LOW = 3"
| "ai_rank INFO = 4"

definition work_of :: "nat \<Rightarrow> estate \<Rightarrow> finding_row \<Rightarrow> work_item option" where
  "work_of org_id es f =
    (case fi_asset f of
       None \<Rightarrow> None
     | Some i \<Rightarrow>
         (case find_asset es i org_id of
            None \<Rightarrow> None
          | Some a \<Rightarrow>
              (if text_of (fi_cve f) = [] then None
               else Some \<lparr>wk_id = fi_id f, wk_cve = text_of (fi_cve f), wk_cvss = fi_cvss f, wk_vector = fi_vector f, wk_severity = fi_severity f,
                 wk_description = fi_description f, wk_fallback = text_of (fi_remediation f), wk_evidence = fi_evidence f,
                 wk_facts = \<lparr>hf_hostname = at_hostname a, hf_ip = at_ip a,
                   hf_ports = filter (\<lambda>p. pe_state p = Some ''open'') (at_ports a), hf_tech = at_tech a\<rparr>\<rparr>)))"

definition load_work :: "nat \<Rightarrow> nat list \<Rightarrow> estate \<Rightarrow> work_item list" where
  "load_work org_id ids es =
    sort_key (\<lambda>w. ai_rank (wk_severity w))
      (List.map_filter (work_of org_id es) (filter (\<lambda>f. fi_id f \<in> set ids \<and> fi_org f = org_id) (es_findings es)))"

definition evidence_text :: "(json \<Rightarrow> string) \<Rightarrow> json_object \<Rightarrow> string \<Rightarrow> string" where
  "evidence_text shown evidence k = (let j = json_get k (JObj evidence) in if falsy j then [] else strip (py_str shown j))"

definition with_advice :: "advice \<Rightarrow> finding_row \<Rightarrow> finding_row" where
  "with_advice r f =
    f\<lparr>fi_remediation := Some (ad_text r),
      fi_evidence := put ''remediation_uncertain'' (if falsy (ad_uncertain r) then JList [] else ad_uncertain r)
        (put ''remediation_confidence'' (ad_confidence r)
          (put ''remediation_model'' (ad_model r)
            (put ''remediation_source'' (JStr (ad_source r)) (fi_evidence f))))\<rparr>"

record enrichment =
  en_estate :: estate
  en_cache :: ai_cache
  en_done :: int
  en_kept :: int

definition enrich_one :: "ai_settings \<Rightarrow> ai_outside \<Rightarrow> scan_ctx \<Rightarrow> work_item \<Rightarrow> enrichment \<Rightarrow> py_error + enrichment" where
  "enrich_one cfg out ctx w en =
    (let product = evidence_text (ao_shown out) (wk_evidence w) ''product''; version = evidence_text (ao_shown out) (wk_evidence w) ''version''
     in if product = [] then Inr en
        else case generate cfg out w product version (en_cache en) of
          Inl e \<Rightarrow> Inl e
        | Inr (r, cache) \<Rightarrow>
            (let en1 = en\<lparr>en_cache := cache\<rparr> in
             if \<not> is_ai r then Inr (en1\<lparr>en_kept := en_kept en1 + 1\<rparr>)
             else case row_by fi_id (wk_id w) (es_findings (en_estate en1)) of
               None \<Rightarrow> Inr en1
             | Some f \<Rightarrow>
                 (if fi_org f \<noteq> cx_org ctx then Inr en1
                  else Inr (en1\<lparr>en_estate := update_finding_row (wk_id w) (with_advice r) (en_estate en1), en_done := en_done en1 + 1\<rparr>))))"

fun enrich_all :: "ai_settings \<Rightarrow> ai_outside \<Rightarrow> int \<Rightarrow> scan_ctx \<Rightarrow> work_item list \<Rightarrow> enrichment \<Rightarrow> enrichment \<times> py_error option" where
  "enrich_all cfg out now ctx [] en = (en, None)"
| "enrich_all cfg out now ctx (w # ws) en =
     (if scan_cancelled ctx (en_estate en)
      then (en\<lparr>en_estate := log_line ctx ai_stage now ''Scan cancelled; stopping AI remediation'' (en_estate en)\<rparr>, None)
      else case enrich_one cfg out ctx w en of
        Inl e \<Rightarrow> (en, Some e)
      | Inr en1 \<Rightarrow> enrich_all cfg out now ctx ws en1)"

text \<open>\<open>work[:cap]\<close>: a negative cap counts from the end.\<close>

definition first_items :: "int \<Rightarrow> work_item list \<Rightarrow> work_item list" where
  "first_items cap ws = (if 0 \<le> cap then slice_to cap ws else take (length ws - nat (- cap)) ws)"

text \<open>An error leaves what was committed before it and skips the rest.\<close>

definition ai_remediation_run ::
    "ai_settings \<Rightarrow> ai_outside \<Rightarrow> int \<Rightarrow> scan_ctx \<Rightarrow> nat list \<Rightarrow> ai_cache \<Rightarrow> estate \<Rightarrow> estate \<times> ai_cache \<times> py_error option" where
  "ai_remediation_run cfg out now ctx ids cache es =
    (if ids = [] then (es, cache, None)
     else if \<not> ai_active cfg
     then (log_line ctx ai_stage now (''AI remediation is not configured (AI_REMEDIATION_API_KEY unset); ''
             @ ''findings keep the standard remediation text'') es, cache, None)
     else
       let es1 = log_line ctx ai_stage now (''Generating context-specific remediation for '' @ dec (int (length ids)) @ '' finding(s)'') es;
           all_work = load_work (cx_org ctx) ids es1; cap = ai_max_per_scan cfg; capped = cap < int (length all_work);
           work = (if capped then first_items cap all_work else all_work);
           es2 = (if capped
             then log_line ctx ai_stage now (''Capped at '' @ dec cap @ '' AI remediations for this scan; '' @ dec (int (length all_work) - cap)
               @ '' lower-severity finding(s) keep the standard text '' @ ''(raise AI_REMEDIATION_MAX_PER_SCAN to change this)'') es1
             else es1)
       in case enrich_all cfg out now ctx work \<lparr>en_estate = es2, en_cache = cache, en_done = 0, en_kept = 0\<rparr> of
            (en, Some e) \<Rightarrow> (en_estate en, en_cache en, Some e)
          | (en, None) \<Rightarrow>
              (let es3 = (if en_kept en = 0 then en_estate en
                 else log_line ctx ai_stage now (dec (en_kept en) @ '' finding(s) kept the standard remediation because the ''
                   @ ''Claude API call did not return usable advice'') (en_estate en))
               in (log_line ctx ai_stage now (''AI remediation complete: '' @ dec (en_done en) @ '' finding(s) enriched'') es3, en_cache en, None)))"

section \<open>What it may touch\<close>

lemma with_advice_keeps: "keeps_finding (with_advice r)"
  by (simp add: keeps_finding_def with_advice_def)

lemma enrich_one_effects:
  assumes "estate_ok (en_estate en)" and "enrich_one cfg out ctx w en = Inr en'"
  shows "effects_of (cx_org ctx) (en_estate en) (en_estate en')"
proof -
  have "effects_of (cx_org ctx) (en_estate en) (update_finding_row (wk_id w) (with_advice r) (en_estate en))"
    if "row_by fi_id (wk_id w) (es_findings (en_estate en)) = Some f" "fi_org f = cx_org ctx" for r f
  proof (rule effect_once, rule effect_of.edit_findings [OF with_advice_keeps])
    fix x assume "x \<in> set (es_findings (en_estate en))" "fi_id x = wk_id w"
    then show "fi_org x = cx_org ctx"
      using keyed_unique [OF estate_okD(3) [OF assms(1)], of x f] row_by_SomeD [OF that(1)] that(2) by simp
  qed
  then show ?thesis
    using assms(2) by (auto simp: enrich_one_def Let_def split: if_splits sum.splits prod.splits option.splits)
qed

lemma enrich_all_effects:
  assumes "estate_ok (en_estate en)"
  shows "effects_of (cx_org ctx) (en_estate en) (en_estate (fst (enrich_all cfg out now ctx ws en)))"
  using assms
proof (induction ws arbitrary: en)
  case (Cons w ws)
  show ?case
  proof (cases "scan_cancelled ctx (en_estate en)")
    case False
    show ?thesis
    proof (cases "enrich_one cfg out ctx w en")
      case (Inr en1)
      have e: "effects_of (cx_org ctx) (en_estate en) (en_estate en1)" by (rule enrich_one_effects [OF Cons.prems Inr])
      from effects_then [OF e Cons.IH [OF effects_keep_estate [OF e Cons.prems]]] show ?thesis using False Inr by simp
    qed (use False in simp)
  qed (simp add: context_effects)
qed simp

lemma ai_remediation_effects:
  assumes "estate_ok es"
  shows "effects_of (cx_org ctx) es (fst (ai_remediation_run cfg out now ctx ids cache es))"
proof -
  have all: "effects_of (cx_org ctx) es (en_estate (fst (enrich_all cfg out now ctx ws \<lparr>en_estate = e, en_cache = c, en_done = 0, en_kept = 0\<rparr>)))"
    if "effects_of (cx_org ctx) es e" for ws e c
  proof -
    define en where "en = \<lparr>en_estate = e, en_cache = c, en_done = 0, en_kept = 0\<rparr>"
    have "estate_ok (en_estate en)" using effects_keep_estate [OF that assms] by (simp add: en_def)
    from enrich_all_effects [OF this, of ctx cfg out now ws] that show ?thesis
      by (simp add: en_def effects_then)
  qed
  have fin: "effects_of (cx_org ctx) es (en_estate en)"
    if "enrich_all cfg out now ctx ws \<lparr>en_estate = e, en_cache = c, en_done = 0, en_kept = 0\<rparr> = (en, r)" "effects_of (cx_org ctx) es e" for ws e c en r
    using all [OF that(2), of ws c] that(1) by simp
  show ?thesis
    unfolding ai_remediation_run_def Let_def
    by (auto split: prod.split option.split intro!: effects_steps elim!: fin)
qed

section \<open>What a run changes\<close>

definition advice_keys :: "string list" where
  "advice_keys = [''remediation_source'', ''remediation_model'', ''remediation_confidence'', ''remediation_uncertain'']"

definition other_evidence :: "finding_row \<Rightarrow> json_object" where
  "other_evidence f = filter (\<lambda>kv. fst kv \<notin> set advice_keys) (fi_evidence f)"

lemma filter_put: "k \<in> K \<Longrightarrow> filter (\<lambda>kv. fst kv \<notin> K) (put k v d) = filter (\<lambda>kv. fst kv \<notin> K) d"
  unfolding put_def by (induction d) auto

lemma map_of_put [simp]: "map_of (put k v d) = (map_of d)(k \<mapsto> v)"
  by (simp add: put_def map_of_dict_update)

lemma with_advice_evidence:
  "other_evidence (with_advice r f) = other_evidence f"
  "json_get ''remediation_source'' (JObj (fi_evidence (with_advice r f))) = JStr (ad_source r)"
proof -
  have "k \<in> set advice_keys" if "k = ''remediation_source'' \<or> k = ''remediation_model'' \<or> k = ''remediation_confidence'' \<or> k = ''remediation_uncertain''"
    for k using that by (auto simp: advice_keys_def)
  then show "other_evidence (with_advice r f) = other_evidence f"
    by (simp add: other_evidence_def with_advice_def filter_put)
qed (simp add: with_advice_def)

definition advised :: "nat \<Rightarrow> nat list \<Rightarrow> finding_row \<Rightarrow> finding_row \<Rightarrow> bool" where
  "advised org ids f g \<longleftrightarrow>
    g = f \<or>
    (fi_org f = org \<and> fi_id f \<in> set ids \<and> text_of (fi_cve f) \<noteq> [] \<and>
     g = f\<lparr>fi_remediation := fi_remediation g, fi_evidence := fi_evidence g\<rparr> \<and> other_evidence g = other_evidence f \<and>
     text_of (fi_remediation g) \<noteq> [] \<and>
     json_get ''remediation_source'' (JObj (fi_evidence g)) \<in> {JStr ''claude'', JStr ''claude-cached''})"

lemma advised_with_advice:
  assumes "advised org ids f g" and "is_ai r" and "ad_text r \<noteq> []"
    and "fi_org f = org \<and> fi_id f \<in> set ids \<and> text_of (fi_cve f) \<noteq> []"
  shows "advised org ids f (with_advice r g)"
proof -
  have g: "g = f\<lparr>fi_remediation := fi_remediation g, fi_evidence := fi_evidence g\<rparr>" "other_evidence g = other_evidence f"
    using assms(1) by (auto simp: advised_def)
  have "with_advice r g = f\<lparr>fi_remediation := fi_remediation (with_advice r g), fi_evidence := fi_evidence (with_advice r g)\<rparr>"
    by (subst (1) g(1)) (simp add: with_advice_def)
  moreover have "text_of (fi_remediation (with_advice r g)) = ad_text r" by (simp add: with_advice_def text_of_def)
  moreover have "json_get ''remediation_source'' (JObj (fi_evidence (with_advice r g))) \<in> {JStr ''claude'', JStr ''claude-cached''}"
    using assms(2) by (simp add: with_advice_evidence(2) is_ai_def del: json_get.simps)
  ultimately show ?thesis
    unfolding advised_def with_advice_evidence(1) using assms(3,4) g(2) by (intro disjI2 conjI) simp_all
qed

lemma advised_id: "advised org ids f g \<Longrightarrow> fi_id g = fi_id f"
proof -
  assume "advised org ids f g"
  then have "g = f\<lparr>fi_remediation := fi_remediation g, fi_evidence := fi_evidence g\<rparr>" by (auto simp: advised_def)
  from arg_cong [OF this, of fi_id] show ?thesis by simp
qed

subsection \<open>The cache\<close>

text \<open>Every entry that can be read has a text; the module stores no other.\<close>

definition cache_ok :: "ai_cache \<Rightarrow> bool" where
  "cache_ok cache = (\<forall>key r. ai_cached cache key = Some r \<longrightarrow> ad_text r \<noteq> [])"

lemma cached_source: "ai_cached cache key = Some r \<Longrightarrow> ad_source r = ''claude-cached''"
  by (auto simp: ai_cached_def read_stored_def split: option.splits json.splits)

lemma ai_cached_store:
  "ai_cached (ai_store cache key r) k = (if k = key \<and> cache \<noteq> None then Some (r\<lparr>ad_source := ''claude-cached''\<rparr>) else ai_cached cache k)"
  by (auto simp: ai_cached_def ai_store_def read_stored_def to_store_def split: option.splits)

lemma cache_ok_store: "cache_ok cache \<Longrightarrow> ad_text r \<noteq> [] \<Longrightarrow> cache_ok (ai_store cache key r)"
  by (auto simp: cache_ok_def ai_cached_store)

lemma generate_facts:
  assumes "generate cfg out w product version cache = Inr (r, cache')" and "cache_ok cache"
  shows "cache_ok cache' \<and> (is_ai r \<longrightarrow> ad_text r \<noteq> [])"
proof (cases "ai_cached cache (ai_cache_key (ao_sha out) (wk_cve w) product version (wk_facts w))")
  case (Some s)
  with assms show ?thesis by (auto simp: generate_def cache_ok_def from_template_def is_ai_def split: if_splits)
next
  case None
  have "ad_text s = t" if "from_payload shown cfg payload t = Inr s" for shown payload t s
    using that by (auto simp: from_payload_def split: sum.splits)
  with assms None show ?thesis
    by (auto simp: generate_def from_template_def is_ai_def intro: cache_ok_store split: if_splits sum.splits option.splits)
qed

subsection \<open>The loop\<close>

definition enriched_from :: "nat \<Rightarrow> nat list \<Rightarrow> estate \<Rightarrow> enrichment \<Rightarrow> bool" where
  "enriched_from org ids es en \<longleftrightarrow>
    list_all2 (advised org ids) (es_findings es) (es_findings (en_estate en)) \<and> es_assets (en_estate en) = es_assets es \<and> cache_ok (en_cache en)"

definition item_of :: "nat \<Rightarrow> nat list \<Rightarrow> estate \<Rightarrow> work_item \<Rightarrow> bool" where
  "item_of org ids es w \<longleftrightarrow>
    (\<exists>f \<in> set (es_findings es). fi_id f = wk_id w \<and> fi_org f = org \<and> fi_id f \<in> set ids \<and> text_of (fi_cve f) \<noteq> [])"

lemma load_work_items: "w \<in> set (load_work org ids es) \<Longrightarrow> item_of org ids es w"
proof -
  assume "w \<in> set (load_work org ids es)"
  then obtain f where f: "f \<in> set (es_findings es)" "fi_id f \<in> set ids" "fi_org f = org" "work_of org es f = Some w"
    by (auto simp: load_work_def List.map_filter_def)
  then have "text_of (fi_cve f) \<noteq> []" "fi_id f = wk_id w" by (auto simp: work_of_def split: option.splits if_splits)
  with f show "item_of org ids es w" by (auto simp: item_of_def)
qed

lemma enriched_update:
  assumes "enriched_from org ids es en" and "item_of org ids es w" and "keyed fi_id (es_findings es)" and "is_ai r" and "ad_text r \<noteq> []"
  shows "list_all2 (advised org ids) (es_findings es)
    (update_where (\<lambda>x. fi_id x = wk_id w) (with_advice r) (es_findings (en_estate en)))"
proof -
  obtain f0 where f0: "f0 \<in> set (es_findings es)" "fi_id f0 = wk_id w" "fi_org f0 = org" "fi_id f0 \<in> set ids" "text_of (fi_cve f0) \<noteq> []"
    using assms(2) by (auto simp: item_of_def)
  have "list_all2 (\<lambda>f g. advised org ids f (if fi_id g = wk_id w then with_advice r g else g)) (es_findings es) (es_findings (en_estate en))"
    using assms(1) unfolding enriched_from_def
  proof (elim conjE list.rel_mono_strong)
    fix f g assume "f \<in> set (es_findings es)" and a: "advised org ids f g"
    moreover have "fi_id g = fi_id f" by (rule advised_id [OF a])
    ultimately show "advised org ids f (if fi_id g = wk_id w then with_advice r g else g)"
      using keyed_unique [OF assms(3) f0(1), of f] f0 advised_with_advice [OF a assms(4,5)] by auto
  qed
  then show ?thesis by (simp add: update_where_def list_all2_map2)
qed

lemma enriched_one:
  assumes "enriched_from (cx_org ctx) ids es en" and "item_of (cx_org ctx) ids es w" and "keyed fi_id (es_findings es)"
    and "enrich_one cfg out ctx w en = Inr en'"
  shows "enriched_from (cx_org ctx) ids es en'"
proof (cases "generate cfg out w (evidence_text (ao_shown out) (wk_evidence w) ''product'')
    (evidence_text (ao_shown out) (wk_evidence w) ''version'') (en_cache en)")
  case (Inr rc)
  obtain r cache where rc: "rc = (r, cache)" by (cases rc)
  have ok: "cache_ok cache" "is_ai r \<longrightarrow> ad_text r \<noteq> []"
    using generate_facts [OF Inr [unfolded rc]] assms(1) by (simp_all add: enriched_from_def)
  then show ?thesis
    using assms(1,4) enriched_update [OF assms(1-3)] Inr rc
    by (auto simp: enrich_one_def Let_def enriched_from_def split: if_splits option.splits)
qed (use assms(1,4) in \<open>auto simp: enrich_one_def Let_def split: if_splits\<close>)

lemma enriched_all:
  assumes "enriched_from (cx_org ctx) ids es en" and "list_all (item_of (cx_org ctx) ids es) ws" and "keyed fi_id (es_findings es)"
  shows "enriched_from (cx_org ctx) ids es (fst (enrich_all cfg out now ctx ws en))"
  using assms(1,2)
proof (induction ws arbitrary: en)
  case (Cons w ws)
  show ?case
  proof (cases "scan_cancelled ctx (en_estate en)")
    case False
    show ?thesis
    proof (cases "enrich_one cfg out ctx w en")
      case (Inr en1)
      from enriched_one [OF Cons.prems(1) _ assms(3) Inr] Cons.prems(2) have "enriched_from (cx_org ctx) ids es en1" by simp
      from Cons.IH [OF this] Cons.prems(2) False Inr show ?thesis by simp
    qed (use False Cons.prems in simp)
  qed (use Cons.prems in \<open>simp add: enriched_from_def\<close>)
qed simp

lemma enriched_run:
  assumes "keyed fi_id (es_findings es)" and "cache_ok cache"
  shows "list_all2 (advised (cx_org ctx) ids) (es_findings es) (es_findings (fst (ai_remediation_run cfg out now ctx ids cache es))) \<and>
    es_assets (fst (ai_remediation_run cfg out now ctx ids cache es)) = es_assets es \<and>
    cache_ok (fst (snd (ai_remediation_run cfg out now ctx ids cache es)))"
proof -
  have same: "list_all2 (advised org js) fs fs" for org js fs by (rule list.rel_refl) (simp add: advised_def)
  have loop: "enriched_from (cx_org ctx) ids es (fst (enrich_all cfg out now ctx ws \<lparr>en_estate = e, en_cache = cache, en_done = 0, en_kept = 0\<rparr>))"
    if "set ws \<subseteq> set (load_work (cx_org ctx) ids e1)" "es_findings e1 = es_findings es" "es_findings e = es_findings es" "es_assets e = es_assets es"
    for ws e e1
  proof (rule enriched_all [OF _ _ assms(1)])
    show "enriched_from (cx_org ctx) ids es \<lparr>en_estate = e, en_cache = cache, en_done = 0, en_kept = 0\<rparr>"
      using that(3,4) assms(2) same by (simp add: enriched_from_def)
    show "list_all (item_of (cx_org ctx) ids es) ws"
      using that(1,2) load_work_items [of _ "cx_org ctx" ids e1] by (auto simp: list_all_iff item_of_def)
  qed
  have cut: "set (first_items n xs) \<subseteq> set xs" for n xs
  proof -
    have "set (slice_to n xs) \<subseteq> set xs" by (induction n xs rule: slice_to.induct) auto
    then show ?thesis by (auto simp: first_items_def dest: in_set_takeD)
  qed
  let ?run = "ai_remediation_run cfg out now ctx ids cache es"
  define e1 where "e1 = log_line ctx ai_stage now (''Generating context-specific remediation for '' @ dec (int (length ids)) @ '' finding(s)'') es"
  define ws where "ws = load_work (cx_org ctx) ids e1"
  show ?thesis
  proof (cases "ids = [] \<or> \<not> ai_active cfg")
    case True
    then show ?thesis by (auto simp: ai_remediation_run_def same assms(2))
  next
    case False
    define e where "e = (if ai_max_per_scan cfg < int (length ws)
      then log_line ctx ai_stage now (''Capped at '' @ dec (ai_max_per_scan cfg) @ '' AI remediations for this scan; ''
        @ dec (int (length ws) - ai_max_per_scan cfg) @ '' lower-severity finding(s) keep the standard text ''
        @ ''(raise AI_REMEDIATION_MAX_PER_SCAN to change this)'') e1 else e1)"
    define vs where "vs = (if ai_max_per_scan cfg < int (length ws) then first_items (ai_max_per_scan cfg) ws else ws)"
    obtain en r where en: "enrich_all cfg out now ctx vs \<lparr>en_estate = e, en_cache = cache, en_done = 0, en_kept = 0\<rparr> = (en, r)" by fastforce
    have "set vs \<subseteq> set ws" using cut by (simp add: vs_def)
    then have ok: "enriched_from (cx_org ctx) ids es en"
      using loop [of vs e1 e] en by (simp add: ws_def e_def e1_def)
    have "es_findings (fst ?run) = es_findings (en_estate en) \<and> es_assets (fst ?run) = es_assets (en_estate en) \<and> fst (snd ?run) = en_cache en"
      using False en unfolding ai_remediation_run_def Let_def e_def vs_def ws_def e1_def by (cases r) simp_all
    with ok show ?thesis by (simp add: enriched_from_def)
  qed
qed

section \<open>Properties\<close>

text \<open>
  C33: enrichment touches advice only. Whatever the API and the cache answer, a run keeps every
  row, and of a row it changes only the remediation and its four evidence entries, only on the
  scan's own organisation's listed findings with a CVE, and never to an empty text: what it writes
  is non-empty and marked as the model's. The assets stay, and the cache keeps only entries
  with a text.
\<close>

theorem enrichment_touches_advice_only:
  assumes "keyed fi_id (es_findings es)" and "cache_ok cache"
  shows "list_all2 (advised (cx_org ctx) ids) (es_findings es) (es_findings (fst (ai_remediation_run cfg out now ctx ids cache es))) \<and>
    es_assets (fst (ai_remediation_run cfg out now ctx ids cache es)) = es_assets es \<and>
    cache_ok (fst (snd (ai_remediation_run cfg out now ctx ids cache es)))"
  using enriched_run [OF assms] .

definition sample_settings :: ai_settings where
  "sample_settings = \<lparr>ai_enabled = True, ai_key = ''k'', ai_model = ''m'', ai_max_per_scan = 5\<rparr>"

definition sample_claude :: "json \<Rightarrow> ai_outside" where
  "sample_claude reply =
    \<lparr>ao_sha = id, ao_loads = (\<lambda>_. Some reply), ao_shown = (\<lambda>_. ''?''),
     ao_claude = (\<lambda>_. Api_status 200 (Some (JObj [(''content'', JList [JObj [(''type'', JStr ''text''), (''text'', JStr ''{reply}'')]])])))\<rparr>"

definition sample_reply :: json where
  "sample_reply = JObj [(''summary'', JStr ''Upgrade nginx.''), (''steps'', JList [JStr ''apt upgrade'', JStr ''restart''])]"

definition sample_found_estate :: estate where
  "sample_found_estate = ac_estate sample_once"

theorem enrichment_touches_advice_only_witness:
  "map fi_remediation (es_findings (fst (ai_remediation_run sample_settings (sample_claude sample_reply) 5 (sample_ctx 9) [20] (Some Map.empty) sample_found_estate)))
     = [Some (''Upgrade nginx.'' @ nl @ nl @ ''1. apt upgrade'' @ nl @ ''2. restart'')] \<and>
   list_all2 (advised 1 [20]) (es_findings sample_found_estate)
     (es_findings (fst (ai_remediation_run sample_settings (sample_claude sample_reply) 5 (sample_ctx 9) [20] (Some Map.empty) sample_found_estate)))"
proof
  have "keyed fi_id (es_findings sample_found_estate)" by code_simp
  moreover have "cache_ok (Some Map.empty)" by (simp add: cache_ok_def ai_cached_def)
  ultimately show "list_all2 (advised 1 [20]) (es_findings sample_found_estate)
     (es_findings (fst (ai_remediation_run sample_settings (sample_claude sample_reply) 5 (sample_ctx 9) [20] (Some Map.empty) sample_found_estate)))"
    using enrichment_touches_advice_only [of sample_found_estate "Some Map.empty" "sample_ctx 9" "[20]" sample_settings "sample_claude sample_reply" 5]
    by (simp add: sample_ctx_def)
qed code_simp

section \<open>What the run does not respect\<close>

text \<open>
  The run does not look at the source of the text it replaces: an analyst's rewrite made before
  the task reaches the finding is lost, although the task keeps it as the fallback.
\<close>

definition sample_rewritten :: estate where
  "sample_rewritten =
    sample_found_estate\<lparr>es_findings := map (\<lambda>f. f\<lparr>fi_remediation := Some ''Our own plan.'',
      fi_evidence := put ''remediation_source'' (JStr ''analyst'') (fi_evidence f)\<rparr>) (es_findings sample_found_estate)\<rparr>"

lemma enrichment_overwrites_the_analyst:
  "map fi_remediation (es_findings sample_rewritten) = [Some ''Our own plan.''] \<and>
   map (\<lambda>f. json_get ''remediation_source'' (JObj (fi_evidence f))) (es_findings sample_rewritten) = [JStr ''analyst''] \<and>
   map fi_remediation (es_findings (fst (ai_remediation_run sample_settings (sample_claude sample_reply) 5 (sample_ctx 9) [20] None sample_rewritten)))
     = [Some (''Upgrade nginx.'' @ nl @ nl @ ''1. apt upgrade'' @ nl @ ''2. restart'')]"
  by code_simp

text \<open>\<open>generate\<close> promises never to raise; a summary that is a list of lines ends the whole task.\<close>

lemma a_listed_summary_ends_the_run:
  "render shown (JObj [(''summary'', JList [JStr ''Upgrade.''])]) = Inl Attribute_error \<and>
   snd (snd (ai_remediation_run sample_settings (sample_claude (JObj [(''summary'', JList [JStr ''Upgrade.''])])) 5 (sample_ctx 9) [20] None sample_found_estate))
     = Some Attribute_error"
proof
  show "render shown (JObj [(''summary'', JList [JStr ''Upgrade.''])]) = Inl Attribute_error" by (simp add: render_def text_field_def)
qed code_simp

end
