(* ===== verification/Notifier.thy ===== *)
theory Notifier
  imports AuthHistory CveCorrelator
begin

text \<open>
  Slack alerts for new critical findings, \<open>workers/notifier.py\<close>: the message, the task and its
  retries. The findings of an alert are the ones the correlator hands on. Strings that are
  not ASCII are their UTF-8 bytes.
\<close>

section \<open>The message\<close>

record notify_settings =
  ns_enabled :: bool
  ns_min_severity :: string

definition alert_order :: "string list" where
  "alert_order = [''info'', ''low'', ''medium'', ''high'', ''critical'']"

definition severity_index :: "string \<Rightarrow> nat option" where
  "severity_index s = (let i = length (takeWhile (\<lambda>x. x \<noteq> s) alert_order) in if i < length alert_order then Some i else None)"

definition meets_threshold :: "notify_settings \<Rightarrow> string \<Rightarrow> bool" where
  "meets_threshold cfg severity =
    (case (severity_index severity, severity_index (ns_min_severity cfg)) of (Some i, Some k) \<Rightarrow> k \<le> i | _ \<Rightarrow> False)"

definition newline :: string where
  "newline = [CHR 0x0A]"

definition long_dash :: string where
  "long_dash = [CHR 0xE2, CHR 0x80, CHR 0x94]"

definition red_circle :: string where
  "red_circle = [CHR 0xF0, CHR 0x9F, CHR 0x94, CHR 0xB4]"

definition mrkdwn :: "string \<Rightarrow> json" where
  "mrkdwn s = JObj [(''type'', JStr ''mrkdwn''), (''text'', JStr s)]"

definition heading :: "nat \<Rightarrow> string \<Rightarrow> string" where
  "heading n org_name =
    dec (int n) @ '' new critical finding'' @ (if n \<noteq> 1 then ''s'' else []) @ '' '' @ long_dash @ '' '' @ org_name"

definition alert_fields :: "alert \<Rightarrow> json list" where
  "alert_fields a =
    [mrkdwn (''*Asset*'' @ newline @ ''`'' @ al_hostname a @ ''`''),
     mrkdwn (''*CVE*'' @ newline @ ''`'' @ al_cve a @ ''`''),
     mrkdwn (''*CVSS*'' @ newline @ (case al_cvss a of None \<Rightarrow> ''not scored'' | Some x \<Rightarrow> show_float x)),
     mrkdwn (''*Severity*'' @ newline @ upper (severity_name (al_severity a)))]"

definition alert_blocks :: "alert \<Rightarrow> json list" where
  "alert_blocks a =
    [JObj [(''type'', JStr ''section''), (''text'', mrkdwn (''*'' @ al_title a @ ''*'')), (''fields'', JList (alert_fields a))],
     JObj [(''type'', JStr ''divider'')]]"

definition context_block :: "string \<Rightarrow> json" where
  "context_block s = JObj [(''type'', JStr ''context''), (''elements'', JList [mrkdwn s])]"

definition message_blocks :: "alert list \<Rightarrow> string \<Rightarrow> string option \<Rightarrow> json list" where
  "message_blocks findings org_name scan_id =
    (let n = length findings; shown = take 10 findings in
     JObj [(''type'', JStr ''header''),
           (''text'', JObj [(''type'', JStr ''plain_text''), (''text'', JStr (red_circle @ '' '' @ heading n org_name)), (''emoji'', JBool True)])]
     # concat (map alert_blocks shown)
     @ (if length shown < n
        then [context_block (''_'' @ ellipsis @ ''and '' @ dec (int n - int (length shown)) @ '' more. '' @ ''Open SurfaceWatch to see the full list._'')]
        else [])
     @ (case scan_id of None \<Rightarrow> [] | Some i \<Rightarrow> if i = [] then [] else [context_block (''Scan `'' @ i @ ''`'')]))"

definition build_blocks :: "alert list \<Rightarrow> string \<Rightarrow> string option \<Rightarrow> json" where
  "build_blocks findings org_name scan_id =
    JObj [(''text'', JStr (heading (length findings) org_name)), (''blocks'', JList (message_blocks findings org_name scan_id)),
          (''attachments'', JList [JObj [(''color'', JStr ''#c1443c''), (''blocks'', JList [])]])]"

section \<open>The task\<close>

text \<open>
  What \<open>self.retry\<close> does on the attempt with a number from 0: the task is queued again, the
  exception given to it is raised, or \<open>MaxRetriesExceededError\<close> is.
\<close>

datatype retried = Requeued | Raised_given | Raised_exceeded

datatype notice = Not_sent string | Sent nat | Again | Failed_delivery | Failed_post post_error

type_synonym celery = "nat \<Rightarrow> retried"

definition notify_critical ::
    "notify_settings \<Rightarrow> slack_client \<Rightarrow> celery \<Rightarrow> nat \<Rightarrow> nat \<Rightarrow> alert list \<Rightarrow> string option \<Rightarrow> db \<Rightarrow> notice" where
  "notify_critical cfg client celery attempt org_id findings scan_id db =
    (if \<not> ns_enabled cfg then Not_sent ''disabled''
     else
       let eligible = filter (\<lambda>a. meets_threshold cfg (lower (severity_name (al_severity a)))) findings in
       if eligible = [] then Not_sent ''below_threshold''
       else case org_by_id db org_id of
         None \<Rightarrow> Not_sent ''org_missing''
       | Some org \<Rightarrow>
           (let webhook = (case og_webhook org of None \<Rightarrow> [] | Some url \<Rightarrow> url) in
            if webhook = [] then Not_sent ''not_configured''
            else case post client webhook (build_blocks eligible (og_name org) scan_id) of
              Inl e \<Rightarrow> Failed_post e
            | Inr True \<Rightarrow> Sent (length eligible)
            | Inr False \<Rightarrow>
                (case celery attempt of
                   Requeued \<Rightarrow> Again
                 | Raised_given \<Rightarrow> Failed_delivery
                 | Raised_exceeded \<Rightarrow> Not_sent ''delivery_failed'')))"

text \<open>The attempts of one alert: each meets its own network and database.\<close>

partial_function (option) alert_task ::
    "notify_settings \<Rightarrow> (nat \<Rightarrow> slack_client \<times> db) \<Rightarrow> celery \<Rightarrow> nat \<Rightarrow> nat \<Rightarrow> alert list \<Rightarrow> string option \<Rightarrow> (notice \<times> nat) option" where
  "alert_task cfg world celery attempt org_id findings scan_id =
    (case notify_critical cfg (fst (world attempt)) celery attempt org_id findings scan_id (snd (world attempt)) of
       Again \<Rightarrow> alert_task cfg world celery (Suc attempt) org_id findings scan_id
     | r \<Rightarrow> Some (r, Suc attempt))"

text \<open>\<open>max_retries=3\<close>, as Celery documents \<open>retry\<close> with an exception given.\<close>

definition documented_retry :: celery where
  "documented_retry attempt = (if attempt < 3 then Requeued else Raised_given)"

section \<open>Where an alert may go\<close>

text \<open>
  The assumption on \<open>httpx\<close>: for a URL that both can read, it connects to the scheme and the
  host that \<open>urlparse\<close> names, as RFC 3986 has them.
\<close>

definition reads_like_urlparse :: "slack_client \<Rightarrow> bool" where
  "reads_like_urlparse client \<longleftrightarrow>
    (\<forall>url request parsed. sc_build client url = Some request \<longrightarrow> urlparse url = Some parsed \<longrightarrow>
       url_scheme (req_url request) = up_scheme parsed \<and> hostname parsed = Some (url_host (req_url request)))"

definition to_slack :: "http_request \<Rightarrow> bool" where
  "to_slack request =
    (url_scheme (req_url request) = ''https'' \<and> req_sni request = Some slack_host \<and> \<not> is_private_address (url_host (req_url request)))"

lemma validate_webhook_urlD:
  assumes "validate_webhook_url url = Inr u"
  obtains parsed where "u = strip url" "urlparse u = Some parsed" "up_scheme parsed = ''https''" "hostname parsed = Some slack_host"
    "prefix ''/services/'' (up_path parsed)" "length u \<le> 512"
  using assms by (auto simp: validate_webhook_url_def Let_def split: if_splits option.splits)

lemma slack_host_is_a_name: "ip_address slack_host = None"
  by code_simp

lemma slack_request_to_slack:
  assumes "reads_like_urlparse client" and "validate_webhook_url url = Inr url" and "slack_request client url = Inr pinned"
  shows "to_slack pinned"
proof -
  from assms(3) obtain request where r: "sc_build client url = Some request" "request_hook (sc_lookup client) request = Inr pinned"
    by (auto simp: slack_request_def split: option.splits sum.splits)
  from assms(2) obtain parsed where p: "urlparse url = Some parsed" "up_scheme parsed = ''https''" "hostname parsed = Some slack_host"
    by (rule validate_webhook_urlD) simp
  with assms(1) r(1) have req: "url_scheme (req_url request) = ''https''" "url_host (req_url request) = slack_host"
    by (auto simp: reads_like_urlparse_def)
  from guard_request_name [OF _ r(2)] obtain as where
    as: "resolve_public_addresses (sc_lookup client) (url_host (req_url request)) (case url_port (req_url request) of None \<Rightarrow> 0 | Some p \<Rightarrow> p) = Inr as"
    "pinned = pin request as" using slack_host_is_a_name req(2) by metis
  with public.pick_public [OF as(1)] req show ?thesis by (simp add: to_slack_def pin_def Let_def)
qed

lemma post_depends_on_slack:
  assumes "reads_like_urlparse client" and "webhook_ok (Some url)"
    and "\<And>request p. to_slack request \<Longrightarrow> answer request p = sc_answer client request p"
  shows "post (client\<lparr>sc_answer := answer\<rparr>) url payload = post client url payload"
proof -
  have u: "validate_webhook_url url = Inr url" using assms(2) by (simp add: webhook_ok_def)
  have same: "slack_request (client\<lparr>sc_answer := answer\<rparr>) url = slack_request client url"
    by (simp add: slack_request_def split: option.split)
  show ?thesis
  proof (cases "slack_request client url")
    case (Inr request)
    with assms(3) [OF slack_request_to_slack [OF assms(1) u Inr]] show ?thesis by (simp add: post_def u same)
  qed (simp add: post_def u same)
qed

section \<open>Stored webhooks\<close>

definition webhooks_ok :: "db \<Rightarrow> bool" where
  "webhooks_ok db = list_all (\<lambda>org. webhook_ok (og_webhook org)) (db_orgs db)"

lemma webhooks_ok_effect:
  assumes "webhooks_ok db" and "effect cy db db'"
  shows "webhooks_ok db'"
  using assms(2)
proof cases
  case (webhook url i)
  then show ?thesis using assms(1) by (auto simp: webhooks_ok_def list_all_iff update_where_def)
next
  case (starting session user h e db1)
  then show ?thesis using assms(1) insert_sessionD [of session db db1] by (simp add: webhooks_ok_def)
next
  case (rotating s user h e db1 now)
  then show ?thesis using assms(1) insert_sessionD [OF rotating(4)] by (simp add: webhooks_ok_def)
qed (use assms(1) in \<open>simp_all add: webhooks_ok_def add_account_def new_org_def webhook_ok_def Let_def\<close>)

interpretation webhooks: latched_system "auth_step cy cfg rs client" "\<lambda>st. auth_ok (snd st)" "\<lambda>(_ :: unit) st. webhooks_ok (snd st)"
  for cy cfg rs client
  by unfold_locales (auto intro: auth_step_ok auth_step_keeps webhooks_ok_effect)

section \<open>A Slack URL\<close>

definition slack_url :: "string \<Rightarrow> string \<Rightarrow> string \<Rightarrow> string" where
  "slack_url team channel secret = ''https://hooks.slack.com/services/'' @ team @ ''/'' @ channel @ ''/'' @ secret"

definition url_word :: "string \<Rightarrow> bool" where
  "url_word w = (w \<noteq> [] \<and> list_all (\<lambda>c. is_ascii_lower c \<or> is_ascii_upper c \<or> is_ascii_digit c) w)"

lemma word_char:
  assumes "is_ascii_lower c \<or> is_ascii_upper c \<or> is_ascii_digit c"
  shows "\<not> is_unsafe c" "\<not> is_space c" "c \<notin> {CHR ''/'', CHR ''?'', CHR ''#'', CHR '';''}"
  using assms by (auto simp: is_unsafe_def is_space_def is_ascii_lower_def is_ascii_upper_def is_ascii_digit_def ord_def Let_def)

lemma url_wordD:
  assumes "url_word w"
  shows "w \<noteq> []" "filter (\<lambda>c. \<not> is_unsafe c) w = w" "CHR ''/'' \<notin> set w" "CHR ''?'' \<notin> set w" "CHR ''#'' \<notin> set w" "CHR '';'' \<notin> set w"
    "\<not> is_space (last w)"
  using assms word_char last_in_set [of w] by (auto simp: url_word_def list_all_iff filter_id_conv)

lemma slack_url_parts:
  assumes "url_word team" "url_word channel" "url_word secret"
  shows "urlparse (slack_url team channel secret) = Some \<lparr>up_scheme = ''https'', up_netloc = slack_host,
    up_path = ''/services/'' @ team @ ''/'' @ channel @ ''/'' @ secret\<rparr>"
proof -
  define path where "path = ''/services/'' @ team @ ''/'' @ channel @ ''/'' @ secret"
  note w = url_wordD [OF assms(1)] url_wordD [OF assms(2)] url_wordD [OF assms(3)]
  have url: "slack_url team channel secret = ''https://hooks.slack.com'' @ path" by (simp add: slack_url_def path_def)
  have safe: "filter (\<lambda>c. \<not> is_unsafe c) path = path" using w by (simp add: path_def is_unsafe_def)
  have free: "before CHR ''#'' path = path" "before CHR ''?'' path = path" "CHR '';'' \<notin> set path"
    using w by (auto simp: path_def before_free)
  have strip: "filter (\<lambda>c. \<not> is_unsafe c) (dropWhile is_c0 (slack_url team channel secret)) = ''https://hooks.slack.com'' @ path"
    using safe by (simp add: url is_c0_def is_unsafe_def ord_def)
  have scheme: "split_scheme (''https://hooks.slack.com'' @ path) = (''https'', ''//hooks.slack.com'' @ path)"
  proof -
    have "lower ''https'' = ''https''" "list_all is_scheme_char ''https''" "is_ascii_lower CHR ''h''" by code_simp+
    then show ?thesis by (simp add: split_scheme_def)
  qed
  have netloc: "split_netloc (''//hooks.slack.com'' @ path) = (slack_host, path)"
    by (simp add: split_netloc_def is_delimiter_def slack_host_def path_def)
  have "\<not> bad_brackets slack_host" by code_simp
  then have "urlparse (slack_url team channel secret) = Some \<lparr>up_scheme = ''https'', up_netloc = slack_host, up_path = path\<rparr>"
    unfolding urlparse_def strip Let_def scheme prod.case netloc by (simp add: free)
  then show ?thesis by (simp only: path_def)
qed

lemma slack_url_hint:
  assumes "url_word team" "url_word channel" "url_word secret"
  shows "redact (Some (slack_url team channel secret)) = Some (Some (''hooks.slack.com/services/'' @ team @ ''/'' @ channel @ ''/'' @ concat (replicate 8 bullet)))"
proof -
  note w = url_wordD [OF assms(1)] url_wordD [OF assms(2)] url_wordD [OF assms(3)]
  define path where "path = ''services/'' @ team @ ''/'' @ channel @ ''/'' @ secret"
  have "last path = last secret" using w by (simp add: path_def)
  then have "last path \<noteq> CHR ''/''" using w last_in_set by metis
  then have "strip_if (\<lambda>c. c = CHR ''/'') path = path"
    unfolding path_def by (intro strip_if_clean) (auto simp: path_def)
  then have strip: "strip_if (\<lambda>c. c = CHR ''/'') (CHR ''/'' # path) = path" by (simp add: strip_if_def)
  have "split_on CHR ''/'' (''services'' @ CHR ''/'' # team @ CHR ''/'' # channel @ CHR ''/'' # secret)
      = ''services'' # split_on CHR ''/'' (team @ CHR ''/'' # channel @ CHR ''/'' # secret)"
    by (rule split_on_cons) simp
  also have "\<dots> = [''services'', team, channel, secret]" using w by (simp add: split_on_cons split_on_free)
  finally have split: "split_on CHR ''/'' path = [''services'', team, channel, secret]" by (simp add: path_def)
  have "slack_url team channel secret \<noteq> []" by (simp add: slack_url_def)
  then show ?thesis using slack_url_parts [OF assms] strip split by (simp add: redact_def path_def)
qed

lemma slack_url_accepted:
  assumes "url_word team" "url_word channel" "url_word secret" and "length (slack_url team channel secret) \<le> 512"
  shows "validate_webhook_url (slack_url team channel secret) = Inr (slack_url team channel secret)"
proof -
  have last: "last (slack_url team channel secret) = last secret" using url_wordD(1) [OF assms(3)] by (simp add: slack_url_def)
  have "strip (slack_url team channel secret) = slack_url team channel secret"
    unfolding strip_def using url_wordD(7) [OF assms(3)] last by (intro strip_if_clean) (auto simp: slack_url_def is_space_def ord_def)
  moreover have "hostname \<lparr>up_scheme = ''https'', up_netloc = slack_host, up_path = p\<rparr> = Some slack_host" for p
  proof -
    have "host_part slack_host = slack_host" "lower (before CHR ''%'' slack_host) @ dropWhile (\<lambda>c. c \<noteq> CHR ''%'') slack_host = slack_host"
      "slack_host \<noteq> []" by code_simp+
    then show ?thesis by (simp add: hostname_def)
  qed
  moreover have "slack_url team channel secret \<noteq> []" by (simp add: slack_url_def)
  ultimately show ?thesis using slack_url_parts [OF assms(1-3)] assms(4) by (simp add: validate_webhook_url_def)
qed

section \<open>Delivery\<close>

lemma notify_not_again:
  "notify_critical cfg client celery attempt org_id findings scan_id db = Again \<Longrightarrow> celery attempt = Requeued"
  by (auto simp: notify_critical_def Let_def split: if_splits option.splits sum.splits bool.splits retried.splits)

lemma alert_task_returns:
  assumes "celery attempt \<noteq> Requeued \<or> (\<exists>r. alert_task cfg world celery (Suc attempt) org_id findings scan_id = Some r \<and> P r)"
    and "\<And>r. r \<noteq> Again \<Longrightarrow> P (r, Suc attempt)"
  shows "\<exists>r. alert_task cfg world celery attempt org_id findings scan_id = Some r \<and> P r"
proof (cases "notify_critical cfg (fst (world attempt)) celery attempt org_id findings scan_id (snd (world attempt)) = Again")
  case True
  from notify_not_again [OF this] assms(1) show ?thesis
    by (simp add: alert_task.simps [of cfg world celery attempt] True)
next
  case False
  from assms(2) [OF this] False show ?thesis
    by (subst alert_task.simps) (auto split: notice.split)
qed

section \<open>Properties\<close>

text \<open>
  C34: only Slack webhooks are stored. After any history of account requests, whatever URLs were
  sent, a stored webhook is an https URL on hooks.slack.com under /services/, without spaces
  around it, of at most 512 characters.
\<close>

theorem stored_webhooks_are_slacks:
  assumes "auth_ok db" and "webhooks_ok db" and "org \<in> set (db_orgs (snd (run_auth cy cfg rs client (r, db) es)))"
    and "og_webhook org = Some url"
  shows "url = strip url \<and> length url \<le> 512 \<and>
    (case urlparse url of None \<Rightarrow> False
     | Some parsed \<Rightarrow> up_scheme parsed = ''https'' \<and> hostname parsed = Some ''hooks.slack.com'' \<and> prefix ''/services/'' (up_path parsed))"
proof -
  have "webhooks_ok (snd (run_auth cy cfg rs client (r, db) es))"
    by (rule webhooks.run_latch) (use assms(1,2) in simp_all)
  then have "validate_webhook_url url = Inr url"
    using assms(3,4) by (auto simp: webhooks_ok_def list_all_iff webhook_ok_def)
  then show ?thesis by (rule validate_webhook_urlD) (auto simp: slack_host_def)
qed

definition sample_webhook :: string where
  "sample_webhook = slack_url ''T1'' ''B1'' ''s3cret''"

theorem stored_webhooks_are_slacks_witness:
  "map og_webhook (db_orgs (snd (desk_run (rd_empty, desk_db)
      [Set_webhook 9 (Some desk_access) (Some (sample_webhook @ '' '')), Set_webhook 9 (Some desk_access) (Some ''https://10.0.0.1/services/'')])))
     = [Some sample_webhook] \<and> sample_webhook = strip sample_webhook"
proof -
  let ?db = "snd (desk_run (rd_empty, desk_db)
      [Set_webhook 9 (Some desk_access) (Some (sample_webhook @ '' '')), Set_webhook 9 (Some desk_access) (Some ''https://10.0.0.1/services/'')])"
  have stored: "map og_webhook (db_orgs ?db) = [Some sample_webhook]" by code_simp
  then obtain org where org: "org \<in> set (db_orgs ?db)" "og_webhook org = Some sample_webhook" by auto
  have "webhooks_ok desk_db" by code_simp
  from stored_webhooks_are_slacks [OF desk_auth this org] stored show ?thesis by simp
qed

text \<open>
  C35: an alert reaches nobody but Slack. With a stored webhook that was validated, the outcome of
  the task depends on the network only at requests over https whose TLS name is
  hooks.slack.com and which are connected to a public address: whatever other hosts would
  answer makes no difference, so nothing is sent to them.
\<close>

theorem alerts_reach_only_slack:
  assumes "reads_like_urlparse client" and "webhooks_ok db"
    and "\<And>request payload. to_slack request \<Longrightarrow> answer request payload = sc_answer client request payload"
  shows "notify_critical cfg (client\<lparr>sc_answer := answer\<rparr>) celery attempt org_id findings scan_id db =
    notify_critical cfg client celery attempt org_id findings scan_id db"
proof (cases "org_by_id db org_id")
  case (Some org)
  have "webhook_ok (og_webhook org)"
    using row_by_SomeD [OF Some [unfolded org_by_id_def]] assms(2) by (simp add: webhooks_ok_def list_all_iff)
  then have "og_webhook org = Some url \<Longrightarrow>
      post (client\<lparr>sc_answer := answer\<rparr>) url payload = post client url payload" for url payload
    using post_depends_on_slack [OF assms(1) _ assms(3)] by simp
  then show ?thesis using Some by (simp add: notify_critical_def Let_def split: option.split)
qed (simp add: notify_critical_def Let_def)

text \<open>A client that reads URLs with \<open>urlparse\<close>, and a network on which only Slack accepts.\<close>

definition sample_client :: slack_client where
  "sample_client =
    \<lparr>sc_build = (\<lambda>url. case urlparse url of None \<Rightarrow> None
       | Some p \<Rightarrow> map_option (\<lambda>h. \<lparr>req_url = \<lparr>url_scheme = up_scheme p, url_host = h, url_port = None, url_path = up_path p\<rparr>,
           req_host_header = None, req_sni = None\<rparr>) (hostname p)),
     sc_lookup = (\<lambda>host port. Some [''3.3.3.3'']),
     sc_answer = (\<lambda>request payload. Slack_status (if to_slack request then 200 else 500))\<rparr>"

definition sample_notify :: notify_settings where
  "sample_notify = \<lparr>ns_enabled = True, ns_min_severity = ''critical''\<rparr>"

definition sample_alert :: alert where
  "sample_alert = \<lparr>al_finding = 20, al_title = ''t'', al_hostname = ''w.a.co'', al_cve = ''CVE-1'', al_cvss = Some (98 / 10), al_severity = CRITICAL\<rparr>"

definition hooked_db :: db where
  "hooked_db = update_org 1 (\<lambda>org. org\<lparr>og_webhook := Some sample_webhook\<rparr>) lab_db"

theorem alerts_reach_only_slack_witness:
  "notify_critical sample_notify (sample_client\<lparr>sc_answer := \<lambda>request payload. Slack_status 200\<rparr>) documented_retry 0 1 [sample_alert] None hooked_db
     = Sent 1"
proof -
  have "reads_like_urlparse sample_client"
    by (auto simp: reads_like_urlparse_def sample_client_def split: option.splits)
  moreover have "webhooks_ok hooked_db" by code_simp
  moreover have "Slack_status 200 = sc_answer sample_client request payload" if "to_slack request" for request payload
    using that by (simp add: sample_client_def)
  moreover have "notify_critical sample_notify sample_client documented_retry 0 1 [sample_alert] None hooked_db = Sent 1" by code_simp
  ultimately show ?thesis
    using alerts_reach_only_slack [of sample_client hooked_db "\<lambda>request payload. Slack_status 200" sample_notify documented_retry 0 1 "[sample_alert]" None]
    by simp
qed

text \<open>
  A webhook in Slack's own form is accepted and its secret is never shown: what the API says
  of the organisation is computed from the team and the channel alone.
\<close>

lemma webhook_secret_is_hidden:
  assumes "url_word team" "url_word channel" "url_word secret" and "length (slack_url team channel secret) \<le> 512"
  shows "validate_webhook_url (slack_url team channel secret) = Inr (slack_url team channel secret) \<and>
    from_org (org\<lparr>og_webhook := Some (slack_url team channel secret)\<rparr>) =
      Inr \<lparr>oo_id = og_id org, oo_name = og_name org, oo_domain = og_domain org, oo_verified = og_verified org, oo_configured = True,
        oo_hint = Some (''hooks.slack.com/services/'' @ team @ ''/'' @ channel @ ''/'' @ concat (replicate 8 bullet))\<rparr>"
proof -
  have "slack_url team channel secret \<noteq> []" by (simp add: slack_url_def)
  then show ?thesis by (simp add: from_org_def slack_url_hint [OF assms(1-3)] slack_url_accepted [OF assms])
qed

lemma webhook_secret_is_hidden_witness:
  "validate_webhook_url sample_webhook = Inr sample_webhook"
  unfolding sample_webhook_def by (rule webhook_secret_is_hidden [THEN conjunct1]) code_simp+



section \<open>What the notifier does not do as it says\<close>

text \<open>Slack's message limit is never met.\<close>

lemma message_is_short: "length (message_blocks findings org_name scan_id) \<le> 23"
proof -
  have "length (concat (map alert_blocks as)) = 2 * length as" for as
    by (induction as) (simp_all add: alert_blocks_def)
  then show ?thesis by (simp add: message_blocks_def Let_def min_def split: option.split)
qed

text \<open>A URL with one segment less is accepted too, and then the hint shows the secret.\<close>

lemma short_path_shows_the_secret:
  "validate_webhook_url ''https://hooks.slack.com/services/T1/s3cret'' = Inr ''https://hooks.slack.com/services/T1/s3cret'' \<and>
   redact (Some ''https://hooks.slack.com/services/T1/s3cret'') = Some (Some (''hooks.slack.com/services/T1/s3cret/'' @ concat (replicate 8 bullet)))"
  by code_simp

text \<open>
  \<open>retry\<close> is given an exception and raises it when the attempts are used up, so the branch
  for \<open>MaxRetriesExceededError\<close> is never taken and the task fails instead of returning.
\<close>

lemma delivery_failed_is_never_returned:
  "notify_critical cfg client documented_retry attempt org_id findings scan_id db \<noteq> Not_sent ''delivery_failed''"
  by (auto simp: notify_critical_def documented_retry_def Let_def split: if_splits option.splits sum.splits bool.splits retried.splits)

text \<open>When the name does not resolve, \<open>post\<close> raises, and the task fails at once, without a retry.\<close>

lemma unresolved_slack_is_not_retried:
  "notify_critical sample_notify (sample_client\<lparr>sc_lookup := \<lambda>_ _. None\<rparr>) documented_retry 0 1 [sample_alert] None hooked_db
     = Failed_post (Blocked (Unresolvable ''hooks.slack.com''))"
  by code_simp

text \<open>The correlator hands on critical findings only, and those pass every threshold.\<close>

lemma attach_cve_critical:
  "list_all (\<lambda>a. al_severity a = CRITICAL) (ac_critical ac) \<Longrightarrow>
   list_all (\<lambda>a. al_severity a = CRITICAL) (ac_critical (attach_cve sha now ctx i h pair k ac e))"
  by (auto simp: attach_cve_def Let_def split: prod.splits)

lemma attach_all_critical: "list_all (\<lambda>a. al_severity a = CRITICAL) (ac_critical (attach_all sha now ctx found assets es))"
proof -
  let ?P = "\<lambda>ac. list_all (\<lambda>a. al_severity a = CRITICAL) (ac_critical ac)"
  have tech: "?P ac \<Longrightarrow> ?P (attach_tech sha now ctx found i h ac t)" for ac i h t
    by (auto simp: attach_tech_def split: option.splits intro: foldl_keep [where P = ?P] attach_cve_critical)
  have "?P (foldl (attach_tech sha now ctx found i h) ac ts)" if "?P ac" for ac i h ts
    using that tech by (rule foldl_keep [where P = ?P])
  then have asset: "?P ac \<Longrightarrow> ?P (attach_asset sha now ctx found ac x)" for ac x
    by (cases x) (simp add: attach_asset_def Let_def)
  show ?thesis unfolding attach_all_def by (rule foldl_keep [where P = ?P]) (auto intro: asset)
qed

lemma threshold_never_filters:
  "ns_min_severity cfg \<in> set alert_order \<Longrightarrow>
   filter (\<lambda>a. meets_threshold cfg (lower (severity_name (al_severity a)))) (ac_critical (attach_all sha now ctx found assets es)) =
     ac_critical (attach_all sha now ctx found assets es)"
proof -
  assume "ns_min_severity cfg \<in> set alert_order"
  then have "meets_threshold cfg ''critical''" by (auto simp: meets_threshold_def severity_index_def alert_order_def)
  moreover have "lower (severity_name CRITICAL) = ''critical''" by code_simp
  ultimately show ?thesis using attach_all_critical [of sha now ctx found assets es] by (simp add: list_all_iff filter_id_conv)
qed

end
