(* ===== verification/InventoryHistory.thy ===== *)
theory InventoryHistory
  imports SubdomainEnum PortScanner Fingerprinter AiRemediation ChangeDetector
begin

text \<open>
  Histories of the inventory: the requests that write assets and findings and the scan modules,
  one after the other, each on behalf of an organisation. A worker's context carries that
  organisation, as \<open>ScanContext.load\<close> takes it from the task. Deleting a scan is not in these
  histories: it clears the reference of the findings that name the scan.
\<close>

section \<open>Events\<close>

datatype inventory_event =
    Create_asset asset_body
  | Update_asset nat asset_patch
  | Delete_asset nat
  | Create_finding finding_body
  | Update_finding nat finding_patch
  | Delete_finding nat
  | Enumerate nat string json_object outside
  | Scan_ports nat string json_object lookup network "string list"
  | Fingerprint nat string json_object fetcher lookup handshake "(string \<times> port_entry list) list" "string list"
  | Correlate nat string json_object nvd cve_cache "string list"
  | Enrich nat string json_object ai_settings ai_outside "nat list" ai_cache
  | Detect_changes nat string json_object "(string \<times> snapshot) list option" "string list"

definition context_of :: "nat \<Rightarrow> nat \<Rightarrow> string \<Rightarrow> json_object \<Rightarrow> scan_ctx" where
  "context_of org scan target config = \<lparr>cx_scan = scan, cx_org = org, cx_target = target, cx_config = config\<rparr>"

lemma context_of_org [simp]: "cx_org (context_of org scan target config) = org"
  by (simp add: context_of_def)

text \<open>An event with its time and the organisation it acts for.\<close>

fun inventory_act :: "settings \<Rightarrow> (string \<Rightarrow> string) \<Rightarrow> int \<Rightarrow> nat \<Rightarrow> inventory_event \<Rightarrow> estate \<Rightarrow> estate" where
  "inventory_act cfg sha now org (Create_asset body) es = fst (create_asset cfg now org body es)"
| "inventory_act cfg sha now org (Update_asset i p) es = fst (update_asset i org p es)"
| "inventory_act cfg sha now org (Delete_asset i) es = fst (delete_asset i org es)"
| "inventory_act cfg sha now org (Create_finding b) es = fst (create_finding sha now org b es)"
| "inventory_act cfg sha now org (Update_finding i p) es = fst (update_finding now i org p es)"
| "inventory_act cfg sha now org (Delete_finding i) es = fst (delete_finding i org es)"
| "inventory_act cfg sha now org (Enumerate scan target config out) es =
     fst (subdomain_enum_run sha out now (context_of org scan target config) es)"
| "inventory_act cfg sha now org (Scan_ports scan target config g net hosts) es =
     fst (port_scanner_run sha g net now (context_of org scan target config) hosts es)"
| "inventory_act cfg sha now org (Fingerprint scan target config fetch g handshake results hosts) es =
     fingerprinter_run sha fetch g handshake now (context_of org scan target config) hosts results es"
| "inventory_act cfg sha now org (Correlate scan target config ask cache hosts) es =
     fst (cve_correlator_run sha ask now (context_of org scan target config) hosts cache es)"
| "inventory_act cfg sha now org (Enrich scan target config ai out ids cache) es =
     fst (ai_remediation_run ai out now (context_of org scan target config) ids cache es)"
| "inventory_act cfg sha now org (Detect_changes scan target config stored scanned) es =
     fst (change_detector_run sha now (context_of org scan target config) stored scanned es)"

definition inventory_step :: "settings \<Rightarrow> (string \<Rightarrow> string) \<Rightarrow> estate \<Rightarrow> int \<times> nat \<times> inventory_event \<Rightarrow> estate" where
  "inventory_step cfg sha es x = (case x of (now, org, e) \<Rightarrow> inventory_act cfg sha now org e es)"

lemma inventory_act_effects: "estate_ok es \<Longrightarrow> effects_of org es (inventory_act cfg sha now org e es)"
proof (cases e)
  case (Scan_ports scan target config g net hosts)
  assume "estate_ok es"
  from port_scanner_effects [OF this, of "context_of org scan target config"] show ?thesis by (simp add: Scan_ports)
next
  case (Enumerate scan target config out)
  assume "estate_ok es"
  from subdomain_enum_effects [OF this, of "context_of org scan target config"] show ?thesis by (simp add: Enumerate)
next
  case (Fingerprint scan target config fetch g handshake results hosts)
  assume "estate_ok es"
  from fingerprinter_effects [OF this, of "context_of org scan target config"] show ?thesis by (simp add: Fingerprint)
next
  case (Correlate scan target config ask cache hosts)
  assume "estate_ok es"
  from cve_correlator_effects [OF this, of "context_of org scan target config"] show ?thesis by (simp add: Correlate)
next
  case (Enrich scan target config ai out ids cache)
  assume "estate_ok es"
  from ai_remediation_effects [OF this, of "context_of org scan target config"] show ?thesis by (simp add: Enrich)
next
  case (Detect_changes scan target config stored scanned)
  assume "estate_ok es"
  from change_detector_effects [OF this, of "context_of org scan target config"] show ?thesis by (simp add: Detect_changes)
qed (simp_all add: create_asset_effects update_asset_effects delete_asset_effects create_finding_effects update_finding_effects
    delete_finding_effects)

section \<open>The contracts\<close>

interpretation inventory: kept_system "inventory_step cfg sha" estate_ok for cfg sha
  by unfold_locales (auto simp: inventory_step_def intro: effects_keep_estate inventory_act_effects)

text \<open>What an organisation has.\<close>

definition own_assets :: "nat \<Rightarrow> estate \<Rightarrow> asset_row list" where
  "own_assets org es = filter (\<lambda>a. at_org a = org) (es_assets es)"

definition own_findings :: "nat \<Rightarrow> estate \<Rightarrow> finding_row list" where
  "own_findings org es = filter (\<lambda>f. fi_org f = org) (es_findings es)"

lemma own_foreign:
  assumes "org \<noteq> actor"
  shows "own_assets org es = own_assets org \<lparr>es_db = es_db es, es_assets = foreign_assets actor es, es_findings = []\<rparr>"
    and "own_findings org es = own_findings org \<lparr>es_db = es_db es, es_assets = [], es_findings = foreign_findings actor es\<rparr>"
  using assms by (auto simp: own_assets_def own_findings_def foreign_assets_def foreign_findings_def intro!: filter_cong)

lemma effects_keep_own:
  assumes "effects_of actor es es'" and "estate_ok es" and "org \<noteq> actor"
  shows "own_assets org es' = own_assets org es \<and> own_findings org es' = own_findings org es"
  using effects_keep_foreign [OF assms(1,2)] own_foreign [OF assms(3), of es] own_foreign [OF assms(3), of es']
  by (simp add: own_assets_def own_findings_def)

interpretation tenant: guarded_system "inventory_step cfg sha" "\<lambda>_ x. fst (snd x) \<noteq> org"
  "\<lambda>es. estate_ok es \<and> own_assets org es = assets \<and> own_findings org es = findings" for cfg sha org assets findings
proof
  fix es and x :: "int \<times> nat \<times> inventory_event"
  assume a: "estate_ok es \<and> own_assets org es = assets \<and> own_findings org es = findings" "fst (snd x) \<noteq> org"
  obtain now actor e where x: "x = (now, actor, e)" by (cases x) auto
  have "effects_of actor es (inventory_step cfg sha es x)" using a(1) by (simp add: inventory_step_def x inventory_act_effects)
  then show "estate_ok (inventory_step cfg sha es x) \<and> own_assets org (inventory_step cfg sha es x) = assets \<and>
      own_findings org (inventory_step cfg sha es x) = findings"
    using a effects_keep_estate effects_keep_own [of actor es "inventory_step cfg sha es x" org] by (auto simp: x)
qed

section \<open>Properties\<close>

text \<open>
  C27: the inventory stays consistent. After any sequence of requests and scan modules from an
  empty inventory, whatever the network and the external services answer: no two assets of a
  tenant have one name, no two findings of a tenant have one identity, no two rows have one
  key, a finding's asset exists and belongs to the finding's tenant, and every score is
  between 0 and 100.
\<close>

theorem inventory_is_consistent:
  "let es = foldl (inventory_step cfg sha) \<lparr>es_db = db, es_assets = [], es_findings = []\<rparr> history in
   keyed at_id (es_assets es) \<and> keyed fi_id (es_findings es) \<and> keyed asset_key (es_assets es) \<and> keyed finding_key (es_findings es) \<and>
   list_all (\<lambda>f. case fi_asset f of None \<Rightarrow> True | Some i \<Rightarrow> list_ex (\<lambda>a. at_id a = i \<and> at_org a = fi_org f) (es_assets es)) (es_findings es) \<and>
   list_all (\<lambda>a. 0 \<le> at_risk a \<and> at_risk a \<le> 100) (es_assets es)"
proof -
  have "estate_ok \<lparr>es_db = db, es_assets = [], es_findings = []\<rparr>" by (simp add: estate_ok_def)
  from inventory.run_good [OF this] have ok: "estate_ok (foldl (inventory_step cfg sha) \<lparr>es_db = db, es_assets = [], es_findings = []\<rparr> history)" .
  have tenant: "tenant_ok assets f = (case fi_asset f of None \<Rightarrow> True | Some i \<Rightarrow> list_ex (\<lambda>a. at_id a = i \<and> at_org a = fi_org f) assets)"
    for assets f by (force simp: tenant_ok_def asset_tag_def list_ex_iff split: option.splits)
  have "list_all risk_ok assets \<longleftrightarrow> list_all (\<lambda>a. 0 \<le> at_risk a \<and> at_risk a \<le> 100) assets" for assets
    by (simp add: risk_ok_def list_all_iff)
  with ok show ?thesis unfolding Let_def estate_ok_def tenant by simp
qed

text \<open>
  C26: tenants are isolated. Whatever other organisations do in the API and whatever scans run
  for them, an organisation's assets and findings stay exactly as they are.
\<close>

theorem tenants_are_isolated:
  assumes "estate_ok es" and "list_all (\<lambda>x. fst (snd x) \<noteq> org) history"
  shows "own_assets org (foldl (inventory_step cfg sha) es history) = own_assets org es \<and>
    own_findings org (foldl (inventory_step cfg sha) es history) = own_findings org es"
  using tenant.run_safe [where es = history and s = es and cfg = cfg and sha = sha and org = org] assms
  by (simp add: allowed_run_always)

text \<open>Two tenants: the second one reaches for the first one's rows.\<close>

definition two_tenants :: estate where
  "two_tenants = lab\<lparr>es_db := lab_db\<lparr>db_orgs := db_orgs lab_db @
    [\<lparr>og_id = 2, og_name = ''Beta'', og_domain = ''b.co'', og_verified = [''b.co''], og_active = True, og_webhook = None\<rparr>]\<rparr>\<rparr>"

definition reaching :: "(int \<times> nat \<times> inventory_event) list" where
  "reaching =
    [(5, 2, Create_asset \<lparr>ab_hostname = ''w.a.co'', ab_ip = None, ab_notes = None\<rparr>),
     (6, 2, Create_asset \<lparr>ab_hostname = ''w.b.co'', ab_ip = None, ab_notes = None\<rparr>),
     (7, 2, Update_asset 2 \<lparr>ap_ip = None, ap_status = Some (Some DECOMMISSIONED), ap_notes = None\<rparr>),
     (8, 2, Delete_asset 3),
     (9, 2, Create_finding \<lparr>fb_asset = Some 2, fb_title = ''planted'', fb_cve = None, fb_cvss = None, fb_severity = None,
              fb_description = None, fb_remediation = None, fb_references = []\<rparr>),
     (10, 2, Correlate 9 ''w.a.co'' [] (\<lambda>cpe. Nvd_status 404 None) None [''w.a.co''])]"

theorem tenants_are_isolated_witness:
  "let es = foldl (inventory_step default_settings id) two_tenants reaching
   in own_assets 1 es = own_assets 1 two_tenants \<and> map at_hostname (es_assets es) = [''w.a.co'', ''w.eu.a.co'', ''m.a.co'', ''w.b.co'']"
proof -
  have "estate_ok two_tenants" "list_all (\<lambda>x. fst (snd x) \<noteq> 1) reaching" by code_simp+
  note iso = tenants_are_isolated [OF this, of default_settings id]
  have "map at_hostname (es_assets (foldl (inventory_step default_settings id) two_tenants reaching)) = [''w.a.co'', ''w.eu.a.co'', ''m.a.co'', ''w.b.co'']"
    by code_simp
  with iso show ?thesis unfolding Let_def by blast
qed

end
