(* ===== verification/Middleware.thy ===== *)
theory Middleware
  imports Auth
begin

text \<open>
  The middleware around the router: request ids (\<open>core/request_context.py\<close>), security headers
  (\<open>core/security_headers.py\<close>), the answer to an exception nobody handled (\<open>core/errors.py\<close>)
  and the order in which \<open>main.py\<close> stacks them. An ASGI application is a function from the
  request id in the context and the scope to what it sends and whether it raises; the CORS
  middleware and the router are parameters. The transport is not modelled: a send succeeds.
\<close>

section \<open>Applications\<close>

type_synonym headers = "(string \<times> string) list"

datatype message = Start int headers | Body string

record asgi_scope =
  sp_type :: string
  sp_headers :: headers

record reply =
  re_sent :: "message list"
  re_raised :: bool

type_synonym asgi = "string option \<Rightarrow> asgi_scope \<Rightarrow> reply"

fun is_start :: "message \<Rightarrow> bool" where
  "is_start (Start code hs) = True"
| "is_start (Body b) = False"

fun edit_start :: "(headers \<Rightarrow> headers) \<Rightarrow> message \<Rightarrow> message" where
  "edit_start f (Start code hs) = Start code (f hs)"
| "edit_start f (Body b) = Body b"

definition edit_reply :: "(headers \<Rightarrow> headers) \<Rightarrow> reply \<Rightarrow> reply" where
  "edit_reply f r = r\<lparr>re_sent := map (edit_start f) (re_sent r)\<rparr>"

section \<open>Request ids\<close>

definition request_id_header :: string where
  "request_id_header = ''X-Request-ID''"

definition get_request_id :: "string option \<Rightarrow> string" where
  "get_request_id current = (case current of None \<Rightarrow> ''-'' | Some i \<Rightarrow> if i = [] then ''-'' else i)"

definition id_char :: "char \<Rightarrow> bool" where
  "id_char c = (is_alnum c \<or> c \<in> {CHR ''-'', CHR ''_'', CHR ''.''})"

text \<open>\<open>fresh\<close> is the id that is minted, a UUID in hexadecimal.\<close>

definition use_incoming_id :: "string \<Rightarrow> string option \<Rightarrow> string" where
  "use_incoming_id fresh raw =
    (case raw of
       None \<Rightarrow> fresh
     | Some r \<Rightarrow>
         (if r = [] then fresh
          else let candidate = strip r in
            if 0 < length candidate \<and> length candidate \<le> 64 \<and> list_all id_char candidate then candidate else fresh))"

definition header_value :: "asgi_scope \<Rightarrow> string \<Rightarrow> string option" where
  "header_value scope name = map_of (sp_headers scope) name"

definition request_id_middleware :: "string \<Rightarrow> asgi \<Rightarrow> asgi" where
  "request_id_middleware fresh app current scope =
    (if sp_type scope \<notin> {''http'', ''websocket''} then app current scope
     else let i = use_incoming_id fresh (header_value scope (lower request_id_header)) in
       if sp_type scope = ''websocket'' then app (Some i) scope
       else edit_reply (\<lambda>hs. hs @ [(lower request_id_header, i)]) (app (Some i) scope))"

section \<open>Security headers\<close>

record server_settings =
  sv_production :: bool
  sv_hsts_max_age :: int

definition api_headers :: "server_settings \<Rightarrow> bool \<Rightarrow> headers" where
  "api_headers cfg https =
    [(''X-Content-Type-Options'', ''nosniff''),
     (''X-Frame-Options'', ''DENY''),
     (''Referrer-Policy'', ''strict-origin-when-cross-origin''),
     (''Permissions-Policy'', ''geolocation=(), microphone=(), camera=(), payment=()''),
     (''Content-Security-Policy'',
      ''default-src '' @ [CHR 0x27] @ ''none'' @ [CHR 0x27] @ ''; frame-ancestors '' @ [CHR 0x27] @ ''none'' @ [CHR 0x27]
      @ ''; base-uri '' @ [CHR 0x27] @ ''none'' @ [CHR 0x27] @ ''; form-action '' @ [CHR 0x27] @ ''none'' @ [CHR 0x27])]
    @ (if https then [(''Strict-Transport-Security'', ''max-age='' @ dec (sv_hsts_max_age cfg) @ ''; includeSubDomains'')] else [])"

definition add_missing :: "headers \<Rightarrow> headers \<Rightarrow> headers" where
  "add_missing extra hs = hs @ filter (\<lambda>h. fst h \<notin> fst ` set hs) extra"

definition security_lines :: "server_settings \<Rightarrow> headers" where
  "security_lines cfg = map (\<lambda>(k, v). (lower k, v)) (api_headers cfg (sv_production cfg))"

definition security_middleware :: "server_settings \<Rightarrow> asgi \<Rightarrow> asgi" where
  "security_middleware cfg app current scope =
    (if sp_type scope \<noteq> ''http'' then app current scope
     else edit_reply (add_missing (security_lines cfg)) (app current scope))"

section \<open>Unhandled exceptions\<close>

definition quoted :: "string \<Rightarrow> string" where
  "quoted s = [CHR 0x22] @ s @ [CHR 0x22]"

text \<open>The body is compact JSON; a request id has no character that JSON escapes.\<close>

definition internal_error_body :: "string option \<Rightarrow> string" where
  "internal_error_body current =
    ''{'' @ quoted ''detail'' @ '':'' @ quoted ''Internal server error'' @ '','' @ quoted ''request_id'' @ '':'' @ quoted (get_request_id current) @ ''}''"

definition internal_error_response :: "string option \<Rightarrow> message list" where
  "internal_error_response current =
    [Start 500 [(''content-length'', dec (int (length (utf8 (internal_error_body current))))), (''content-type'', ''application/json'')],
     Body (internal_error_body current)]"

definition error_middleware :: "asgi \<Rightarrow> asgi" where
  "error_middleware app current scope =
    (let r = app current scope in
     if sp_type scope \<noteq> ''http'' then r
     else if \<not> re_raised r then r
     else if list_ex is_start (re_sent r) then r
     else \<lparr>re_sent = re_sent r @ internal_error_response current, re_raised = False\<rparr>)"

section \<open>The stack\<close>

definition stack :: "server_settings \<Rightarrow> string \<Rightarrow> (asgi \<Rightarrow> asgi) \<Rightarrow> asgi \<Rightarrow> asgi" where
  "stack cfg fresh cors router =
    request_id_middleware fresh (security_middleware cfg (cors (error_middleware router)))"

definition serve :: "server_settings \<Rightarrow> string \<Rightarrow> (asgi \<Rightarrow> asgi) \<Rightarrow> asgi \<Rightarrow> asgi_scope \<Rightarrow> reply" where
  "serve cfg fresh cors router scope = stack cfg fresh cors router None scope"

section \<open>Ids and headers\<close>

definition clean_id :: "string \<Rightarrow> bool" where
  "clean_id i = (0 < length i \<and> length i \<le> 64 \<and> list_all id_char i)"

lemma use_incoming_id_clean: "clean_id fresh \<Longrightarrow> clean_id (use_incoming_id fresh raw)"
  by (auto simp: use_incoming_id_def clean_id_def Let_def split: option.splits)

lemma use_incoming_id_source: "use_incoming_id fresh raw = fresh \<or> map_option strip raw = Some (use_incoming_id fresh raw)"
  by (auto simp: use_incoming_id_def Let_def split: option.splits)

lemma in_edit_reply: "Start code hs \<in> set (re_sent (edit_reply f r)) \<longleftrightarrow> (\<exists>g. Start code g \<in> set (re_sent r) \<and> hs = f g)"
proof -
  have e: "Start code hs = edit_start f m \<longleftrightarrow> (\<exists>g. m = Start code g \<and> hs = f g)" for m by (cases m) auto
  show ?thesis by (auto simp: edit_reply_def e image_iff)
qed

lemma names_add_missing: "fst ` set extra \<subseteq> fst ` set (add_missing extra hs)" "set hs \<subseteq> set (add_missing extra hs)"
  by (auto simp: add_missing_def)

definition security_names :: "string list" where
  "security_names = [''x-content-type-options'', ''x-frame-options'', ''referrer-policy'', ''permissions-policy'', ''content-security-policy'']"

lemma security_names: "set security_names \<subseteq> fst ` set (security_lines cfg)"
proof -
  have "map lower [''X-Content-Type-Options'', ''X-Frame-Options'', ''Referrer-Policy'', ''Permissions-Policy'', ''Content-Security-Policy''] = security_names"
    by code_simp
  then have "security_names = map fst (take 5 (security_lines cfg))" by (simp add: security_lines_def api_headers_def)
  then have "set security_names = fst ` set (take 5 (security_lines cfg))" by (metis list.set_map)
  then show ?thesis using set_take_subset [of 5 "security_lines cfg"] by auto
qed

lemma edit_reply_raised [simp]: "re_raised (edit_reply f r) = re_raised r"
  by (simp add: edit_reply_def)

text \<open>An HTTP request through the stack.\<close>

lemma serve_http:
  assumes "sp_type scope = ''http''" and "i = use_incoming_id fresh (header_value scope ''x-request-id'')"
  shows "serve cfg fresh cors router scope =
    edit_reply (\<lambda>hs. add_missing (security_lines cfg) hs @ [(''x-request-id'', i)]) (cors (error_middleware router) (Some i) scope)"
proof -
  have name: "lower request_id_header = ''x-request-id''" by code_simp
  have twice: "edit_reply f (edit_reply g r) = edit_reply (\<lambda>hs. f (g hs)) r" for f g r
  proof -
    have "edit_start f (edit_start g m) = edit_start (\<lambda>hs. f (g hs)) m" for m by (cases m) simp_all
    then show ?thesis by (simp add: edit_reply_def)
  qed
  show ?thesis
    unfolding serve_def stack_def request_id_middleware_def security_middleware_def name Let_def assms(2) [symmetric]
    by (simp add: assms(1) twice)
qed

section \<open>Properties\<close>


definition sample_server :: server_settings where
  "sample_server = \<lparr>sv_production = True, sv_hsts_max_age = 600\<rparr>"

definition failing_router :: asgi where
  "failing_router current scope = \<lparr>re_sent = [], re_raised = True\<rparr>"

definition traced :: asgi_scope where
  "traced = \<lparr>sp_type = ''http'', sp_headers = [(''x-request-id'', '' abc-1 '')]\<rparr>"


text \<open>
  A crash is answered. If the router raises before it has started a response, and the CORS
  middleware does no more than edit the headers of what passes through it, the request ends
  without an exception and with a 500 that says nothing but its own request id, the one in
  its headers; if a response had started, the exception goes on.
\<close>

lemma crashes_are_answered:
  assumes "sp_type scope = ''http''" and "\<And>app current. cors app current scope = edit_reply extra (app current scope)"
    and "i = use_incoming_id fresh (header_value scope ''x-request-id'')" and "re_raised (router (Some i) scope)"
  shows "if list_ex is_start (re_sent (router (Some i) scope)) then re_raised (serve cfg fresh cors router scope)
    else \<not> re_raised (serve cfg fresh cors router scope) \<and>
      (\<exists>hs. drop (length (re_sent (router (Some i) scope))) (re_sent (serve cfg fresh cors router scope))
        = [Start 500 (hs @ [(''x-request-id'', i)]), Body (internal_error_body (Some i))])"
proof -
  have "serve cfg fresh cors router scope =
      edit_reply (\<lambda>hs. add_missing (security_lines cfg) hs @ [(''x-request-id'', i)]) (edit_reply extra (error_middleware router (Some i) scope))"
    unfolding serve_http [OF assms(1,3)] assms(2) ..
  then show ?thesis
    using assms(1,4) by (simp add: error_middleware_def Let_def internal_error_response_def edit_reply_def)
qed

lemma crashes_are_answered_witness:
  "\<not> re_raised (serve sample_server ''f00'' id failing_router traced)"
proof -
  have "sp_type traced = ''http''" by code_simp
  moreover have "id app current traced = edit_reply (\<lambda>hs. hs) (app current traced)" for app :: asgi and current
  proof -
    have e: "edit_start (\<lambda>hs. hs) m = m" for m by (cases m) simp_all
    have "map (edit_start (\<lambda>hs. hs)) ms = ms" for ms by (induction ms) (simp_all add: e)
    then show ?thesis by (simp add: edit_reply_def)
  qed
  ultimately show ?thesis
    using crashes_are_answered [OF _ _ refl, of traced id "\<lambda>hs. hs" failing_router "''f00''" sample_server]
    by (simp add: failing_router_def)
qed

section \<open>The backstop\<close>

text \<open>
  The handler registered for every exception runs in the server's outermost layer, outside the
  stack: it answers where nothing was sent, and the exception goes on to the server's log.
\<close>

definition backstop :: "asgi \<Rightarrow> asgi" where
  "backstop app current scope =
    (let r = app current scope in
     if sp_type scope \<noteq> ''http'' \<or> \<not> re_raised r \<or> list_ex is_start (re_sent r) then r
     else r\<lparr>re_sent := re_sent r @ internal_error_response current\<rparr>)"

text \<open>It has nothing to add to what the router does: the layer inside the stack answers every crash first.\<close>

lemma is_start_edit [simp]: "is_start (edit_start f m) = is_start m"
  by (cases m) simp_all

lemma started_edit: "list_ex is_start (re_sent (edit_reply f r)) = list_ex is_start (re_sent r)"
  by (simp add: edit_reply_def list_ex_iff)

lemma backstop_is_silent:
  assumes "\<And>app current. cors app current scope = edit_reply extra (app current scope)"
  shows "backstop (stack cfg fresh cors router) None scope = serve cfg fresh cors router scope"
proof (cases "sp_type scope = ''http''")
  case True
  let ?i = "use_incoming_id fresh (header_value scope ''x-request-id'')"
  have "serve cfg fresh cors router scope =
      edit_reply (\<lambda>hs. add_missing (security_lines cfg) hs @ [(''x-request-id'', ?i)]) (edit_reply extra (error_middleware router (Some ?i) scope))"
    unfolding serve_http [OF True refl] assms ..
  moreover have "\<not> re_raised (error_middleware router (Some ?i) scope) \<or> list_ex is_start (re_sent (error_middleware router (Some ?i) scope))"
    using True by (simp add: error_middleware_def Let_def)
  ultimately have "\<not> re_raised (serve cfg fresh cors router scope) \<or> list_ex is_start (re_sent (serve cfg fresh cors router scope))"
    by (simp add: started_edit)
  then show ?thesis by (auto simp: backstop_def serve_def Let_def)
qed (simp add: backstop_def serve_def Let_def)

section \<open>What the id check lets through\<close>

text \<open>\<open>isalnum\<close> is not ASCII: letters of Latin-1 and even fractions pass as unreserved characters.\<close>

lemma latin_ids_are_adopted: "use_incoming_id ''f00'' (Some [CHR 0xE9, CHR 0xBD]) = [CHR 0xE9, CHR 0xBD]"
  by code_simp

end
