(* ===== verification/LogStream.thy ===== *)
theory LogStream
  imports AuthHistory Scans
begin

text \<open>
  The live log of a scan over a WebSocket, \<open>scan_log_stream\<close> of \<open>main.py\<close>. What the socket
  carries is a list of frames; the subscription is the list of what each wait on it gave.
  \<open>json.loads\<close> and the Redis answers are parameters; the closing of the subscription, whose
  errors are swallowed, is left out.
\<close>

section \<open>Frames and waits\<close>

datatype frame = Accept | Json json | Close_with int string | Close

text \<open>
  One wait: 30 seconds without an answer, no message, data (None when the field is missing or
  empty), an error of Redis, any other error. Where a frame would be sent, the flag says whether
  the client is still there.
\<close>

datatype wait = Timed_out bool | No_message | Data "string option" bool | Redis_error bool | Other_error

definition ping :: json where
  "ping = JObj [(''type'', JStr ''ping'')]"

definition interrupted :: json where
  "interrupted = JObj [(''type'', JStr ''error''), (''message'', JStr ''Live stream interrupted; reload to resume'')]"

definition is_end :: "json \<Rightarrow> bool" where
  "is_end event = (case event of JObj kvs \<Rightarrow> map_of kvs ''type'' = Some (JStr ''end'') | _ \<Rightarrow> False)"

definition is_object :: "json \<Rightarrow> bool" where
  "is_object event = (case event of JObj _ \<Rightarrow> True | _ \<Rightarrow> False)"

section \<open>The loop\<close>

text \<open>
  What is sent, and whether the loop was left. A payload that is not an object is sent and then
  fails at \<open>event.get\<close>, as every other error it is logged and ends the stream.
\<close>

fun stream_loop :: "(string \<Rightarrow> json option) \<Rightarrow> wait list \<Rightarrow> json list \<times> bool" where
  "stream_loop loads [] = ([], False)"
| "stream_loop loads (Timed_out here # ws) =
     (if here then let (sent, left) = stream_loop loads ws in (ping # sent, left) else ([], True))"
| "stream_loop loads (No_message # ws) = stream_loop loads ws"
| "stream_loop loads (Data d here # ws) =
     (case d of
        None \<Rightarrow> stream_loop loads ws
      | Some s \<Rightarrow>
          (if s = [] then stream_loop loads ws
           else case loads s of
             None \<Rightarrow> stream_loop loads ws
           | Some event \<Rightarrow>
               (if \<not> here then ([], True)
                else if \<not> is_object event \<or> is_end event then ([event], True)
                else let (sent, left) = stream_loop loads ws in (event # sent, left))))"
| "stream_loop loads (Redis_error here # ws) = (if here then [interrupted] else [], True)"
| "stream_loop loads (Other_error # ws) = ([], True)"

section \<open>The endpoint\<close>

definition scan_snapshot :: "(nat \<Rightarrow> string) \<Rightarrow> scan_row \<Rightarrow> json" where
  "scan_snapshot shown s =
    JObj [(''type'', JStr ''snapshot''), (''scan_id'', JStr (shown (sn_id s))), (''status'', JStr (status_name (sn_status s))),
          (''target'', JStr (sn_target s)), (''stage'', (case sn_stage s of None \<Rightarrow> JNull | Some x \<Rightarrow> JStr x)),
          (''progress'', JNum (of_int (sn_progress s))), (''assets_discovered'', JNum (of_int (sn_assets s))),
          (''findings_count'', JNum (of_int (sn_findings s)))]"

definition end_of :: "(nat \<Rightarrow> string) \<Rightarrow> scan_row \<Rightarrow> json" where
  "end_of shown s =
    JObj [(''type'', JStr ''end''), (''scan_id'', JStr (shown (sn_id s))), (''status'', JStr (status_name (sn_status s)))]"

text \<open>The stored events that parse, oldest first; an unreachable Redis has none.\<close>

definition parsed_history :: "(string \<Rightarrow> json option) \<Rightarrow> string list option \<Rightarrow> nat \<Rightarrow> json list" where
  "parsed_history loads stored limit = (case stored of None \<Rightarrow> [] | Some h \<Rightarrow> List.map_filter loads (read_history h limit))"

record log_source =
  ls_loads :: "string \<Rightarrow> json option"
  ls_subscribed :: bool
  ls_history :: "string list option"
  ls_waits :: "wait list"

text \<open>
  The frames after the socket was accepted, for a client that stays until the loop, and
  whether the stream is over. \<open>ls_subscribed\<close> is False when subscribing raises an error of
  Redis.
\<close>

definition stream_scan :: "(nat \<Rightarrow> string) \<Rightarrow> log_source \<Rightarrow> nat \<Rightarrow> scan_row \<Rightarrow> json list \<times> bool" where
  "stream_scan shown src replay s =
    (if \<not> ls_subscribed src then ([scan_snapshot shown s, interrupted], True)
     else
       let replayed = (if replay = 0 then [] else parsed_history (ls_loads src) (ls_history src) replay)
       in if is_terminal (sn_status s) then (scan_snapshot shown s # replayed @ [end_of shown s], True)
          else let (sent, left) = stream_loop (ls_loads src) (ls_waits src) in (scan_snapshot shown s # replayed @ sent, left))"

definition scan_log_stream ::
    "crypto \<Rightarrow> int \<Rightarrow> (nat \<Rightarrow> string) \<Rightarrow> string option \<Rightarrow> nat \<Rightarrow> nat \<Rightarrow> log_source \<Rightarrow> db \<Rightarrow> frame list" where
  "scan_log_stream cy now shown token scan_id replay src db =
    (case authenticate_websocket cy now token db of
       None \<Rightarrow> [Close_with 4401 ''Invalid or missing token'']
     | Some user \<Rightarrow>
         (case find_scan db scan_id (cu_org user) of
            None \<Rightarrow> [Close_with 4404 ''Scan not found'']
          | Some s \<Rightarrow>
              (case stream_scan shown src replay s of
                 (sent, left) \<Rightarrow> Accept # map Json sent @ (if left then [Close] else []))))"

section \<open>Properties\<close>

text \<open>What the waits before the end event deliver: the events that parse, a ping per timeout.\<close>

fun delivered :: "(string \<Rightarrow> json option) \<Rightarrow> wait list \<Rightarrow> json list" where
  "delivered loads [] = []"
| "delivered loads (Timed_out here # ws) = ping # delivered loads ws"
| "delivered loads (Data (Some s) here # ws) =
     (if s = [] then delivered loads ws
      else case loads s of None \<Rightarrow> delivered loads ws | Some event \<Rightarrow> event # delivered loads ws)"
| "delivered loads (_ # ws) = delivered loads ws"

text \<open>A quiet wait: the client is there, Redis answers, and what comes is an object that is no end event.\<close>

fun goes_on :: "(string \<Rightarrow> json option) \<Rightarrow> wait \<Rightarrow> bool" where
  "goes_on loads (Timed_out here) = here"
| "goes_on loads No_message = True"
| "goes_on loads (Data d here) =
     (case d of None \<Rightarrow> True
      | Some s \<Rightarrow> s = [] \<or> (case loads s of None \<Rightarrow> True | Some event \<Rightarrow> here \<and> is_object event \<and> \<not> is_end event))"
| "goes_on loads (Redis_error here) = False"
| "goes_on loads Other_error = False"

lemma loop_goes_on:
  "list_all (goes_on loads) ws \<Longrightarrow>
   stream_loop loads (ws @ rest) = (delivered loads ws @ fst (stream_loop loads rest), snd (stream_loop loads rest))"
proof (induction ws)
  case (Cons w ws)
  then have IH: "stream_loop loads (ws @ rest) = (delivered loads ws @ fst (stream_loop loads rest), snd (stream_loop loads rest))" by simp
  from Cons.prems show ?case
    by (cases w) (auto simp: IH split: option.splits)
qed simp

text \<open>
  A live stream ends with its scan. For a running scan of the caller's own organisation, once
  an end event arrives, after any sequence of waits in which the client stays and Redis answers,
  the socket has carried the snapshot, the replay, every event in the order of its arrival and
  the end event, each once, and it is closed; nothing that comes later is waited for.
\<close>

lemma stream_to_end:
  assumes "authenticate_websocket cy now token db = Some user" and "find_scan db scan_id (cu_org user) = Some s"
    and "\<not> is_terminal (sn_status s)" and "ls_subscribed src" and "ls_waits src = ws @ Data (Some m) True # later"
    and "list_all (goes_on (ls_loads src)) ws" and "m \<noteq> []" and "ls_loads src m = Some event" and "is_end event"
  shows "scan_log_stream cy now shown token scan_id replay src db =
    Accept # Json (scan_snapshot shown s)
      # map Json (if replay = 0 then [] else parsed_history (ls_loads src) (ls_history src) replay)
      @ map Json (delivered (ls_loads src) ws) @ [Json event, Close]"
proof -
  have "stream_loop (ls_loads src) (Data (Some m) True # later) = ([event], True)" using assms(7-9) by simp
  with loop_goes_on [OF assms(6), of "Data (Some m) True # later"]
  have "stream_loop (ls_loads src) (ls_waits src) = (delivered (ls_loads src) ws @ [event], True)" by (simp add: assms(5))
  then show ?thesis using assms(1-4) by (simp add: scan_log_stream_def stream_scan_def Let_def)
qed

definition live_db :: db where
  "live_db = desk_db\<lparr>db_scans := [(new_scan 9 1 None ''a.co'' [] 0)\<lparr>sn_status := RUNNING\<rparr>]\<rparr>"

definition sample_loads :: "string \<Rightarrow> json option" where
  "sample_loads s =
    (if s = ''log'' then Some (JObj [(''type'', JStr ''log'')])
     else if s = ''end'' then Some (JObj [(''type'', JStr ''end''), (''status'', JStr ''completed'')]) else None)"

definition sample_source :: "string list \<Rightarrow> wait list \<Rightarrow> log_source" where
  "sample_source stored waits = \<lparr>ls_loads = sample_loads, ls_subscribed = True, ls_history = Some stored, ls_waits = waits\<rparr>"

definition log_json :: json where
  "log_json = JObj [(''type'', JStr ''log'')]"

definition end_json :: json where
  "end_json = JObj [(''type'', JStr ''end''), (''status'', JStr ''completed'')]"

definition live_scan :: scan_row where
  "live_scan = (new_scan 9 1 None ''a.co'' [] 0)\<lparr>sn_status := RUNNING\<rparr>"

lemma stream_to_end_sample:
  "scan_log_stream dotted_crypto 9 (\<lambda>i. ''nine'') (Some desk_access) 9 200
      (sample_source [''log''] ([No_message, Data (Some ''log'') True, Timed_out True] @ Data (Some ''end'') True # [Other_error])) live_db
     = [Accept, Json (scan_snapshot (\<lambda>i. ''nine'') live_scan), Json log_json, Json log_json, Json ping, Json end_json, Close]"
proof -
  let ?ws = "[No_message, Data (Some ''log'') True, Timed_out True]"
  let ?src = "sample_source [''log''] (?ws @ Data (Some ''end'') True # [Other_error])"
  have user: "authenticate_websocket dotted_crypto 9 (Some desk_access) live_db = Some \<lparr>cu_id = 2, cu_org = 1, cu_email = ''o@a.co'', cu_role = OWNER\<rparr>"
    by code_simp
  have scan: "find_scan live_db 9 (cu_org \<lparr>cu_id = 2, cu_org = 1, cu_email = ''o@a.co'', cu_role = OWNER\<rparr>) = Some live_scan" by code_simp
  have loads: "ls_loads ?src = sample_loads" "ls_subscribed ?src" "ls_history ?src = Some [''log'']"
    "ls_waits ?src = ?ws @ Data (Some ''end'') True # [Other_error]" by (simp_all add: sample_source_def)
  have calm: "list_all (goes_on sample_loads) ?ws" by code_simp
  have parts: "parsed_history sample_loads (Some [''log'']) 200 = [log_json]" "delivered sample_loads ?ws = [log_json, ping]"
    "sample_loads ''end'' = Some end_json" "is_end end_json" "\<not> is_terminal (sn_status live_scan)" by code_simp+
  note live = stream_to_end [where src = ?src and m = "''end''" and event = end_json and shown = "\<lambda>i. ''nine''" and replay = 200,
      OF user scan parts(5) loads(2,4)]
  show ?thesis by (subst live) (use calm parts loads in simp_all)
qed

section \<open>What the stream does not do as it says\<close>

text \<open>
  A scan that ends after its row was read and before the subscription: the end event is in the
  replay only, which does not look for it, and the socket waits for another one for as long as
  the client stays.
\<close>

lemma end_before_subscribing_hangs:
  "scan_log_stream dotted_crypto 9 (\<lambda>i. ''nine'') (Some desk_access) 9 200
      (sample_source [''end''] (replicate n No_message)) live_db
     = [Accept, Json (scan_snapshot (\<lambda>i. ''nine'') live_scan), Json end_json]"
proof -
  have "stream_loop sample_loads (replicate n No_message) = ([], False)" by (induction n) simp_all
  moreover have "authenticate_websocket dotted_crypto 9 (Some desk_access) live_db = Some \<lparr>cu_id = 2, cu_org = 1, cu_email = ''o@a.co'', cu_role = OWNER\<rparr>"
    and "find_scan live_db 9 1 = Some live_scan" and "parsed_history sample_loads (Some [''end'']) 200 = [end_json]"
    and "\<not> is_terminal (sn_status live_scan)" by code_simp+
  ultimately show ?thesis by (simp add: scan_log_stream_def stream_scan_def sample_source_def)
qed

text \<open>
  Waiting a second for a message gives no message rather than a timeout, so on an idle channel
  nothing is ever sent.
\<close>

lemma idle_stream_never_pings: "fst (stream_loop loads (replicate n No_message)) = []"
  by (induction n) simp_all

text \<open>An event published between the subscription and the replay is sent twice.\<close>

lemma events_may_come_twice:
  "stream_scan (\<lambda>i. ''nine'') (sample_source [''log''] [Data (Some ''log'') True]) 200 live_scan
     = ([scan_snapshot (\<lambda>i. ''nine'') live_scan, log_json, log_json], False)"
  by code_simp

end
