(* ===== verification/Events.thy ===== *)
theory Events
  imports LogStream Fingerprinter
begin

text \<open>
  The live events of a scan, \<open>core/events.py\<close>, from the workers that publish them
  (\<open>workers/context.py\<close>, \<open>workers/orchestrator.py\<close>, the cancel handler) to the socket of
  \<open>LogStream\<close>. Redis is a replay list and the messages one subscriber has got; \<open>json.dumps\<close> is a
  parameter. A timestamp is the time of the event.
\<close>

section \<open>Envelopes\<close>

text \<open>A dictionary display that ends in \<open>**extra\<close>: a key that is there already keeps its place and takes the new value.\<close>

definition with_extra :: "json_object \<Rightarrow> json_object \<Rightarrow> json_object" where
  "with_extra base extra = foldl (\<lambda>d kv. dict_update (fst kv) (\<lambda>_. snd kv) d) base extra"

definition log_event :: "string \<Rightarrow> int \<Rightarrow> string \<Rightarrow> string \<Rightarrow> string option \<Rightarrow> json" where
  "log_event scan now level message stage =
    JObj [(''type'', JStr ''log''), (''scan_id'', JStr scan), (''timestamp'', JStr (iso_utc now)), (''level'', JStr level),
          (''stage'', opt_json stage), (''message'', JStr message)]"

definition status_event :: "string \<Rightarrow> int \<Rightarrow> string \<Rightarrow> string option \<Rightarrow> int option \<Rightarrow> json_object \<Rightarrow> json" where
  "status_event scan now status stage progress extra =
    JObj (with_extra
      [(''type'', JStr ''status''), (''scan_id'', JStr scan), (''timestamp'', JStr (iso_utc now)), (''status'', JStr status),
       (''stage'', opt_json stage), (''progress'', (case progress of None \<Rightarrow> JNull | Some p \<Rightarrow> JNum (of_int p)))] extra)"

definition result_event :: "string \<Rightarrow> int \<Rightarrow> string \<Rightarrow> json \<Rightarrow> json" where
  "result_event scan now kind body =
    JObj [(''type'', JStr ''result''), (''scan_id'', JStr scan), (''timestamp'', JStr (iso_utc now)), (''kind'', JStr kind), (''payload'', body)]"

definition terminal_event :: "string \<Rightarrow> int \<Rightarrow> string \<Rightarrow> json_object \<Rightarrow> json" where
  "terminal_event scan now status extra =
    JObj (with_extra
      [(''type'', JStr ''end''), (''scan_id'', JStr scan), (''timestamp'', JStr (iso_utc now)), (''status'', JStr status)] extra)"

section \<open>Publishing\<close>

record bus =
  bu_history :: "string list"
  bu_heard :: "string list"

text \<open>One transaction: the channel and the replay list, or an error of Redis and neither.\<close>

definition publish_event :: "(json \<Rightarrow> string) \<Rightarrow> bool \<Rightarrow> json \<Rightarrow> bus \<Rightarrow> bus" where
  "publish_event dumps up event b =
    (if up then \<lparr>bu_history = push_event (bu_history b) (dumps event), bu_heard = bu_heard b @ [dumps event]\<rparr> else b)"

text \<open>
  What a stage sends: a line of the log (persisted unless it is debug chatter), a structured
  result, or its entry, which is a status event.
\<close>

datatype emission =
    Emit_log string string int
  | Emit_debug string int
  | Emit_result string json int
  | Emit_stage string int int

fun emission_event :: "string \<Rightarrow> string \<Rightarrow> emission \<Rightarrow> json" where
  "emission_event scan stage (Emit_log level message now) = log_event scan now level message (Some stage)"
| "emission_event scan stage (Emit_debug message now) = log_event scan now ''debug'' message (Some stage)"
| "emission_event scan stage (Emit_result kind body now) = result_event scan now kind body"
| "emission_event scan stage (Emit_stage new progress now) = status_event scan now ''running'' (Some new) (Some progress) []"

definition emit :: "(json \<Rightarrow> string) \<Rightarrow> bool \<Rightarrow> (nat \<Rightarrow> string) \<Rightarrow> nat \<Rightarrow> db \<times> bus \<Rightarrow> string \<times> emission \<Rightarrow> db \<times> bus" where
  "emit dumps up shown scan_id st x =
    (case x of (stage, e) \<Rightarrow>
       ((case e of
           Emit_log level message now \<Rightarrow> ctx_log scan_id (Some stage) now message (fst st)
         | Emit_stage new progress now \<Rightarrow> set_stage scan_id new progress (fst st)
         | _ \<Rightarrow> fst st),
        publish_event dumps up (emission_event (shown scan_id) stage e) (snd st)))"

definition emit_all :: "(json \<Rightarrow> string) \<Rightarrow> bool \<Rightarrow> (nat \<Rightarrow> string) \<Rightarrow> nat \<Rightarrow> (string \<times> emission) list \<Rightarrow> db \<times> bus \<Rightarrow> db \<times> bus" where
  "emit_all dumps up shown scan_id es st = foldl (emit dumps up shown scan_id) st es"

definition emitted :: "string \<Rightarrow> (string \<times> emission) list \<Rightarrow> json list" where
  "emitted scan es = map (\<lambda>x. emission_event scan (fst x) (snd x)) es"

section \<open>The end of a scan\<close>

definition finalise_summary :: "int \<Rightarrow> scan_row \<Rightarrow> string" where
  "finalise_summary now s =
    ''Scan '' @ status_name (sn_status s) @ '': '' @ dec (sn_assets s) @ '' new asset(s), '' @ dec (sn_findings s) @ '' finding(s)''
      @ (case sn_started s of None \<Rightarrow> [] | Some t \<Rightarrow> '' in '' @ dec (round_seconds (now - t)) @ ''s'')"

text \<open>The success callback publishes its summary and the end event of the closed row.\<close>

definition finalise_events :: "string \<Rightarrow> int \<Rightarrow> scan_row \<Rightarrow> json list" where
  "finalise_events scan now s =
    [log_event scan now ''info'' (finalise_summary now s) (Some ''orchestrator''),
     terminal_event scan now (status_name (sn_status s))
       [(''assets_discovered'', JNum (of_int (sn_assets s))), (''findings_count'', JNum (of_int (sn_findings s))),
        (''duration_seconds'', (case sn_started s of None \<Rightarrow> JNull | Some t \<Rightarrow> JNum (of_int (now - t) / 1000000)))]]"

definition finalise_and_publish ::
    "(json \<Rightarrow> string) \<Rightarrow> bool \<Rightarrow> (nat \<Rightarrow> string) \<Rightarrow> int \<Rightarrow> nat \<Rightarrow> db \<times> bus \<Rightarrow> db \<times> bus" where
  "finalise_and_publish dumps up shown now scan_id st =
    (case row_by sn_id scan_id (db_scans (fst st)) of
       None \<Rightarrow> (fst (finalise_scan now scan_id (fst st)), snd st)
     | Some s \<Rightarrow> (fst (finalise_scan now scan_id (fst st)),
         foldl (\<lambda>b e. publish_event dumps up e b) (snd st) (finalise_events (shown scan_id) now (complete_row now s))))"

text \<open>The error callback, with the message it stored, and the cancel handler.\<close>

definition fail_events :: "string \<Rightarrow> int \<Rightarrow> string option \<Rightarrow> scan_row \<Rightarrow> json list" where
  "fail_events scan now exc s =
    (let message = (case exc of None \<Rightarrow> ''Unknown error'' | Some e \<Rightarrow> slice_to 4000 e) in
     [log_event scan now ''error'' (''Scan failed: '' @ message) (Some ''orchestrator''),
      terminal_event scan now (status_name (sn_status (fail_row now message s))) [(''error'', JStr message)]])"

definition cancel_events :: "string \<Rightarrow> int \<Rightarrow> json list" where
  "cancel_events scan now = [terminal_event scan now ''cancelled'' []]"

section \<open>Facts\<close>

lemma finalise_logs_summary:
  "row_by sn_id i (db_scans db) = Some s \<Longrightarrow>
    finalise_scan now i db = (ctx_log i (Some ''orchestrator'') now (finalise_summary now (complete_row now s)) (update_scan i (complete_row now) db),
      Some (sn_status (complete_row now s)))"
  by (simp add: finalise_scan_def finalise_summary_def Let_def)

lemma event_kinds [simp]:
  "is_object (log_event i t l m st)" "is_object (result_event i t k x)" "is_object (status_event i t s st p ex)" "is_object (terminal_event i t s ex)"
  "\<not> is_end (log_event i t l m st)" "\<not> is_end (result_event i t k x)" "\<not> is_end (status_event i t s st p [])" "is_end (terminal_event i t s [])"
  by (simp_all add: is_object_def is_end_def log_event_def result_event_def status_event_def terminal_event_def with_extra_def)

lemma stage_events_go_on [simp]: "is_object (emission_event i st e)" "\<not> is_end (emission_event i st e)"
  by (cases e; simp)+

lemma closing_events: "is_end (finalise_events i now s ! 1)" "is_end (fail_events i now exc s ! 1)" "is_end (cancel_events i now ! 0)"
  by (simp_all add: finalise_events_def fail_events_def cancel_events_def is_end_def terminal_event_def with_extra_def Let_def)

lemma heard_emissions:
  "bu_heard (snd (emit_all dumps True shown i es st)) = bu_heard (snd st) @ map dumps (emitted (shown i) es)"
proof -
  have "bu_heard (snd (foldl (emit dumps True shown i) st es)) = bu_heard (snd st) @ map dumps (emitted (shown i) es)"
    by (induction es arbitrary: st) (auto simp: emit_def publish_event_def emitted_def)
  then show ?thesis by (simp add: emit_all_def)
qed

lemma heard_finalise:
  assumes "row_by sn_id i (db_scans (fst st)) = Some s"
  shows "bu_heard (snd (finalise_and_publish dumps True shown now i st)) =
    bu_heard (snd st) @ map dumps (finalise_events (shown i) now (complete_row now s))"
  by (simp add: finalise_and_publish_def assms finalise_events_def publish_event_def)

text \<open>The replay list is the tail of everything published.\<close>

lemma push_tail: "push_event (drop (length l - history_max) l) x = drop (Suc (length l) - history_max) (l @ [x])"
proof (cases "length l < history_max")
  case False
  then have "length (drop (length l - history_max) l @ [x]) - history_max = 1" by simp
  moreover have "drop 1 (drop k l @ [x]) = drop (Suc k) (l @ [x])" if "k < length l" for k using that by simp
  moreover have "0 < history_max" by (simp add: history_max_def)
  ultimately show ?thesis using False by (simp only: push_event_def Let_def Suc_diff_le not_less)
qed (simp add: push_event_def Let_def)

lemma push_all: "length h \<le> history_max \<Longrightarrow> foldl push_event h xs = drop (length (h @ xs) - history_max) (h @ xs)"
proof (induction xs rule: rev_induct)
  case (snoc x xs)
  then show ?case using push_tail [of "h @ xs" x] by simp
qed simp

lemma replay_is_the_tail:
  assumes "length (bu_history (snd st)) \<le> history_max"
  shows "bu_history (snd (emit_all dumps True shown i es st)) =
    (let all = bu_history (snd st) @ map dumps (emitted (shown i) es) in drop (length all - history_max) all)"
proof -
  have "bu_history (snd (foldl (emit dumps True shown i) st es)) = foldl push_event (bu_history (snd st)) (map dumps (emitted (shown i) es))"
    by (induction es arbitrary: st) (auto simp: emit_def publish_event_def emitted_def)
  then show ?thesis unfolding emit_all_def Let_def by (simp only: push_all [OF assms])
qed

section \<open>From the workers to the browser\<close>

text \<open>
  The waits of a subscriber that get exactly the given messages: between two of them any number
  of waits without one.
\<close>

fun arrivals :: "wait list \<Rightarrow> string list option" where
  "arrivals [] = Some []"
| "arrivals (No_message # ws) = arrivals ws"
| "arrivals (Data (Some s) True # ws) = map_option ((#) s) (arrivals ws)"
| "arrivals (_ # ws) = None"

lemma arrivals_quiet:
  assumes "arrivals ws = Some (map dumps es)" and "list_all (\<lambda>e. loads (dumps e) = Some e \<and> dumps e \<noteq> [] \<and> is_object e \<and> \<not> is_end e) es"
  shows "list_all (goes_on loads) ws \<and> delivered loads ws = es"
  using assms by (induction ws arbitrary: es rule: arrivals.induct) (auto simp: map_eq_Cons_conv Cons_eq_map_conv)

lemma arrivals_last:
  "arrivals ws = Some (ms @ [m]) \<Longrightarrow> \<exists>earlier later. ws = earlier @ Data (Some m) True # later \<and> arrivals earlier = Some ms"
proof (induction ws arbitrary: ms rule: arrivals.induct)
  case (2 ws)
  then obtain earlier later where "ws = earlier @ Data (Some m) True # later" "arrivals earlier = Some ms" by auto
  then show ?case by (intro exI [of _ "No_message # earlier"] exI [of _ later]) simp
next
  case (3 s ws)
  then obtain rest where rest: "arrivals ws = Some rest" "s # rest = ms @ [m]" by auto
  show ?case
  proof (cases ms)
    case Nil
    then show ?thesis using rest by (intro exI [of _ "[]"] exI [of _ ws]) simp
  next
    case (Cons x xs)
    then have "arrivals ws = Some (xs @ [m])" using rest by simp
    from 3(1) [OF this] obtain earlier later where "ws = earlier @ Data (Some m) True # later" "arrivals earlier = Some xs" by auto
    then show ?thesis using Cons rest by (intro exI [of _ "Data (Some s) True # earlier"] exI [of _ later]) simp
  qed
qed auto

text \<open>
  C38: a live stream carries its scan to the end. Let a subscriber of a running scan of its own
  organisation stay, and let what it waits for be what is published: any events of any stages,
  then the success callback. If \<open>json.loads\<close> reads these events back, the socket carries the
  snapshot, the replay, every event once and in the order of publishing, the summary and the
  end event of the closed scan, and is closed.
\<close>

theorem finished_scan_ends_the_stream:
  assumes user: "authenticate_websocket cy now token db = Some user" and scan: "find_scan db scan_id (cu_org user) = Some s"
    and live: "\<not> is_terminal (sn_status s)" "ls_subscribed src"
    and stages: "emit_all dumps True shown scan_id es (db1, \<lparr>bu_history = h, bu_heard = []\<rparr>) = (db2, b)"
    and row: "row_by sn_id scan_id (db_scans db2) = Some s2"
    and "events = emitted (shown scan_id) es @ finalise_events (shown scan_id) done_at (complete_row done_at s2)"
    and law: "list_all (\<lambda>e. ls_loads src (dumps e) = Some e \<and> dumps e \<noteq> []) events"
    and waits: "arrivals (ls_waits src) = Some (bu_heard (snd (finalise_and_publish dumps True shown done_at scan_id (db2, b))))"
  shows "scan_log_stream cy now shown token scan_id replay src db =
    Accept # Json (scan_snapshot shown s)
      # map Json (if replay = 0 then [] else parsed_history (ls_loads src) (ls_history src) replay) @ map Json events @ [Close]"
proof -
  obtain summary ending where fin: "finalise_events (shown scan_id) done_at (complete_row done_at s2) = [summary, ending]"
    and kinds: "is_object summary" "\<not> is_end summary" "is_end ending"
    using closing_events(1) [of "shown scan_id" done_at "complete_row done_at s2"] by (auto simp: finalise_events_def)
  define quiet where "quiet = emitted (shown scan_id) es @ [summary]"
  have events: "events = quiet @ [ending]" by (simp add: assms(7) fin quiet_def)
  have "bu_heard b = map dumps (emitted (shown scan_id) es)"
    using heard_emissions [of dumps shown scan_id es "(db1, \<lparr>bu_history = h, bu_heard = []\<rparr>)"] by (simp add: stages)
  then have "arrivals (ls_waits src) = Some (map dumps quiet @ [dumps ending])"
    using heard_finalise [of scan_id "(db2, b)" s2 dumps shown done_at] waits row by (simp add: fin quiet_def)
  then obtain earlier later where ws: "ls_waits src = earlier @ Data (Some (dumps ending)) True # later" "arrivals earlier = Some (map dumps quiet)"
    using arrivals_last by blast
  have "list_all (\<lambda>e. is_object e \<and> \<not> is_end e) quiet"
    using kinds by (auto simp: quiet_def emitted_def list_all_iff)
  then have calm: "list_all (goes_on (ls_loads src)) earlier \<and> delivered (ls_loads src) earlier = quiet"
    using arrivals_quiet [OF ws(2), of "ls_loads src"] law by (auto simp: events list_all_iff)
  have last: "ls_loads src (dumps ending) = Some ending" "dumps ending \<noteq> []" using law by (simp_all add: events)
  show ?thesis
    using stream_to_end [OF user scan live ws(1) conjunct1 [OF calm] last(2,1) kinds(3), of shown replay]
    by (simp add: events calm)
qed

definition spoken :: "json list \<Rightarrow> json \<Rightarrow> string" where
  "spoken known e = replicate (length (takeWhile (\<lambda>x. x \<noteq> e) known) + 1) CHR ''e''"

definition understood :: "json list \<Rightarrow> string \<Rightarrow> json option" where
  "understood known s = (if s \<noteq> [] \<and> length s \<le> length known then Some (known ! (length s - 1)) else None)"

definition sample_emissions :: "(string \<times> emission) list" where
  "sample_emissions =
    [(''port_scanner'', Emit_stage ''port_scanner'' 35 1), (''port_scanner'', Emit_log ''info'' ''w.a.co: 1 open port(s)'' 2),
     (''port_scanner'', Emit_result ''ports'' JNull 2)]"

definition sample_events :: "json list" where
  "sample_events = emitted ''nine'' sample_emissions
    @ finalise_events ''nine'' 3 (complete_row 3 (live_scan\<lparr>sn_stage := Some ''port_scanner'', sn_progress := 35\<rparr>))"

definition sample_subscription :: log_source where
  "sample_subscription =
    \<lparr>ls_loads = understood sample_events, ls_subscribed = True, ls_history = Some [],
     ls_waits = No_message # concat (map (\<lambda>n. [Data (Some (replicate n CHR ''e'')) True, No_message]) [1, 2, 3, 4, 5])\<rparr>"

theorem finished_scan_ends_the_stream_witness:
  "scan_log_stream dotted_crypto 9 (\<lambda>i. ''nine'') (Some desk_access) 9 0 sample_subscription live_db
     = Accept # Json (scan_snapshot (\<lambda>i. ''nine'') live_scan) # map Json sample_events @ [Close] \<and> length sample_events = 5"
proof -
  let ?dumps = "spoken sample_events" and ?shown = "\<lambda>i :: nat. ''nine''"
  let ?start = "(live_db, \<lparr>bu_history = [], bu_heard = []\<rparr> :: bus)"
  let ?user = "\<lparr>cu_id = 2, cu_org = 1, cu_email = ''o@a.co'', cu_role = OWNER\<rparr>"
  obtain db2 b where stages: "emit_all ?dumps True ?shown 9 sample_emissions ?start = (db2, b)" by fastforce
  have row: "row_by sn_id 9 (db_scans (fst (emit_all ?dumps True ?shown 9 sample_emissions ?start))) =
      Some (live_scan\<lparr>sn_stage := Some ''port_scanner'', sn_progress := 35\<rparr>)" by code_simp
  have heard: "arrivals (ls_waits sample_subscription) =
      Some (bu_heard (snd (finalise_and_publish ?dumps True ?shown 3 9 (emit_all ?dumps True ?shown 9 sample_emissions ?start))))" by code_simp
  have user: "authenticate_websocket dotted_crypto 9 (Some desk_access) live_db = Some ?user"
    and scan: "find_scan live_db 9 (cu_org ?user) = Some live_scan"
    and live: "\<not> is_terminal (sn_status live_scan)" "ls_subscribed sample_subscription"
    and law: "list_all (\<lambda>e. ls_loads sample_subscription (?dumps e) = Some e \<and> ?dumps e \<noteq> []) sample_events"
    and n: "length sample_events = 5" by code_simp+
  have events: "sample_events = emitted (?shown 9) sample_emissions @ finalise_events (?shown 9) 3
      (complete_row 3 (live_scan\<lparr>sn_stage := Some ''port_scanner'', sn_progress := 35\<rparr>))" by (simp add: sample_events_def)
  note finished_scan_ends_the_stream [OF user scan live stages _ events law, of 0]
  then show ?thesis using row heard n unfolding stages fst_conv by simp
qed

section \<open>What the sentinel does not say\<close>

text \<open>
  The end event is to tell subscribers that no further events will arrive. Cancelling publishes
  one; the chain that is still in flight then publishes its summary and another end event.
\<close>

lemma events_after_the_sentinel:
  assumes "row_by sn_id i (db_scans db) = Some s" and "sn_status s = CANCELLED"
  shows "\<exists>sentinel line again.
    bu_heard (snd (finalise_and_publish dumps True shown now i
      (db, foldl (\<lambda>b e. publish_event dumps True e b) b (cancel_events (shown i) cancelled_at)))) = bu_heard b @ map dumps [sentinel, line, again] \<and>
    is_end sentinel \<and> \<not> is_end line \<and> is_end again"
proof -
  obtain line again where "finalise_events (shown i) now (complete_row now s) = [line, again]" "\<not> is_end line" "is_end again"
    using closing_events(1) [of "shown i" now "complete_row now s"] by (auto simp: finalise_events_def)
  moreover have "cancel_events (shown i) cancelled_at = [cancel_events (shown i) cancelled_at ! 0]" by (simp add: cancel_events_def)
  ultimately show ?thesis
    using assms(1) closing_events(3) [of "shown i" cancelled_at]
    by (intro exI [of _ "cancel_events (shown i) cancelled_at ! 0"] exI [of _ line] exI [of _ again])
      (simp add: heard_finalise cancel_events_def publish_event_def)
qed

end
