(* ===== verification/Platform.thy ===== *)
theory Platform
  imports Middleware Dispatch Inventory
begin

text \<open>
  What the program stands on: the environment settings of \<open>config.py\<close> that the other theories
  do not own, the connection strings built from them, the Alembic environment
  \<open>db/migrations/env.py\<close>, the transaction of \<open>db/database.py\<close>, the system endpoints of \<open>main.py\<close>
  and the routes and the beat schedule of \<open>workers/celery_app.py\<close>. Reading the environment and
  opening connections is left out.
\<close>

section \<open>Settings\<close>

record app_config =
  ap_environment :: string
  ap_log_level :: string
  ap_title :: string
  ap_version :: string
  ap_pg_host :: string
  ap_pg_port :: int
  ap_pg_db :: string
  ap_pg_user :: string
  ap_pg_password :: string
  ap_pool_size :: int
  ap_max_overflow :: int
  ap_worker_pool_size :: int
  ap_worker_max_overflow :: int
  ap_pool_recycle :: int
  ap_pool_timeout :: rat
  ap_echo :: bool
  ap_redis_url :: string
  ap_broker_url :: string
  ap_result_backend :: string
  ap_jwt_secret :: string
  ap_jwt_algorithm :: string
  ap_bcrypt_rounds :: int
  ap_cors :: string
  ap_hsts_max_age :: int

definition default_app_config :: app_config where
  "default_app_config =
    \<lparr>ap_environment = ''development'', ap_log_level = ''INFO'', ap_title = ''SurfaceWatch API'', ap_version = ''1.0.0'',
     ap_pg_host = ''localhost'', ap_pg_port = 5432, ap_pg_db = ''surfacewatch'', ap_pg_user = ''surfacewatch'',
     ap_pg_password = ''surfacewatch'', ap_pool_size = 10, ap_max_overflow = 20, ap_worker_pool_size = 5,
     ap_worker_max_overflow = 10, ap_pool_recycle = 1800, ap_pool_timeout = 30, ap_echo = False,
     ap_redis_url = ''redis://localhost:6379/0'', ap_broker_url = ''redis://localhost:6379/1'',
     ap_result_backend = ''redis://localhost:6379/2'', ap_jwt_secret = ''insecure-development-secret-change-me'',
     ap_jwt_algorithm = ''HS256'', ap_bcrypt_rounds = 12,
     ap_cors = ''http://localhost:3000'', ap_hsts_max_age = 31536000\<rparr>"

text \<open>\<open>_dotenv_path\<close>: the file is named only when it is there and can be read.\<close>

definition dotenv_path :: "bool \<Rightarrow> bool \<Rightarrow> string option" where
  "dotenv_path is_file readable = (if \<not> is_file then None else if readable then Some ''.env'' else None)"

definition is_production :: "app_config \<Rightarrow> bool" where
  "is_production cfg = (ap_environment cfg = ''production'')"

definition cors_origin_list :: "app_config \<Rightarrow> string list" where
  "cors_origin_list cfg = map strip (filter (\<lambda>x. strip x \<noteq> []) (split_on (CHR '','') (ap_cors cfg)))"

text \<open>\<open>Settings()\<close> of what the environment gave, its field validator, then the check of \<open>get_settings\<close>.\<close>

definition environments :: "string list" where
  "environments = [''development'', ''staging'', ''production'']"

definition get_settings :: "app_config \<Rightarrow> string + app_config" where
  "get_settings given =
    (if ap_environment given \<notin> set environments then Inl ''validation error''
     else if is_production given \<and> contains ''change-me'' (ap_jwt_secret given)
     then Inl ''JWT_SECRET must be set to a real secret in production''
     else Inr (given\<lparr>ap_log_level := upper (ap_log_level given)\<rparr>))"

definition server_part :: "app_config \<Rightarrow> server_settings" where
  "server_part cfg = \<lparr>sv_production = is_production cfg, sv_hsts_max_age = ap_hsts_max_age cfg\<rparr>"

section \<open>Connection strings\<close>

text \<open>\<open>urllib.parse.quote\<close> with an empty safe set, of a string of characters below 256.\<close>

definition percent :: char where
  "percent = CHR 0x25"

definition unreserved :: "char \<Rightarrow> bool" where
  "unreserved c = (is_ascii_lower c \<or> is_ascii_upper c \<or> is_ascii_digit c \<or> c \<in> set ''_.-~'')"

definition hex_upper :: "int \<Rightarrow> char" where
  "hex_upper n = char_of (if n < 10 then 48 + n else 55 + n)"

definition quote_byte :: "int \<Rightarrow> string" where
  "quote_byte b = (if unreserved (char_of b) then [char_of b] else [percent, hex_upper (b div 16), hex_upper (b mod 16)])"

definition quote :: "string \<Rightarrow> string" where
  "quote s = concat (map quote_byte (utf8 s))"

definition dsn_credentials :: "app_config \<Rightarrow> string" where
  "dsn_credentials cfg = quote (ap_pg_user cfg) @ '':'' @ quote (ap_pg_password cfg)"

definition database_location :: "app_config \<Rightarrow> string" where
  "database_location cfg = ap_pg_host cfg @ '':'' @ dec (ap_pg_port cfg) @ ''/'' @ ap_pg_db cfg"

definition database_url :: "app_config \<Rightarrow> string" where
  "database_url cfg = ''postgresql+asyncpg://'' @ dsn_credentials cfg @ ''@'' @ database_location cfg"

definition sync_database_url :: "app_config \<Rightarrow> string" where
  "sync_database_url cfg = ''postgresql+psycopg://'' @ dsn_credentials cfg @ ''@'' @ database_location cfg"

text \<open>
  \<open>config.set_main_option\<close> of the Alembic environment is \<open>ConfigParser.set\<close> with interpolation:
  a value is refused when a percent sign is left after doubled ones and references \<open>%(name)s\<close>
  are taken out.
\<close>

fun drop_doubled :: "string \<Rightarrow> string" where
  "drop_doubled (c # d # cs) = (if c = percent \<and> d = percent then drop_doubled cs else c # drop_doubled (d # cs))"
| "drop_doubled s = s"

definition reference_end :: "string \<Rightarrow> string option" where
  "reference_end s =
    (case s of
       c # d # cs \<Rightarrow>
         (let nm = takeWhile (\<lambda>x. x \<noteq> CHR '')'') cs; rest = drop (length nm) cs in
          if c = percent \<and> d = CHR ''('' \<and> nm \<noteq> [] \<and> take 2 rest = '')s'' then Some (drop 2 rest) else None)
     | _ \<Rightarrow> None)"

fun drop_references :: "nat \<Rightarrow> string \<Rightarrow> string" where
  "drop_references 0 s = s"
| "drop_references (Suc n) s =
    (case s of [] \<Rightarrow> []
     | c # cs \<Rightarrow> (case reference_end s of Some rest \<Rightarrow> drop_references n rest | None \<Rightarrow> c # drop_references n cs))"

definition option_accepted :: "string \<Rightarrow> bool" where
  "option_accepted s = (percent \<notin> set (drop_references (length s) (drop_doubled s)))"

definition migrate :: "app_config \<Rightarrow> string + string" where
  "migrate cfg = (let url = sync_database_url cfg in if option_accepted url then Inr url else Inl ''invalid interpolation syntax'')"

text \<open>The options of the two engines: the API's on the asynchronous URL, the workers' on the other.\<close>

record engine =
  en_url :: string
  en_echo :: bool
  en_pool :: int
  en_overflow :: int
  en_timeout :: rat
  en_recycle :: int
  en_pre_ping :: bool

definition async_engine :: "app_config \<Rightarrow> engine" where
  "async_engine cfg =
    \<lparr>en_url = database_url cfg, en_echo = ap_echo cfg, en_pool = ap_pool_size cfg, en_overflow = ap_max_overflow cfg,
     en_timeout = ap_pool_timeout cfg, en_recycle = ap_pool_recycle cfg, en_pre_ping = True\<rparr>"

definition sync_engine :: "app_config \<Rightarrow> engine" where
  "sync_engine cfg =
    \<lparr>en_url = sync_database_url cfg, en_echo = ap_echo cfg, en_pool = ap_worker_pool_size cfg, en_overflow = ap_worker_max_overflow cfg,
     en_timeout = ap_pool_timeout cfg, en_recycle = ap_pool_recycle cfg, en_pre_ping = True\<rparr>"

text \<open>
  \<open>session_scope\<close>: committed on success, rolled back and raised again on an error, be it the
  body's or the commit's.
\<close>

definition session_scope :: "('s \<Rightarrow> 'e option) \<Rightarrow> ('s \<Rightarrow> ('e + 'a) \<times> 's) \<Rightarrow> 's \<Rightarrow> ('e + 'a) \<times> 's" where
  "session_scope refused body s =
    (case body s of
       (Inl e, _) \<Rightarrow> (Inl e, s)
     | (Inr x, s') \<Rightarrow> (case refused s' of None \<Rightarrow> (Inr x, s') | Some e \<Rightarrow> (Inl e, s)))"

text \<open>
  \<open>get_db\<close>: a handler works in its session, commits where it says so, and may raise. What is
  left uncommitted at its end, or at the exception, is rolled back. The state is what the
  database holds and what the session sees.
\<close>

datatype ('s, 'e) session_step = Work "'s \<Rightarrow> 's" | Commit | Raise 'e

fun run_session :: "('s, 'e) session_step list \<Rightarrow> 's \<Rightarrow> 's \<Rightarrow> 'e option \<times> 's" where
  "run_session [] held seen = (None, held)"
| "run_session (Work f # steps) held seen = run_session steps held (f seen)"
| "run_session (Commit # steps) held seen = run_session steps seen seen"
| "run_session (Raise e # steps) held seen = (Some e, held)"

definition get_db :: "('s, 'e) session_step list \<Rightarrow> 's \<Rightarrow> 'e option \<times> 's" where
  "get_db steps s = run_session steps s s"

section \<open>System endpoints\<close>

definition health :: "app_config \<Rightarrow> json_object" where
  "health cfg = [(''status'', JStr ''ok''), (''version'', JStr (ap_version cfg))]"

text \<open>A dependency answers, or an exception of the named type is raised.\<close>

definition check_text :: "string option \<Rightarrow> string" where
  "check_text failure = (case failure of None \<Rightarrow> ''ok'' | Some e \<Rightarrow> ''error: '' @ e)"

definition readiness :: "string option \<Rightarrow> string option \<Rightarrow> int \<times> json_object" where
  "readiness database redis =
    (let checks = [(''database'', check_text database), (''redis'', check_text redis)];
         healthy = list_all (\<lambda>c. snd c = ''ok'') checks
     in (if healthy then 200 else 503,
         [(''status'', JStr (if healthy then ''ready'' else ''degraded'')), (''checks'', JObj (map (\<lambda>c. (fst c, JStr (snd c))) checks))]))"

definition docs_url :: "app_config \<Rightarrow> string option" where
  "docs_url cfg = (if is_production cfg then None else Some ''/docs'')"

definition root_info :: "app_config \<Rightarrow> json_object" where
  "root_info cfg =
    [(''name'', JStr (ap_title cfg)), (''version'', JStr (ap_version cfg)), (''docs'', JStr (if is_production cfg then ''disabled'' else ''/docs''))]"

section \<open>Queues and the beat\<close>

definition task_routes :: "(string \<times> string) list" where
  "task_routes =
    [(''workers.orchestrator.'', ''scans''), (''workers.subdomain_enum.'', ''scans''), (''workers.port_scanner.'', ''scans''),
     (''workers.fingerprinter.'', ''scans''), (''workers.cve_correlator.'', ''enrich''), (''workers.ai_remediation.'', ''enrich''),
     (''workers.change_detector.'', ''scans''), (''workers.report_builder.'', ''reports''), (''workers.notifier.'', ''notify''),
     (''workers.scheduler.'', ''schedule'')]"

text \<open>The queue of a task: the first pattern that its name matches, Celery's default queue otherwise.\<close>

definition queue_of :: "string \<Rightarrow> string" where
  "queue_of task = (case find (\<lambda>r. prefix (fst r) task) task_routes of None \<Rightarrow> ''celery'' | Some r \<Rightarrow> snd r)"

text \<open>Every 60 seconds, or at a minute of the day, on one day of the week or on all.\<close>

datatype beat_rule = Every_seconds int | Crontab int int "int option"

definition beat_schedule :: "(string \<times> beat_rule) list" where
  "beat_schedule =
    [(''workers.scheduler.dispatch_due_scans'', Every_seconds 60),
     (''workers.scheduler.prune_old_data'', Crontab 3 30 None),
     (''workers.scheduler.reverify_domains'', Crontab 4 15 (Some 0))]"

definition crontab_due :: "int \<Rightarrow> int \<Rightarrow> int option \<Rightarrow> int \<Rightarrow> bool" where
  "crontab_due hour minute day t =
    (t mod us_day div 60000000 = 60 * hour + minute \<and> (case day of None \<Rightarrow> True | Some d \<Rightarrow> weekday_of t = d))"

section \<open>Facts\<close>

text \<open>Production never runs on a secret that still says what it is.\<close>

lemma production_needs_a_secret:
  assumes "get_settings given = Inr cfg" and "is_production cfg"
  shows "\<not> contains ''change-me'' (ap_jwt_secret cfg)" and "sv_production (server_part cfg)" and "docs_url cfg = None"
  using assms by (auto simp: get_settings_def server_part_def docs_url_def is_production_def split: if_splits)

lemma placeholder_is_refused: "get_settings (default_app_config\<lparr>ap_environment := ''production''\<rparr>) =
    Inl ''JWT_SECRET must be set to a real secret in production''"
  by code_simp

text \<open>The empty secret is accepted.\<close>

lemma empty_secret_is_accepted:
  "\<exists>cfg. get_settings (default_app_config\<lparr>ap_environment := ''production'', ap_jwt_secret := []\<rparr>) = Inr cfg \<and>
    is_production cfg \<and> ap_jwt_secret cfg = []"
proof -
  have "\<not> contains ''change-me'' []" by code_simp
  then show ?thesis by (simp add: get_settings_def is_production_def environments_def)
qed

lemma readiness_exact: "fst (readiness d r) = 200 \<longleftrightarrow> d = None \<and> r = None"
  by (auto simp: readiness_def check_text_def split: option.splits)

lemma failed_transaction_changes_nothing: "fst (session_scope refused body s) = Inl e \<Longrightarrow> snd (session_scope refused body s) = s"
  by (auto simp: session_scope_def split: prod.splits sum.splits option.splits)

text \<open>What a handler leaves behind is its work up to its last commit, whatever comes after it.\<close>

fun worked :: "('s, 'e) session_step list \<Rightarrow> 's \<Rightarrow> 's" where
  "worked [] s = s"
| "worked (Work f # steps) s = worked steps (f s)"
| "worked (step # steps) s = worked steps s"

lemma nothing_committed: "Commit \<notin> set steps \<Longrightarrow> snd (run_session steps held seen) = held"
proof (induction steps arbitrary: seen)
  case (Cons x steps)
  then show ?case by (cases x) auto
qed simp

lemma committed_work_stays:
  assumes "\<And>e. Raise e \<notin> set start" and "Commit \<notin> set rest"
  shows "snd (get_db (start @ Commit # rest) s) = worked start s"
proof -
  have "snd (run_session (start @ Commit # rest) held seen) = worked start seen" for held seen
    using assms(1)
  proof (induction start arbitrary: held seen)
    case (Cons x start)
    then show ?case by (cases x) auto
  qed (simp add: nothing_committed [OF assms(2)])
  then show ?thesis by (simp add: get_db_def)
qed

subsection \<open>Percent-encoding\<close>

definition utf8_of :: "char \<Rightarrow> int list" where
  "utf8_of c = (let n = ord c in if n < 128 then [n] else [192 + n div 64, 128 + n mod 64])"

lemma utf8_chars: "utf8 s = concat (map utf8_of s)"
  by (simp add: utf8_def utf8_of_def [abs_def])

lemma utf8_bytes: "b \<in> set (utf8_of c) \<Longrightarrow> 0 \<le> b \<and> b < 256"
  using ord_bound [of c] by (auto simp: utf8_of_def Let_def split: if_splits)

text \<open>The decoder the drivers apply, and what it gives back.\<close>

definition hex_value :: "char \<Rightarrow> int" where
  "hex_value c = (let n = ord c in if n < 58 then n - 48 else n - 55)"

fun unquote_bytes :: "string \<Rightarrow> int list" where
  "unquote_bytes [] = []"
| "unquote_bytes (c # cs) =
    (if c = percent then (case cs of a # b # rest \<Rightarrow> (16 * hex_value a + hex_value b) # unquote_bytes rest | _ \<Rightarrow> [ord c])
     else ord c # unquote_bytes cs)"

fun utf8_string :: "int list \<Rightarrow> string" where
  "utf8_string [] = []"
| "utf8_string [b] = [char_of b]"
| "utf8_string (b # b' # bs) = (if b < 128 then char_of b # utf8_string (b' # bs) else char_of ((b - 192) * 64 + (b' - 128)) # utf8_string bs)"

definition unquote :: "string \<Rightarrow> string" where
  "unquote s = utf8_string (unquote_bytes s)"

lemma hex_value_upper: "0 \<le> n \<Longrightarrow> n < 16 \<Longrightarrow> hex_value (hex_upper n) = n"
  by (simp add: hex_value_def hex_upper_def Let_def)

lemma percent_reserved: "\<not> unreserved percent"
  by code_simp

lemma unquote_quote_byte:
  assumes "0 \<le> b" "b < 256"
  shows "unquote_bytes (quote_byte b @ rest) = b # unquote_bytes rest"
proof (cases "unreserved (char_of b)")
  case True
  then have "char_of b \<noteq> percent" using percent_reserved by auto
  then show ?thesis using True assms by (simp add: quote_byte_def)
next
  case False
  have "hex_value (hex_upper (b div 16)) = b div 16" "hex_value (hex_upper (b mod 16)) = b mod 16"
    using assms by (intro hex_value_upper; simp)+
  then show ?thesis using False by (simp add: quote_byte_def)
qed

lemma unquote_quote_bytes: "(\<And>b. b \<in> set bs \<Longrightarrow> 0 \<le> b \<and> b < 256) \<Longrightarrow> unquote_bytes (concat (map quote_byte bs)) = bs"
proof (induction bs)
  case (Cons b bs)
  then show ?case using unquote_quote_byte [of b] by simp
qed simp

lemma utf8_string_step: "utf8_string (utf8_of c @ bs) = c # utf8_string bs"
proof (cases "ord c < 128")
  case True
  have "utf8_string (ord c # bs) = c # utf8_string bs" by (cases bs) (simp_all add: True)
  then show ?thesis by (simp add: utf8_of_def Let_def True)
next
  case False
  have "char_of (64 * (ord c div 64) + ord c mod 64) = c" "0 \<le> ord c div 64" using ord_bound [of c] by simp_all
  then show ?thesis using False ord_bound [of c] by (simp add: utf8_of_def Let_def algebra_simps)
qed

lemma utf8_string_utf8_of: "utf8_string (concat (map utf8_of s)) = s"
  by (induction s) (simp_all add: utf8_string_step)

lemma unquote_quote: "unquote (quote s) = s"
proof -
  have "unquote_bytes (quote s) = concat (map utf8_of s)"
    unfolding quote_def utf8_chars by (rule unquote_quote_bytes) (auto dest: utf8_bytes)
  then show ?thesis by (simp add: unquote_def utf8_string_utf8_of)
qed

lemma hex_unreserved: "0 \<le> n \<Longrightarrow> n < 16 \<Longrightarrow> unreserved (hex_upper n)"
proof -
  have "\<forall>n \<in> set [0..15]. unreserved (hex_upper n)" by code_simp
  then show "0 \<le> n \<Longrightarrow> n < 16 \<Longrightarrow> unreserved (hex_upper n)" by auto
qed

lemma hex_of_byte: "0 \<le> b \<Longrightarrow> b < 256 \<Longrightarrow> unreserved (hex_upper (b div 16))" "0 \<le> b \<Longrightarrow> unreserved (hex_upper (b mod 16))"
  by (simp_all add: hex_unreserved)

lemma quote_byte_chars:
  assumes "0 \<le> b" "b < 256" "c \<in> set (quote_byte b)"
  shows "unreserved c \<or> c = percent"
  using assms hex_of_byte [OF assms(1)] by (auto simp: quote_byte_def split: if_splits)

lemma quote_chars: "c \<in> set (quote s) \<Longrightarrow> unreserved c \<or> c = percent"
  unfolding quote_def utf8_chars using utf8_bytes quote_byte_chars by fastforce

text \<open>What a reader of connection strings takes for the user, the password and the rest.\<close>

definition read_dsn :: "string \<Rightarrow> (string \<times> string \<times> string) option" where
  "read_dsn url =
    (case cut ''://'' url of
       None \<Rightarrow> None
     | Some (_, rest) \<Rightarrow>
         (let creds = takeWhile (\<lambda>c. c \<noteq> CHR ''@'') rest; user = takeWhile (\<lambda>c. c \<noteq> CHR '':'') creds
          in Some (unquote user, unquote (drop (length user + 1) creds), drop (length creds + 1) rest)))"

text \<open>
  The credentials survive the connection string: whatever characters the user name and the
  password are made of, a reader that cuts at the first colon and the first at sign gets both
  back and is left with the location, so the host is the configured one.
\<close>

lemma credentials_survive_the_url:
  "read_dsn (en_url (async_engine cfg)) = Some (ap_pg_user cfg, ap_pg_password cfg, database_location cfg)"
  "read_dsn (en_url (sync_engine cfg)) = Some (ap_pg_user cfg, ap_pg_password cfg, database_location cfg)"
proof -
  have no: "CHR ''@'' \<notin> set (quote s)" "CHR '':'' \<notin> set (quote s)" for s
  proof -
    have "\<not> unreserved (CHR ''@'')" "\<not> unreserved (CHR '':'')" "CHR ''@'' \<noteq> percent" "CHR '':'' \<noteq> percent" by code_simp+
    then show "CHR ''@'' \<notin> set (quote s)" "CHR '':'' \<notin> set (quote s)" using quote_chars by blast+
  qed
  have creds: "takeWhile (\<lambda>c. c \<noteq> CHR ''@'') (dsn_credentials cfg @ ''@'' @ loc) = dsn_credentials cfg" for loc
    using no by (subst takeWhile_append2) (auto simp: dsn_credentials_def)
  have user: "takeWhile (\<lambda>c. c \<noteq> CHR '':'') (dsn_credentials cfg) = quote (ap_pg_user cfg)"
    unfolding dsn_credentials_def using no by (subst takeWhile_append2) auto
  have rest: "drop (length (quote (ap_pg_user cfg)) + 1) (dsn_credentials cfg) = quote (ap_pg_password cfg)"
    by (simp add: dsn_credentials_def)
  have "cut ''://'' (''postgresql+asyncpg://'' @ r) = Some (''postgresql+asyncpg'', r)"
    "cut ''://'' (''postgresql+psycopg://'' @ r) = Some (''postgresql+psycopg'', r)" for r
    by (simp_all add: prefix_def)
  then have "read_dsn (database_url cfg) = Some (ap_pg_user cfg, ap_pg_password cfg, database_location cfg)"
    "read_dsn (sync_database_url cfg) = Some (ap_pg_user cfg, ap_pg_password cfg, database_location cfg)"
    by (simp_all only: read_dsn_def database_url_def sync_database_url_def option.case prod.case Let_def creds user rest unquote_quote) simp_all
  then show "read_dsn (en_url (async_engine cfg)) = Some (ap_pg_user cfg, ap_pg_password cfg, database_location cfg)"
    "read_dsn (en_url (sync_engine cfg)) = Some (ap_pg_user cfg, ap_pg_password cfg, database_location cfg)"
    by (simp_all add: async_engine_def sync_engine_def)
qed

subsection \<open>The same string in the migrations\<close>

text \<open>Every percent sign is followed by an unreserved character.\<close>

fun escapes_ok :: "string \<Rightarrow> bool" where
  "escapes_ok [] = True"
| "escapes_ok [c] = (c \<noteq> percent)"
| "escapes_ok (c # d # cs) = ((c = percent \<longrightarrow> unreserved d) \<and> escapes_ok (d # cs))"

lemma escapes_ok_doubled: "escapes_ok s \<Longrightarrow> drop_doubled s = s"
  by (induction s rule: drop_doubled.induct) (auto simp: percent_reserved)

lemma escapes_ok_tail: "escapes_ok (c # cs) \<Longrightarrow> escapes_ok cs"
  by (cases cs) auto

lemma escapes_ok_reference: "escapes_ok s \<Longrightarrow> reference_end s = None"
proof -
  have "\<not> unreserved (CHR ''('')" by code_simp
  then show "escapes_ok s \<Longrightarrow> reference_end s = None"
    by (cases s rule: escapes_ok.cases) (auto simp: reference_end_def Let_def)
qed

lemma escapes_ok_references: "escapes_ok s \<Longrightarrow> drop_references n s = s"
proof (induction n arbitrary: s)
  case (Suc n)
  show ?case
  proof (cases s)
    case (Cons c cs)
    then show ?thesis using Suc.IH [of cs] Suc.prems escapes_ok_tail by (simp add: escapes_ok_reference)
  qed simp
qed simp

lemma escapes_ok_plain: "c \<noteq> percent \<Longrightarrow> escapes_ok (c # s) = escapes_ok s"
  by (cases s) auto

lemma escapes_ok_append: "percent \<notin> set xs \<Longrightarrow> escapes_ok (xs @ s) = escapes_ok s"
proof (induction xs)
  case (Cons a xs)
  then have "a \<noteq> percent" "escapes_ok (xs @ s) = escapes_ok s" by auto
  then show ?case by (simp add: escapes_ok_plain)
qed simp

lemma escapes_ok_quote_byte:
  assumes "0 \<le> b" "b < 256"
  shows "escapes_ok (quote_byte b @ s) = escapes_ok s"
proof -
  note hex = hex_of_byte(1) [OF assms] hex_of_byte(2) [OF assms(1)]
  then have "hex_upper (b div 16) \<noteq> percent" "hex_upper (b mod 16) \<noteq> percent" using percent_reserved by auto
  moreover have "char_of b \<noteq> percent" if "unreserved (char_of b)" using that percent_reserved by auto
  ultimately show ?thesis using hex by (simp add: quote_byte_def escapes_ok_plain)
qed

lemma escapes_ok_quote: "escapes_ok (quote t @ s) = escapes_ok s"
proof -
  have "escapes_ok (concat (map quote_byte bs) @ s) = escapes_ok s" if "\<And>b. b \<in> set bs \<Longrightarrow> 0 \<le> b \<and> b < 256" for bs
    using that by (induction bs) (simp_all add: escapes_ok_quote_byte)
  then show ?thesis unfolding quote_def utf8_chars by (rule meta_mp) (auto dest: utf8_bytes)
qed

lemma unreserved_ascii: "unreserved c \<Longrightarrow> ord c < 128"
  by (auto simp: unreserved_def is_ascii_lower_def is_ascii_upper_def is_ascii_digit_def Let_def ord_def)

lemma percent_in_quote: "percent \<in> set (quote s) \<longleftrightarrow> \<not> list_all unreserved s"
proof -
  have byte: "percent \<in> set (quote_byte b) \<longleftrightarrow> \<not> unreserved (char_of b)" for b
    using percent_reserved by (auto simp: quote_byte_def)
  have "(\<exists>b \<in> set (utf8_of c). \<not> unreserved (char_of b)) \<longleftrightarrow> \<not> unreserved c" for c
  proof (cases "ord c < 128")
    case False
    have "\<not> unreserved (char_of n)" if "128 \<le> n" "n < 256" for n :: int
      using unreserved_ascii [of "char_of n"] that by auto
    then have "\<not> unreserved (char_of (192 + ord c div 64))" using False ord_bound [of c] by simp
    moreover have "\<not> unreserved c" using unreserved_ascii False by blast
    ultimately show ?thesis using False by (simp add: utf8_of_def Let_def)
  qed (simp add: utf8_of_def Let_def)
  then show ?thesis by (auto simp: quote_def utf8_chars byte list_all_iff)
qed

text \<open>
  The migrations put the same connection string into an option of a \<open>ConfigParser\<close>, where a
  percent sign has a meaning of its own. They start only when nothing in the credentials had
  to be quoted: with the passwords the quoting is there for, Alembic ends at once.
\<close>

lemma migrations_need_plain_credentials:
  assumes "percent \<notin> set (database_location cfg)"
  shows "migrate cfg = Inr (sync_database_url cfg) \<longleftrightarrow> list_all unreserved (ap_pg_user cfg @ ap_pg_password cfg)"
proof -
  have "percent \<notin> set (''@'' @ database_location cfg)" "percent \<notin> set '':''" "percent \<notin> set ''postgresql+psycopg://''"
    using assms by (simp_all add: percent_def)
  note plain = this
  have "escapes_ok (''@'' @ database_location cfg)" using escapes_ok_append [OF plain(1), of "[]"] by simp
  then have "escapes_ok (sync_database_url cfg)"
    unfolding sync_database_url_def dsn_credentials_def append_assoc
    by (simp only: escapes_ok_append [OF plain(3)] escapes_ok_quote escapes_ok_append [OF plain(2)])
  then have "option_accepted (sync_database_url cfg) \<longleftrightarrow> percent \<notin> set (sync_database_url cfg)"
    by (simp add: option_accepted_def escapes_ok_doubled escapes_ok_references)
  also have "\<dots> \<longleftrightarrow> percent \<notin> set (quote (ap_pg_user cfg)) \<and> percent \<notin> set (quote (ap_pg_password cfg))"
    using plain by (simp add: sync_database_url_def dsn_credentials_def)
  finally show ?thesis by (simp add: migrate_def percent_in_quote)
qed

lemma at_sign_breaks_the_migrations:
  "migrate (default_app_config\<lparr>ap_pg_password := ''p@ss''\<rparr>) = Inl ''invalid interpolation syntax''"
  by code_simp

section \<open>Queues\<close>

lemma every_task_has_its_queue:
  "map queue_of (map task_name module_order) = [''scans'', ''scans'', ''scans'', ''enrich'', ''scans''] \<and>
   map queue_of [''workers.orchestrator.run_pipeline'', ''workers.orchestrator.finalise_scan'', ''workers.orchestrator.fail_scan'',
     ''workers.ai_remediation.run'', ''workers.notifier.notify_critical'', ''workers.report_builder.build_report''] =
     [''scans'', ''scans'', ''scans'', ''enrich'', ''notify'', ''reports''] \<and>
   map queue_of (map fst beat_schedule) = [''schedule'', ''schedule'', ''schedule'']"
  by code_simp

text \<open>The three periodic tasks never start in the same minute except the dispatcher, and reverification starts on Mondays only.\<close>

lemma sweeps_are_apart: "crontab_due 3 30 None t \<Longrightarrow> \<not> crontab_due 4 15 (Some 0) t"
  by (simp add: crontab_due_def)

lemma reverification_is_on_mondays: "crontab_due 4 15 (Some 0) t \<Longrightarrow> weekday_of t = 0"
  by (simp add: crontab_due_def)

end
