(* ===== verification/Schema.thy ===== *)
theory Schema
  imports Tables
begin

text \<open>
  The database schema twice: as the Alembic scripts \<open>db/migrations/versions\<close> build it step by step,
  and as the classes of \<open>models/\<close> declare it. A step of a script is a \<open>ddl\<close> command, refused where
  PostgreSQL refuses it; constraints other than foreign keys are carried as text.
\<close>

section \<open>Schemas and commands\<close>

datatype col_type =
    Uuid | Varchar nat | Text_type | Bool_type | Int2 | Int4 | Float8 | Timestamptz | Jsonb | Enum_type string

datatype on_delete = Cascade | Set_null

text \<open>A server default given as a value or as an expression.\<close>

datatype default_clause = Literal string | Sql string

record column =
  co_name :: string
  co_type :: col_type
  co_null :: bool
  co_primary :: bool
  co_default :: "default_clause option"
  co_refers :: "(string \<times> on_delete) option"

record table_def =
  td_name :: string
  td_columns :: "column list"
  td_unique :: "(string \<times> string list) list"
  td_checks :: "(string \<times> string) list"

record index_def =
  ix_name :: string
  ix_table :: string
  ix_columns :: "string list"
  ix_method :: string

record schema =
  sc_enums :: "(string \<times> string list) list"
  sc_tables :: "table_def list"
  sc_indexes :: "index_def list"

definition col :: "string \<Rightarrow> col_type \<Rightarrow> column" where
  "col n t = \<lparr>co_name = n, co_type = t, co_null = False, co_primary = False, co_default = None, co_refers = None\<rparr>"

definition nullable :: "column \<Rightarrow> column" where
  "nullable c = c\<lparr>co_null := True\<rparr>"

definition primary :: "column \<Rightarrow> column" where
  "primary c = c\<lparr>co_primary := True\<rparr>"

definition defaulted :: "default_clause \<Rightarrow> column \<Rightarrow> column" where
  "defaulted d c = c\<lparr>co_default := Some d\<rparr>"

text \<open>Every foreign key of the program refers to the column \<open>id\<close>.\<close>

definition referring :: "string \<Rightarrow> on_delete \<Rightarrow> column \<Rightarrow> column" where
  "referring t a c = c\<lparr>co_refers := Some (t, a)\<rparr>"

definition index_on :: "string \<Rightarrow> string \<Rightarrow> string list \<Rightarrow> string \<Rightarrow> index_def" where
  "index_on n t cs m = \<lparr>ix_name = n, ix_table = t, ix_columns = cs, ix_method = m\<rparr>"

definition quoted_mark :: string where
  "quoted_mark = [CHR 0x27]"

datatype ddl =
    Create_enum "string \<times> string list"
  | Drop_enum string
  | Create_table table_def
  | Drop_table string
  | Create_index index_def
  | Add_column string column
  | Drop_column string string

definition table_names :: "schema \<Rightarrow> string list" where
  "table_names s = map td_name (sc_tables s)"

definition enum_uses :: "table_def \<Rightarrow> string list" where
  "enum_uses t = concat (map (\<lambda>c. case co_type c of Enum_type e \<Rightarrow> [e] | _ \<Rightarrow> []) (td_columns t))"

definition targets :: "table_def \<Rightarrow> string list" where
  "targets t = concat (map (\<lambda>c. case co_refers c of None \<Rightarrow> [] | Some (r, _) \<Rightarrow> [r]) (td_columns t))"

definition column_names :: "table_def \<Rightarrow> string list" where
  "column_names t = map co_name (td_columns t)"

text \<open>
  One command; None when PostgreSQL refuses it. Enumerations are created and dropped with
  \<open>checkfirst\<close>; a table goes with its indexes, a column with the indexes it is part of.
\<close>

fun run_command :: "ddl \<Rightarrow> schema \<Rightarrow> schema option" where
  "run_command (Create_enum e) s =
     Some (if fst e \<in> set (map fst (sc_enums s)) then s else s\<lparr>sc_enums := sc_enums s @ [e]\<rparr>)"
| "run_command (Drop_enum n) s =
     (if list_ex (\<lambda>t. n \<in> set (enum_uses t)) (sc_tables s) then None
      else Some (s\<lparr>sc_enums := filter (\<lambda>e. fst e \<noteq> n) (sc_enums s)\<rparr>))"
| "run_command (Create_table t) s =
     (if td_name t \<in> set (table_names s) \<or> \<not> list_all (\<lambda>e. e \<in> set (map fst (sc_enums s))) (enum_uses t)
         \<or> \<not> list_all (\<lambda>r. r = td_name t \<or> r \<in> set (table_names s)) (targets t) then None
      else Some (s\<lparr>sc_tables := sc_tables s @ [t]\<rparr>))"
| "run_command (Drop_table n) s =
     (if n \<notin> set (table_names s) \<or> list_ex (\<lambda>t. td_name t \<noteq> n \<and> n \<in> set (targets t)) (sc_tables s) then None
      else Some (s\<lparr>sc_tables := filter (\<lambda>t. td_name t \<noteq> n) (sc_tables s), sc_indexes := filter (\<lambda>i. ix_table i \<noteq> n) (sc_indexes s)\<rparr>))"
| "run_command (Create_index i) s =
     (if ix_name i \<in> set (map ix_name (sc_indexes s))
         \<or> \<not> list_ex (\<lambda>t. td_name t = ix_table i \<and> list_all (\<lambda>c. c \<in> set (column_names t)) (ix_columns i)) (sc_tables s) then None
      else Some (s\<lparr>sc_indexes := sc_indexes s @ [i]\<rparr>))"
| "run_command (Add_column n c) s =
     (if \<not> list_ex (\<lambda>t. td_name t = n \<and> co_name c \<notin> set (column_names t)) (sc_tables s) then None
      else Some (s\<lparr>sc_tables := map (\<lambda>t. if td_name t = n then t\<lparr>td_columns := td_columns t @ [c]\<rparr> else t) (sc_tables s)\<rparr>))"
| "run_command (Drop_column n c) s =
     (if \<not> list_ex (\<lambda>t. td_name t = n \<and> c \<in> set (column_names t)) (sc_tables s) then None
      else Some (s\<lparr>sc_tables := map (\<lambda>t. if td_name t = n then t\<lparr>td_columns := filter (\<lambda>d. co_name d \<noteq> c) (td_columns t)\<rparr> else t) (sc_tables s),
                   sc_indexes := filter (\<lambda>i. \<not> (ix_table i = n \<and> c \<in> set (ix_columns i))) (sc_indexes s)\<rparr>))"

fun run_ddl :: "ddl list \<Rightarrow> schema \<Rightarrow> schema option" where
  "run_ddl [] s = Some s"
| "run_ddl (c # cs) s = (case run_command c s of None \<Rightarrow> None | Some s' \<Rightarrow> run_ddl cs s')"

definition empty_schema :: schema where
  "empty_schema = \<lparr>sc_enums = [], sc_tables = [], sc_indexes = []\<rparr>"

section \<open>The migrations\<close>

definition enum_user_role :: "string \<times> string list" where
  "enum_user_role =
    (''user_role'', [''owner'', ''admin'', ''analyst'', ''viewer''])"

definition enum_asset_status :: "string \<times> string list" where
  "enum_asset_status =
    (''asset_status'', [''active'', ''inactive'', ''new'', ''changed'', ''decommissioned''])"

definition enum_scan_status :: "string \<times> string list" where
  "enum_scan_status =
    (''scan_status'', [''queued'', ''running'', ''completed'', ''failed'', ''cancelled''])"

definition enum_severity :: "string \<times> string list" where
  "enum_severity =
    (''severity'', [''info'', ''low'', ''medium'', ''high'', ''critical''])"

definition enum_finding_status :: "string \<times> string list" where
  "enum_finding_status =
    (''finding_status'', [''open'', ''triaged'', ''confirmed'', ''remediated'', ''false_positive'', ''accepted_risk''])"

definition enum_log_level :: "string \<times> string list" where
  "enum_log_level =
    (''log_level'', [''debug'', ''info'', ''warning'', ''error''])"

definition made_organisations :: table_def where
  "made_organisations =
    \<lparr>td_name = ''organisations'',
     td_columns = [
       primary (col ''id'' Uuid),
       col ''name'' (Varchar 255),
       col ''domain'' (Varchar 253),
       defaulted (Literal ''[]'') (col ''verified_domains'' Jsonb),
       defaulted (Sql ''true'') (col ''is_active'' Bool_type),
       nullable (col ''notes'' Text_type),
       defaulted (Sql ''now()'') (col ''created_at'' Timestamptz),
       defaulted (Sql ''now()'') (col ''updated_at'' Timestamptz)],
     td_unique = [],
     td_checks = []\<rparr>"

definition made_users :: table_def where
  "made_users =
    \<lparr>td_name = ''users'',
     td_columns = [
       primary (col ''id'' Uuid),
       referring ''organisations'' Cascade (col ''org_id'' Uuid),
       col ''email'' (Varchar 320),
       nullable (col ''full_name'' (Varchar 255)),
       defaulted (Literal ''analyst'') (col ''role'' (Enum_type ''user_role'')),
       col ''password_hash'' (Varchar 128),
       defaulted (Sql ''true'') (col ''is_active'' Bool_type),
       nullable (col ''last_login_at'' Timestamptz),
       defaulted (Literal ''0'') (col ''token_version'' Int4),
       defaulted (Sql ''now()'') (col ''created_at'' Timestamptz),
       defaulted (Sql ''now()'') (col ''updated_at'' Timestamptz)],
     td_unique = [(''uq_users_org_email'', [''org_id'', ''email''])],
     td_checks = []\<rparr>"

definition made_assets :: table_def where
  "made_assets =
    \<lparr>td_name = ''assets'',
     td_columns = [
       primary (col ''id'' Uuid),
       referring ''organisations'' Cascade (col ''org_id'' Uuid),
       col ''hostname'' (Varchar 253),
       nullable (col ''ip'' (Varchar 45)),
       defaulted (Literal ''[]'') (col ''ports'' Jsonb),
       defaulted (Literal ''[]'') (col ''tech_stack'' Jsonb),
       defaulted (Literal ''0'') (col ''risk_score'' Float8),
       nullable (col ''last_scanned'' Timestamptz),
       defaulted (Literal ''new'') (col ''status'' (Enum_type ''asset_status'')),
       nullable (col ''discovery_source'' (Varchar 64)),
       nullable (col ''first_seen'' Timestamptz),
       nullable (col ''notes'' Text_type),
       defaulted (Sql ''now()'') (col ''created_at'' Timestamptz),
       defaulted (Sql ''now()'') (col ''updated_at'' Timestamptz)],
     td_unique = [(''uq_assets_org_hostname'', [''org_id'', ''hostname''])],
     td_checks = []\<rparr>"

definition made_scans :: table_def where
  "made_scans =
    \<lparr>td_name = ''scans'',
     td_columns = [
       primary (col ''id'' Uuid),
       referring ''organisations'' Cascade (col ''org_id'' Uuid),
       referring ''users'' Set_null (nullable (col ''created_by'' Uuid)),
       col ''target'' (Varchar 253),
       defaulted (Literal ''queued'') (col ''status'' (Enum_type ''scan_status'')),
       nullable (col ''started_at'' Timestamptz),
       nullable (col ''completed_at'' Timestamptz),
       defaulted (Literal ''{}'') (col ''config'' Jsonb),
       nullable (col ''current_stage'' (Varchar 64)),
       defaulted (Literal ''0'') (col ''progress'' Int4),
       defaulted (Literal ''0'') (col ''assets_discovered'' Int4),
       defaulted (Literal ''0'') (col ''findings_count'' Int4),
       nullable (col ''error'' Text_type),
       nullable (col ''celery_task_id'' (Varchar 155)),
       defaulted (Sql ''now()'') (col ''created_at'' Timestamptz),
       defaulted (Sql ''now()'') (col ''updated_at'' Timestamptz)],
     td_unique = [],
     td_checks = []\<rparr>"

definition made_findings :: table_def where
  "made_findings =
    \<lparr>td_name = ''findings'',
     td_columns = [
       primary (col ''id'' Uuid),
       referring ''organisations'' Cascade (col ''org_id'' Uuid),
       referring ''assets'' Cascade (nullable (col ''asset_id'' Uuid)),
       referring ''scans'' Set_null (nullable (col ''scan_id'' Uuid)),
       col ''title'' (Varchar 500),
       nullable (col ''cve_id'' (Varchar 32)),
       nullable (col ''cvss_score'' Float8),
       nullable (col ''cvss_vector'' (Varchar 128)),
       defaulted (Literal ''info'') (col ''severity'' (Enum_type ''severity'')),
       nullable (col ''description'' Text_type),
       nullable (col ''remediation'' Text_type),
       defaulted (Literal ''open'') (col ''status'' (Enum_type ''finding_status'')),
       nullable (col ''source'' (Varchar 64)),
       col ''fingerprint'' (Varchar 64),
       defaulted (Literal ''{}'') (col ''evidence'' Jsonb),
       defaulted (Literal ''[]'') (col ''references'' Jsonb),
       nullable (col ''first_seen'' Timestamptz),
       nullable (col ''last_seen'' Timestamptz),
       nullable (col ''resolved_at'' Timestamptz),
       defaulted (Sql ''now()'') (col ''created_at'' Timestamptz),
       defaulted (Sql ''now()'') (col ''updated_at'' Timestamptz)],
     td_unique = [(''uq_findings_org_fingerprint'', [''org_id'', ''fingerprint''])],
     td_checks = []\<rparr>"

definition made_scan_logs :: table_def where
  "made_scan_logs =
    \<lparr>td_name = ''scan_logs'',
     td_columns = [
       primary (col ''id'' Uuid),
       referring ''scans'' Cascade (col ''scan_id'' Uuid),
       col ''timestamp'' Timestamptz,
       col ''message'' Text_type,
       defaulted (Literal ''info'') (col ''level'' (Enum_type ''log_level'')),
       nullable (col ''stage'' (Varchar 64))],
     td_unique = [],
     td_checks = []\<rparr>"

definition made_reports :: table_def where
  "made_reports =
    \<lparr>td_name = ''reports'',
     td_columns = [
       primary (col ''id'' Uuid),
       referring ''organisations'' Cascade (col ''org_id'' Uuid),
       referring ''users'' Set_null (nullable (col ''generated_by'' Uuid)),
       col ''generated_at'' Timestamptz,
       col ''file_path'' (Varchar 1024),
       nullable (col ''title'' (Varchar 255)),
       defaulted (Literal ''pdf'') (col ''format'' (Varchar 16)),
       defaulted (Literal ''pending'') (col ''status'' (Varchar 16)),
       nullable (col ''size_bytes'' Int4),
       defaulted (Literal ''{}'') (col ''summary'' Jsonb),
       defaulted (Sql ''now()'') (col ''created_at'' Timestamptz),
       defaulted (Sql ''now()'') (col ''updated_at'' Timestamptz)],
     td_unique = [],
     td_checks = []\<rparr>"

definition made_organisations_indexes :: "index_def list" where
  "made_organisations_indexes =
    [index_on ''ix_organisations_domain'' ''organisations'' [''domain''] ''btree'']"

definition made_users_indexes :: "index_def list" where
  "made_users_indexes =
    [index_on ''ix_users_org_id'' ''users'' [''org_id''] ''btree'',
     index_on ''ix_users_email'' ''users'' [''email''] ''btree'']"

definition made_assets_indexes :: "index_def list" where
  "made_assets_indexes =
    [index_on ''ix_assets_org_id'' ''assets'' [''org_id''] ''btree'',
     index_on ''ix_assets_hostname'' ''assets'' [''hostname''] ''btree'',
     index_on ''ix_assets_ip'' ''assets'' [''ip''] ''btree'',
     index_on ''ix_assets_org_risk'' ''assets'' [''org_id'', ''risk_score''] ''btree'',
     index_on ''ix_assets_org_status'' ''assets'' [''org_id'', ''status''] ''btree'',
     index_on ''ix_assets_ports_gin'' ''assets'' [''ports''] ''gin'',
     index_on ''ix_assets_tech_gin'' ''assets'' [''tech_stack''] ''gin'']"

definition made_scans_indexes :: "index_def list" where
  "made_scans_indexes =
    [index_on ''ix_scans_org_id'' ''scans'' [''org_id''] ''btree'',
     index_on ''ix_scans_target'' ''scans'' [''target''] ''btree'',
     index_on ''ix_scans_celery_task_id'' ''scans'' [''celery_task_id''] ''btree'',
     index_on ''ix_scans_org_started'' ''scans'' [''org_id'', ''started_at''] ''btree'',
     index_on ''ix_scans_org_status'' ''scans'' [''org_id'', ''status''] ''btree'']"

definition made_findings_indexes :: "index_def list" where
  "made_findings_indexes =
    [index_on ''ix_findings_org_id'' ''findings'' [''org_id''] ''btree'',
     index_on ''ix_findings_asset_id'' ''findings'' [''asset_id''] ''btree'',
     index_on ''ix_findings_scan_id'' ''findings'' [''scan_id''] ''btree'',
     index_on ''ix_findings_cve_id'' ''findings'' [''cve_id''] ''btree'',
     index_on ''ix_findings_org_severity'' ''findings'' [''org_id'', ''severity''] ''btree'',
     index_on ''ix_findings_org_status'' ''findings'' [''org_id'', ''status''] ''btree'',
     index_on ''ix_findings_org_cve'' ''findings'' [''org_id'', ''cve_id''] ''btree'']"

definition made_scan_logs_indexes :: "index_def list" where
  "made_scan_logs_indexes =
    [index_on ''ix_scan_logs_scan_id'' ''scan_logs'' [''scan_id''] ''btree'',
     index_on ''ix_scan_logs_scan_ts'' ''scan_logs'' [''scan_id'', ''timestamp''] ''btree'']"

definition made_reports_indexes :: "index_def list" where
  "made_reports_indexes =
    [index_on ''ix_reports_org_id'' ''reports'' [''org_id''] ''btree'',
     index_on ''ix_reports_org_generated'' ''reports'' [''org_id'', ''generated_at''] ''btree'']"

definition upgrade_0001 :: "ddl list" where
  "upgrade_0001 =
    map Create_enum [enum_user_role, enum_asset_status, enum_scan_status, enum_severity, enum_finding_status, enum_log_level]
    @ [Create_table made_organisations]
    @ map Create_index made_organisations_indexes
    @ [Create_table made_users]
    @ map Create_index made_users_indexes
    @ [Create_table made_assets]
    @ map Create_index made_assets_indexes
    @ [Create_table made_scans]
    @ map Create_index made_scans_indexes
    @ [Create_table made_findings]
    @ map Create_index made_findings_indexes
    @ [Create_table made_scan_logs]
    @ map Create_index made_scan_logs_indexes
    @ [Create_table made_reports]
    @ map Create_index made_reports_indexes"

definition downgrade_0001 :: "ddl list" where
  "downgrade_0001 =
    [Drop_table ''reports'']
    @ [Drop_table ''scan_logs'']
    @ [Drop_table ''findings'']
    @ [Drop_table ''scans'']
    @ [Drop_table ''assets'']
    @ [Drop_table ''users'']
    @ [Drop_table ''organisations'']
    @ map (Drop_enum \<circ> fst) [enum_log_level, enum_finding_status, enum_severity, enum_scan_status, enum_asset_status, enum_user_role]"

definition upgrade_0002 :: "ddl list" where
  "upgrade_0002 =
    [Add_column ''organisations'' (nullable (col ''slack_webhook_url'' (Varchar 512)))]"

definition downgrade_0002 :: "ddl list" where
  "downgrade_0002 =
    [Drop_column ''organisations'' ''slack_webhook_url'']"

definition enum_domain_verification_status :: "string \<times> string list" where
  "enum_domain_verification_status =
    (''domain_verification_status'', [''pending'', ''verified'', ''failed''])"

definition made_domain_verifications :: table_def where
  "made_domain_verifications =
    \<lparr>td_name = ''domain_verifications'',
     td_columns = [
       primary (col ''id'' Uuid),
       referring ''organisations'' Cascade (col ''org_id'' Uuid),
       referring ''users'' Set_null (nullable (col ''created_by'' Uuid)),
       col ''domain'' (Varchar 253),
       col ''token'' (Varchar 64),
       col ''token_expires_at'' Timestamptz,
       defaulted (Literal ''pending'') (col ''status'' (Enum_type ''domain_verification_status'')),
       nullable (col ''verified_at'' Timestamptz),
       nullable (col ''last_checked_at'' Timestamptz),
       nullable (col ''last_error'' Text_type),
       defaulted (Literal ''0'') (col ''consecutive_failures'' Int4),
       defaulted (Sql ''now()'') (col ''created_at'' Timestamptz),
       defaulted (Sql ''now()'') (col ''updated_at'' Timestamptz)],
     td_unique = [(''uq_domain_verifications_org_domain'', [''org_id'', ''domain''])],
     td_checks = []\<rparr>"

definition made_domain_verifications_indexes :: "index_def list" where
  "made_domain_verifications_indexes =
    [index_on ''ix_domain_verifications_org_id'' ''domain_verifications'' [''org_id''] ''btree'',
     index_on ''ix_domain_verifications_domain'' ''domain_verifications'' [''domain''] ''btree'']"

definition upgrade_0003 :: "ddl list" where
  "upgrade_0003 =
    [Create_enum enum_domain_verification_status]
    @ [Create_table made_domain_verifications]
    @ map Create_index made_domain_verifications_indexes"

definition downgrade_0003 :: "ddl list" where
  "downgrade_0003 =
    [Drop_table ''domain_verifications'']
    @ [Drop_enum (fst enum_domain_verification_status)]"

definition made_refresh_sessions :: table_def where
  "made_refresh_sessions =
    \<lparr>td_name = ''refresh_sessions'',
     td_columns = [
       primary (col ''id'' Uuid),
       referring ''users'' Cascade (col ''user_id'' Uuid),
       referring ''organisations'' Cascade (col ''org_id'' Uuid),
       col ''token_hash'' (Varchar 64),
       col ''family_id'' Uuid,
       col ''expires_at'' Timestamptz,
       nullable (col ''revoked_at'' Timestamptz),
       referring ''refresh_sessions'' Set_null (nullable (col ''replaced_by'' Uuid)),
       nullable (col ''last_used_at'' Timestamptz),
       defaulted (Sql ''now()'') (col ''created_at'' Timestamptz),
       defaulted (Sql ''now()'') (col ''updated_at'' Timestamptz)],
     td_unique = [(''uq_refresh_sessions_token_hash'', [''token_hash''])],
     td_checks = []\<rparr>"

definition made_refresh_sessions_indexes :: "index_def list" where
  "made_refresh_sessions_indexes =
    [index_on ''ix_refresh_sessions_user_id'' ''refresh_sessions'' [''user_id''] ''btree'',
     index_on ''ix_refresh_sessions_org_id'' ''refresh_sessions'' [''org_id''] ''btree'',
     index_on ''ix_refresh_sessions_family_id'' ''refresh_sessions'' [''family_id''] ''btree'']"

definition upgrade_0004 :: "ddl list" where
  "upgrade_0004 =
    [Create_table made_refresh_sessions]
    @ map Create_index made_refresh_sessions_indexes"

definition downgrade_0004 :: "ddl list" where
  "downgrade_0004 =
    [Drop_table ''refresh_sessions'']"

definition enum_scan_cadence :: "string \<times> string list" where
  "enum_scan_cadence =
    (''scan_cadence'', [''hourly'', ''daily'', ''weekly''])"

definition made_scan_schedules :: table_def where
  "made_scan_schedules =
    \<lparr>td_name = ''scan_schedules'',
     td_columns = [
       primary (col ''id'' Uuid),
       referring ''organisations'' Cascade (col ''org_id'' Uuid),
       referring ''users'' Set_null (nullable (col ''created_by'' Uuid)),
       col ''name'' (Varchar 120),
       col ''target'' (Varchar 253),
       defaulted (Sql ([] @ quoted_mark @ ''{}'' @ quoted_mark @ ''::jsonb'')) (col ''config'' Jsonb),
       defaulted (Literal ''daily'') (col ''cadence'' (Enum_type ''scan_cadence'')),
       defaulted (Literal ''3'') (col ''hour_utc'' Int2),
       nullable (col ''weekday'' Int2),
       defaulted (Sql ''true'') (col ''is_enabled'' Bool_type),
       col ''next_run_at'' Timestamptz,
       nullable (col ''last_run_at'' Timestamptz),
       referring ''scans'' Set_null (nullable (col ''last_scan_id'' Uuid)),
       defaulted (Literal ''0'') (col ''consecutive_failures'' Int4),
       nullable (col ''disabled_reason'' Text_type),
       defaulted (Sql ''now()'') (col ''created_at'' Timestamptz),
       defaulted (Sql ''now()'') (col ''updated_at'' Timestamptz)],
     td_unique = [],
     td_checks = [(''ck_scan_schedules_hour_utc'', ''hour_utc BETWEEN 0 AND 23''),
       (''ck_scan_schedules_weekday'', ''weekday IS NULL OR weekday BETWEEN 0 AND 6''),
       (''ck_scan_schedules_weekly_needs_weekday'', (''cadence <> '' @ quoted_mark @ ''weekly'' @ quoted_mark @ '' OR weekday IS NOT NULL''))]\<rparr>"

definition made_scan_schedules_indexes :: "index_def list" where
  "made_scan_schedules_indexes =
    [index_on ''ix_scan_schedules_org_id'' ''scan_schedules'' [''org_id''] ''btree'',
     index_on ''ix_scan_schedules_next_run_at'' ''scan_schedules'' [''next_run_at''] ''btree'',
     index_on ''ix_scan_schedules_due'' ''scan_schedules'' [''is_enabled'', ''next_run_at''] ''btree'']"

definition upgrade_0005 :: "ddl list" where
  "upgrade_0005 =
    [Create_enum enum_scan_cadence]
    @ [Create_table made_scan_schedules]
    @ map Create_index made_scan_schedules_indexes"

definition downgrade_0005 :: "ddl list" where
  "downgrade_0005 =
    [Drop_table ''scan_schedules'']
    @ [Drop_enum (fst enum_scan_cadence)]"

section \<open>The declared schema\<close>

definition timestamp_columns :: "column list" where
  "timestamp_columns =
    [defaulted (Sql ''now()'') (col ''created_at'' Timestamptz),
     defaulted (Sql ''now()'') (col ''updated_at'' Timestamptz)]"

definition declared_organisations :: table_def where
  "declared_organisations =
    \<lparr>td_name = ''organisations'',
     td_columns = [
       primary (col ''id'' Uuid),
       col ''name'' (Varchar 255),
       col ''domain'' (Varchar 253),
       defaulted (Literal ''[]'') (col ''verified_domains'' Jsonb),
       defaulted (Sql ''true'') (col ''is_active'' Bool_type),
       nullable (col ''notes'' Text_type),
       nullable (col ''slack_webhook_url'' (Varchar 512))] @ timestamp_columns,
     td_unique = [],
     td_checks = []\<rparr>"

definition declared_organisations_indexes :: "index_def list" where
  "declared_organisations_indexes =
    [index_on ''ix_organisations_domain'' ''organisations'' [''domain''] ''btree'']"

definition declared_users :: table_def where
  "declared_users =
    \<lparr>td_name = ''users'',
     td_columns = [
       primary (col ''id'' Uuid),
       referring ''organisations'' Cascade (col ''org_id'' Uuid),
       col ''email'' (Varchar 320),
       nullable (col ''full_name'' (Varchar 255)),
       defaulted (Literal ''analyst'') (col ''role'' (Enum_type ''user_role'')),
       col ''password_hash'' (Varchar 128),
       defaulted (Sql ''true'') (col ''is_active'' Bool_type),
       nullable (col ''last_login_at'' Timestamptz),
       defaulted (Literal ''0'') (col ''token_version'' Int4)] @ timestamp_columns,
     td_unique = [(''uq_users_org_email'', [''org_id'', ''email''])],
     td_checks = []\<rparr>"

definition declared_users_indexes :: "index_def list" where
  "declared_users_indexes =
    [index_on ''ix_users_org_id'' ''users'' [''org_id''] ''btree'',
     index_on ''ix_users_email'' ''users'' [''email''] ''btree'']"

definition declared_assets :: table_def where
  "declared_assets =
    \<lparr>td_name = ''assets'',
     td_columns = [
       primary (col ''id'' Uuid),
       referring ''organisations'' Cascade (col ''org_id'' Uuid),
       col ''hostname'' (Varchar 253),
       nullable (col ''ip'' (Varchar 45)),
       defaulted (Literal ''[]'') (col ''ports'' Jsonb),
       defaulted (Literal ''[]'') (col ''tech_stack'' Jsonb),
       defaulted (Literal ''0'') (col ''risk_score'' Float8),
       nullable (col ''last_scanned'' Timestamptz),
       defaulted (Literal ''new'') (col ''status'' (Enum_type ''asset_status'')),
       nullable (col ''discovery_source'' (Varchar 64)),
       nullable (col ''first_seen'' Timestamptz),
       nullable (col ''notes'' Text_type)] @ timestamp_columns,
     td_unique = [(''uq_assets_org_hostname'', [''org_id'', ''hostname''])],
     td_checks = []\<rparr>"

definition declared_assets_indexes :: "index_def list" where
  "declared_assets_indexes =
    [index_on ''ix_assets_org_id'' ''assets'' [''org_id''] ''btree'',
     index_on ''ix_assets_hostname'' ''assets'' [''hostname''] ''btree'',
     index_on ''ix_assets_ip'' ''assets'' [''ip''] ''btree'',
     index_on ''ix_assets_org_risk'' ''assets'' [''org_id'', ''risk_score''] ''btree'',
     index_on ''ix_assets_org_status'' ''assets'' [''org_id'', ''status''] ''btree'',
     index_on ''ix_assets_ports_gin'' ''assets'' [''ports''] ''gin'',
     index_on ''ix_assets_tech_gin'' ''assets'' [''tech_stack''] ''gin'']"

definition declared_scans :: table_def where
  "declared_scans =
    \<lparr>td_name = ''scans'',
     td_columns = [
       primary (col ''id'' Uuid),
       referring ''organisations'' Cascade (col ''org_id'' Uuid),
       referring ''users'' Set_null (nullable (col ''created_by'' Uuid)),
       col ''target'' (Varchar 253),
       defaulted (Literal ''queued'') (col ''status'' (Enum_type ''scan_status'')),
       nullable (col ''started_at'' Timestamptz),
       nullable (col ''completed_at'' Timestamptz),
       defaulted (Literal ''{}'') (col ''config'' Jsonb),
       nullable (col ''current_stage'' (Varchar 64)),
       defaulted (Literal ''0'') (col ''progress'' Int4),
       defaulted (Literal ''0'') (col ''assets_discovered'' Int4),
       defaulted (Literal ''0'') (col ''findings_count'' Int4),
       nullable (col ''error'' Text_type),
       nullable (col ''celery_task_id'' (Varchar 155))] @ timestamp_columns,
     td_unique = [],
     td_checks = []\<rparr>"

definition declared_scans_indexes :: "index_def list" where
  "declared_scans_indexes =
    [index_on ''ix_scans_org_id'' ''scans'' [''org_id''] ''btree'',
     index_on ''ix_scans_target'' ''scans'' [''target''] ''btree'',
     index_on ''ix_scans_celery_task_id'' ''scans'' [''celery_task_id''] ''btree'',
     index_on ''ix_scans_org_started'' ''scans'' [''org_id'', ''started_at''] ''btree'',
     index_on ''ix_scans_org_status'' ''scans'' [''org_id'', ''status''] ''btree'']"

definition declared_scan_logs :: table_def where
  "declared_scan_logs =
    \<lparr>td_name = ''scan_logs'',
     td_columns = [
       primary (col ''id'' Uuid),
       referring ''scans'' Cascade (col ''scan_id'' Uuid),
       col ''timestamp'' Timestamptz,
       col ''message'' Text_type,
       defaulted (Literal ''info'') (col ''level'' (Enum_type ''log_level'')),
       nullable (col ''stage'' (Varchar 64))],
     td_unique = [],
     td_checks = []\<rparr>"

definition declared_scan_logs_indexes :: "index_def list" where
  "declared_scan_logs_indexes =
    [index_on ''ix_scan_logs_scan_id'' ''scan_logs'' [''scan_id''] ''btree'',
     index_on ''ix_scan_logs_scan_ts'' ''scan_logs'' [''scan_id'', ''timestamp''] ''btree'']"

definition declared_findings :: table_def where
  "declared_findings =
    \<lparr>td_name = ''findings'',
     td_columns = [
       primary (col ''id'' Uuid),
       referring ''organisations'' Cascade (col ''org_id'' Uuid),
       referring ''assets'' Cascade (nullable (col ''asset_id'' Uuid)),
       referring ''scans'' Set_null (nullable (col ''scan_id'' Uuid)),
       col ''title'' (Varchar 500),
       nullable (col ''cve_id'' (Varchar 32)),
       nullable (col ''cvss_score'' Float8),
       nullable (col ''cvss_vector'' (Varchar 128)),
       defaulted (Literal ''info'') (col ''severity'' (Enum_type ''severity'')),
       nullable (col ''description'' Text_type),
       nullable (col ''remediation'' Text_type),
       defaulted (Literal ''open'') (col ''status'' (Enum_type ''finding_status'')),
       nullable (col ''source'' (Varchar 64)),
       col ''fingerprint'' (Varchar 64),
       defaulted (Literal ''{}'') (col ''evidence'' Jsonb),
       defaulted (Literal ''[]'') (col ''references'' Jsonb),
       nullable (col ''first_seen'' Timestamptz),
       nullable (col ''last_seen'' Timestamptz),
       nullable (col ''resolved_at'' Timestamptz)] @ timestamp_columns,
     td_unique = [(''uq_findings_org_fingerprint'', [''org_id'', ''fingerprint''])],
     td_checks = []\<rparr>"

definition declared_findings_indexes :: "index_def list" where
  "declared_findings_indexes =
    [index_on ''ix_findings_org_id'' ''findings'' [''org_id''] ''btree'',
     index_on ''ix_findings_asset_id'' ''findings'' [''asset_id''] ''btree'',
     index_on ''ix_findings_scan_id'' ''findings'' [''scan_id''] ''btree'',
     index_on ''ix_findings_cve_id'' ''findings'' [''cve_id''] ''btree'',
     index_on ''ix_findings_org_severity'' ''findings'' [''org_id'', ''severity''] ''btree'',
     index_on ''ix_findings_org_status'' ''findings'' [''org_id'', ''status''] ''btree'',
     index_on ''ix_findings_org_cve'' ''findings'' [''org_id'', ''cve_id''] ''btree'']"

definition declared_reports :: table_def where
  "declared_reports =
    \<lparr>td_name = ''reports'',
     td_columns = [
       primary (col ''id'' Uuid),
       referring ''organisations'' Cascade (col ''org_id'' Uuid),
       referring ''users'' Set_null (nullable (col ''generated_by'' Uuid)),
       col ''generated_at'' Timestamptz,
       col ''file_path'' (Varchar 1024),
       nullable (col ''title'' (Varchar 255)),
       defaulted (Literal ''pdf'') (col ''format'' (Varchar 16)),
       defaulted (Literal ''pending'') (col ''status'' (Varchar 16)),
       nullable (col ''size_bytes'' Int4),
       defaulted (Literal ''{}'') (col ''summary'' Jsonb)] @ timestamp_columns,
     td_unique = [],
     td_checks = []\<rparr>"

definition declared_reports_indexes :: "index_def list" where
  "declared_reports_indexes =
    [index_on ''ix_reports_org_id'' ''reports'' [''org_id''] ''btree'',
     index_on ''ix_reports_org_generated'' ''reports'' [''org_id'', ''generated_at''] ''btree'']"

definition declared_domain_verifications :: table_def where
  "declared_domain_verifications =
    \<lparr>td_name = ''domain_verifications'',
     td_columns = [
       primary (col ''id'' Uuid),
       referring ''organisations'' Cascade (col ''org_id'' Uuid),
       referring ''users'' Set_null (nullable (col ''created_by'' Uuid)),
       col ''domain'' (Varchar 253),
       col ''token'' (Varchar 64),
       col ''token_expires_at'' Timestamptz,
       defaulted (Literal ''pending'') (col ''status'' (Enum_type ''domain_verification_status'')),
       nullable (col ''verified_at'' Timestamptz),
       nullable (col ''last_checked_at'' Timestamptz),
       nullable (col ''last_error'' Text_type),
       defaulted (Literal ''0'') (col ''consecutive_failures'' Int4)] @ timestamp_columns,
     td_unique = [(''uq_domain_verifications_org_domain'', [''org_id'', ''domain''])],
     td_checks = []\<rparr>"

definition declared_domain_verifications_indexes :: "index_def list" where
  "declared_domain_verifications_indexes =
    [index_on ''ix_domain_verifications_org_id'' ''domain_verifications'' [''org_id''] ''btree'',
     index_on ''ix_domain_verifications_domain'' ''domain_verifications'' [''domain''] ''btree'']"

definition declared_refresh_sessions :: table_def where
  "declared_refresh_sessions =
    \<lparr>td_name = ''refresh_sessions'',
     td_columns = [
       primary (col ''id'' Uuid),
       referring ''users'' Cascade (col ''user_id'' Uuid),
       referring ''organisations'' Cascade (col ''org_id'' Uuid),
       col ''token_hash'' (Varchar 64),
       col ''family_id'' Uuid,
       col ''expires_at'' Timestamptz,
       nullable (col ''revoked_at'' Timestamptz),
       referring ''refresh_sessions'' Set_null (nullable (col ''replaced_by'' Uuid)),
       nullable (col ''last_used_at'' Timestamptz)] @ timestamp_columns,
     td_unique = [(''uq_refresh_sessions_token_hash'', [''token_hash''])],
     td_checks = []\<rparr>"

definition declared_refresh_sessions_indexes :: "index_def list" where
  "declared_refresh_sessions_indexes =
    [index_on ''ix_refresh_sessions_user_id'' ''refresh_sessions'' [''user_id''] ''btree'',
     index_on ''ix_refresh_sessions_org_id'' ''refresh_sessions'' [''org_id''] ''btree'',
     index_on ''ix_refresh_sessions_family_id'' ''refresh_sessions'' [''family_id''] ''btree'']"

definition declared_scan_schedules :: table_def where
  "declared_scan_schedules =
    \<lparr>td_name = ''scan_schedules'',
     td_columns = [
       primary (col ''id'' Uuid),
       referring ''organisations'' Cascade (col ''org_id'' Uuid),
       referring ''users'' Set_null (nullable (col ''created_by'' Uuid)),
       col ''name'' (Varchar 120),
       col ''target'' (Varchar 253),
       defaulted (Literal ''{}'') (col ''config'' Jsonb),
       defaulted (Literal ''daily'') (col ''cadence'' (Enum_type ''scan_cadence'')),
       defaulted (Literal ''3'') (col ''hour_utc'' Int2),
       nullable (col ''weekday'' Int2),
       defaulted (Sql ''true'') (col ''is_enabled'' Bool_type),
       col ''next_run_at'' Timestamptz,
       nullable (col ''last_run_at'' Timestamptz),
       referring ''scans'' Set_null (nullable (col ''last_scan_id'' Uuid)),
       defaulted (Literal ''0'') (col ''consecutive_failures'' Int4),
       nullable (col ''disabled_reason'' Text_type)] @ timestamp_columns,
     td_unique = [],
     td_checks = [(''ck_scan_schedules_hour_utc'', ''hour_utc BETWEEN 0 AND 23''),
       (''ck_scan_schedules_weekday'', ''weekday IS NULL OR weekday BETWEEN 0 AND 6''),
       (''ck_scan_schedules_weekly_needs_weekday'', (''cadence <> '' @ quoted_mark @ ''weekly'' @ quoted_mark @ '' OR weekday IS NOT NULL''))]\<rparr>"

definition declared_scan_schedules_indexes :: "index_def list" where
  "declared_scan_schedules_indexes =
    [index_on ''ix_scan_schedules_org_id'' ''scan_schedules'' [''org_id''] ''btree'',
     index_on ''ix_scan_schedules_next_run_at'' ''scan_schedules'' [''next_run_at''] ''btree'',
     index_on ''ix_scan_schedules_due'' ''scan_schedules'' [''is_enabled'', ''next_run_at''] ''btree'']"

definition declared_user_role :: "string \<times> string list" where
  "declared_user_role =
    (''user_role'', [''owner'', ''admin'', ''analyst'', ''viewer''])"

definition declared_asset_status :: "string \<times> string list" where
  "declared_asset_status =
    (''asset_status'', [''active'', ''inactive'', ''new'', ''changed'', ''decommissioned''])"

definition declared_scan_status :: "string \<times> string list" where
  "declared_scan_status =
    (''scan_status'', [''queued'', ''running'', ''completed'', ''failed'', ''cancelled''])"

definition declared_severities :: "string \<times> string list" where
  "declared_severities =
    (''severity'', [''info'', ''low'', ''medium'', ''high'', ''critical''])"

definition declared_finding_status :: "string \<times> string list" where
  "declared_finding_status =
    (''finding_status'', [''open'', ''triaged'', ''confirmed'', ''remediated'', ''false_positive'', ''accepted_risk''])"

definition declared_log_level :: "string \<times> string list" where
  "declared_log_level =
    (''log_level'', [''debug'', ''info'', ''warning'', ''error''])"

definition declared_domain_verification_status :: "string \<times> string list" where
  "declared_domain_verification_status =
    (''domain_verification_status'', [''pending'', ''verified'', ''failed''])"

definition declared_scan_cadence :: "string \<times> string list" where
  "declared_scan_cadence =
    (''scan_cadence'', [''hourly'', ''daily'', ''weekly''])"

section \<open>The two schemas\<close>

definition revisions :: "(string \<times> ddl list \<times> ddl list) list" where
  "revisions =
    [(''0001_initial'', upgrade_0001, downgrade_0001), (''0002_slack_webhook'', upgrade_0002, downgrade_0002),
     (''0003_domain_verifications'', upgrade_0003, downgrade_0003), (''0004_refresh_sessions'', upgrade_0004, downgrade_0004),
     (''0005_scan_schedules'', upgrade_0005, downgrade_0005)]"

text \<open>The schema after the first so many revisions.\<close>

definition migrated :: "nat \<Rightarrow> schema option" where
  "migrated n = run_ddl (concat (map (\<lambda>r. fst (snd r)) (take n revisions))) empty_schema"

definition declared_schema :: schema where
  "declared_schema =
    \<lparr>sc_enums = [declared_user_role, declared_asset_status, declared_scan_status, declared_severities, declared_finding_status,
       declared_log_level, declared_domain_verification_status, declared_scan_cadence],
     sc_tables = [declared_organisations, declared_users, declared_assets, declared_scans, declared_findings, declared_scan_logs,
       declared_reports, declared_domain_verifications, declared_refresh_sessions, declared_scan_schedules],
     sc_indexes = declared_organisations_indexes @ declared_users_indexes @ declared_assets_indexes @ declared_scans_indexes
       @ declared_findings_indexes @ declared_scan_logs_indexes @ declared_reports_indexes @ declared_domain_verifications_indexes
       @ declared_refresh_sessions_indexes @ declared_scan_schedules_indexes\<rparr>"

text \<open>What a default clause puts into a column: an expression that is a JSON literal is that literal.\<close>

definition default_value :: "default_clause \<Rightarrow> default_clause" where
  "default_value d =
    (case d of
       Literal v \<Rightarrow> Literal v
     | Sql e \<Rightarrow> (let cast = quoted_mark @ ''::jsonb'' in
         if prefix quoted_mark e \<and> suffix cast e then Literal (butlast (tl (take (length e - 7) e))) else Sql e))"

definition same_table :: "table_def \<Rightarrow> table_def \<Rightarrow> bool" where
  "same_table t u \<longleftrightarrow>
    td_name t = td_name u \<and> distinct (column_names t) \<and> distinct (column_names u) \<and>
    set (map (\<lambda>c. c\<lparr>co_default := map_option default_value (co_default c)\<rparr>) (td_columns t)) =
      set (map (\<lambda>c. c\<lparr>co_default := map_option default_value (co_default c)\<rparr>) (td_columns u)) \<and>
    set (td_unique t) = set (td_unique u) \<and> set (td_checks t) = set (td_checks u)"

definition same_schema :: "schema \<Rightarrow> schema \<Rightarrow> bool" where
  "same_schema s u \<longleftrightarrow>
    sc_enums s = sc_enums u \<and> list_all2 same_table (sc_tables s) (sc_tables u) \<and> sc_indexes s = sc_indexes u"

section \<open>Facts\<close>

lemma run_ddl_append: "run_ddl (as @ bs) s = (case run_ddl as s of None \<Rightarrow> None | Some s' \<Rightarrow> run_ddl bs s')"
  by (induction as arbitrary: s) (simp_all split: option.split)

text \<open>A schema whose references, uses and indexes are of things it has, with names used once.\<close>

definition schema_ok :: "schema \<Rightarrow> bool" where
  "schema_ok s \<longleftrightarrow>
    list_all (\<lambda>t. set (targets t) \<subseteq> set (table_names s) \<and> set (enum_uses t) \<subseteq> set (map fst (sc_enums s))) (sc_tables s) \<and>
    list_all (\<lambda>i. ix_table i \<in> set (table_names s)) (sc_indexes s)"

lemma run_create_enums:
  "distinct (map fst es) \<Longrightarrow> set (map fst es) \<inter> set (map fst (sc_enums s)) = {} \<Longrightarrow>
    run_ddl (map Create_enum es) s = Some (s\<lparr>sc_enums := sc_enums s @ es\<rparr>)"
proof (induction es arbitrary: s)
  case (Cons e es)
  have "run_ddl (map Create_enum es) (s\<lparr>sc_enums := sc_enums s @ [e]\<rparr>) = Some (s\<lparr>sc_enums := sc_enums s @ e # es\<rparr>)"
    using Cons.IH [of "s\<lparr>sc_enums := sc_enums s @ [e]\<rparr>"] Cons.prems by auto
  then show ?case using Cons.prems by auto
qed simp

lemma run_drop_enums:
  assumes "distinct (map fst es)" and "set (map fst es) \<inter> set (map fst (sc_enums s)) = {}"
    and "list_all (\<lambda>t. set (enum_uses t) \<inter> set (map fst es) = {}) (sc_tables s)"
  shows "run_ddl (map (Drop_enum \<circ> fst) (rev es)) (s\<lparr>sc_enums := sc_enums s @ es\<rparr>) = Some s"
  using assms
proof (induction es rule: rev_induct)
  case (snoc e es)
  have new: "fst e \<notin> set (map fst (sc_enums s)) \<union> set (map fst es)" using snoc.prems(1,2) by auto
  have other: "fst x \<noteq> fst e" if "x \<in> set (sc_enums s @ es)" for x
  proof -
    have "fst x \<in> set (map fst (sc_enums s)) \<union> set (map fst es)" using that by auto
    then show ?thesis using new by metis
  qed
  then have "filter (\<lambda>x. fst x \<noteq> fst e) (sc_enums s @ es) = sc_enums s @ es" by (intro filter_True) simp
  then have keep: "filter (\<lambda>x. fst x \<noteq> fst e) (sc_enums s @ es @ [e]) = sc_enums s @ es" by simp
  have unused: "\<not> list_ex (\<lambda>t. fst e \<in> set (enum_uses t)) (sc_tables s)"
    using snoc.prems(3) by (auto simp: list_ex_iff list_all_iff)
  have "run_ddl (map (Drop_enum \<circ> fst) (rev es)) (s\<lparr>sc_enums := sc_enums s @ es\<rparr>) = Some s"
    by (rule snoc.IH) (use snoc.prems in \<open>auto simp: list_all_iff\<close>)
  then show ?case using keep unused by (simp add: comp_def)
qed simp

lemma run_create_indexes:
  "run_ddl (map Create_index is) s = Some s' \<Longrightarrow> s' = s\<lparr>sc_indexes := sc_indexes s @ is\<rparr>"
proof (induction "is" arbitrary: s)
  case (Cons i "is")
  then have "run_ddl (map Create_index is) (s\<lparr>sc_indexes := sc_indexes s @ [i]\<rparr>) = Some s'" by (simp split: if_splits)
  from Cons.IH [OF this] show ?case by simp
qed simp

text \<open>
  A script that adds enumerations, one table and its indexes is undone by dropping the table and
  the enumerations, in any database that had none of the enumerations: no other table, column,
  index or enumeration is touched.
\<close>

lemma table_script_undone:
  assumes ok: "schema_ok s" and es: "distinct (map fst es)" "set (map fst es) \<inter> set (map fst (sc_enums s)) = {}"
    and ix: "list_all (\<lambda>i. ix_table i = td_name t) is"
    and up: "run_ddl (map Create_enum es @ [Create_table t] @ map Create_index is) s = Some s'"
  shows "run_ddl (Drop_table (td_name t) # map (Drop_enum \<circ> fst) (rev es)) s' = Some s"
proof -
  let ?s1 = "s\<lparr>sc_enums := sc_enums s @ es\<rparr>"
  have "run_ddl ([Create_table t] @ map Create_index is) ?s1 = Some s'"
    using up by (simp only: run_ddl_append [of "map Create_enum es"] run_create_enums [OF es] option.case)
  then obtain s2 where s2: "run_command (Create_table t) ?s1 = Some s2" "run_ddl (map Create_index is) s2 = Some s'"
    by (simp split: if_splits)
  have new: "td_name t \<notin> set (table_names s)" and s2_def: "s2 = ?s1\<lparr>sc_tables := sc_tables s @ [t]\<rparr>"
    using s2(1) by (auto simp: table_names_def split: if_splits)
  have s': "s' = s2\<lparr>sc_indexes := sc_indexes s2 @ is\<rparr>" by (rule run_create_indexes [OF s2(2)])
  have "\<not> list_ex (\<lambda>u. td_name u \<noteq> td_name t \<and> td_name t \<in> set (targets u)) (sc_tables s')"
    using ok new by (auto simp: s' s2_def schema_ok_def list_ex_iff list_all_iff)
  moreover have "td_name u \<noteq> td_name t" if "u \<in> set (sc_tables s)" for u
    using new imageI [OF that, of td_name] by (auto simp: table_names_def)
  then have "filter (\<lambda>u. td_name u \<noteq> td_name t) (sc_tables s') = sc_tables s" by (simp add: s' s2_def)
  moreover have "filter (\<lambda>i. ix_table i \<noteq> td_name t) (sc_indexes s') = sc_indexes s"
    using ok new ix by (auto simp: s' s2_def schema_ok_def list_all_iff filter_id_conv filter_empty_conv)
  ultimately have "run_command (Drop_table (td_name t)) s' = Some ?s1"
    by (simp add: s' s2_def table_names_def)
  moreover have "run_ddl (map (Drop_enum \<circ> fst) (rev es)) ?s1 = Some s"
  proof (rule run_drop_enums [OF es])
    have "set (enum_uses u) \<subseteq> set (map fst (sc_enums s))" if "u \<in> set (sc_tables s)" for u
      using ok that by (simp add: schema_ok_def list_all_iff)
    then show "list_all (\<lambda>t. set (enum_uses t) \<inter> set (map fst es) = {}) (sc_tables s)"
      unfolding list_all_iff using es(2) by blast
  qed
  ultimately show ?thesis by simp
qed

text \<open>
  The last three migrations can be taken back. In every database with a consistent schema,
  whatever other tables it has, in which the script of the domain claims, the refresh sessions
  or the schedules succeeds and whose enumeration it created, the script's downgrade leads
  back to exactly the schema of before.
\<close>

lemma downgrades_restore_the_schema:
  assumes ok: "schema_ok s"
  shows "(''domain_verification_status'' \<notin> set (map fst (sc_enums s)) \<longrightarrow> run_ddl upgrade_0003 s = Some s' \<longrightarrow> run_ddl downgrade_0003 s' = Some s) \<and>
    (run_ddl upgrade_0004 s = Some s' \<longrightarrow> run_ddl downgrade_0004 s' = Some s) \<and>
    (''scan_cadence'' \<notin> set (map fst (sc_enums s)) \<longrightarrow> run_ddl upgrade_0005 s = Some s' \<longrightarrow> run_ddl downgrade_0005 s' = Some s)"
proof -
  have shapes: "upgrade_0003 = map Create_enum [enum_domain_verification_status] @ [Create_table made_domain_verifications] @ map Create_index made_domain_verifications_indexes"
    "upgrade_0004 = map Create_enum [] @ [Create_table made_refresh_sessions] @ map Create_index made_refresh_sessions_indexes"
    "upgrade_0005 = map Create_enum [enum_scan_cadence] @ [Create_table made_scan_schedules] @ map Create_index made_scan_schedules_indexes"
    by (simp_all add: upgrade_0003_def upgrade_0004_def upgrade_0005_def)
  have tables: "td_name made_domain_verifications = ''domain_verifications''" "td_name made_refresh_sessions = ''refresh_sessions''"
    "td_name made_scan_schedules = ''scan_schedules''"
    by (simp_all add: made_domain_verifications_def made_refresh_sessions_def made_scan_schedules_def)
  have ix: "list_all (\<lambda>i. ix_table i = td_name made_domain_verifications) made_domain_verifications_indexes"
    "list_all (\<lambda>i. ix_table i = td_name made_refresh_sessions) made_refresh_sessions_indexes"
    "list_all (\<lambda>i. ix_table i = td_name made_scan_schedules) made_scan_schedules_indexes" by code_simp+
  have names: "fst enum_domain_verification_status = ''domain_verification_status''" "fst enum_scan_cadence = ''scan_cadence''"
    by (simp_all add: enum_domain_verification_status_def enum_scan_cadence_def)
  show ?thesis
  proof (intro conjI impI)
    assume new: "''domain_verification_status'' \<notin> set (map fst (sc_enums s))" and up: "run_ddl upgrade_0003 s = Some s'"
    have "run_ddl (Drop_table (td_name made_domain_verifications) # map (Drop_enum \<circ> fst) (rev [enum_domain_verification_status])) s' = Some s"
      by (intro table_script_undone [OF ok _ _ ix(1) up [unfolded shapes]]) (use new in \<open>simp_all add: names\<close>)
    then show "run_ddl downgrade_0003 s' = Some s" by (simp add: downgrade_0003_def tables)
  next
    assume up: "run_ddl upgrade_0004 s = Some s'"
    have "run_ddl (Drop_table (td_name made_refresh_sessions) # map (Drop_enum \<circ> fst) (rev ([] :: (string \<times> string list) list))) s' = Some s"
      by (intro table_script_undone [OF ok _ _ ix(2) up [unfolded shapes]]) simp_all
    then show "run_ddl downgrade_0004 s' = Some s" by (simp add: downgrade_0004_def tables)
  next
    assume new: "''scan_cadence'' \<notin> set (map fst (sc_enums s))" and up: "run_ddl upgrade_0005 s = Some s'"
    have "run_ddl (Drop_table (td_name made_scan_schedules) # map (Drop_enum \<circ> fst) (rev [enum_scan_cadence])) s' = Some s"
      by (intro table_script_undone [OF ok _ _ ix(3) up [unfolded shapes]]) (use new in \<open>simp_all add: names\<close>)
    then show "run_ddl downgrade_0005 s' = Some s" by (simp add: downgrade_0005_def tables)
  qed
qed

lemma downgrades_restore_the_schema_witness:
  "\<exists>s s'. migrated 4 = Some s \<and> schema_ok s \<and> run_ddl upgrade_0005 s = Some s' \<and> run_ddl downgrade_0005 s' = Some s"
proof -
  have "map_option (\<lambda>s. schema_ok s \<and> ''scan_cadence'' \<notin> set (map fst (sc_enums s)) \<and> \<not> Option.is_none (run_ddl upgrade_0005 s))
      (migrated 4) = Some True" by code_simp
  then obtain s s' where s: "migrated 4 = Some s" "schema_ok s" "''scan_cadence'' \<notin> set (map fst (sc_enums s))"
      "run_ddl upgrade_0005 s = Some s'"
    by (auto simp: Option.is_none_def simp del: set_map)
  then have "run_ddl downgrade_0005 s' = Some s" using downgrades_restore_the_schema [OF s(2), of s'] by blast
  then show ?thesis using s by blast
qed

text \<open>The last revision, part by part; taking everything back leaves nothing, the enumerations included.\<close>

lemma last_revision:
  "(case migrated 5 of None \<Rightarrow> False | Some s \<Rightarrow>
     sc_enums s = sc_enums declared_schema \<and> sc_indexes s = sc_indexes declared_schema \<and>
     list_all2 same_table (sc_tables s) (sc_tables declared_schema) \<and> schema_ok s \<and>
     run_ddl (concat (map (\<lambda>r. snd (snd r)) (rev revisions))) s = Some empty_schema)"
  by code_simp

text \<open>
  The migrations build what the models declare. Every script is accepted where the ones
  before it have run, and the schema of the last revision has the enumerations, tables,
  columns with their types, null-ability, defaults and foreign keys, the unique and check
  constraints and the indexes that the classes of \<open>models/\<close> declare, and no others.
\<close>

lemma migrations_build_the_models:
  "\<exists>s. migrated (length revisions) = Some s \<and> same_schema s declared_schema \<and> schema_ok s"
proof -
  have n: "length revisions = 5" by (simp add: revisions_def)
  obtain s where "migrated 5 = Some s" using last_revision by (auto split: option.splits)
  then show ?thesis using last_revision by (simp add: n same_schema_def)
qed

text \<open>The foreign keys to a table with one reaction to a deletion.\<close>

definition dependants :: "schema \<Rightarrow> string \<Rightarrow> on_delete \<Rightarrow> (string \<times> string) list" where
  "dependants s n a =
    concat (map (\<lambda>t. map (\<lambda>c. (td_name t, co_name c)) (filter (\<lambda>c. co_refers c = Some (n, a)) (td_columns t))) (sc_tables s))"

text \<open>
  A deleted scan takes its log lines with it and leaves its findings and its schedule without it,
  as \<open>drop_scan\<close> does; nothing but its organisation takes a scan along.
\<close>

lemma what_a_scan_takes_along:
  "dependants declared_schema ''scans'' Cascade = [(''scan_logs'', ''scan_id'')] \<and>
   dependants declared_schema ''scans'' Set_null = [(''findings'', ''scan_id''), (''scan_schedules'', ''last_scan_id'')] \<and>
   dependants declared_schema ''assets'' Cascade = [(''findings'', ''asset_id'')] \<and>
   dependants declared_schema ''users'' Cascade = [(''refresh_sessions'', ''user_id'')]"
  by code_simp

end
