(* ===== verification/CsvText.thy ===== *)
theory CsvText
  imports PyString
begin

text \<open>
  Comma-separated text: the \<open>csv\<close> module's writer in its default dialect, as
  \<open>workers/report_builder.py\<close> uses it, and a reader of that dialect (RFC 4180) as the
  specification of what the text means.
\<close>

definition comma :: char where "comma = CHR '',''"
definition quote_mark :: char where "quote_mark = CHR 0x22"
definition cr :: char where "cr = CHR 0x0D"
definition lf :: char where "lf = CHR 0x0A"

lemmas csv_chars = comma_def quote_mark_def cr_def lf_def

section \<open>The writer\<close>

definition needs_quotes :: "string \<Rightarrow> bool" where
  "needs_quotes s = list_ex (\<lambda>c. c \<in> {comma, quote_mark, cr, lf}) s"

definition double_quotes :: "string \<Rightarrow> string" where
  "double_quotes s = concat (map (\<lambda>c. if c = quote_mark then [quote_mark, quote_mark] else [c]) s)"

definition csv_field :: "string \<Rightarrow> string" where
  "csv_field s = (if needs_quotes s then [quote_mark] @ double_quotes s @ [quote_mark] else s)"

text \<open>An empty field alone in its row is quoted too.\<close>

definition csv_row :: "string list \<Rightarrow> string" where
  "csv_row fs = (if fs = [[]] then [quote_mark, quote_mark] else join [comma] (map csv_field fs)) @ [cr, lf]"

definition csv_text :: "string list list \<Rightarrow> string" where
  "csv_text rows = concat (map csv_row rows)"

section \<open>The reader\<close>

text \<open>
  A machine over the characters: at the start of a field, in a bare field, inside quotes, after
  a quote inside quotes. It carries the field and the row so far.
\<close>

datatype csv_mode = Field_start | Bare | Quoted | Quote_seen

fun csv_read :: "csv_mode \<Rightarrow> string \<Rightarrow> string list \<Rightarrow> string \<Rightarrow> string list list" where
  "csv_read m f r [] = (if m = Field_start \<and> r = [] then [] else [r @ [f]])"
| "csv_read m f r (c # s) =
     (if m = Quoted then (if c = quote_mark then csv_read Quote_seen f r s else csv_read Quoted (f @ [c]) r s)
      else if m = Quote_seen \<and> c = quote_mark then csv_read Quoted (f @ [c]) r s
      else if c = comma then csv_read Field_start [] (r @ [f]) s
      else if c = cr then csv_read m f r s
      else if c = lf then (r @ [f]) # csv_read Field_start [] [] s
      else if m = Field_start \<and> c = quote_mark then csv_read Quoted f r s
      else csv_read Bare (f @ [c]) r s)"

definition csv_parse :: "string \<Rightarrow> string list list" where
  "csv_parse s = csv_read Field_start [] [] s"

section \<open>Reading back\<close>

lemma distinct_csv_chars [simp]:
  "comma \<noteq> quote_mark" "comma \<noteq> cr" "comma \<noteq> lf" "quote_mark \<noteq> comma" "cr \<noteq> comma" "lf \<noteq> comma"
  "quote_mark \<noteq> cr" "quote_mark \<noteq> lf" "cr \<noteq> quote_mark" "lf \<noteq> quote_mark" "cr \<noteq> lf" "lf \<noteq> cr"
  by (simp_all add: csv_chars)

lemma read_quoted: "csv_read Quoted f r (double_quotes s @ rest) = csv_read Quoted (f @ s) r rest"
proof (induction s arbitrary: f)
  case (Cons c s)
  then show ?case using Cons [of "f @ [c]"] by (simp add: double_quotes_def)
qed (simp add: double_quotes_def)

lemma read_bare:
  "\<not> needs_quotes s \<Longrightarrow> m \<in> {Field_start, Bare} \<Longrightarrow>
   csv_read m f r (s @ rest) = csv_read (if s = [] then m else Bare) (f @ s) r rest"
proof (induction s arbitrary: f m)
  case (Cons c s)
  then have "c \<noteq> comma" "c \<noteq> quote_mark" "c \<noteq> cr" "c \<noteq> lf" "\<not> needs_quotes s" by (simp_all add: needs_quotes_def)
  then show ?case using Cons.IH [of Bare "f @ [c]"] Cons.prems(2) by auto
qed simp

text \<open>A field is read as it was given, up to the separator after it.\<close>

lemma read_field:
  "\<exists>m. m \<noteq> Quoted \<and> csv_read Field_start [] r (csv_field s @ rest) = csv_read m s r rest"
  if "rest \<noteq> [] \<and> hd rest \<in> {comma, cr}"
proof (cases "needs_quotes s")
  case True
  then have "csv_read Field_start [] r (csv_field s @ rest) = csv_read Quote_seen s r rest"
    using read_quoted [of "[]" r s "quote_mark # rest"] by (simp add: csv_field_def)
  then show ?thesis by blast
next
  case False
  then show ?thesis using read_bare [OF False, of Field_start "[]" r rest] by (auto simp: csv_field_def split: if_splits)
qed

lemma read_separator:
  assumes "m \<noteq> Quoted"
  shows "csv_read m f r (comma # s) = csv_read Field_start [] (r @ [f]) s"
    and "csv_read m f r (cr # lf # s) = (r @ [f]) # csv_read Field_start [] [] s"
  using assms by simp_all

lemma read_fields:
  "fs \<noteq> [] \<Longrightarrow> csv_read Field_start [] r (join [comma] (map csv_field fs) @ cr # lf # rest) = (r @ fs) # csv_read Field_start [] [] rest"
proof (induction fs arbitrary: r rule: induct_list012)
  case (2 f)
  obtain m where "m \<noteq> Quoted" "csv_read Field_start [] r (csv_field f @ cr # lf # rest) = csv_read m f r (cr # lf # rest)"
    using read_field [of "cr # lf # rest" r f] by auto
  then show ?case by (simp add: read_separator del: csv_read.simps)
next
  case (3 f g fs)
  let ?rest = "comma # join [comma] (map csv_field (g # fs)) @ cr # lf # rest"
  obtain m where "m \<noteq> Quoted" "csv_read Field_start [] r (csv_field f @ ?rest) = csv_read m f r ?rest"
    using read_field [of ?rest r f] by auto
  moreover have "join [comma] (map csv_field (f # g # fs)) @ cr # lf # rest = csv_field f @ ?rest" by simp
  ultimately show ?case using 3(2) [of "r @ [f]"] by (simp add: read_separator del: csv_read.simps)
qed simp

lemma read_row: "fs \<noteq> [] \<Longrightarrow> csv_read Field_start [] [] (csv_row fs @ rest) = fs # csv_read Field_start [] [] rest"
  using read_fields [of fs "[]" rest] by (simp add: csv_row_def)

lemma csv_parse_text: "list_all (\<lambda>fs. fs \<noteq> []) rows \<Longrightarrow> csv_parse (csv_text rows) = rows"
  unfolding csv_parse_def csv_text_def by (induction rows) (simp_all add: read_row)

end
