(* ===== verification/ReportHtml.thy ===== *)
theory ReportHtml
  imports CsvText Fingerprinter CveCorrelator
begin

text \<open>
  The page of a report: what \<open>_collect\<close> hands to the renderers of \<open>workers/report_builder.py\<close>, and the
  template \<open>_HTML_TEMPLATE\<close> as the pieces it is made of, text of the template and values. The
  environment autoescapes, so every value passes through the escaping function of the template
  engine, a parameter here. A dash of the template stands as its three bytes of UTF-8.
\<close>

section \<open>The data of a report\<close>

record asset_line =
  ln_host :: string
  ln_ip :: "string option"
  ln_risk :: rat
  ln_ports :: "int list"
  ln_tech :: "string list"
  ln_status :: asset_status

record finding_line =
  fl_id :: nat
  fl_title :: string
  fl_severity :: severity
  fl_cve :: "string option"
  fl_cvss :: "rat option"
  fl_description :: "string option"
  fl_remediation :: "string option"
  fl_status :: finding_status
  fl_host :: "string option"
  fl_first_seen :: "string option"

record report_data =
  rt_org :: "string \<times> string"
  rt_scan :: "(string \<times> nat) option"
  rt_assets :: "asset_line list"
  rt_findings :: "finding_line list"
  rt_total :: nat
  rt_open :: nat
  rt_by_severity :: "(severity \<times> nat) list"

fun finding_status_text :: "finding_status \<Rightarrow> string" where
  "finding_status_text OPEN = ''open''"
| "finding_status_text TRIAGED = ''triaged''"
| "finding_status_text CONFIRMED = ''confirmed''"
| "finding_status_text REMEDIATED = ''remediated''"
| "finding_status_text FALSE_POSITIVE = ''false_positive''"
| "finding_status_text ACCEPTED_RISK = ''accepted_risk''"

section \<open>The template\<close>

datatype piece = Raw string | Val string

fun put_piece :: "(string \<Rightarrow> string) \<Rightarrow> piece \<Rightarrow> string" where
  "put_piece escape (Raw s) = s"
| "put_piece escape (Val s) = escape s"

definition em_dash :: string where
  "em_dash = [CHR 0xE2, CHR 0x80, CHR 0x94]"

definition or_dash :: "string \<Rightarrow> string" where
  "or_dash s = (if s = [] then em_dash else s)"

definition count_text :: "nat \<Rightarrow> string" where
  "count_text n = dec (int n)"

definition of_severity :: "report_data \<Rightarrow> severity \<Rightarrow> nat" where
  "of_severity d s = (case map_of (rt_by_severity d) s of None \<Rightarrow> 0 | Some n \<Rightarrow> n)"

text \<open>Rounding half to even, \<open>%.1f\<close> of a score, and the minute of an instant in UTC.\<close>

definition half_even :: "rat \<Rightarrow> int" where
  "half_even x = (let q = floor x; r = x - of_int q in if r < 1 / 2 \<or> (r = 1 / 2 \<and> even q) then q else q + 1)"

definition one_decimal :: "rat \<Rightarrow> string" where
  "one_decimal x = (let n = half_even (10 * x) in dec (n div 10) @ ''.'' @ dec (n mod 10))"

definition minute_stamp :: "int \<Rightarrow> string" where
  "minute_stamp t =
    (case civil (t div us_day) of (y, m, d) \<Rightarrow>
       let sec = t mod us_day div 1000000
       in digits 4 y @ ''-'' @ digits 2 m @ ''-'' @ digits 2 d @ '' '' @ digits 2 (sec div 3600) @ '':'' @ digits 2 (sec div 60 mod 60) @ '' UTC'')"

definition asset_html :: "asset_line \<Rightarrow> piece list" where
  \<open>asset_html a =
    [Raw (lf # ''      <tr>''
      @ lf # ''        <td>''),
     Val (ln_host a),
     Raw (''</td>''
      @ lf # ''        <td class="muted">''),
     Val (or_dash (text_of (ln_ip a))),
     Raw (''</td>''
      @ lf # ''        <td>''),
     Val (one_decimal (ln_risk a)),
     Raw (''</td>''
      @ lf # ''        <td class="muted">''),
     Val (or_dash (join '', '' (map dec (ln_ports a)))),
     Raw (''</td>''
      @ lf # ''        <td class="muted">''),
     Val (or_dash (join '', '' (take 6 (ln_tech a)))),
     Raw (''</td>''
      @ lf # ''      </tr>''
      @ lf # ''    '')]\<close>

definition finding_html :: "finding_line \<Rightarrow> piece list" where
  \<open>finding_html f =
    [Raw (lf # ''    <div class="finding ''),
     Val (severity_name (fl_severity f)),
     Raw (''">''
      @ lf # ''      <h3>''
      @ lf # ''        <span class="sev ''),
     Val (severity_name (fl_severity f)),
     Raw (''">''),
     Val (upper (severity_name (fl_severity f))),
     Raw (''</span>''
      @ lf # ''        ''),
     Val (fl_title f),
     Raw (lf # ''      </h3>''
      @ lf # ''      <div class="muted">''
      @ lf # ''        '')]
    @ (if text_of (fl_cve f) = [] then [] else [Raw (''<code>''), Val (text_of (fl_cve f)), Raw (''</code>'')])
    @ [Raw (lf # ''        '')]
    @ (case fl_cvss f of None \<Rightarrow> [] | Some x \<Rightarrow> if x = 0 then [] else [Raw ('' &middot; CVSS ''), Val (show_float x)])
    @ [Raw (lf # ''        '')]
    @ (if text_of (fl_host f) = [] then [] else [Raw ('' &middot; ''), Val (text_of (fl_host f))])
    @ [Raw (lf # ''        &middot; ''),
     Val (finding_status_text (fl_status f)),
     Raw (lf # ''      </div>''
      @ lf # ''      '')]
    @ (if text_of (fl_description f) = [] then [] else [Raw (''<p>''), Val (text_of (fl_description f)), Raw (''</p>'')])
    @ [Raw (lf # ''      '')]
    @ (if text_of (fl_remediation f) = [] then []
       else [Raw (''<p><strong>Remediation.</strong> ''), Val (text_of (fl_remediation f)), Raw (''</p>'')])
    @ [Raw (lf # ''    </div>''
      @ lf # ''  '')]\<close>

definition page_html :: "string \<Rightarrow> int \<Rightarrow> report_data \<Rightarrow> piece list" where
  \<open>page_html title now d =
    [Raw (lf # ''<!DOCTYPE html>''
      @ lf # ''<html lang="en">''
      @ lf # ''<head>''
      @ lf # ''<meta charset="utf-8">''
      @ lf # ''<title>''),
     Val (title),
     Raw (''</title>''
      @ lf # ''<style>''
      @ lf # ''  @page { size: A4; margin: 18mm 16mm; @bottom-center { content: counter(page); font-size: 9pt; color: #64748b; } }''
      @ lf # ''  body { font-family: -apple-system, "Segoe UI", Roboto, sans-serif; font-size: 10pt; color: #0f172a; line-height: 1.5; }''
      @ lf # ''  h1 { font-size: 22pt; margin: 0 0 4pt; }''
      @ lf # ''  h2 { font-size: 14pt; margin: 20pt 0 8pt; border-bottom: 1px solid #cbd5e1; padding-bottom: 4pt; }''
      @ lf # ''  h3 { font-size: 11pt; margin: 14pt 0 4pt; }''
      @ lf # ''  .meta { color: #64748b; font-size: 9pt; margin-bottom: 18pt; }''
      @ lf # ''  table { width: 100%; border-collapse: collapse; margin: 8pt 0; }''
      @ lf # ''  th, td { text-align: left; padding: 5pt 6pt; border-bottom: 1px solid #e2e8f0; vertical-align: top; }''
      @ lf # ''  th { background: #f1f5f9; font-size: 9pt; text-transform: uppercase; letter-spacing: .04em; color: #475569; }''
      @ lf # ''  td { font-size: 9.5pt; }''
      @ lf # ''  .sev { display: inline-block; padding: 1pt 6pt; border-radius: 3pt; font-size: 8.5pt; font-weight: 600; color: #fff; }''
      @ lf # ''  .critical { background: #7f1d1d; } .high { background: #b91c1c; }''
      @ lf # ''  .medium { background: #c2410c; } .low { background: #a16207; } .info { background: #475569; }''
      @ lf # ''  .summary-grid { display: flex; gap: 10pt; margin: 10pt 0 4pt; }''
      @ lf # ''  .card { flex: 1; border: 1px solid #e2e8f0; border-radius: 4pt; padding: 8pt; }''
      @ lf # ''  .card .n { font-size: 18pt; font-weight: 700; }''
      @ lf # ''  .card .l { font-size: 8.5pt; color: #64748b; text-transform: uppercase; }''
      @ lf # ''  .finding { break-inside: avoid; border-left: 3pt solid #cbd5e1; padding-left: 8pt; margin: 10pt 0; }''
      @ lf # ''  .finding.critical, .finding.high { border-left-color: #b91c1c; }''
      @ lf # ''  .finding.medium { border-left-color: #c2410c; }''
      @ lf # ''  .muted { color: #64748b; font-size: 9pt; }''
      @ lf # ''  code { background: #f1f5f9; padding: 1pt 3pt; border-radius: 2pt; font-size: 8.5pt; }''
      @ lf # ''</style>''
      @ lf # ''</head>''
      @ lf # ''<body>''
      @ lf # ''  <h1>''),
     Val (title),
     Raw (''</h1>''
      @ lf # ''  <div class="meta">''
      @ lf # ''    ''),
     Val (fst (rt_org d)),
     Raw ('' &middot; ''),
     Val (snd (rt_org d)),
     Raw (''<br>''
      @ lf # ''    Generated ''),
     Val (minute_stamp now)]
    @ (case rt_scan d of None \<Rightarrow> [] | Some s \<Rightarrow> [Raw ('' &middot; scan of ''), Val (fst s)])
    @ [Raw (lf # ''  </div>''
      @ [lf]
      @ lf # ''  <h2>Executive summary</h2>''
      @ lf # ''  <div class="summary-grid">''
      @ lf # ''    <div class="card"><div class="n">''),
     Val (count_text (rt_total d)),
     Raw (''</div><div class="l">Assets</div></div>''
      @ lf # ''    <div class="card"><div class="n">''),
     Val (count_text (rt_open d)),
     Raw (''</div><div class="l">Open findings</div></div>''
      @ lf # ''    <div class="card"><div class="n">''),
     Val (count_text (of_severity d CRITICAL)),
     Raw (''</div><div class="l">Critical</div></div>''
      @ lf # ''    <div class="card"><div class="n">''),
     Val (count_text (of_severity d HIGH)),
     Raw (''</div><div class="l">High</div></div>''
      @ lf # ''  </div>''
      @ lf # ''  <p>''
      @ lf # ''    This report covers ''),
     Val (count_text (rt_total d)),
     Raw ('' asset''),
     Val (if rt_total d = 1 then [] else ''s''),
     Raw (lf # ''    across ''),
     Val (snd (rt_org d)),
     Raw (''. ''),
     Val (count_text (rt_open d)),
     Raw ('' finding''),
     Val (if rt_open d = 1 then [] else ''s''),
     Raw (lf # ''    ''),
     Val (if rt_open d = 1 then ''is'' else ''are''),
     Raw ('' currently open, of which''
      @ lf # ''    ''),
     Val (count_text (of_severity d CRITICAL + of_severity d HIGH)),
     Raw ('' rate high or critical''
      @ lf # ''    and warrant attention first.''
      @ lf # ''  </p>''
      @ [lf]
      @ lf # ''  <h2>Highest-risk assets</h2>''
      @ lf # ''  <table>''
      @ lf # ''    <thead><tr><th>Host</th><th>IP</th><th>Risk</th><th>Open ports</th><th>Technologies</th></tr></thead>''
      @ lf # ''    <tbody>''
      @ lf # ''    '')]
    @ (if rt_assets d = [] then [Raw (lf # ''      <tr><td colspan="5" class="muted">No assets recorded.</td></tr>''
      @ lf # ''    '')] else concat (map asset_html (rt_assets d)))
    @ [Raw (lf # ''    </tbody>''
      @ lf # ''  </table>''
      @ [lf]
      @ lf # ''  <h2>Findings</h2>''
      @ lf # ''  '')]
    @ (if rt_findings d = [] then [Raw (lf # ''    <p class="muted">No findings matched the selected filters.</p>''
      @ lf # ''  '')] else concat (map finding_html (rt_findings d)))
    @ [Raw (lf # ''</body>''
      @ lf # ''</html>'')]\<close>

definition render_html :: "(string \<Rightarrow> string) \<Rightarrow> string \<Rightarrow> int \<Rightarrow> report_data \<Rightarrow> string" where
  "render_html escape title now d = concat (map (put_piece escape) (page_html title now d))"

section \<open>Markup\<close>

text \<open>The characters that open, close or quote markup.\<close>

definition markup_chars :: "char list" where
  "markup_chars = [CHR ''<'', CHR ''>'', CHR 0x22, CHR 0x27]"

definition markup :: "string \<Rightarrow> string" where
  "markup s = filter (\<lambda>c. c \<in> set markup_chars) s"

lemma markup_append [simp]: "markup (s @ t) = markup s @ markup t"
  by (simp add: markup_def)

lemma markup_pieces:
  assumes "\<And>s. markup (escape s) = []"
  shows "markup (concat (map (put_piece escape) ps)) = markup (concat (map (put_piece (\<lambda>_. [])) ps))"
proof (induction ps)
  case (Cons p ps)
  then show ?case using assms by (cases p) simp_all
qed simp

text \<open>
  Markup is the template's alone: whatever hostnames, titles, advice and names the tables hold,
  the page has the tags and the attribute quotes it has with every value left empty.
\<close>

lemma page_markup:
  assumes "\<And>s. markup (escape s) = []"
  shows "markup (render_html escape title now d) = markup (render_html (\<lambda>_. []) title now d)"
  unfolding render_html_def by (rule markup_pieces [OF assms])

text \<open>The five characters the engine's \<open>escape\<close> replaces.\<close>

definition html_escape :: "string \<Rightarrow> string" where
  "html_escape s = concat (map (\<lambda>c.
     if c = CHR ''&'' then ''&amp;'' else if c = CHR ''<'' then ''&lt;'' else if c = CHR ''>'' then ''&gt;''
     else if c = CHR 0x27 then ''&#39;'' else if c = CHR 0x22 then ''&#34;'' else [c]) s)"

lemma html_escape_markup: "markup (html_escape s) = []"
proof (induction s)
  case (Cons c s)
  have "markup (html_escape [c]) = []"
    by (simp add: html_escape_def markup_def markup_chars_def)
  moreover have "html_escape (c # s) = html_escape [c] @ html_escape s" by (simp add: html_escape_def)
  ultimately show ?case using Cons by simp
qed (simp add: html_escape_def markup_def)

end
