(* ===== verification/Reports.thy ===== *)
theory Reports
  imports ReportHtml AuthHistory
begin

text \<open>
  Reports: the request and the handlers of \<open>routes/reports.py\<close> with the dashboard, and the builder
  \<open>workers/report_builder.py\<close>. The disk is a map from resolved paths to contents; what the
  operating system answers (resolved paths, refusals, sizes), the escaping of the template engine
  and the rendering of a page to PDF are the fields of \<open>disk\<close>. A JSON file is the value that \<open>json.dump\<close> writes.
\<close>

section \<open>Requests\<close>

record report_request =
  rq_title :: "string option"
  rq_format :: string
  rq_scan :: "nat option"
  rq_min :: severity
  rq_info :: bool
  rq_remediated :: bool

definition valid_request :: "report_request \<Rightarrow> bool" where
  "valid_request b =
    ((case rq_title b of None \<Rightarrow> True | Some t \<Rightarrow> length t \<le> 255) \<and> rq_format b \<in> {''pdf'', ''json'', ''csv''})"

definition str_json :: "string option \<Rightarrow> json" where
  "str_json s = (case s of None \<Rightarrow> JNull | Some t \<Rightarrow> JStr t)"

definition dump_request :: "report_request \<Rightarrow> json" where
  "dump_request b =
    JObj [(''title'', str_json (rq_title b)), (''format'', JStr (rq_format b)), (''scan_id'', str_json (map_option uuid_str (rq_scan b))),
          (''min_severity'', JStr (severity_name (rq_min b))), (''include_info'', JBool (rq_info b)),
          (''include_remediated'', JBool (rq_remediated b))]"

section \<open>Paths\<close>

definition path_join :: "string \<Rightarrow> string \<Rightarrow> string" where
  "path_join a b = (if prefix ''/'' b then b else if a = [] \<or> last a = CHR ''/'' then a @ b else a @ ''/'' @ b)"

definition base_name :: "string \<Rightarrow> string" where
  "base_name p = after_last CHR ''/'' p"

definition dir_name :: "string \<Rightarrow> string" where
  "dir_name p =
    (let head = take (length p - length (base_name p)) p in
     if list_all (\<lambda>c. c = CHR ''/'') head then head else rev (dropWhile (\<lambda>c. c = CHR ''/'') (rev head)))"

text \<open>\<open>%Y%m%d-%H%M%S\<close> of a time in UTC, and \<open>isoformat\<close> with its microseconds.\<close>

definition stamp :: "int \<Rightarrow> string" where
  "stamp t =
    (case civil (t div us_day) of (y, m, d) \<Rightarrow>
       let sec = t mod us_day div 1000000
       in digits 4 y @ digits 2 m @ digits 2 d @ ''-'' @ digits 2 (sec div 3600) @ digits 2 (sec div 60 mod 60) @ digits 2 (sec mod 60))"

definition iso_time :: "int \<Rightarrow> string" where
  "iso_time t =
    (let s = iso_utc t; us = t mod 1000000 in
     if us = 0 then s else take (length s - 6) s @ ''.'' @ digits 6 us @ ''+00:00'')"

definition report_file :: "string \<Rightarrow> nat \<Rightarrow> int \<Rightarrow> string \<Rightarrow> string" where
  "report_file dir org_id now format =
    path_join (path_join dir (uuid_str org_id)) (''surfacewatch-'' @ uuid_str org_id @ ''-'' @ stamp now @ ''.'' @ format)"

section \<open>The disk\<close>

datatype content = Csv_file string | Json_file json | Pdf_file string | Html_file string

text \<open>What the PDF library does with a page and a path: write a document, be missing or refused, or fail.\<close>

datatype pdf_outcome = Written string | Unavailable | Broken string

record disk =
  dk_root :: string
  dk_resolve :: "string \<Rightarrow> string"
  dk_makedirs :: "string \<Rightarrow> bool"
  dk_write :: "string \<Rightarrow> bool"
  dk_remove :: "string \<Rightarrow> bool"
  dk_size :: "content \<Rightarrow> int"
  dk_escape :: "string \<Rightarrow> string"
  dk_pdf :: "string \<Rightarrow> string \<Rightarrow> pdf_outcome"

type_synonym files = "string \<rightharpoonup> content"

section \<open>The handlers\<close>

definition new_report :: "nat \<Rightarrow> nat \<Rightarrow> nat \<Rightarrow> int \<Rightarrow> string \<Rightarrow> string \<Rightarrow> report_request \<Rightarrow> report_row" where
  "new_report i org_id author now path title b =
    \<lparr>rp_id = i, rp_org = org_id, rp_created = now, rp_file = Some path, rp_author = Some author, rp_generated = now, rp_title = Some title,
     rp_format = rq_format b, rp_status = ''pending'', rp_size = None, rp_summary = [(''filters'', dump_request b)]\<rparr>"

abbreviation update_report :: "nat \<Rightarrow> (report_row \<Rightarrow> report_row) \<Rightarrow> db \<Rightarrow> db" where
  "update_report i f db \<equiv> db\<lparr>db_reports := update_where (\<lambda>r. rp_id r = i) f (db_reports db)\<rparr>"

text \<open>The row is committed before the task is queued; a broker that fails marks it.\<close>

definition create_report :: "string \<Rightarrow> int \<Rightarrow> broker \<Rightarrow> current_user \<Rightarrow> report_request \<Rightarrow> db \<Rightarrow> db \<times> (http_error + report_row)" where
  "create_report dir now broker cur b db =
    (if rq_scan b \<noteq> None \<and> find_scan db (the (rq_scan b)) (cu_org cur) = None then (db, Inl (not_found ''Scan''))
     else case org_by_id db (cu_org cur) of
       None \<Rightarrow> (db, Inl (not_found ''Organisation''))
     | Some org \<Rightarrow>
         (let title = (if text_of (rq_title b) = [] then og_name org @ '' attack surface report'' else text_of (rq_title b));
              r = new_report (db_next db) (cu_org cur) (cu_id cur) now (report_file dir (cu_org cur) now (rq_format b)) title b;
              db1 = db\<lparr>db_reports := db_reports db @ [r], db_next := db_next db + 1\<rparr>
          in case broker of
               Inr task \<Rightarrow> (db1, Inr r)
             | Inl e \<Rightarrow>
                 (update_report (rp_id r) (\<lambda>r. r\<lparr>rp_status := ''failed'',
                     rp_summary := put ''error'' (JStr ''Could not queue the report'') (rp_summary r)\<rparr>) db1,
                  Inl (Http_error 503 ''The report queue is unavailable right now. Please try again shortly.''))))"

definition find_report :: "db \<Rightarrow> nat \<Rightarrow> nat \<Rightarrow> report_row option" where
  "find_report db i org_id = find (\<lambda>r. rp_id r = i \<and> rp_org r = org_id) (db_reports db)"

definition list_reports :: "db \<Rightarrow> nat \<Rightarrow> nat \<Rightarrow> nat \<Rightarrow> report_row list \<times> nat" where
  "list_reports db org_id limit offset =
    (let rows = filter (\<lambda>r. rp_org r = org_id) (db_reports db)
     in (page_of limit offset (sort_key (\<lambda>r. - rp_generated r) rows), length rows))"

definition get_report :: "db \<Rightarrow> nat \<Rightarrow> nat \<Rightarrow> http_error + report_row" where
  "get_report db i org_id = (case find_report db i org_id of None \<Rightarrow> Inl (not_found ''Report'') | Some r \<Rightarrow> Inr r)"

definition media_type :: "string \<Rightarrow> string" where
  "media_type format =
    (if format = ''pdf'' then ''application/pdf'' else if format = ''json'' then ''application/json''
     else if format = ''csv'' then ''text/csv'' else ''application/octet-stream'')"

text \<open>The stored path is resolved and has to lie under the resolved output directory.\<close>

definition anchored :: "disk \<Rightarrow> files \<Rightarrow> report_row \<Rightarrow> string option" where
  "anchored dk fs r =
    (let resolved = dk_resolve dk (text_of (rp_file r)) in
     if prefix (dk_resolve dk (dk_root dk) @ ''/'') resolved \<and> fs resolved \<noteq> None then Some resolved else None)"

definition download_report :: "disk \<Rightarrow> files \<Rightarrow> db \<Rightarrow> nat \<Rightarrow> nat \<Rightarrow> http_error + content \<times> string \<times> string" where
  "download_report dk fs db i org_id =
    (case find_report db i org_id of
       None \<Rightarrow> Inl (not_found ''Report'')
     | Some r \<Rightarrow>
         (if rp_status r \<noteq> ''ready'' then Inl (Http_error 409 (''Report is '' @ rp_status r @ ''; not ready for download''))
          else case anchored dk fs r of
            None \<Rightarrow> Inl (Http_error 410 ''Report file is no longer available'')
          | Some p \<Rightarrow> Inr (the (fs p), media_type (rp_format r), base_name p)))"

definition delete_report :: "disk \<Rightarrow> nat \<Rightarrow> nat \<Rightarrow> db \<times> files \<Rightarrow> (db \<times> files) \<times> (http_error + string)" where
  "delete_report dk i org_id st =
    (case st of (db, fs) \<Rightarrow>
     case find_report db i org_id of
       None \<Rightarrow> (st, Inl (not_found ''Report''))
     | Some r \<Rightarrow>
         (let fs1 = (case anchored dk fs r of None \<Rightarrow> fs | Some p \<Rightarrow> if dk_remove dk p then fs(p := None) else fs)
          in ((db\<lparr>db_reports := delete_where (\<lambda>x. rp_id x = rp_id r) (db_reports db)\<rparr>, fs1), Inr ''Report deleted'')))"

section \<open>The dashboard\<close>

record dashboard_out =
  da_assets_total :: nat
  da_assets_new :: nat
  da_findings_open :: nat
  da_by_severity :: "(severity \<times> nat) list"
  da_scans_running :: nat
  da_scans_recent :: nat
  da_mean_risk :: rat
  da_top_risk :: "(nat \<times> string \<times> rat \<times> int list \<times> string list) list"
  da_recent :: "(nat \<times> string \<times> severity \<times> string option \<times> rat option \<times> string option \<times> string) list"

text \<open>\<open>round(x, 1)\<close>, half to even.\<close>

definition round_mean :: "rat \<Rightarrow> rat" where
  "round_mean x = of_int (half_even (10 * x)) / 10"

definition dashboard :: "int \<Rightarrow> nat \<Rightarrow> estate \<Rightarrow> dashboard_out" where
  "dashboard now org_id es =
    (let since = now - 7 * us_day; assets = filter (\<lambda>a. at_org a = org_id) (es_assets es);
         open_rows = filter (\<lambda>f. fi_org f = org_id \<and> is_open_status (fi_status f)) (es_findings es);
         scans = filter (\<lambda>s. sn_org s = org_id) (db_scans (es_db es))
     in \<lparr>da_assets_total = length assets,
         da_assets_new = count_where (\<lambda>a. case at_first_seen a of None \<Rightarrow> False | Some t \<Rightarrow> since \<le> t) assets,
         da_findings_open = length open_rows,
         da_by_severity = map (\<lambda>s. (s, count_where (\<lambda>f. fi_severity f = s) open_rows)) all_severities,
         da_scans_running = count_where (\<lambda>s. sn_status s \<in> {QUEUED, RUNNING}) scans,
         da_scans_recent = count_where (\<lambda>s. since \<le> sn_created s) scans,
         da_mean_risk = (if assets = [] then 0 else round_mean (sum_list (map at_risk assets) / of_nat (length assets))),
         da_top_risk = map (\<lambda>a. (at_id a, at_hostname a, at_risk a, open_ports a, take 5 (technologies a)))
           (take 5 (sort_key (\<lambda>a. - at_risk a) assets)),
         da_recent = map (\<lambda>f. (fi_id f, fi_title f, fi_severity f, fi_cve f, fi_cvss f, hostname_for es org_id f, iso_time (fi_created f)))
           (take 10 (sort_key (\<lambda>f. - fi_created f) open_rows))\<rparr>)"

section \<open>Collecting\<close>

fun report_rank :: "severity \<Rightarrow> int" where
  "report_rank CRITICAL = 5"
| "report_rank HIGH = 4"
| "report_rank MEDIUM = 3"
| "report_rank LOW = 2"
| "report_rank INFO = 1"

definition finding_line_of :: "estate \<Rightarrow> finding_row \<Rightarrow> finding_line" where
  "finding_line_of es f =
    \<lparr>fl_id = fi_id f, fl_title = fi_title f, fl_severity = fi_severity f, fl_cve = fi_cve f, fl_cvss = fi_cvss f,
     fl_description = fi_description f, fl_remediation = fi_remediation f, fl_status = fi_status f,
     fl_host = (case fi_asset f of None \<Rightarrow> None | Some i \<Rightarrow> map_option at_hostname (row_by at_id i (es_assets es))),
     fl_first_seen = map_option iso_time (fi_first_seen f)\<rparr>"

definition asset_line_of :: "asset_row \<Rightarrow> asset_line" where
  "asset_line_of a =
    \<lparr>ln_host = at_hostname a, ln_ip = at_ip a, ln_risk = at_risk a, ln_ports = open_ports a, ln_tech = technologies a, ln_status = at_status a\<rparr>"

definition selected :: "nat \<Rightarrow> report_request \<Rightarrow> finding_row \<Rightarrow> bool" where
  "selected org_id b f =
    (fi_org f = org_id \<and> (case rq_scan b of None \<Rightarrow> True | Some s \<Rightarrow> fi_scan f = Some s) \<and>
     (\<not> rq_remediated b \<longrightarrow> is_open_status (fi_status f)))"

definition reported :: "report_request \<Rightarrow> finding_row \<Rightarrow> bool" where
  "reported b f = (report_rank (rq_min b) \<le> report_rank (fi_severity f) \<and> (fi_severity f = INFO \<longrightarrow> rq_info b))"

definition collect :: "nat \<Rightarrow> report_request \<Rightarrow> estate \<Rightarrow> string + report_data" where
  "collect org_id b es =
    (case org_by_id (es_db es) org_id of
       None \<Rightarrow> Inl (''Organisation '' @ uuid_str org_id @ '' not found'')
     | Some org \<Rightarrow>
         (let rows = desc_nulls_last fi_cvss (sort_key (\<lambda>f. - fi_created f) (filter (selected org_id b) (es_findings es)));
              findings = map (finding_line_of es) (filter (reported b) rows);
              own = filter (\<lambda>a. at_org a = org_id) (es_assets es)
          in Inr \<lparr>rt_org = (og_name org, og_domain org),
               rt_scan = (case rq_scan b of None \<Rightarrow> None
                 | Some s \<Rightarrow> map_option (\<lambda>x. (sn_target x, sn_id x)) (find_scan (es_db es) s org_id)),
               rt_assets = map asset_line_of (take 50 (sort_key (\<lambda>a. - at_risk a) own)),
               rt_findings = findings, rt_total = length own, rt_open = length findings,
               rt_by_severity = map (\<lambda>s. (s, count_where (\<lambda>f. fl_severity f = s) findings)) all_severities\<rparr>))"

section \<open>Rendering\<close>

fun asset_status_text :: "asset_status \<Rightarrow> string" where
  "asset_status_text ACTIVE = ''active''"
| "asset_status_text INACTIVE = ''inactive''"
| "asset_status_text NEW = ''new''"
| "asset_status_text CHANGED = ''changed''"
| "asset_status_text DECOMMISSIONED = ''decommissioned''"

definition num_json :: "rat option \<Rightarrow> json" where
  "num_json x = (case x of None \<Rightarrow> JNull | Some y \<Rightarrow> JNum y)"

definition nat_json :: "nat \<Rightarrow> json" where
  "nat_json n = JNum (of_nat n)"

definition by_severity_json :: "report_data \<Rightarrow> json" where
  "by_severity_json d = JObj (map (\<lambda>(s, n). (severity_name s, nat_json n)) (rt_by_severity d))"

definition asset_json :: "asset_line \<Rightarrow> json" where
  "asset_json a =
    JObj [(''hostname'', JStr (ln_host a)), (''ip'', str_json (ln_ip a)), (''risk_score'', JNum (ln_risk a)),
          (''open_ports'', JList (map (\<lambda>p. JNum (of_int p)) (ln_ports a))), (''technologies'', JList (map JStr (ln_tech a))),
          (''status'', JStr (asset_status_text (ln_status a)))]"

definition finding_json :: "finding_line \<Rightarrow> json" where
  "finding_json f =
    JObj [(''id'', JStr (uuid_str (fl_id f))), (''title'', JStr (fl_title f)), (''severity'', JStr (severity_name (fl_severity f))),
          (''cve_id'', str_json (fl_cve f)), (''cvss_score'', num_json (fl_cvss f)), (''description'', str_json (fl_description f)),
          (''remediation'', str_json (fl_remediation f)), (''status'', JStr (finding_status_text (fl_status f))),
          (''asset_hostname'', str_json (fl_host f)), (''first_seen'', str_json (fl_first_seen f))]"

definition render_json :: "int \<Rightarrow> report_data \<Rightarrow> json" where
  "render_json now d =
    JObj [(''organisation'', JObj [(''name'', JStr (fst (rt_org d))), (''domain'', JStr (snd (rt_org d)))]),
          (''scan'', (case rt_scan d of None \<Rightarrow> JNull
             | Some (target, i) \<Rightarrow> JObj [(''target'', JStr target), (''id'', JStr (uuid_str i))])),
          (''generated_at'', JStr (iso_time now)),
          (''statistics'', JObj [(''assets'', nat_json (rt_total d)), (''open'', nat_json (rt_open d)), (''by_severity'', by_severity_json d)]),
          (''assets'', JList (map asset_json (rt_assets d))), (''findings'', JList (map finding_json (rt_findings d)))]"

definition csv_header :: "string list" where
  "csv_header = [''severity'', ''cvss'', ''cve'', ''asset'', ''title'', ''status'', ''remediation'', ''first_seen'']"

definition one_line :: "string \<Rightarrow> string" where
  "one_line s = map (\<lambda>c. if c = lf then CHR '' '' else c) s"

definition csv_cells :: "finding_line \<Rightarrow> string list" where
  "csv_cells f =
    [severity_name (fl_severity f), (case fl_cvss f of None \<Rightarrow> [] | Some x \<Rightarrow> if x = 0 then [] else show_float x), text_of (fl_cve f),
     text_of (fl_host f), fl_title f, finding_status_text (fl_status f), one_line (text_of (fl_remediation f)), text_of (fl_first_seen f)]"

definition render_csv :: "report_data \<Rightarrow> string" where
  "render_csv d = csv_text (csv_header # map csv_cells (rt_findings d))"

section \<open>The task\<close>

datatype built = Returned string | Raised string

text \<open>
  A PDF, or the page itself where the library is unavailable. The page is written beside the
  path and moved there, which succeeds when writing does.
\<close>

definition html_path :: "string \<Rightarrow> string" where
  "html_path path = (if CHR ''.'' \<in> set path then take (length path - length (after_last CHR ''.'' path) - 1) path else path) @ ''.html''"

definition render_pdf :: "disk \<Rightarrow> int \<Rightarrow> string \<Rightarrow> string \<Rightarrow> report_data \<Rightarrow> string + content" where
  "render_pdf dk now path title d =
    (let html = render_html (dk_escape dk) title now d in
     case dk_pdf dk html path of
       Written pdf \<Rightarrow> Inr (Pdf_file pdf)
     | Unavailable \<Rightarrow> if dk_write dk (html_path path) then Inr (Html_file html) else Inl ''OSError''
     | Broken e \<Rightarrow> Inl e)"

text \<open>Collecting, rendering and writing: a content or the text of the exception.\<close>

definition rendered :: "disk \<Rightarrow> int \<Rightarrow> string \<Rightarrow> string \<Rightarrow> string \<Rightarrow> report_data \<Rightarrow> string + content" where
  "rendered dk now path format title d =
    (if format = ''json'' then (if dk_write dk path then Inr (Json_file (render_json now d)) else Inl ''OSError'')
     else if format = ''csv'' then (if dk_write dk path then Inr (Csv_file (render_csv d)) else Inl ''OSError'')
     else render_pdf dk now path title d)"

definition ready :: "disk \<Rightarrow> report_data \<Rightarrow> content \<Rightarrow> report_row \<Rightarrow> report_row" where
  "ready dk d c r =
    r\<lparr>rp_status := ''ready'', rp_size := Some (dk_size dk c),
      rp_summary := put ''by_severity'' (by_severity_json d) (put ''findings'' (nat_json (rt_open d)) (put ''assets'' (nat_json (rt_total d)) (rp_summary r)))\<rparr>"

definition failed :: "string \<Rightarrow> report_row \<Rightarrow> report_row" where
  "failed e r = r\<lparr>rp_status := ''failed'', rp_summary := put ''error'' (JStr (slice_to 1000 e)) (rp_summary r)\<rparr>"

definition build_report :: "disk \<Rightarrow> int \<Rightarrow> nat \<Rightarrow> nat \<Rightarrow> report_request \<Rightarrow> estate \<times> files \<Rightarrow> (estate \<times> files) \<times> built" where
  "build_report dk now rid org_id b st =
    (case st of (es, fs) \<Rightarrow>
     case row_by rp_id rid (db_reports (es_db es)) of
       None \<Rightarrow> (st, Returned ''missing'')
     | Some r \<Rightarrow>
         (if rp_org r \<noteq> org_id then (st, Returned ''forbidden'')
          else
            let path = text_of (rp_file r); title = (if text_of (rp_title r) = [] then ''Attack surface report'' else text_of (rp_title r)) in
            if \<not> dk_makedirs dk (dir_name path) then (st, Raised ''OSError'')
            else case (case collect org_id b es of
                   Inl e \<Rightarrow> Inl e
                 | Inr d \<Rightarrow> map_sum id (\<lambda>c. (d, c)) (rendered dk now path (rp_format r) title d)) of
              Inl e \<Rightarrow> ((with_db (update_report rid (failed e)) es, fs), Raised e)
            | Inr (d, c) \<Rightarrow> ((with_db (update_report rid (ready dk d c)) es, fs(dk_resolve dk path \<mapsto> c)), Returned ''ready'')))"

section \<open>Whose rows a report shows\<close>

lemma find_filter: "find p (filter q xs) = find (\<lambda>x. q x \<and> p x) xs"
  by (induction xs) auto

lemma find_scan_own: "find_scan db i org = find (\<lambda>s. sn_id s = i) (filter (\<lambda>s. sn_org s = org) (db_scans db))"
  unfolding find_scan_def find_filter by (rule arg_cong [where f = "\<lambda>p. find p (db_scans db)"]) auto

text \<open>The hostname of an asset is looked up by its key alone; for a finding of the tenant it is the tenant's own.\<close>

lemma own_host:
  assumes "estate_ok es" and "f \<in> set (es_findings es)" and "fi_org f = org" and "fi_asset f = Some i"
  shows "row_by at_id i (filter (\<lambda>a. at_org a = org) (es_assets es)) = row_by at_id i (es_assets es)"
proof -
  obtain a where a: "a \<in> set (es_assets es)" "at_id a = i" "at_org a = org"
    using estate_okD(8) [OF assms(1,2)] assms(3,4) by (auto simp: tenant_ok_def asset_tag_def)
  have "keyed at_id (filter (\<lambda>a. at_org a = org) (es_assets es))" using estate_okD(1) [OF assms(1)] by (rule distinct_map_filter)
  from row_by_mem [OF this, of a] row_by_mem [OF estate_okD(1) [OF assms(1)] a(1)] a show ?thesis by simp
qed

text \<open>An organisation's own part of the tables a report reads, and an inventory with nothing else.\<close>

definition own_part :: "nat \<Rightarrow> estate \<Rightarrow> org_row list \<times> scan_row list \<times> asset_row list \<times> finding_row list" where
  "own_part org es =
    (filter (\<lambda>g. og_id g = org) (db_orgs (es_db es)), filter (\<lambda>s. sn_org s = org) (db_scans (es_db es)),
     filter (\<lambda>a. at_org a = org) (es_assets es), filter (\<lambda>f. fi_org f = org) (es_findings es))"

definition estate_of :: "org_row list \<times> scan_row list \<times> asset_row list \<times> finding_row list \<Rightarrow> estate" where
  "estate_of p =
    (case p of (orgs, scans, assets, findings) \<Rightarrow>
       \<lparr>es_db = \<lparr>db_next = 0, db_orgs = orgs, db_users = [], db_sessions = [], db_claims = [], db_scans = scans, db_logs = [],
          db_schedules = [], db_reports = []\<rparr>, es_assets = assets, es_findings = findings\<rparr>)"

lemma in_desc_nulls_last: "x \<in> set (desc_nulls_last k rows) \<longleftrightarrow> x \<in> set rows"
  by (auto simp: desc_nulls_last_def)

lemma collect_own:
  assumes "estate_ok es"
  shows "collect org b (estate_of (own_part org es)) = collect org b es"
proof -
  let ?own = "estate_of (own_part org es)"
  let ?rows = "filter (reported b) (desc_nulls_last fi_cvss (sort_key (\<lambda>f. - fi_created f) (filter (selected org b) (es_findings es))))"
  have org: "org_by_id (es_db ?own) org = org_by_id (es_db es) org"
    by (simp add: own_part_def estate_of_def org_by_id_def row_by_def find_filter conj_commute)
  have scan: "find_scan (es_db ?own) i org = find_scan (es_db es) i org" for i
    by (simp add: find_scan_own own_part_def estate_of_def)
  have rows: "filter (selected org b) (es_findings ?own) = filter (selected org b) (es_findings es)"
    by (auto simp: own_part_def estate_of_def selected_def intro!: filter_cong)
  have assets: "es_assets ?own = filter (\<lambda>a. at_org a = org) (es_assets es)"
    by (simp add: own_part_def estate_of_def)
  have line: "finding_line_of ?own f = finding_line_of es f" if "f \<in> set ?rows" for f
  proof -
    have f: "f \<in> set (es_findings es)" "fi_org f = org" using that by (auto simp: in_desc_nulls_last selected_def)
    show ?thesis using own_host [OF assms f] by (cases "fi_asset f") (simp_all add: finding_line_of_def assets)
  qed
  have lines: "map (finding_line_of ?own) ?rows = map (finding_line_of es) ?rows" by (rule map_cong [OF refl line])
  show ?thesis
  proof (cases "org_by_id (es_db es) org")
    case None
    then show ?thesis by (simp add: collect_def org)
  next
    case (Some g)
    show ?thesis unfolding collect_def org scan Let_def rows lines Some by (simp add: assets)
  qed
qed

section \<open>Properties\<close>

text \<open>
  C39: a report shows its tenant's rows only. What the builder collects for an organisation, and so
  every report file, is computed from that organisation's row, scans, assets and findings
  alone: two inventories that agree on these give the same report, whatever they hold of others.
\<close>

theorem reports_show_the_tenant_only:
  assumes "estate_ok es" and "estate_ok es'" and "own_part org es' = own_part org es"
  shows "collect org b es' = collect org b es"
  using collect_own [OF assms(1), of org b] collect_own [OF assms(2), of org b] assms(3) by simp

definition whole_estate :: report_request where
  "whole_estate = \<lparr>rq_title = None, rq_format = ''csv'', rq_scan = None, rq_min = LOW, rq_info = False, rq_remediated = False\<rparr>"

text \<open>The laboratory, with and without the assets of another organisation.\<close>

definition crowded_lab :: estate where
  "crowded_lab = lab\<lparr>es_assets := es_assets lab @ [(lab_asset 7 ''x.b.co'' ''7.7.7.7'' [] 99)\<lparr>at_org := 2\<rparr>]\<rparr>"

theorem reports_show_the_tenant_only_witness:
  "collect 1 whole_estate crowded_lab = collect 1 whole_estate lab"
proof (rule reports_show_the_tenant_only)
  show "estate_ok lab" "estate_ok crowded_lab" by (simp_all add: estate_ok_def) code_simp+
  show "own_part 1 crowded_lab = own_part 1 lab" by code_simp
qed

text \<open>
  C40: a CSV report reads back as written. Whatever text the findings hold (commas, quotes, line
  ends), a reader of the dialect gets the header and then one row per finding with exactly
  its eight cells: no value can add a cell or a row.
\<close>

theorem csv_report_reads_back:
  "csv_parse (render_csv d) = csv_header # map csv_cells (rt_findings d)"
  unfolding render_csv_def by (rule csv_parse_text) (auto simp: csv_header_def csv_cells_def list_all_iff)

section \<open>From the request to the download\<close>

text \<open>What the builder wrote is what the tenant downloads, and nobody else.\<close>

lemma built_report_is_served:
  assumes "build_report dk now rid org b (es, fs) = ((es', fs'), Returned ''ready'')" and "row_by rp_id rid (db_reports (es_db es)) = Some r"
    and "prefix (dk_resolve dk (dk_root dk) @ ''/'') (dk_resolve dk (text_of (rp_file r)))" and "keyed rp_id (db_reports (es_db es))"
  shows "\<exists>c. fs' (dk_resolve dk (text_of (rp_file r))) = Some c \<and>
    download_report dk fs' (es_db es') rid org = Inr (c, media_type (rp_format r), base_name (dk_resolve dk (text_of (rp_file r)))) \<and>
    (org' \<noteq> org \<longrightarrow> download_report dk fs' (es_db es') rid org' = Inl (not_found ''Report''))"
proof -
  define path where "path = text_of (rp_file r)"
  have r: "r \<in> set (db_reports (es_db es))" "rp_id r = rid" using row_by_SomeD [OF assms(2)] by simp_all
  obtain d c where own: "rp_org r = org" and es': "es' = with_db (update_report rid (ready dk d c)) es" and fs': "fs' = fs(dk_resolve dk path \<mapsto> c)"
    using assms(1,2) by (auto simp: build_report_def path_def Let_def split: if_splits sum.splits)
  have rows: "db_reports (es_db es') = update_where (\<lambda>x. rp_id x = rid) (ready dk d c) (db_reports (es_db es))" by (simp add: es')
  have keep: "rp_id (ready dk d c x) = rp_id x \<and> rp_org (ready dk d c x) = rp_org x" for x by (simp add: ready_def)
  have keyed: "keyed rp_id (db_reports (es_db es'))" unfolding rows using assms(4) keep by (simp add: map_update_where)
  have "ready dk d c r \<in> set (db_reports (es_db es'))" unfolding rows using r by (force simp: update_where_def)
  then have row: "x = ready dk d c r" if "x \<in> set (db_reports (es_db es'))" "rp_id x = rid" for x
    using keyed_unique [OF keyed that(1), of "ready dk d c r"] that(2) keep r(2) by simp
  have found: "find_report (es_db es') rid org = Some (ready dk d c r)"
  proof (cases "find_report (es_db es') rid org")
    case None
    then show ?thesis using \<open>ready dk d c r \<in> set (db_reports (es_db es'))\<close> keep [of r] own r(2) by (auto simp: find_report_def find_None_iff)
  next
    case (Some x)
    then show ?thesis using row [of x] by (auto simp: find_report_def dest: find_SomeD)
  qed
  have other: "find_report (es_db es') rid org' = None" if "org' \<noteq> org"
    using row keep [of r] own that by (fastforce simp: find_report_def find_None_iff)
  have fields: "rp_status (ready dk d c r) = ''ready''" "rp_file (ready dk d c r) = rp_file r" "rp_format (ready dk d c r) = rp_format r"
    by (simp_all add: ready_def)
  have "anchored dk fs' (ready dk d c r) = Some (dk_resolve dk path)"
    using assms(3) by (simp add: anchored_def fields Let_def fs' path_def)
  then have "download_report dk fs' (es_db es') rid org = Inr (c, media_type (rp_format r), base_name (dk_resolve dk path))"
    by (simp add: download_report_def found fields fs')
  moreover have "org' \<noteq> org \<Longrightarrow> download_report dk fs' (es_db es') rid org' = Inl (not_found ''Report'')"
    by (simp add: download_report_def other)
  ultimately show ?thesis using fs' by (auto simp: path_def)
qed

text \<open>A request that could not be queued leaves a failed report, not a pending one.\<close>

lemma unqueued_report_is_failed:
  assumes "create_report dir now (Inl e) cur b db = (db', Inl (Http_error 503 m))" and "list_all (\<lambda>r. rp_id r < db_next db) (db_reports db)"
  shows "\<exists>r. db_reports db' = db_reports db @ [r] \<and> rp_status r = ''failed''"
proof -
  have "update_where (\<lambda>r. rp_id r = db_next db) f (db_reports db) = db_reports db" for f
    using assms(2) by (induction "db_reports db" arbitrary: db) (auto simp: update_where_def list_all_iff intro!: map_idI)
  then show ?thesis using assms(1)
    by (auto simp: create_report_def not_found_def new_report_def Let_def update_where_append split: if_splits option.splits)
qed

section \<open>What the reports do not do as they say\<close>

definition sample_disk :: disk where
  "sample_disk =
    \<lparr>dk_root = ''/r'', dk_resolve = id, dk_makedirs = (\<lambda>_. True), dk_write = (\<lambda>_. True), dk_remove = (\<lambda>_. True), dk_size = (\<lambda>_. 1),
     dk_escape = html_escape, dk_pdf = (\<lambda>_ _. Unavailable)\<rparr>"

definition desk_clerk :: current_user where
  "desk_clerk = \<lparr>cu_id = 2, cu_org = 1, cu_email = ''o@a.co'', cu_role = OWNER\<rparr>"

definition two_requests :: "db" where
  "two_requests =
    fst (create_report ''/r'' 7900000 (Inr ''t2'') desk_clerk whole_estate (fst (create_report ''/r'' 7000000 (Inr ''t1'') desk_clerk whole_estate lab_db)))"

text \<open>
  Two reports of one organisation in one format and in one second have one path: the second
  overwrites the first, and deleting either takes the file of both.
\<close>

lemma one_second_one_file:
  "map rp_file (db_reports two_requests) =
     [Some ''/r/1/surfacewatch-1-19700101-000007.csv'', Some ''/r/1/surfacewatch-1-19700101-000007.csv''] \<and>
   snd (fst (delete_report sample_disk 20 1 (two_requests, [''/r/1/surfacewatch-1-19700101-000007.csv'' \<mapsto> Csv_file []])))
     ''/r/1/surfacewatch-1-19700101-000007.csv'' = None"
  by code_simp

text \<open>With remediated findings included, the summary counts them as open.\<close>

definition closed_lab :: estate where
  "closed_lab = (ac_estate sample_once)\<lparr>es_findings := map (\<lambda>f. f\<lparr>fi_status := REMEDIATED\<rparr>) (es_findings (ac_estate sample_once))\<rparr>"

lemma remediated_counts_as_open:
  "map fi_status (es_findings closed_lab) = [REMEDIATED] \<and>
   (case collect 1 (whole_estate\<lparr>rq_remediated := True\<rparr>) closed_lab of Inl _ \<Rightarrow> 0 | Inr d \<Rightarrow> rt_open d) = 1"
  by code_simp

text \<open>
  Without the PDF library a report asked for as a PDF is built all the same, from the page; the
  page is then at the path of the PDF and goes out as a PDF.
\<close>

lemma page_goes_out_as_pdf:
  assumes "build_report dk now rid org b (es, fs) = ((es', fs'), Returned ''ready'')" and "row_by rp_id rid (db_reports (es_db es)) = Some r"
    and "prefix (dk_resolve dk (dk_root dk) @ ''/'') (dk_resolve dk (text_of (rp_file r)))" and "keyed rp_id (db_reports (es_db es))"
    and "rp_format r = ''pdf''" and "\<And>html path. dk_pdf dk html path = Unavailable"
  shows "\<exists>html. download_report dk fs' (es_db es') rid org = Inr (Html_file html, ''application/pdf'', base_name (dk_resolve dk (text_of (rp_file r))))"
proof -
  obtain c where c: "fs' (dk_resolve dk (text_of (rp_file r))) = Some c"
      "download_report dk fs' (es_db es') rid org = Inr (c, media_type ''pdf'', base_name (dk_resolve dk (text_of (rp_file r))))"
    using built_report_is_served [OF assms(1-4)] assms(5) by auto
  have "\<exists>html. fs' (dk_resolve dk (text_of (rp_file r))) = Some (Html_file html)"
    using assms(1,2,5,6) by (auto simp: build_report_def rendered_def render_pdf_def Let_def split: if_splits sum.splits)
  then show ?thesis using c by (auto simp: media_type_def)
qed

text \<open>A directory that cannot be made ends the task before its error handling: the report stays pending.\<close>

lemma no_directory_stays_pending:
  assumes "row_by rp_id rid (db_reports (es_db es)) = Some r" and "rp_org r = org" and "\<not> dk_makedirs dk (dir_name (text_of (rp_file r)))"
  shows "build_report dk now rid org b (es, fs) = ((es, fs), Raised ''OSError'')"
  using assms by (simp add: build_report_def)

end
