(* ===== verification/Seed.thy ===== *)
theory Seed
  imports ReportHtml AuthHistory
begin

text \<open>
  The demo organisation of \<open>seed_demo.py\<close>: its data, the rows made of them, the one transaction
  that stores them and, with \<open>--reset\<close>, the deletion of the previous one that is committed
  before. An entry of the port list or the stack without a protocol, a confidence or a category
  has the value the readers of it take by default. The em dash of a text stands as its bytes.
\<close>

section \<open>The data\<close>

definition demo_domain :: string where
  "demo_domain = ''democorp.example''"

definition demo_email :: string where
  "demo_email = ''demo@'' @ demo_domain"

definition demo_password :: string where
  "demo_password = ''demo-password-2026''"

text \<open>Label, address, score, open ports, stack, age in days, status; the index of the asset, title, CVE, CVSS, severity, status and texts.\<close>

type_synonym demo_asset = "string \<times> string \<times> rat \<times> int list \<times> (string \<times> string option) list \<times> int \<times> asset_status"
type_synonym demo_finding = "nat \<times> string \<times> string option \<times> rat \<times> severity \<times> finding_status \<times> string \<times> string"

definition demo_assets :: "demo_asset list" where
  "demo_assets =
    [(''www'', ''203.0.113.10'', 34, [80, 443], [(''nginx'', Some ''1.24.0'')], 90, ACTIVE),
     (''api'', ''203.0.113.15'', 157 / 2, [22, 80, 443], [(''nginx'', Some ''1.24.0''), (''OpenSSH'', Some ''9.6p1'')], 90, ACTIVE),
     (''vpn'', ''203.0.113.22'', 94, [443, 4443], [(''Citrix NetScaler'', Some ''13.1-48.47'')], 60, ACTIVE),
     (''mail'', ''203.0.113.8'', 41, [25, 465, 587, 993], [(''Postfix'', Some ''3.7.2''), (''Dovecot'', Some ''2.3.20'')], 120, ACTIVE),
     (''staging'', ''203.0.113.50'', 82, [80, 443, 3000, 5432], [(''Node.js'', Some ''18.16.0''), (''PostgreSQL'', Some ''15.3'')], 14, CHANGED),
     (''app'', ''203.0.113.101'', 88, [443, 8080], [(''Apache Tomcat'', Some ''9.0.75''), (''Spring Boot'', Some ''2.6.3'')], 45, ACTIVE),
     (''legacy'', ''203.0.113.77'', 12, [80], [(''Apache httpd'', Some ''2.4.57'')], 200, INACTIVE),
     (''cdn'', ''203.0.113.200'', 8, [443], [(''Cloudflare'', None)], 30, NEW)]"

definition demo_findings :: "demo_finding list" where
  "demo_findings =
    [(2, ''Citrix NetScaler session token disclosure (CitrixBleed)'', Some ''CVE-2023-4966'', 47 / 5, CRITICAL, CONFIRMED,
       ''The appliance leaks session tokens from uninitialised memory, allowing an unauthenticated attacker to hijack ''
       @ ''an authenticated session and bypass MFA.'',
       ''Upgrade to 13.1-49.15 or later, then terminate all active sessions ''
       @ em_dash
       @ '' patching alone does not invalidate tokens already stolen.''),
     (5, ''Spring Framework RCE via data binding (Spring4Shell)'', Some ''CVE-2022-22965'', 49 / 5, CRITICAL, OPEN,
       ''Spring Boot 2.6.3 on JDK 9+ permits remote code execution through crafted request parameters that reach the ''
       @ ''class loader via data binding.'',
       ''Upgrade Spring Framework to 5.3.18 / 5.2.20 or later.''),
     (1, ''OpenSSH signal handler race condition (regreSSHion)'', Some ''CVE-2024-6387'', 81 / 10, HIGH, TRIAGED,
       ''A race in the SIGALRM handler allows unauthenticated remote code execution as root on glibc-based systems. ''
       @ ''Exploitation is slow but repeatable.'',
       ''Upgrade to OpenSSH 9.8p1, or set LoginGraceTime=0 as an interim mitigation.''),
     (4, ''PostgreSQL reachable from the public internet'', None, 15 / 2, HIGH, OPEN,
       ''Port 5432 is open to 0.0.0.0/0 on a staging host. A database port on a public interface is exposed to ''
       @ ''credential stuffing and any unauthenticated CVE.'',
       ''Bind PostgreSQL to localhost or a private subnet and place it behind the VPN.''),
     (5, ''HTTP/2 rapid reset denial of service'', Some ''CVE-2023-44487'', 15 / 2, HIGH, OPEN,
       ''The HTTP/2 implementation permits rapid stream creation and cancellation, letting a single connection exhaust ''
       @ ''server resources.'',
       ''Upgrade Tomcat and enable per-connection stream limits.''),
     (1, ''TLS 1.0 and 1.1 still enabled'', None, 53 / 10, MEDIUM, OPEN,
       ''The endpoint negotiates deprecated protocol versions with known weaknesses.'',
       ''Restrict the server to TLS 1.2 and 1.3.''),
     (4, ''Development server exposed on port 3000'', None, 5, MEDIUM, TRIAGED,
       ''A Node development server is reachable externally. These ship verbose errors and source maps, and are not ''
       @ ''hardened for public exposure.'',
       ''Firewall the port or serve a production build behind the reverse proxy.''),
     (3, ''SMTP server allows legacy STARTTLS downgrade'', None, 43 / 10, MEDIUM, OPEN,
       ''The mail server accepts a plaintext fallback when STARTTLS negotiation fails.'',
       ''Require TLS for all submission traffic on 587.''),
     (6, ''Apache version disclosed in Server header'', None, 13 / 5, LOW, ACCEPTED_RISK,
       ''The Server header reveals the exact version, helping an attacker select exploits.'',
       ''Set ServerTokens Prod.''),
     (0, ''Missing HTTP Strict-Transport-Security header'', None, 31 / 10, LOW, REMEDIATED,
       ''Without HSTS a first request over HTTP can be intercepted before redirect.'',
       ''Add Strict-Transport-Security with a max-age of at least six months.''),
     (7, ''Certificate expires in 21 days'', None, 0, INFO, OPEN,
       ''The TLS certificate is approaching expiry. An expired certificate is a full outage for every browser client.'',
       ''Renew and confirm automated renewal is actually running.'')]"

section \<open>The rows\<close>

definition demo_org :: "nat \<Rightarrow> org_row" where
  "demo_org i =
    \<lparr>og_id = i, og_name = ''DemoCorp'', og_domain = demo_domain, og_verified = [demo_domain, ''internal.'' @ demo_domain],
     og_active = True, og_webhook = None\<rparr>"

definition demo_user :: "nat \<Rightarrow> nat \<Rightarrow> string \<Rightarrow> string \<Rightarrow> user_role \<Rightarrow> string \<Rightarrow> user_row" where
  "demo_user i org email name role hash =
    \<lparr>us_id = i, us_org = org, us_email = email, us_name = Some name, us_role = role, us_password_hash = hash, us_active = True,
     us_last_login = None, us_token_version = 0\<rparr>"

definition demo_asset_row :: "nat \<Rightarrow> int \<Rightarrow> nat \<Rightarrow> nat \<Rightarrow> demo_asset \<Rightarrow> asset_row" where
  "demo_asset_row org now k i x =
    (case x of (label, ip, risk, ports, tech, age, status) \<Rightarrow>
      \<lparr>at_id = i, at_org = org, at_hostname = label @ ''.'' @ demo_domain, at_ip = Some ip,
       at_ports = map (\<lambda>p. \<lparr>pe_port = Some p, pe_protocol = ''tcp'', pe_state = Some ''open'', pe_service = None, pe_banner = None\<rparr>) ports,
       at_tech = map (\<lambda>(n, v). \<lparr>te_name = Some n, te_version = v, te_categories = [], te_confidence = 0, te_cpe = None\<rparr>) tech,
       at_risk = risk, at_last_scanned = Some (now - int k * 3 * us_hour), at_status = status, at_source = Some ''seed'',
       at_first_seen = Some (now - age * us_day), at_notes = None, at_created = now\<rparr>)"

definition demo_finding_row :: "(string \<Rightarrow> string) \<Rightarrow> nat \<Rightarrow> int \<Rightarrow> nat list \<Rightarrow> nat \<Rightarrow> demo_finding \<Rightarrow> finding_row" where
  "demo_finding_row sha org now assets i x =
    (case x of (idx, title, cve, cvss, severity, status, description, remediation) \<Rightarrow>
      \<lparr>fi_id = i, fi_org = org, fi_asset = Some (assets ! idx), fi_scan = None, fi_title = title, fi_cve = cve, fi_cvss = Some cvss,
       fi_vector = None, fi_severity = severity, fi_description = Some description, fi_remediation = Some remediation,
       fi_status = status, fi_source = Some ''seed'', fi_fingerprint = build_fingerprint sha (Some (assets ! idx)) title cve None,
       fi_evidence = [], fi_references = [], fi_first_seen = Some (now - 3 * us_day), fi_last_seen = Some now,
       fi_resolved = (if status = REMEDIATED then Some now else None), fi_created = now\<rparr>)"

section \<open>The script\<close>

text \<open>A row after the other; None is a violated constraint.\<close>

fun insert_demo_assets :: "nat \<Rightarrow> int \<Rightarrow> nat \<Rightarrow> demo_asset list \<Rightarrow> estate \<Rightarrow> estate option" where
  "insert_demo_assets org now k [] es = Some es"
| "insert_demo_assets org now k (x # xs) es =
     Option.bind (insert_asset (demo_asset_row org now k (next_id es) x) es) (insert_demo_assets org now (k + 1) xs)"

fun insert_demo_findings :: "(string \<Rightarrow> string) \<Rightarrow> nat \<Rightarrow> int \<Rightarrow> nat list \<Rightarrow> demo_finding list \<Rightarrow> estate \<Rightarrow> estate option" where
  "insert_demo_findings sha org now assets [] es = Some es"
| "insert_demo_findings sha org now assets (x # xs) es =
     Option.bind (insert_finding (demo_finding_row sha org now assets (next_id es) x) es) (insert_demo_findings sha org now assets xs)"

definition seed_tenant :: "crypto \<Rightarrow> nat \<Rightarrow> nat \<Rightarrow> estate \<Rightarrow> estate" where
  "seed_tenant cy salt salt' es =
    (let db = es_db es; n = db_next db in
     es\<lparr>es_db := db\<lparr>db_next := n + 3, db_orgs := db_orgs db @ [demo_org n],
       db_users := db_users db @
         [demo_user (n + 1) n demo_email ''Demo Owner'' OWNER (hash_password cy demo_password salt),
          demo_user (n + 2) n (''viewer@'' @ demo_domain) ''Demo Viewer'' VIEWER (hash_password cy demo_password salt')]\<rparr>\<rparr>)"

definition plant :: "(string \<Rightarrow> string) \<Rightarrow> crypto \<Rightarrow> nat \<Rightarrow> nat \<Rightarrow> int \<Rightarrow> estate \<Rightarrow> estate option" where
  "plant sha cy salt salt' now es =
    (let org = next_id es; es1 = seed_tenant cy salt salt' es; assets = [next_id es1..<next_id es1 + length demo_assets] in
     Option.bind (insert_demo_assets org now 0 demo_assets es1) (insert_demo_findings sha org now assets demo_findings))"

text \<open>Deleting an organisation: every table refers to it with \<open>ON DELETE CASCADE\<close>.\<close>

definition drop_tenant :: "nat \<Rightarrow> estate \<Rightarrow> estate" where
  "drop_tenant org es =
    (let db = es_db es; scans = map sn_id (filter (\<lambda>s. sn_org s = org) (db_scans db)) in
     es\<lparr>es_db := db\<lparr>db_orgs := delete_where (\<lambda>g. og_id g = org) (db_orgs db), db_users := delete_where (\<lambda>u. us_org u = org) (db_users db),
          db_sessions := delete_where (\<lambda>s. se_org s = org) (db_sessions db), db_claims := delete_where (\<lambda>c. cl_org c = org) (db_claims db),
          db_scans := delete_where (\<lambda>s. sn_org s = org) (db_scans db), db_logs := delete_where (\<lambda>l. lg_scan l \<in> set scans) (db_logs db),
          db_schedules := delete_where (\<lambda>s. sc_org s = org) (db_schedules db),
          db_reports := delete_where (\<lambda>r. rp_org r = org) (db_reports db)\<rparr>,
        es_assets := delete_where (\<lambda>a. at_org a = org) (es_assets es),
        es_findings := delete_where (\<lambda>f. fi_org f = org) (es_findings es)\<rparr>)"

datatype seeding = Already_there | Seeded | Violated

definition seed :: "(string \<Rightarrow> string) \<Rightarrow> crypto \<Rightarrow> nat \<Rightarrow> nat \<Rightarrow> int \<Rightarrow> bool \<Rightarrow> estate \<Rightarrow> estate \<times> seeding" where
  "seed sha cy salt salt' now reset es =
    (let existing = find (\<lambda>g. og_domain g = demo_domain) (db_orgs (es_db es)) in
     if existing \<noteq> None \<and> \<not> reset then (es, Already_there)
     else let es0 = (case existing of None \<Rightarrow> es | Some g \<Rightarrow> drop_tenant (og_id g) es) in
       case plant sha cy salt salt' now es0 of None \<Rightarrow> (es0, Violated) | Some es' \<Rightarrow> (es', Seeded))"

section \<open>What is planted\<close>

lemma demo_assets_planted:
  assumes "insert_demo_assets org now k xs es = Some es'"
  shows "\<exists>rows. es' = es\<lparr>es_db := (es_db es)\<lparr>db_next := next_id es + length xs\<rparr>, es_assets := es_assets es @ rows\<rparr> \<and>
    map at_id rows = [next_id es..<next_id es + length xs] \<and> list_all (\<lambda>a. at_org a = org) rows"
  using assms
proof (induction xs arbitrary: k es)
  case (Cons x xs)
  let ?a = "demo_asset_row org now k (next_id es) x"
  have a: "at_id ?a = next_id es" "at_org ?a = org" by (simp_all add: demo_asset_row_def split: prod.splits)
  from Cons.prems have step: "insert_demo_assets org now (k + 1) xs ((take_id es)\<lparr>es_assets := es_assets es @ [?a]\<rparr>) = Some es'"
    by (auto simp: insert_asset_def split: if_splits)
  obtain rows where rows: "es' = es\<lparr>es_db := (es_db es)\<lparr>db_next := Suc (next_id es) + length xs\<rparr>, es_assets := es_assets es @ ?a # rows\<rparr>"
      "map at_id rows = [Suc (next_id es)..<Suc (next_id es) + length xs]" "list_all (\<lambda>a. at_org a = org) rows"
    using Cons.IH [OF step] by (auto simp: take_id_def)
  show ?case
    by (rule exI [of _ "?a # rows"]) (use rows a in \<open>simp add: upt_conv_Cons del: upt_Suc\<close>)
qed simp


lemma demo_findings_planted:
  assumes "insert_demo_findings sha org now assets xs es = Some es'"
  shows "\<exists>rows. es' = es\<lparr>es_db := (es_db es)\<lparr>db_next := next_id es + length xs\<rparr>, es_findings := es_findings es @ rows\<rparr> \<and>
    list_all (\<lambda>f. fi_org f = org) rows"
  using assms
proof (induction xs arbitrary: es)
  case (Cons x xs)
  let ?f = "demo_finding_row sha org now assets (next_id es) x"
  have f: "fi_org ?f = org" by (simp add: demo_finding_row_def split: prod.splits)
  from Cons.prems have step: "insert_demo_findings sha org now assets xs ((take_id es)\<lparr>es_findings := es_findings es @ [?f]\<rparr>) = Some es'"
    by (auto simp: insert_finding_def split: if_splits)
  obtain rows where "es' = es\<lparr>es_db := (es_db es)\<lparr>db_next := Suc (next_id es) + length xs\<rparr>, es_findings := es_findings es @ ?f # rows\<rparr>"
      "list_all (\<lambda>f. fi_org f = org) rows"
    using Cons.IH [OF step] by (auto simp: take_id_def)
  then show ?case using f by (intro exI [of _ "?f # rows"]) simp
qed (auto intro: exI [of _ "[]"])

text \<open>Inserting is a chain of effects on behalf of the new organisation.\<close>

lemma demo_assets_effects:
  assumes "insert_demo_assets org now k xs es = Some es'" and "list_all (\<lambda>(l, i, risk, r). 0 \<le> risk \<and> risk \<le> 100) xs"
  shows "effects_of org es es'"
  using assms
proof (induction xs arbitrary: k es)
  case (Cons x xs)
  let ?a = "demo_asset_row org now k (next_id es) x"
  have new: "asset_key ?a \<notin> asset_key ` set (es_assets es)"
    and rest: "insert_demo_assets org now (k + 1) xs ((take_id es)\<lparr>es_assets := es_assets es @ [?a]\<rparr>) = Some es'"
    using Cons.prems(1) by (auto simp: insert_asset_def split: if_splits)
  have "effect_of org es ((take_id es)\<lparr>es_assets := es_assets es @ [?a]\<rparr>)"
    by (rule add_asset [OF _ _ _ new]) (use Cons.prems(2) in \<open>auto simp: demo_asset_row_def risk_ok_def split: prod.splits\<close>)
  then show ?case using Cons.IH [OF rest] Cons.prems(2) by (auto intro: effects_then [OF effect_once])
qed simp

lemma demo_findings_effects:
  assumes "insert_demo_findings sha org now assets xs es = Some es'"
    and "list_all (\<lambda>x. fst x < length assets) xs" and "\<And>i. i \<in> set assets \<Longrightarrow> (i, org) \<in> asset_tag ` set (es_assets es)"
  shows "effects_of org es es'"
  using assms
proof (induction xs arbitrary: es)
  case (Cons x xs)
  let ?f = "demo_finding_row sha org now assets (next_id es) x"
  have new: "finding_key ?f \<notin> finding_key ` set (es_findings es)"
    and rest: "insert_demo_findings sha org now assets xs ((take_id es)\<lparr>es_findings := es_findings es @ [?f]\<rparr>) = Some es'"
    using Cons.prems(1) by (auto simp: insert_finding_def split: if_splits)
  have "tenant_ok (es_assets es) ?f"
    using Cons.prems(2,3) by (auto simp: demo_finding_row_def tenant_ok_def split: prod.splits)
  then have "effect_of org es ((take_id es)\<lparr>es_findings := es_findings es @ [?f]\<rparr>)"
    by (intro add_finding [OF _ _ _ new]) (auto simp: demo_finding_row_def split: prod.splits)
  moreover have "effects_of org ((take_id es)\<lparr>es_findings := es_findings es @ [?f]\<rparr>) es'"
    by (rule Cons.IH [OF rest]) (use Cons.prems(2,3) in simp_all)
  ultimately show ?case by (auto intro: effects_then [OF effect_once])
qed simp

lemma demo_data_ok:
  "list_all (\<lambda>(l, i, risk, r). 0 \<le> risk \<and> risk \<le> 100) demo_assets \<and> list_all (\<lambda>x. fst x < length demo_assets) demo_findings"
  by code_simp

text \<open>Planting the demo keeps an inventory consistent and leaves every other organisation's rows alone.\<close>

lemma plant_effects:
  assumes "plant sha cy salt salt' now es = Some es'"
  shows "effects_of (next_id es) es es'"
proof -
  let ?es1 = "seed_tenant cy salt salt' es"
  let ?assets = "[next_id ?es1..<next_id ?es1 + length demo_assets]"
  obtain es2 where es2: "insert_demo_assets (next_id es) now 0 demo_assets ?es1 = Some es2"
      "insert_demo_findings sha (next_id es) now ?assets demo_findings es2 = Some es'"
    using assms by (auto simp: plant_def Let_def simp del: insert_demo_assets.simps insert_demo_findings.simps split: bind_splits)
  have "effect_of (next_id es) es ?es1" unfolding seed_tenant_def Let_def by (rule other_tables) simp
  moreover have "effects_of (next_id es) ?es1 es2" using demo_assets_effects [OF es2(1)] demo_data_ok by blast
  moreover have "effects_of (next_id es) es2 es'"
  proof (rule demo_findings_effects [OF es2(2)])
    obtain rows where rows: "es_assets es2 = es_assets ?es1 @ rows" "map at_id rows = ?assets" "list_all (\<lambda>a. at_org a = next_id es) rows"
      using demo_assets_planted [OF es2(1)] by auto
    fix i assume "i \<in> set ?assets"
    then obtain a where "a \<in> set rows" "at_id a = i" using rows(2) by (metis in_set_conv_nth length_map list.set_map image_iff)
    then show "(i, next_id es) \<in> asset_tag ` set (es_assets es2)" using rows(1,3) by (force simp: asset_tag_def list_all_iff)
  qed (use demo_data_ok in simp)
  ultimately show ?thesis by (meson effect_once effects_then)
qed


lemma estate_ok_drop_tenant:
  assumes "estate_ok es"
  shows "estate_ok (drop_tenant org es)"
proof (rule estate_okI)
  fix f assume f: "f \<in> set (es_findings (drop_tenant org es))"
  then have "f \<in> set (es_findings es)" "fi_org f \<noteq> org" by (simp_all add: drop_tenant_def Let_def)
  then show "fi_id f < next_id (drop_tenant org es) \<and> tenant_ok (es_assets (drop_tenant org es)) f"
    using estate_okD(7,8) [OF assms, of f]
    by (force simp: drop_tenant_def Let_def tenant_ok_def asset_tag_def split: option.splits)
qed (use estate_okD [OF assms] in \<open>auto simp: drop_tenant_def Let_def intro: distinct_map_delete_where\<close>)

text \<open>The rows of one organisation.\<close>

definition rows_of :: "nat \<Rightarrow> estate \<Rightarrow> org_row list \<times> user_row list \<times> scan_row list \<times> asset_row list \<times> finding_row list" where
  "rows_of org es =
    (filter (\<lambda>g. og_id g = org) (db_orgs (es_db es)), filter (\<lambda>u. us_org u = org) (db_users (es_db es)),
     filter (\<lambda>s. sn_org s = org) (db_scans (es_db es)), filter (\<lambda>a. at_org a = org) (es_assets es),
     filter (\<lambda>f. fi_org f = org) (es_findings es))"

lemma rows_of_drop_tenant: "o' \<noteq> org \<Longrightarrow> rows_of o' (drop_tenant org es) = rows_of o' es"
  by (auto simp: rows_of_def drop_tenant_def Let_def delete_where_def intro!: filter_cong)

lemma rows_of_plant:
  assumes "plant sha cy salt salt' now es = Some es'" and "o' \<noteq> next_id es"
  shows "rows_of o' es' = rows_of o' es"
proof -
  obtain es2 where es2: "insert_demo_assets (next_id es) now 0 demo_assets (seed_tenant cy salt salt' es) = Some es2"
      "insert_demo_findings sha (next_id es) now
        [next_id (seed_tenant cy salt salt' es)..<next_id (seed_tenant cy salt salt' es) + length demo_assets] demo_findings es2 = Some es'"
    using assms(1) by (auto simp: plant_def Let_def simp del: insert_demo_assets.simps insert_demo_findings.simps split: bind_splits)
  obtain rows where rows: "es_assets es2 = es_assets es @ rows" "list_all (\<lambda>a. at_org a = next_id es) rows" "es_findings es2 = es_findings es"
      "rows_of o' es2 = (case rows_of o' (seed_tenant cy salt salt' es) of (g, u, s, a, f) \<Rightarrow> (g, u, s, a @ filter (\<lambda>a. at_org a = o') rows, f))"
    using demo_assets_planted [OF es2(1)] by (auto simp: rows_of_def) (simp add: seed_tenant_def Let_def)
  obtain rows' where rows': "list_all (\<lambda>f. fi_org f = next_id es) rows'"
      "rows_of o' es' = (case rows_of o' es2 of (g, u, s, a, f) \<Rightarrow> (g, u, s, a, f @ filter (\<lambda>f. fi_org f = o') rows'))"
    using demo_findings_planted [OF es2(2)] by (auto simp: rows_of_def)
  have "filter (\<lambda>a. at_org a = o') rows = []" "filter (\<lambda>f. fi_org f = o') rows' = []"
    using rows(2) rows'(1) assms(2) by (auto simp: filter_empty_conv list_all_iff)
  moreover have "rows_of o' (seed_tenant cy salt salt' es) = rows_of o' es"
    using assms(2) by (simp add: rows_of_def seed_tenant_def Let_def demo_org_def demo_user_def)
  ultimately show ?thesis using rows(4) rows'(2) by (simp add: rows_of_def)
qed

text \<open>
  Whatever the database holds, with or without \<open>--reset\<close>: the script leaves a consistent
  inventory and, of every organisation that is not the demo, exactly the rows it had.
\<close>

lemma seeding_is_confined:
  assumes "estate_ok es" and "seed sha cy salt salt' now reset es = (es', r)"
  shows "estate_ok es' \<and> (o' \<noteq> next_id es \<longrightarrow> (\<forall>g \<in> set (db_orgs (es_db es)). og_id g = o' \<longrightarrow> og_domain g \<noteq> demo_domain) \<longrightarrow>
    rows_of o' es' = rows_of o' es)"
proof -
  have planted: "estate_ok e' \<and> (o' \<noteq> next_id e \<longrightarrow> rows_of o' e' = rows_of o' e)"
    if "estate_ok e" "plant sha cy salt salt' now e = Some e'" for e e'
    using effects_keep_estate [OF plant_effects [OF that(2)] that(1)] rows_of_plant [OF that(2)] by blast
  show ?thesis
  proof (cases "find (\<lambda>g. og_domain g = demo_domain) (db_orgs (es_db es))")
    case None
    then show ?thesis using assms planted [OF assms(1)] by (auto simp: seed_def split: option.splits)
  next
    case (Some g)
    let ?e = "drop_tenant (og_id g) es"
    have g: "g \<in> set (db_orgs (es_db es))" "og_domain g = demo_domain" using find_SomeD [OF Some] by simp_all
    have "next_id ?e = next_id es" by (simp add: drop_tenant_def Let_def)
    then show ?thesis using assms Some g planted [OF estate_ok_drop_tenant [OF assms(1)], of "og_id g"]
        estate_ok_drop_tenant [OF assms(1), of "og_id g"] rows_of_drop_tenant [of o' "og_id g" es]
      by (auto simp: seed_def Let_def split: if_splits option.splits)
  qed
qed


section \<open>The script runs through, once\<close>

text \<open>What identifies a finding beside its asset; the eleven differ in it.\<close>

definition demo_identity :: "demo_finding \<Rightarrow> string" where
  "demo_identity x = (case x of (idx, title, cve, r) \<Rightarrow> lower (strip (case cve of None \<Rightarrow> title | Some c \<Rightarrow> if c = [] then title else c)))"

lemma demo_data_distinct:
  "distinct (map fst demo_assets)" "distinct (map demo_identity demo_findings)"
  by code_simp+

lemma after_bar: "a @ CHR ''|'' # r = b @ CHR ''|'' # s \<Longrightarrow> CHR ''|'' \<notin> set a \<Longrightarrow> CHR ''|'' \<notin> set b \<Longrightarrow> r = s"
proof (induction a arbitrary: b)
  case Nil
  then show ?case by (cases b) auto
next
  case (Cons c a)
  then show ?case by (cases b) auto
qed

lemma demo_fingerprint:
  "fi_fingerprint (demo_finding_row sha org now assets i x) = sha (dec (int (assets ! fst x)) @ ''|'' @ demo_identity x @ ''|-'')"
  by (auto simp: demo_finding_row_def demo_identity_def build_fingerprint_def fingerprint_text_def id_text_def split: prod.splits option.splits)

lemma demo_fingerprints_differ:
  assumes "inj sha" and "demo_identity x \<noteq> demo_identity y"
  shows "fi_fingerprint (demo_finding_row sha org now assets i x) \<noteq> fi_fingerprint (demo_finding_row sha org now assets j y)"
proof
  assume "fi_fingerprint (demo_finding_row sha org now assets i x) = fi_fingerprint (demo_finding_row sha org now assets j y)"
  then have "dec (int (assets ! fst x)) @ CHR ''|'' # demo_identity x @ ''|-'' = dec (int (assets ! fst y)) @ CHR ''|'' # demo_identity y @ ''|-''"
    using assms(1) by (simp add: demo_fingerprint inj_eq)
  moreover have "\<not> is_ascii_digit (CHR ''|'')" by code_simp
  then have "CHR ''|'' \<notin> set (dec (int n))" for n using dec_digits [of "int n" "CHR ''|''"] by auto
  ultimately have "demo_identity x @ ''|-'' = demo_identity y @ ''|-''" by (blast dest: after_bar)
  then show False using assms(2) by simp
qed

lemma demo_assets_fit:
  assumes "distinct (map fst xs)" and "\<And>a x. a \<in> set (es_assets es) \<Longrightarrow> x \<in> set xs \<Longrightarrow> asset_key a \<noteq> (org, fst x @ ''.'' @ demo_domain)"
  shows "insert_demo_assets org now k xs es \<noteq> None"
  using assms
proof (induction xs arbitrary: k es)
  case (Cons x xs)
  let ?a = "demo_asset_row org now k (next_id es) x"
  have key: "asset_key ?a = (org, fst x @ ''.'' @ demo_domain)" by (simp add: asset_key_def demo_asset_row_def split: prod.splits)
  have "insert_demo_assets org now (k + 1) xs ((take_id es)\<lparr>es_assets := es_assets es @ [?a]\<rparr>) \<noteq> None"
  proof (rule Cons.IH)
    fix a y
    assume "a \<in> set (es_assets ((take_id es)\<lparr>es_assets := es_assets es @ [?a]\<rparr>))" and y: "y \<in> set xs"
    then consider "a \<in> set (es_assets es)" | "a = ?a" by auto
    then show "asset_key a \<noteq> (org, fst y @ ''.'' @ demo_domain)"
    proof cases
      case 1
      then show ?thesis using Cons.prems(2) [of a y] y by simp
    next
      case 2
      have "fst x \<noteq> fst y" using Cons.prems(1) y by force
      then show ?thesis using key 2 by simp
    qed
  qed (use Cons.prems(1) in simp)
  moreover have "asset_key ?a \<notin> asset_key ` set (es_assets es)" using Cons.prems(2) key by (metis imageE list.set_intros(1))
  ultimately show ?case by (simp add: insert_asset_def)
qed simp

lemma demo_findings_fit:
  assumes "inj sha" and "distinct (map demo_identity xs)"
    and "\<And>f x i. f \<in> set (es_findings es) \<Longrightarrow> x \<in> set xs \<Longrightarrow> finding_key f \<noteq> finding_key (demo_finding_row sha org now assets i x)"
  shows "insert_demo_findings sha org now assets xs es \<noteq> None"
  using assms(2,3)
proof (induction xs arbitrary: es)
  case (Cons x xs)
  let ?f = "demo_finding_row sha org now assets (next_id es) x"
  have apart: "finding_key ?f \<noteq> finding_key (demo_finding_row sha org now assets i y)" if y: "y \<in> set xs" for i y
  proof -
    have "demo_identity x \<noteq> demo_identity y" using Cons.prems(1) y by force
    then show ?thesis using demo_fingerprints_differ [OF assms(1), of x y] by (simp add: finding_key_def)
  qed
  have "insert_demo_findings sha org now assets xs ((take_id es)\<lparr>es_findings := es_findings es @ [?f]\<rparr>) \<noteq> None"
  proof (rule Cons.IH)
    fix f y i
    assume "f \<in> set (es_findings ((take_id es)\<lparr>es_findings := es_findings es @ [?f]\<rparr>))" and y: "y \<in> set xs"
    then consider "f \<in> set (es_findings es)" | "f = ?f" by auto
    then show "finding_key f \<noteq> finding_key (demo_finding_row sha org now assets i y)"
      by cases (use Cons.prems(2) [of f y i] apart [OF y, of i] y in simp_all)
  qed (use Cons.prems(1) in simp)
  moreover have "finding_key ?f \<notin> finding_key ` set (es_findings es)" using Cons.prems(2) by (metis imageE list.set_intros(1))
  ultimately show ?case by (simp add: insert_finding_def)
qed simp

lemma plant_fits:
  assumes "inj sha" and "\<And>a. a \<in> set (es_assets es) \<Longrightarrow> at_org a \<noteq> next_id es" and "\<And>f. f \<in> set (es_findings es) \<Longrightarrow> fi_org f \<noteq> next_id es"
  shows "plant sha cy salt salt' now es \<noteq> None"
proof -
  let ?es1 = "seed_tenant cy salt salt' es"
  have same: "es_assets ?es1 = es_assets es" "es_findings ?es1 = es_findings es" by (simp_all add: seed_tenant_def Let_def)
  obtain es2 where es2: "insert_demo_assets (next_id es) now 0 demo_assets ?es1 = Some es2"
    using demo_assets_fit [OF demo_data_distinct(1), of ?es1 "next_id es"] assms(2) same by (force simp: asset_key_def)
  have "es_findings es2 = es_findings es" using demo_assets_planted [OF es2] same by auto
  then have "insert_demo_findings sha (next_id es) now assets demo_findings es2 \<noteq> None" for assets
    by (intro demo_findings_fit [OF assms(1) demo_data_distinct(2)])
      (use assms(3) in \<open>auto simp: finding_key_def demo_finding_row_def split: prod.splits\<close>)
  then show ?thesis using es2 by (simp add: plant_def Let_def del: insert_demo_assets.simps insert_demo_findings.simps)
qed

lemma plant_db:
  assumes "plant sha cy salt salt' now es = Some es'"
  shows "db_orgs (es_db es') = db_orgs (es_db es) @ [demo_org (next_id es)] \<and> db_claims (es_db es') = db_claims (es_db es)"
proof -
  obtain es2 assets where es2: "insert_demo_assets (next_id es) now 0 demo_assets (seed_tenant cy salt salt' es) = Some es2"
      "insert_demo_findings sha (next_id es) now assets demo_findings es2 = Some es'"
    using assms by (auto simp: plant_def Let_def simp del: insert_demo_assets.simps insert_demo_findings.simps split: bind_splits)
  show ?thesis using demo_assets_planted [OF es2(1)] demo_findings_planted [OF es2(2)] by (auto simp: seed_tenant_def Let_def)
qed

text \<open>
  Where rows refer to organisations that exist, the script runs through: the demo is stored
  once, and running it again changes nothing.
\<close>

lemma demo_is_seeded_once:
  assumes "inj sha" and "list_all (\<lambda>a. at_org a < next_id es) (es_assets es)" and "list_all (\<lambda>f. fi_org f < next_id es) (es_findings es)"
    and "find (\<lambda>g. og_domain g = demo_domain) (db_orgs (es_db es)) = None"
  shows "\<exists>es'. seed sha cy salt salt' now reset es = (es', Seeded) \<and>
    (\<forall>salt salt' now. seed sha cy salt salt' now False es' = (es', Already_there))"
proof -
  obtain es' where es': "plant sha cy salt salt' now es = Some es'"
    using plant_fits [OF assms(1), of es] assms(2,3) by (fastforce simp: list_all_iff)
  have "demo_org (next_id es) \<in> set (db_orgs (es_db es'))" using plant_db [OF es'] by simp
  then have "find (\<lambda>g. og_domain g = demo_domain) (db_orgs (es_db es')) \<noteq> None"
    by (auto simp: find_None_iff demo_org_def)
  then show ?thesis using es' assms(4) by (auto simp: seed_def Let_def)
qed


section \<open>What the demo may do\<close>

text \<open>The password passes the policy of the registration form, and every host the scope guard.\<close>

lemma demo_credentials_pass:
  "validate_register demo_email ''DemoCorp'' demo_domain demo_password (Some ''Demo Owner'') = Inr demo_domain"
  by code_simp

lemma demo_hosts_in_scope:
  "list_all (\<lambda>h. assert_in_scope h (all_domains (demo_org i)) False = Inr h)
     ((''internal.'' @ demo_domain) # map (\<lambda>x. fst x @ ''.'' @ demo_domain) demo_assets)"
  by code_simp

text \<open>
  The demo may scan its domains without a proof: the script writes \<open>verified_domains\<close> and no
  claim, which no history of the API can do. The sweep goes by claims and never looks at it.
\<close>

lemma demo_authority_is_unproved:
  assumes "plant sha cy salt salt' now es = Some es'" and "list_all (\<lambda>c. cl_org c < next_id es) (db_claims (es_db es))"
  shows "\<not> claims_ok (es_db es')"
proof
  assume "claims_ok (es_db es')"
  then have "verified_claim (es_db es') (next_id es) demo_domain"
    using plant_db [OF assms(1)] by (simp add: claims_ok_def demo_org_def)
  then show False
    using plant_db [OF assms(1)] assms(2) by (auto simp: verified_claim_def claim_key_def list_ex_iff list_all_iff)
qed

definition no_estate :: estate where
  "no_estate =
    \<lparr>es_db = \<lparr>db_next = 1, db_orgs = [], db_users = [], db_sessions = [], db_claims = [], db_scans = [], db_logs = [], db_schedules = [],
       db_reports = []\<rparr>, es_assets = [], es_findings = []\<rparr>"

lemma demo_is_seeded_once_witness:
  "\<exists>es'. seed id dotted_crypto 0 1 us_day False no_estate = (es', Seeded) \<and>
    seed id dotted_crypto 2 3 us_day False es' = (es', Already_there) \<and> estate_ok es' \<and> \<not> claims_ok (es_db es')"
proof -
  obtain es' where es': "seed id dotted_crypto 0 1 us_day False no_estate = (es', Seeded)"
      "\<forall>salt salt' now. seed id dotted_crypto salt salt' now False es' = (es', Already_there)"
    using demo_is_seeded_once [of id no_estate dotted_crypto 0 1 us_day False] by (auto simp: no_estate_def)
  have none: "find (\<lambda>g. og_domain g = demo_domain) (db_orgs (es_db no_estate)) = None" by (simp add: no_estate_def)
  have "estate_ok no_estate" by (simp add: estate_ok_def no_estate_def)
  then have "estate_ok es'" using seeding_is_confined es'(1) by blast
  moreover have "plant id dotted_crypto 0 1 us_day no_estate = Some es'"
    using es'(1) none by (simp add: seed_def Let_def split: option.splits)
  then have "\<not> claims_ok (es_db es')" by (rule demo_authority_is_unproved) (simp add: no_estate_def)
  ultimately show ?thesis using es' by blast
qed

end
