(* ===== verification/Payloads.thy ===== *)
theory Payloads
  imports Auth Inventory Schedules
begin

text \<open>
  What the API answers with: the response models of \<open>schemas/\<close> that are built from a row, with the
  values derived on the way (\<open>models/domain_verification.py\<close>, \<open>models/scan.py\<close>). A creation time
  that the row of the model does not carry is an argument.
\<close>

section \<open>Domain claims\<close>

definition record_name :: "claim_row \<Rightarrow> string" where
  "record_name c = challenge_label @ ''.'' @ cl_domain c"

definition apex_record_value :: "claim_row \<Rightarrow> string" where
  "apex_record_value c = apex_prefix @ cl_token c"

definition is_verified :: "claim_row \<Rightarrow> bool" where
  "is_verified c = (cl_status c = CLAIM_VERIFIED)"

record verification_out =
  vo_id :: nat
  vo_domain :: string
  vo_status :: claim_status
  vo_verified_at :: "int option"
  vo_last_checked :: "int option"
  vo_last_error :: "string option"
  vo_created :: int
  vo_record_name :: "string option"
  vo_record_value :: "string option"
  vo_apex_name :: "string option"
  vo_apex_value :: "string option"

definition verification_out_of :: "int \<Rightarrow> claim_row \<Rightarrow> verification_out" where
  "verification_out_of created c =
    (let pending = \<not> is_verified c; shown = (\<lambda>s. if pending then Some s else None) in
     \<lparr>vo_id = cl_id c, vo_domain = cl_domain c, vo_status = cl_status c, vo_verified_at = cl_verified_at c,
      vo_last_checked = cl_last_checked c, vo_last_error = cl_last_error c, vo_created = created,
      vo_record_name = shown (record_name c), vo_record_value = shown (cl_token c),
      vo_apex_name = shown (cl_domain c), vo_apex_value = shown (apex_record_value c)\<rparr>)"

section \<open>Schedules and scans\<close>

record schedule_out =
  so_row :: schedule_row
  so_created :: int
  so_text :: "string option"

definition schedule_out_of :: "int \<Rightarrow> schedule_row \<Rightarrow> schedule_out" where
  "schedule_out_of created s = \<lparr>so_row = s, so_created = created, so_text = Some (describe s)\<rparr>"

definition duration :: "int \<Rightarrow> scan_row \<Rightarrow> int option" where
  "duration now s =
    (case sn_started s of None \<Rightarrow> None | Some t \<Rightarrow> Some ((case sn_completed s of None \<Rightarrow> now | Some u \<Rightarrow> u) - t))"

record scan_out =
  no_id :: nat
  no_org :: nat
  no_target :: string
  no_status :: scan_status
  no_started :: "int option"
  no_completed :: "int option"
  no_config :: json_object
  no_stage :: "string option"
  no_progress :: int
  no_assets :: int
  no_findings :: int
  no_error :: "string option"
  no_created :: int
  no_duration :: "int option"

definition scan_out_of :: "int \<Rightarrow> scan_row \<Rightarrow> scan_out" where
  "scan_out_of now s =
    \<lparr>no_id = sn_id s, no_org = sn_org s, no_target = sn_target s, no_status = sn_status s, no_started = sn_started s,
     no_completed = sn_completed s, no_config = sn_config s, no_stage = sn_stage s, no_progress = sn_progress s,
     no_assets = sn_assets s, no_findings = sn_findings s, no_error = sn_error s, no_created = sn_created s,
     no_duration = duration now s\<rparr>"

section \<open>Findings and users\<close>

record finding_out =
  fo_row :: finding_row
  fo_hostname :: "string option"

definition finding_out_of :: "estate \<Rightarrow> nat \<Rightarrow> finding_row \<Rightarrow> finding_out" where
  "finding_out_of es org f = \<lparr>fo_row = f, fo_hostname = hostname_for es org f\<rparr>"

record user_out =
  uo_id :: nat
  uo_org :: nat
  uo_email :: string
  uo_name :: "string option"
  uo_role :: user_role
  uo_active :: bool
  uo_last_login :: "int option"
  uo_created :: int

definition user_out_of :: "int \<Rightarrow> user_row \<Rightarrow> user_out" where
  "user_out_of created u =
    \<lparr>uo_id = us_id u, uo_org = us_org u, uo_email = us_email u, uo_name = us_name u, uo_role = us_role u, uo_active = us_active u,
     uo_last_login = us_last_login u, uo_created = created\<rparr>"

section \<open>Secrets\<close>

text \<open>
  What an answer does not depend on it cannot give away: the password hash and the token version
  of a user, and the challenge token of a claim that is verified.
\<close>

lemma answers_keep_secrets:
  "user_out_of created (u\<lparr>us_password_hash := h, us_token_version := v\<rparr>) = user_out_of created u \<and>
   (is_verified c \<longrightarrow> verification_out_of created (c\<lparr>cl_token := t\<rparr>) = verification_out_of created c)"
  by (simp add: user_out_of_def verification_out_of_def is_verified_def Let_def)

section \<open>The instructions\<close>

text \<open>A name server that follows them: one of the two records is published as shown.\<close>

definition holds_record :: "resolver \<Rightarrow> string option \<Rightarrow> string option \<Rightarrow> bool" where
  "holds_record dns name text =
    (case (name, text) of (Some n, Some v) \<Rightarrow> (case dns n of Txt_records rs \<Rightarrow> [v] \<in> set rs | _ \<Rightarrow> False) | _ \<Rightarrow> False)"

definition follows :: "resolver \<Rightarrow> verification_out \<Rightarrow> bool" where
  "follows dns out \<longleftrightarrow>
    holds_record dns (vo_record_name out) (vo_record_value out) \<or> holds_record dns (vo_apex_name out) (vo_apex_value out)"

definition token_like :: "string \<Rightarrow> bool" where
  "token_like t \<longleftrightarrow> t \<noteq> [] \<and> list_all (\<lambda>c. \<not> is_space c) t"

lemma strip_token: "list_all (\<lambda>c. \<not> is_space c) t \<Longrightarrow> strip t = t"
  by (auto simp: strip_def list_all_iff intro: strip_if_free)

lemma looked_up: "dns n = Txt_records rs \<Longrightarrow> [v] \<in> set rs \<Longrightarrow> token_like v \<Longrightarrow> v \<in> set (tl_values (lookup_txt n dns))"
  using strip_token [of v] by (force simp: lookup_txt_def token_like_def)

lemma instructions_pass_the_check:
  assumes "token_like (cl_token c)" and "follows dns (verification_out_of created c)"
  shows "dc_ok (check_domain_token (cl_domain c) (cl_token c) dns)"
proof -
  have "list_all (\<lambda>c. \<not> is_space c) apex_prefix" by code_simp
  then have apex: "token_like (apex_prefix @ cl_token c)" using assms(1) by (simp add: token_like_def)
  show ?thesis
    using assms(2) looked_up [OF _ _ assms(1), of dns] looked_up [OF _ _ apex, of dns]
    by (auto simp: follows_def holds_record_def verification_out_of_def record_name_def apex_record_value_def check_domain_token_def
        Let_def split: if_splits dns_answer.splits)
qed

text \<open>
  C31: the instructions work. Whoever publishes one of the two records a claim is shown with, before
  its token expires and within the rate limit, gets the domain verified and the authority to
  scan it; from then on the claim is shown without its token.
\<close>

theorem following_the_instructions_verifies:
  assumes "load_claim db i org = Inr c" and "\<not> is_verified c" and "\<not> token_expired now c" and "token_like (cl_token c)"
    and "follows dns (verification_out_of created c)" and "load_org db org = Inr g"
    and "fst (enforce (rs_enabled rs) client (domain_verify_rule rs) (dec (int org)) redis) = Allowed"
  shows "\<exists>redis' db' g' c'. verify_domain rs client dns now token i org (redis, db) = ((redis', db'), Inr Verified) \<and>
    load_org db' org = Inr g' \<and> cl_domain c \<in> set (og_verified g') \<and>
    load_claim db' i org = Inr c' \<and> vo_record_value (verification_out_of created c') = None"
proof -
  let ?db' = "update_org org (grant (cl_domain c)) (update_claim i (verify_claim now) db)"
  obtain redis' where enf: "enforce (rs_enabled rs) client (domain_verify_rule rs) (dec (int org)) redis = (Allowed, redis')"
    using assms(7) by (metis prod.collapse)
  have ok: "dc_ok (check_domain_token (cl_domain c) (cl_token c) dns)" by (rule instructions_pass_the_check [OF assms(4,5)])
  have run: "verify_domain rs client dns now token i org (redis, db) = ((redis', ?db'), Inr Verified)"
    using assms(1,2,3,6) ok enf by (simp add: verify_domain_def is_verified_def)
  have "org_by_id db org = Some g" using assms(6) by (simp add: load_org_def split: option.splits)
  then have "load_org ?db' org = Inr (grant (cl_domain c) g)"
    using row_by_SomeD [of og_id org "db_orgs db" g] by (simp add: load_org_def org_by_id_def row_by_update grant_def Let_def)
  moreover have "cl_domain c \<in> set (og_verified (grant (cl_domain c) g))" by (simp add: grant_def Let_def)
  moreover have c: "find_claim db i org = Some c" using assms(1) by (simp add: load_claim_def split: option.splits)
  then have "find_claim ?db' i org = Some (verify_claim now c)"
    using find_claimD [OF c] unfolding find_claim_def by (simp add: find_update_where verify_claim_def)
  then have "load_claim ?db' i org = Inr (verify_claim now c)" by (simp add: load_claim_def)
  ultimately show ?thesis using run by (auto simp: verification_out_of_def is_verified_def verify_claim_def)
qed


text \<open>A claim that was just added, the record of its answer in the zone, and the check.\<close>

definition fresh_claim_db :: db where
  "fresh_claim_db =
    fst (add_domain default_settings 0 ''tok-1'' 1 2 ''acme.com''
      \<lparr>db_next = 7, db_orgs = [\<lparr>og_id = 1, og_name = ''A'', og_domain = ''acme.com'', og_verified = [], og_active = True, og_webhook = None\<rparr>],
       db_users = [], db_sessions = [], db_claims = [], db_scans = [], db_logs = [], db_schedules = [], db_reports = []\<rparr>)"

definition obedient_zone :: resolver where
  "obedient_zone n = (if n = ''_surfacewatch-challenge.acme.com'' then Txt_records [[''tok-1'']] else No_such_record)"

theorem following_the_instructions_verifies_witness:
  "\<exists>redis' db' g'. verify_domain (default_rate_settings\<lparr>rs_enabled := False\<rparr>) rd_client obedient_zone 5 ''tok-2'' 7 1 (rd_empty, fresh_claim_db) =
      ((redis', db'), Inr Verified) \<and> load_org db' 1 = Inr g' \<and> ''acme.com'' \<in> set (og_verified g')"
proof -
  have "case load_claim fresh_claim_db 7 1 of Inl _ \<Rightarrow> False | Inr c \<Rightarrow> \<not> is_verified c \<and> \<not> token_expired 5 c \<and> token_like (cl_token c) \<and>
      cl_domain c = ''acme.com'' \<and> follows obedient_zone (verification_out_of 0 c) \<and>
      (case load_org fresh_claim_db 1 of Inl _ \<Rightarrow> False | Inr _ \<Rightarrow> True)"
    by code_simp
  then obtain c g where c: "load_claim fresh_claim_db 7 1 = Inr c" "\<not> is_verified c" "\<not> token_expired 5 c" "token_like (cl_token c)"
      "cl_domain c = ''acme.com''" "follows obedient_zone (verification_out_of 0 c)" "load_org fresh_claim_db 1 = Inr g"
    by (auto split: sum.splits)
  show ?thesis
    using following_the_instructions_verifies [OF c(1-4,6,7), of "default_rate_settings\<lparr>rs_enabled := False\<rparr>" rd_client rd_empty "''tok-2''"] c(5)
    by (auto simp: enforce_def)
qed

end
