(* ===== verification/ClaudeApi.thy ===== *)
theory ClaudeApi
  imports AiRemediation ReportHtml
begin

text \<open>
  The request of \<open>call_claude\<close> (\<open>services/ai_remediation.py\<close>): where it goes, what it carries, and the
  asking of the model that theory AiRemediation takes as given, made of it and of the network.
  A dash of the instructions stands as its bytes.
\<close>

section \<open>The instructions\<close>

definition system_prompt :: string where
  \<open>system_prompt =
    ''You are a vulnerability remediation engineer writing for another engineer who has to fix this specific host today. You''
    @ '' are given one CVE and the real observed configuration of the affected asset.''
    @ nl
    @ nl
    @ ''Write remediation that could only have been written for this host. Ground every step in the facts provided ''
    @ em_dash
    @ '' the exact''
    @ '' version running, the ports actually open, the other technologies detected on the same host.''
    @ nl
    @ nl
    @ ''Rules you must follow:''
    @ nl
    @ nl
    @ ''1. NEVER invent a fixed version number, patch identifier, or advisory URL. If the provided facts do not establish which''
    @ '' release fixes this CVE, say so plainly and tell the reader where to confirm it. A wrong version number here gets''
    @ '' someone owned while they believe they are patched.''
    @ nl
    @ ''2. Distinguish what you know from what you are inferring. If the reasoning depends on an assumption (for example that''
    @ '' the distro package backports fixes, or that a proxy terminates TLS), state the assumption.''
    @ nl
    @ ''3. Prefer the mitigation that is actually available on this host. If an open port makes the exploit path reachable, say''
    @ '' which port. If nothing in the provided facts suggests the service is reachable, say that the exposure may be lower than''
    @ '' the CVSS score implies and why.''
    @ nl
    @ ''4. No filler. No "it is important to keep software up to date". Every sentence must carry information specific to this''
    @ '' finding.''
    @ nl
    @ nl
    @ ''Respond with a JSON object and nothing else:''
    @ nl
    @ nl
    @ ''{''
    @ nl
    @ ''  "summary": "One sentence: what an attacker gets from this, on this host.",''
    @ nl
    @ ''  "steps": ["Ordered, concrete actions. 2-5 of them."],''
    @ nl
    @ ''  "mitigation": "What to do right now if the fix cannot ship today, or null.",''
    @ nl
    @ ''  "exposure_note": "Why this host's configuration raises or lowers the real risk versus the base CVSS, or null.",''
    @ nl
    @ ''  "confidence": "high" | "medium" | "low",''
    @ nl
    @ ''  "uncertain": ["Anything you could not determine from the facts given. Empty list if nothing."]''
    @ nl
    @ ''}''
    @ nl\<close>

section \<open>The request\<close>

record api_request =
  aq_url :: string
  aq_headers :: "(string \<times> string) list"
  aq_body :: json

definition messages_url :: string where
  "messages_url = ''https://api.anthropic.com/v1/messages''"

definition claude_headers :: "ai_settings \<Rightarrow> (string \<times> string) list" where
  "claude_headers cfg =
    [(''x-api-key'', ai_key cfg), (''anthropic-version'', ''2023-06-01''), (''content-type'', ''application/json'')]"

definition claude_body :: "ai_settings \<Rightarrow> int \<Rightarrow> string \<Rightarrow> json" where
  "claude_body cfg max_tokens prompt =
    JObj [(''model'', JStr (ai_model cfg)), (''max_tokens'', JNum (of_int max_tokens)), (''system'', JStr system_prompt),
          (''messages'', JList [JObj [(''role'', JStr ''user''), (''content'', JStr prompt)]])]"

definition claude_request :: "ai_settings \<Rightarrow> int \<Rightarrow> string \<Rightarrow> api_request" where
  "claude_request cfg max_tokens prompt =
    \<lparr>aq_url = messages_url, aq_headers = claude_headers cfg, aq_body = claude_body cfg max_tokens prompt\<rparr>"

text \<open>Asking over a network: the request goes out, the network's reply comes back.\<close>

definition asked :: "(api_request \<Rightarrow> api_answer) \<Rightarrow> ai_settings \<Rightarrow> int \<Rightarrow> claude" where
  "asked post cfg max_tokens prompt = post (claude_request cfg max_tokens prompt)"

text \<open>The settings an installation starts with.\<close>

definition default_ai_settings :: ai_settings where
  "default_ai_settings = \<lparr>ai_enabled = True, ai_key = [], ai_model = ''claude-sonnet-5'', ai_max_per_scan = 60\<rparr>"

definition default_max_tokens :: int where
  "default_max_tokens = 1200"

section \<open>What leaves\<close>

text \<open>
  Two networks that answer alike where the service's own address is asked give the same advice:
  nothing is asked elsewhere. The key travels in its header alone.
\<close>

lemma claude_is_asked_only:
  assumes "\<And>q. aq_url q = messages_url \<Longrightarrow> post q = post' q"
  shows "ai_remediation_run cfg (out\<lparr>ao_claude := asked post cfg n\<rparr>) now ctx ids cache es =
    ai_remediation_run cfg (out\<lparr>ao_claude := asked post' cfg n\<rparr>) now ctx ids cache es"
proof -
  have "asked post cfg n = asked post' cfg n" using assms by (simp add: fun_eq_iff asked_def claude_request_def)
  then show ?thesis by simp
qed

text \<open>Without a key nothing is asked at all.\<close>

lemma nothing_is_asked_without_a_key:
  assumes "strip (ai_key cfg) = []"
  shows "ai_remediation_run cfg (out\<lparr>ao_claude := asked post cfg n\<rparr>) now ctx ids cache es =
    ai_remediation_run cfg (out\<lparr>ao_claude := asked post' cfg n\<rparr>) now ctx ids cache es"
  using assms by (simp add: ai_remediation_run_def ai_active_def)

lemma key_in_its_header_only:
  "claude_request (cfg\<lparr>ai_key := k\<rparr>) n prompt =
    (claude_request cfg n prompt)\<lparr>aq_headers := (''x-api-key'', k) # tl (aq_headers (claude_request cfg n prompt))\<rparr>"
  by (simp add: claude_request_def claude_headers_def claude_body_def)

end
