(* ===== verification/Routes.thy ===== *)
theory Routes
  imports AuthHistory
begin

text \<open>
  The routes of the API: every endpoint with its method, its path and whom it lets in, as the
  decorators and the annotated dependencies of \<open>routes/\<close> and \<open>main.py\<close> declare them, the routers in
  the order \<open>main.py\<close> includes them, and the choice of the router: the first route whose method
  and path fit. The socket of the live log is not among them.
\<close>

section \<open>Endpoints\<close>

datatype http_method = GET | POST | PUT | PATCH | DELETE
datatype segment = Lit string | Param
datatype access = Anyone | Signed_in | At_least user_role
datatype endpoint = Endpoint (ep_name: string) (ep_method: http_method) (ep_path: "segment list") (ep_access: access)

definition ep_register :: endpoint where
  "ep_register = Endpoint ''register'' POST [Lit ''api'', Lit ''auth'', Lit ''register''] Anyone"

definition ep_login :: endpoint where
  "ep_login = Endpoint ''login'' POST [Lit ''api'', Lit ''auth'', Lit ''login''] Anyone"

definition ep_refresh :: endpoint where
  "ep_refresh = Endpoint ''refresh'' POST [Lit ''api'', Lit ''auth'', Lit ''refresh''] Anyone"

definition ep_logout :: endpoint where
  "ep_logout = Endpoint ''logout'' POST [Lit ''api'', Lit ''auth'', Lit ''logout''] Anyone"

definition ep_me :: endpoint where
  "ep_me = Endpoint ''me'' GET [Lit ''api'', Lit ''auth'', Lit ''me''] Signed_in"

definition ep_my_organisation :: endpoint where
  "ep_my_organisation = Endpoint ''my_organisation'' GET [Lit ''api'', Lit ''auth'', Lit ''organisation''] Signed_in"

definition ep_set_slack_webhook :: endpoint where
  "ep_set_slack_webhook = Endpoint ''set_slack_webhook'' PUT [Lit ''api'', Lit ''auth'', Lit ''organisation'', Lit ''slack-webhook''] (At_least ADMIN)"

definition ep_test_slack_webhook :: endpoint where
  "ep_test_slack_webhook = Endpoint ''test_slack_webhook'' POST [Lit ''api'', Lit ''auth'', Lit ''organisation'', Lit ''slack-webhook'', Lit ''test''] (At_least ADMIN)"

definition ep_change_password :: endpoint where
  "ep_change_password = Endpoint ''change_password'' POST [Lit ''api'', Lit ''auth'', Lit ''password''] Signed_in"

definition ep_list_users :: endpoint where
  "ep_list_users = Endpoint ''list_users'' GET [Lit ''api'', Lit ''auth'', Lit ''users''] Signed_in"

definition ep_invite_user :: endpoint where
  "ep_invite_user = Endpoint ''invite_user'' POST [Lit ''api'', Lit ''auth'', Lit ''users''] (At_least ADMIN)"

definition ep_deactivate_user :: endpoint where
  "ep_deactivate_user = Endpoint ''deactivate_user'' DELETE [Lit ''api'', Lit ''auth'', Lit ''users'', Param] (At_least ADMIN)"

definition ep_list_domains :: endpoint where
  "ep_list_domains = Endpoint ''list_domains'' GET [Lit ''api'', Lit ''auth'', Lit ''organisation'', Lit ''domains''] (At_least ANALYST)"

definition ep_add_domain :: endpoint where
  "ep_add_domain = Endpoint ''add_domain'' POST [Lit ''api'', Lit ''auth'', Lit ''organisation'', Lit ''domains''] (At_least ADMIN)"

definition ep_verify_domain :: endpoint where
  "ep_verify_domain = Endpoint ''verify_domain'' POST [Lit ''api'', Lit ''auth'', Lit ''organisation'', Lit ''domains'', Param, Lit ''verify''] (At_least ADMIN)"

definition ep_delete_domain :: endpoint where
  "ep_delete_domain = Endpoint ''delete_domain'' DELETE [Lit ''api'', Lit ''auth'', Lit ''organisation'', Lit ''domains'', Param] (At_least ADMIN)"

definition ep_create_scan :: endpoint where
  "ep_create_scan = Endpoint ''create_scan'' POST [Lit ''api'', Lit ''scans''] (At_least ANALYST)"

definition ep_list_scans :: endpoint where
  "ep_list_scans = Endpoint ''list_scans'' GET [Lit ''api'', Lit ''scans''] Signed_in"

definition ep_scan_stats :: endpoint where
  "ep_scan_stats = Endpoint ''scan_stats'' GET [Lit ''api'', Lit ''scans'', Lit ''stats''] Signed_in"

definition ep_get_scan :: endpoint where
  "ep_get_scan = Endpoint ''get_scan'' GET [Lit ''api'', Lit ''scans'', Param] Signed_in"

definition ep_get_scan_logs :: endpoint where
  "ep_get_scan_logs = Endpoint ''get_scan_logs'' GET [Lit ''api'', Lit ''scans'', Param, Lit ''logs''] Signed_in"

definition ep_cancel_scan :: endpoint where
  "ep_cancel_scan = Endpoint ''cancel_scan'' POST [Lit ''api'', Lit ''scans'', Param, Lit ''cancel''] (At_least ANALYST)"

definition ep_delete_scan :: endpoint where
  "ep_delete_scan = Endpoint ''delete_scan'' DELETE [Lit ''api'', Lit ''scans'', Param] (At_least ANALYST)"

definition ep_list_schedules :: endpoint where
  "ep_list_schedules = Endpoint ''list_schedules'' GET [Lit ''api'', Lit ''schedules''] (At_least ANALYST)"

definition ep_create_schedule :: endpoint where
  "ep_create_schedule = Endpoint ''create_schedule'' POST [Lit ''api'', Lit ''schedules''] (At_least ADMIN)"

definition ep_get_schedule :: endpoint where
  "ep_get_schedule = Endpoint ''get_schedule'' GET [Lit ''api'', Lit ''schedules'', Param] (At_least ANALYST)"

definition ep_update_schedule :: endpoint where
  "ep_update_schedule = Endpoint ''update_schedule'' PATCH [Lit ''api'', Lit ''schedules'', Param] (At_least ADMIN)"

definition ep_run_schedule_now :: endpoint where
  "ep_run_schedule_now = Endpoint ''run_schedule_now'' POST [Lit ''api'', Lit ''schedules'', Param, Lit ''run''] (At_least ANALYST)"

definition ep_delete_schedule :: endpoint where
  "ep_delete_schedule = Endpoint ''delete_schedule'' DELETE [Lit ''api'', Lit ''schedules'', Param] (At_least ADMIN)"

definition ep_list_assets :: endpoint where
  "ep_list_assets = Endpoint ''list_assets'' GET [Lit ''api'', Lit ''assets''] Signed_in"

definition ep_create_asset :: endpoint where
  "ep_create_asset = Endpoint ''create_asset'' POST [Lit ''api'', Lit ''assets''] (At_least ANALYST)"

definition ep_asset_stats :: endpoint where
  "ep_asset_stats = Endpoint ''asset_stats'' GET [Lit ''api'', Lit ''assets'', Lit ''stats''] Signed_in"

definition ep_asset_graph :: endpoint where
  "ep_asset_graph = Endpoint ''asset_graph'' GET [Lit ''api'', Lit ''assets'', Lit ''graph''] Signed_in"

definition ep_get_asset :: endpoint where
  "ep_get_asset = Endpoint ''get_asset'' GET [Lit ''api'', Lit ''assets'', Param] Signed_in"

definition ep_asset_findings :: endpoint where
  "ep_asset_findings = Endpoint ''asset_findings'' GET [Lit ''api'', Lit ''assets'', Param, Lit ''findings''] Signed_in"

definition ep_update_asset :: endpoint where
  "ep_update_asset = Endpoint ''update_asset'' PATCH [Lit ''api'', Lit ''assets'', Param] (At_least ANALYST)"

definition ep_delete_asset :: endpoint where
  "ep_delete_asset = Endpoint ''delete_asset'' DELETE [Lit ''api'', Lit ''assets'', Param] (At_least ANALYST)"

definition ep_list_findings :: endpoint where
  "ep_list_findings = Endpoint ''list_findings'' GET [Lit ''api'', Lit ''findings''] Signed_in"

definition ep_create_finding :: endpoint where
  "ep_create_finding = Endpoint ''create_finding'' POST [Lit ''api'', Lit ''findings''] (At_least ANALYST)"

definition ep_finding_stats :: endpoint where
  "ep_finding_stats = Endpoint ''finding_stats'' GET [Lit ''api'', Lit ''findings'', Lit ''stats''] Signed_in"

definition ep_get_finding :: endpoint where
  "ep_get_finding = Endpoint ''get_finding'' GET [Lit ''api'', Lit ''findings'', Param] Signed_in"

definition ep_update_finding :: endpoint where
  "ep_update_finding = Endpoint ''update_finding'' PATCH [Lit ''api'', Lit ''findings'', Param] (At_least ANALYST)"

definition ep_delete_finding :: endpoint where
  "ep_delete_finding = Endpoint ''delete_finding'' DELETE [Lit ''api'', Lit ''findings'', Param] (At_least ANALYST)"

definition ep_dashboard :: endpoint where
  "ep_dashboard = Endpoint ''dashboard'' GET [Lit ''api'', Lit ''reports'', Lit ''dashboard''] Signed_in"

definition ep_create_report :: endpoint where
  "ep_create_report = Endpoint ''create_report'' POST [Lit ''api'', Lit ''reports''] (At_least ANALYST)"

definition ep_list_reports :: endpoint where
  "ep_list_reports = Endpoint ''list_reports'' GET [Lit ''api'', Lit ''reports''] Signed_in"

definition ep_get_report :: endpoint where
  "ep_get_report = Endpoint ''get_report'' GET [Lit ''api'', Lit ''reports'', Param] Signed_in"

definition ep_download_report :: endpoint where
  "ep_download_report = Endpoint ''download_report'' GET [Lit ''api'', Lit ''reports'', Param, Lit ''download''] Signed_in"

definition ep_delete_report :: endpoint where
  "ep_delete_report = Endpoint ''delete_report'' DELETE [Lit ''api'', Lit ''reports'', Param] (At_least ANALYST)"

definition ep_health :: endpoint where
  "ep_health = Endpoint ''health'' GET [Lit ''health''] Anyone"

definition ep_readiness :: endpoint where
  "ep_readiness = Endpoint ''readiness'' GET [Lit ''health'', Lit ''ready''] Anyone"

definition ep_root :: endpoint where
  "ep_root = Endpoint ''root'' GET [] Anyone"

definition auth_router :: "endpoint list" where
  "auth_router =
    [ep_register, ep_login, ep_refresh, ep_logout, ep_me, ep_my_organisation, ep_set_slack_webhook,
     ep_test_slack_webhook, ep_change_password, ep_list_users, ep_invite_user, ep_deactivate_user]"

definition domains_router :: "endpoint list" where
  "domains_router =
    [ep_list_domains, ep_add_domain, ep_verify_domain, ep_delete_domain]"

definition scans_router :: "endpoint list" where
  "scans_router =
    [ep_create_scan, ep_list_scans, ep_scan_stats, ep_get_scan, ep_get_scan_logs, ep_cancel_scan, ep_delete_scan]"

definition schedules_router :: "endpoint list" where
  "schedules_router =
    [ep_list_schedules, ep_create_schedule, ep_get_schedule, ep_update_schedule, ep_run_schedule_now, ep_delete_schedule]"

definition assets_router :: "endpoint list" where
  "assets_router =
    [ep_list_assets, ep_create_asset, ep_asset_stats, ep_asset_graph, ep_get_asset, ep_asset_findings, ep_update_asset,
     ep_delete_asset]"

definition findings_router :: "endpoint list" where
  "findings_router =
    [ep_list_findings, ep_create_finding, ep_finding_stats, ep_get_finding, ep_update_finding, ep_delete_finding]"

definition reports_router :: "endpoint list" where
  "reports_router =
    [ep_dashboard, ep_create_report, ep_list_reports, ep_get_report, ep_download_report, ep_delete_report]"

definition api_routes :: "endpoint list" where
  "api_routes =
    auth_router @ domains_router @ scans_router @ schedules_router @ assets_router @ findings_router @ reports_router
    @ [ep_health, ep_readiness, ep_root]"

lemmas router_defs = auth_router_def domains_router_def scans_router_def schedules_router_def assets_router_def findings_router_def
  reports_router_def

section \<open>Routing\<close>

fun fits :: "segment list \<Rightarrow> string list \<Rightarrow> bool" where
  "fits [] [] = True"
| "fits (Lit s # ps) (x # xs) = (s = x \<and> fits ps xs)"
| "fits (Param # ps) (x # xs) = (x \<noteq> [] \<and> fits ps xs)"
| "fits ps xs = False"

datatype routing = Routed endpoint | Method_not_allowed | No_route

definition route_to :: "endpoint list \<Rightarrow> http_method \<Rightarrow> string list \<Rightarrow> routing" where
  "route_to routes m path =
    (case find (\<lambda>e. fits (ep_path e) path \<and> ep_method e = m) routes of
       Some e \<Rightarrow> Routed e
     | None \<Rightarrow> if list_ex (\<lambda>e. fits (ep_path e) path) routes then Method_not_allowed else No_route)"

text \<open>The dependency of an endpoint that decides who gets in.\<close>

fun admit :: "crypto \<Rightarrow> int \<Rightarrow> string option \<Rightarrow> db \<Rightarrow> access \<Rightarrow> http_error + current_user option" where
  "admit cy now credentials db Anyone = Inr None"
| "admit cy now credentials db Signed_in = map_sum id Some (get_current_user cy now credentials db)"
| "admit cy now credentials db (At_least r) = map_sum id Some (with_role cy now credentials db r)"

section \<open>No endpoint hides another\<close>

text \<open>A path of an endpoint, with one value in the place of every parameter.\<close>

definition path_with :: "string \<Rightarrow> segment list \<Rightarrow> string list" where
  "path_with v p = map (\<lambda>s. case s of Lit t \<Rightarrow> t | Param \<Rightarrow> v) p"

fun covers :: "segment list \<Rightarrow> segment list \<Rightarrow> bool" where
  "covers [] [] = True"
| "covers (Lit s # ps) (Lit t # qs) = (s = t \<and> covers ps qs)"
| "covers (Param # ps) (Lit t # qs) = (t \<noteq> [] \<and> covers ps qs)"
| "covers (Param # ps) (Param # qs) = covers ps qs"
| "covers ps qs = False"

definition literals :: "endpoint list \<Rightarrow> string list" where
  "literals routes = concat (map (\<lambda>e. List.map_filter (\<lambda>s. case s of Lit t \<Rightarrow> Some t | Param \<Rightarrow> None) (ep_path e)) routes)"

lemma fits_path_with: "v \<noteq> [] \<Longrightarrow> Lit v \<notin> set p \<Longrightarrow> fits p (path_with v q) = covers p q"
  by (induction p q rule: covers.induct) (auto simp: path_with_def split: segment.splits)

lemma literal_of: "e \<in> set routes \<Longrightarrow> Lit v \<in> set (ep_path e) \<Longrightarrow> v \<in> set (literals routes)"
  by (force simp: literals_def map_filter_def)

lemma routes_apart: "list_all (\<lambda>e. find (\<lambda>e'. covers (ep_path e') (ep_path e) \<and> ep_method e' = ep_method e) api_routes = Some e) api_routes"
  by code_simp

text \<open>
  Every endpoint is reached at its own path, whatever stands in the place of its parameter, as
  long as it is not one of the fixed words of the API: no earlier route takes its requests.
\<close>

lemma every_endpoint_is_reached:
  assumes "e \<in> set api_routes" and "v \<noteq> []" and "v \<notin> set (literals api_routes)"
  shows "route_to api_routes (ep_method e) (path_with v (ep_path e)) = Routed e"
proof -
  have "find (\<lambda>e'. fits (ep_path e') (path_with v (ep_path e)) \<and> ep_method e' = ep_method e) api_routes =
      find (\<lambda>e'. covers (ep_path e') (ep_path e) \<and> ep_method e' = ep_method e) api_routes"
    using fits_path_with [OF assms(2)] literal_of assms(3) by (intro find_cong) blast+
  then show ?thesis using routes_apart assms(1) by (simp add: route_to_def list_all_iff)
qed

section \<open>Whom the API lets in\<close>

definition open_endpoints :: "string list" where
  "open_endpoints = [''register'', ''login'', ''refresh'', ''logout'', ''health'', ''readiness'', ''root'']"

definition own_account :: "string list" where
  "own_account = [''register'', ''login'', ''refresh'', ''logout'', ''change_password'']"

lemma route_to_mem: "route_to routes m path = Routed e \<Longrightarrow> e \<in> set routes \<and> ep_method e = m \<and> fits (ep_path e) path"
  by (auto simp: route_to_def dest: find_SomeD split: option.splits if_splits)

lemma routes_guarded:
  "list_all (\<lambda>e. (ep_access e = Anyone \<longrightarrow> ep_name e \<in> set open_endpoints) \<and>
    (ep_method e \<noteq> GET \<longrightarrow> ep_name e \<in> set own_account \<or> ep_access e \<in> {At_least ANALYST, At_least ADMIN})) api_routes"
  by code_simp

text \<open>
  Without a valid token nothing but the public endpoints answers, and a viewer changes nothing
  but its own session and password: every other request that is not a GET is turned away with
  403 before its handler runs, whatever its path.
\<close>

lemma api_is_guarded:
  assumes "route_to api_routes m path = Routed e"
  shows "(get_current_user cy now cred db = Inl err \<longrightarrow> ep_name e \<notin> set open_endpoints \<longrightarrow> admit cy now cred db (ep_access e) = Inl err) \<and>
    (get_current_user cy now cred db = Inr u \<longrightarrow> cu_role u = VIEWER \<longrightarrow> m \<noteq> GET \<longrightarrow> ep_name e \<notin> set own_account \<longrightarrow>
      (\<exists>text. admit cy now cred db (ep_access e) = Inl (Http_error 403 text)))"
proof -
  have e: "e \<in> set api_routes" "ep_method e = m" using route_to_mem [OF assms] by simp_all
  then have g: "ep_access e = Anyone \<longrightarrow> ep_name e \<in> set open_endpoints"
      "m \<noteq> GET \<longrightarrow> ep_name e \<in> set own_account \<or> ep_access e \<in> {At_least ANALYST, At_least ADMIN}"
    using routes_guarded by (auto simp: list_all_iff)
  show ?thesis
    using g by (cases "ep_access e") (auto simp: with_role_def require_role_def at_least_def)
qed

end
