(* ===== verification/Workers.thy ===== *)
theory Workers
  imports Platform Pipeline
begin

text \<open>
  The worker processes: the configuration of \<open>workers/celery_app.py\<close>, the database sockets of a
  forked child (\<open>db/database.py\<close>), the lines that \<open>core/request_context.py\<close> makes safe to format,
  and the context that \<open>workers/context.py\<close> sends from stage to stage. The text of an id is its
  numeral.
\<close>

section \<open>The Celery application\<close>

record celery_conf =
  cc_name :: string
  cc_broker :: string
  cc_backend :: string
  cc_include :: "string list"
  cc_task_serializer :: string
  cc_result_serializer :: string
  cc_accept :: "string list"
  cc_timezone :: string
  cc_utc :: bool
  cc_prefetch :: int
  cc_acks_late :: bool
  cc_reject_lost :: bool
  cc_track_started :: bool
  cc_result_expires :: int
  cc_soft_limit :: int
  cc_time_limit :: int
  cc_visibility :: int
  cc_routes :: "(string \<times> string) list"
  cc_beat :: "(string \<times> beat_rule) list"

definition celery_app :: "app_config \<Rightarrow> celery_conf" where
  "celery_app cfg =
    \<lparr>cc_name = ''surfacewatch'', cc_broker = ap_broker_url cfg, cc_backend = ap_result_backend cfg,
     cc_include =
       [''workers.orchestrator'', ''workers.subdomain_enum'', ''workers.port_scanner'', ''workers.fingerprinter'', ''workers.cve_correlator'',
        ''workers.ai_remediation'', ''workers.change_detector'', ''workers.report_builder'', ''workers.notifier'', ''workers.scheduler''],
     cc_task_serializer = ''json'', cc_result_serializer = ''json'', cc_accept = [''json''], cc_timezone = ''UTC'', cc_utc = True,
     cc_prefetch = 1, cc_acks_late = True, cc_reject_lost = True, cc_track_started = True, cc_result_expires = 60 * 60 * 24,
     cc_soft_limit = 3300, cc_time_limit = 3600, cc_visibility = 3600, cc_routes = task_routes, cc_beat = beat_schedule\<rparr>"

section \<open>Sockets across a fork\<close>

text \<open>
  The sockets the pool of each process holds, in the order of the processes, those that are still
  open at the server, and the next one to be opened.
\<close>

record fleet =
  fl_pools :: "nat list list"
  fl_open :: "nat list"
  fl_next :: nat

definition connect :: "nat \<Rightarrow> fleet \<Rightarrow> fleet" where
  "connect i fl =
    (if i < length (fl_pools fl)
     then fl\<lparr>fl_pools := (fl_pools fl)[i := fl_next fl # fl_pools fl ! i], fl_open := fl_next fl # fl_open fl, fl_next := fl_next fl + 1\<rparr>
     else fl)"

text \<open>A fork copies the handles; forgetting the pool closes its sockets at the server or only drops the handles.\<close>

definition fork_child :: "nat \<Rightarrow> fleet \<Rightarrow> fleet" where
  "fork_child i fl = (if i < length (fl_pools fl) then fl\<lparr>fl_pools := fl_pools fl @ [fl_pools fl ! i]\<rparr> else fl)"

definition dispose :: "bool \<Rightarrow> nat \<Rightarrow> fleet \<Rightarrow> fleet" where
  "dispose close i fl =
    (if i < length (fl_pools fl)
     then fl\<lparr>fl_pools := (fl_pools fl)[i := []],
             fl_open := (if close then filter (\<lambda>s. s \<notin> set (fl_pools fl ! i)) (fl_open fl) else fl_open fl)\<rparr>
     else fl)"

definition dispose_inherited_pools :: "nat \<Rightarrow> fleet \<Rightarrow> fleet" where
  "dispose_inherited_pools i fl = dispose False i fl"

definition start_worker :: "nat \<Rightarrow> fleet \<Rightarrow> fleet" where
  "start_worker parent fl = dispose_inherited_pools (length (fl_pools fl)) (fork_child parent fl)"

datatype fleet_event = Connects nat | Starts nat | Drops nat

fun fleet_step :: "fleet \<Rightarrow> fleet_event \<Rightarrow> fleet" where
  "fleet_step fl (Connects i) = connect i fl"
| "fleet_step fl (Starts i) = start_worker i fl"
| "fleet_step fl (Drops i) = dispose True i fl"

definition fleet_ok :: "fleet \<Rightarrow> bool" where
  "fleet_ok fl \<longleftrightarrow> distinct (concat (fl_pools fl)) \<and> set (concat (fl_pools fl)) \<subseteq> set (fl_open fl) \<and>
    list_all (\<lambda>s. s < fl_next fl) (fl_open fl)"

lemma fleet_at:
  assumes "i < length (fl_pools fl)"
  obtains A p B where "fl_pools fl = A @ p # B" "length A = i"
proof
  show "fl_pools fl = take i (fl_pools fl) @ fl_pools fl ! i # drop (Suc i) (fl_pools fl)" by (rule id_take_nth_drop [OF assms])
  show "length (take i (fl_pools fl)) = i" using assms by simp
qed

lemma fleet_ok_connect: "fleet_ok fl \<Longrightarrow> fleet_ok (connect i fl)"
proof (cases "i < length (fl_pools fl)")
  case True
  assume ok: "fleet_ok fl"
  obtain A p B where AB: "fl_pools fl = A @ p # B" "length A = i" by (rule fleet_at [OF True])
  have "fl_next fl \<notin> set (fl_open fl)" using ok by (auto simp: fleet_ok_def list_all_iff)
  then show ?thesis
    using ok AB by (auto simp: connect_def fleet_ok_def nth_append list_update_append list_all_iff less_Suc_eq)
qed (simp add: connect_def)

lemma fleet_ok_dispose: "fleet_ok fl \<Longrightarrow> fleet_ok (dispose close i fl)"
proof (cases "i < length (fl_pools fl)")
  case True
  assume ok: "fleet_ok fl"
  obtain A p B where AB: "fl_pools fl = A @ p # B" "length A = i" by (rule fleet_at [OF True])
  show ?thesis
    using ok AB by (auto simp: dispose_def fleet_ok_def nth_append list_update_append list_all_iff)
qed (simp add: dispose_def)

lemma fleet_ok_start: "fleet_ok fl \<Longrightarrow> fleet_ok (start_worker i fl)"
  by (auto simp: start_worker_def dispose_inherited_pools_def dispose_def fork_child_def fleet_ok_def)

lemma fleet_ok_step: "fleet_ok fl \<Longrightarrow> fleet_ok (fleet_step fl e)"
  by (cases e) (simp_all add: fleet_ok_connect fleet_ok_dispose fleet_ok_start)

interpretation fleet: kept_system fleet_step fleet_ok
  by unfold_locales (rule fleet_ok_step)

definition one_process :: fleet where
  "one_process = \<lparr>fl_pools = [[]], fl_open = [], fl_next = 0\<rparr>"

lemma shared_socket: "distinct (concat ps) \<Longrightarrow> i < j \<Longrightarrow> j < length ps \<Longrightarrow> set (ps ! i) \<inter> set (ps ! j) = {}"
proof (induction ps arbitrary: i j)
  case (Cons p ps)
  from Cons.prems(2) obtain k where j: "j = Suc k" by (cases j) simp_all
  show ?case
  proof (cases i)
    case 0
    have "ps ! k \<in> set ps" using Cons.prems(3) j by simp
    then show ?thesis using Cons.prems(1) 0 j by auto
  next
    case (Suc l)
    then show ?thesis using Cons j by simp
  qed
qed simp

text \<open>
  However processes start, connect and stop, no socket is in the pools of two of them, and every
  socket of a pool is open at the server.
\<close>

lemma no_shared_sockets:
  assumes "i < j" and "j < length (fl_pools (foldl fleet_step one_process es))"
  defines "fl \<equiv> foldl fleet_step one_process es"
  shows "set (fl_pools fl ! i) \<inter> set (fl_pools fl ! j) = {} \<and> set (fl_pools fl ! j) \<subseteq> set (fl_open fl)"
proof -
  have "fleet_ok one_process" by (simp add: fleet_ok_def one_process_def)
  then have ok: "fleet_ok fl" unfolding fl_def by (rule fleet.run_good)
  have j: "j < length (fl_pools fl)" using assms by simp
  then have "fl_pools fl ! j \<in> set (fl_pools fl)" by simp
  then show ?thesis using ok shared_socket [OF _ assms(1) j] by (auto simp: fleet_ok_def)
qed

text \<open>A child that keeps its handles shares them; one that closes them takes the parent's away.\<close>

lemma why_handles_are_abandoned:
  "fl_pools (fork_child 0 (connect 0 one_process)) = [[0], [0]] \<and>
   (let fl = dispose True 1 (fork_child 0 (connect 0 one_process)) in fl_pools fl = [[0], []] \<and> fl_open fl = [])"
  by code_simp

section \<open>Log lines\<close>

text \<open>A record has its attributes by name; a format is text and places for attributes, padded on the right.\<close>

type_synonym log_record = "string \<rightharpoonup> string"

datatype log_piece = Fixed string | Attr string nat

definition log_format :: "log_piece list" where
  "log_format =
    [Attr ''asctime'' 0, Fixed '' '', Attr ''levelname'' 8, Fixed '' ['', Attr ''request_id'' 0, Fixed ''] '', Attr ''name'' 0, Fixed '': '',
     Attr ''message'' 0]"

text \<open>None is the error that logging swallows: the line is lost.\<close>

fun log_text :: "log_piece list \<Rightarrow> log_record \<Rightarrow> string option" where
  "log_text [] r = Some []"
| "log_text (Fixed s # ps) r = map_option ((@) s) (log_text ps r)"
| "log_text (Attr a w # ps) r =
     (case r a of None \<Rightarrow> None | Some s \<Rightarrow> map_option ((@) (s @ replicate (w - length s) (CHR '' ''))) (log_text ps r))"

definition record_factory :: "('a \<Rightarrow> log_record) \<Rightarrow> string option \<Rightarrow> 'a \<Rightarrow> log_record" where
  "record_factory existing current args = (existing args)(''request_id'' \<mapsto> get_request_id current)"

definition standard_attributes :: "string set" where
  "standard_attributes = {''asctime'', ''levelname'', ''name'', ''message''}"

text \<open>With the factory no line is lost and each has the id of its request; without it every line is.\<close>

lemma every_line_is_written:
  assumes "standard_attributes \<subseteq> dom (existing args)"
  shows "\<exists>start rest. log_text log_format (record_factory existing current args) = Some (start @ '' ['' @ get_request_id current @ ''] '' @ rest)"
proof -
  obtain t l n m where "existing args ''asctime'' = Some t" "existing args ''levelname'' = Some l" "existing args ''name'' = Some n"
      "existing args ''message'' = Some m"
    using assms by (auto simp: standard_attributes_def)
  then show ?thesis
    by (intro exI [of _ "t @ '' '' @ l @ replicate (8 - length l) (CHR '' '')"] exI [of _ "n @ '': '' @ m"])
      (simp add: log_format_def record_factory_def)
qed

lemma without_the_factory: "r ''request_id'' = None \<Longrightarrow> log_text log_format r = None"
  by (simp add: log_format_def split: option.splits)

section \<open>The context between the stages\<close>

record worker_ctx =
  wk_ctx :: scan_ctx
  wk_stage :: "string option"

text \<open>A payload: the keys of a context, absent or with their value, and the other keys.\<close>

record payload =
  pl_scan_id :: "string option"
  pl_org_id :: "string option"
  pl_target :: "string option"
  pl_config :: "json_object option"
  pl_stage :: "string option option"
  pl_more :: "(string \<times> json) list"

definition id_of_text :: "string \<Rightarrow> nat option" where
  "id_of_text s = (if s \<noteq> [] \<and> list_all is_ascii_digit s then Some (nat (undec 0 s)) else None)"

definition load_ctx :: "string \<Rightarrow> string \<Rightarrow> string \<Rightarrow> json_object option \<Rightarrow> string option \<Rightarrow> string + worker_ctx" where
  "load_ctx scan org target config stage =
    (case (id_of_text scan, id_of_text org) of
       (Some i, Some j) \<Rightarrow>
         Inr \<lparr>wk_ctx = \<lparr>cx_scan = i, cx_org = j, cx_target = target, cx_config = (case config of None \<Rightarrow> [] | Some c \<Rightarrow> c)\<rparr>, wk_stage = stage\<rparr>
     | _ \<Rightarrow> Inl ''ValueError'')"

definition for_stage :: "string \<Rightarrow> worker_ctx \<Rightarrow> worker_ctx" where
  "for_stage stage c = \<lparr>wk_ctx = wk_ctx c, wk_stage = Some stage\<rparr>"

definition to_dict :: "worker_ctx \<Rightarrow> payload" where
  "to_dict c =
    \<lparr>pl_scan_id = Some (dec (int (cx_scan (wk_ctx c)))), pl_org_id = Some (dec (int (cx_org (wk_ctx c)))), pl_target = Some (cx_target (wk_ctx c)),
     pl_config = Some (cx_config (wk_ctx c)), pl_stage = Some (wk_stage c), pl_more = []\<rparr>"

text \<open>The first stage of a chain takes the payload as keyword arguments, the later ones read the keys they know.\<close>

definition load_kwargs :: "payload \<Rightarrow> string + worker_ctx" where
  "load_kwargs p =
    (if pl_more p \<noteq> [] then Inl ''TypeError''
     else case (pl_scan_id p, pl_org_id p, pl_target p) of
       (Some i, Some j, Some t) \<Rightarrow> load_ctx i j t (pl_config p) (case pl_stage p of None \<Rightarrow> None | Some s \<Rightarrow> s)
     | _ \<Rightarrow> Inl ''TypeError'')"

definition load_payload :: "payload \<Rightarrow> string + worker_ctx" where
  "load_payload p =
    (case (pl_scan_id p, pl_org_id p, pl_target p) of
       (Some i, Some j, Some t) \<Rightarrow> load_ctx i j t (pl_config p) None
     | _ \<Rightarrow> Inl ''KeyError'')"

definition stage_ctx :: "string \<Rightarrow> payload \<Rightarrow> string + worker_ctx" where
  "stage_ctx m p = map_sum id (for_stage m) (if m = enum_stage then load_kwargs p else load_payload p)"

lemma id_of_text_dec [simp]: "id_of_text (dec (int n)) = Some n"
  using dec_digits [of "int n"] by (auto simp: id_of_text_def list_all_iff)

lemma load_to_dict:
  "load_kwargs (to_dict c) = Inr c" "load_payload ((to_dict c)\<lparr>pl_more := extra\<rparr>) = Inr (c\<lparr>wk_stage := None\<rparr>)"
  by (simp_all add: load_kwargs_def load_payload_def load_ctx_def to_dict_def)

text \<open>
  The contexts down a chain: enumeration sends on a payload of its context and its results, the
  other stages the payload they got with their results under keys of their own.
\<close>

definition sent_on :: "(string \<Rightarrow> (string \<times> json) list) \<Rightarrow> string \<Rightarrow> worker_ctx \<Rightarrow> payload \<Rightarrow> payload" where
  "sent_on results m c p = (if m = enum_stage then (to_dict c)\<lparr>pl_more := results m\<rparr> else p\<lparr>pl_more := pl_more p @ results m\<rparr>)"

fun stage_ctxs :: "(string \<Rightarrow> (string \<times> json) list) \<Rightarrow> string list \<Rightarrow> payload \<Rightarrow> string + worker_ctx list" where
  "stage_ctxs results [] p = Inr []"
| "stage_ctxs results (m # ms) p =
     (case stage_ctx m p of Inl e \<Rightarrow> Inl e | Inr c \<Rightarrow> map_sum id ((#) c) (stage_ctxs results ms (sent_on results m c p)))"

lemma later_stages:
  assumes "enum_stage \<notin> set ms"
  shows "stage_ctxs results ms ((to_dict c)\<lparr>pl_more := extra\<rparr>) = Inr (map (\<lambda>m. for_stage m c) ms)"
  using assms
proof (induction ms arbitrary: extra)
  case (Cons m ms)
  have "stage_ctx m ((to_dict c)\<lparr>pl_more := extra\<rparr>) = Inr (for_stage m c)" for extra
    using Cons.prems by (auto simp add: stage_ctx_def load_to_dict for_stage_def)
  moreover have "m \<noteq> enum_stage" using Cons.prems by auto
  ultimately show ?case using Cons by (simp add: sent_on_def)
qed simp

text \<open>Every chain the orchestrator builds gives each of its stages the scan it was started for, whatever the stages add.\<close>

lemma context_reaches_every_stage:
  "stage_ctxs results (requested_modules (cx_config (wk_ctx c))) (to_dict c) =
    Inr (map (\<lambda>m. for_stage m c) (requested_modules (cx_config (wk_ctx c))))"
proof (cases rule: requested_modules_order [of "cx_config (wk_ctx c)"])
  case 1
  have "to_dict c = (to_dict c)\<lparr>pl_more := []\<rparr>" by (simp add: to_dict_def)
  then show ?thesis using later_stages [OF 1, where c = c and extra = "[]"] by simp
next
  case (2 ms)
  let ?c = "for_stage enum_stage c"
  have "stage_ctx enum_stage (to_dict c) = Inr ?c" by (simp add: stage_ctx_def load_to_dict)
  moreover have "for_stage m ?c = for_stage m c" for m by (simp add: for_stage_def)
  ultimately show ?thesis using later_stages [OF 2(2), where c = ?c and extra = "results enum_stage"] 2(1) by (simp add: sent_on_def)
qed

text \<open>The order matters: enumeration in a later place would not take the results of another stage.\<close>

lemma enumeration_goes_first: "results \<noteq> [] \<Longrightarrow> stage_ctx enum_stage ((to_dict c)\<lparr>pl_more := results\<rparr>) = Inl ''TypeError''"
  by (simp add: stage_ctx_def load_kwargs_def to_dict_def)

section \<open>The configuration holds together\<close>

text \<open>
  Every task that the chain, the beat and the routes name lives in a module the workers import,
  and a task is killed no later than the broker would hand it to somebody else.
\<close>

definition module_of :: "string \<Rightarrow> string" where
  "module_of task = rev (tl (dropWhile (\<lambda>c. c \<noteq> CHR ''.'') (rev task)))"

lemma tasks_are_imported:
  "list_all (\<lambda>t. module_of t \<in> set (cc_include (celery_app cfg))) (map task_name module_order @ map fst beat_schedule @ map fst task_routes)"
  by code_simp

lemma killed_before_redelivered:
  "cc_soft_limit (celery_app cfg) < cc_time_limit (celery_app cfg) \<and> cc_time_limit (celery_app cfg) \<le> cc_visibility (celery_app cfg)"
  by (simp add: celery_app_def)

end
