(* ===== verification/Spec2Isabelle.thy ===== *)
theory Spec2Isabelle
  imports Prelude PyString Enums Scoring IpAddress Scope SafeHttp Domains Passwords RateLimit Calendar Tables DomainClaims Scans Schedules Dispatch Lifecycle Webhook Auth AuthHistory Inventory AssetGraph Wordlists ScanContext EstateEffects Regex SubdomainEnum PortScanner ChangeDetector Fingerprinter CveCorrelator Pipeline AiRemediation Notifier InventoryHistory Middleware LogStream Events Platform Schema CsvText ReportHtml Reports Seed Payloads ClaudeApi Routes Workers
begin

text \<open>
  A verification development for the backend of SurfaceWatch (\<open>src/backend\<close>), an attack
  surface monitor: organisations prove that they own domains, scan hosts under them on
  demand or on a schedule, and read scored findings.

  \<^bold>\<open>How the program fits together.\<close> FastAPI handlers (\<open>routes/\<close>) validate a payload
  (\<open>schemas/\<close>), resolve the signed-in principal (\<open>core/deps.py\<close>), charge rate limits
  (\<open>core/ratelimit.py\<close>) and edit tables (\<open>models/\<close>) in one transaction. Celery workers
  (\<open>workers/\<close>) run the scan pipeline, dispatch due schedules, re-check domain ownership and
  prune old rows. Two guards stand between an organisation and somebody else's network: a
  target has to be covered by a verified domain, and an outgoing connection has to go to a
  public address (\<open>core/scoring.py\<close>, \<open>workers/safe_http.py\<close>).

  \<^bold>\<open>Theories and sources.\<close>
  \<^item> Prelude: row tables (\<open>update_where\<close>, \<open>delete_where\<close>, \<open>row_by\<close>, \<open>keyed\<close>) and the locales
    of a system with an invariant (\<open>kept_system\<close>), with a fact that is never undone
    (\<open>latched_system\<close>) and with a well-behaved environment (\<open>guarded_system\<close>).
  \<^item> PyString: the string methods of Python the program uses, on lists of characters below 256.
  \<^item> Enums, Scoring: \<open>models/base.py\<close> and the risk score of \<open>core/scoring.py\<close> on exact rationals.
  \<^item> IpAddress, Scope: parsing and classes of addresses (the module \<open>ipaddress\<close> as far as used),
    the name guard \<open>assert_in_scope\<close> and the resolution guard of \<open>core/scoring.py\<close>.
  \<^item> SafeHttp: the request hook of \<open>workers/safe_http.py\<close>.
  \<^item> Domains, Passwords, RateLimit: \<open>core/domains.py\<close>, \<open>core/passwords.py\<close> with the payloads of
    \<open>schemas/auth.py\<close>, \<open>core/ratelimit.py\<close>.
  \<^item> Calendar, Tables: the recurrence rule of \<open>models/scan_schedule.py\<close>; one record per table
    of \<open>models/\<close> and the record \<open>db\<close> of all tables.
  \<^item> DomainClaims: \<open>core/dns_verify.py\<close>, \<open>routes/domains.py\<close> and the weekly sweep of
    \<open>workers/scheduler.py\<close>.
  \<^item> Scans, Schedules: \<open>routes/scans.py\<close>, the state changes of \<open>workers/orchestrator.py\<close> and
    \<open>workers/context.py\<close>, \<open>routes/schedules.py\<close>, the dispatcher and the retention task of
    \<open>workers/scheduler.py\<close>.
  \<^item> Dispatch, Lifecycle: what a tick of the dispatcher does, and histories in which handlers,
    tasks, ticks and sweeps interleave in any order.
  \<^item> Auth, AuthHistory: \<open>core/security.py\<close>, \<open>core/deps.py\<close>, \<open>routes/auth.py\<close>, and histories of
    the account handlers.
  \<^item> Inventory, AssetGraph: \<open>models/asset.py\<close>, \<open>models/finding.py\<close>, their payloads,
    \<open>routes/assets.py\<close> and \<open>routes/findings.py\<close>, over \<open>estate\<close>, the tables of \<open>db\<close> with those
    of assets and findings.
  \<^item> Wordlists, ScanContext: \<open>workers/wordlists.py\<close> and \<open>workers/context.py\<close>.
  \<^item> Regex: the part of Python's \<open>re\<close> that the fingerprinter uses, with its meaning.
  \<^item> SubdomainEnum, PortScanner, Fingerprinter, CveCorrelator, ChangeDetector: the scan modules of \<open>workers/\<close>, each the whole
    task: what it logs, stores, scores and hands on.
  \<^item> Pipeline: \<open>workers/orchestrator.py\<close>, a whole scan from its start through the chain of those modules to its close.
  \<^item> AiRemediation, ClaudeApi: \<open>services/ai_remediation.py\<close> and its task; the request to the model's API.
  \<^item> Webhook, Notifier: the Slack webhook (its validation, its hint, the request to it) and the alert task of
    \<open>workers/notifier.py\<close>.
  \<^item> Middleware, LogStream: \<open>core/request_context.py\<close>, \<open>core/security_headers.py\<close>, \<open>core/errors.py\<close> and the
    WebSocket endpoint of \<open>main.py\<close>.
  \<^item> Events: \<open>core/events.py\<close> and what the workers publish, up to the socket of LogStream.
  \<^item> Platform: \<open>config.py\<close> with the connection strings, the Alembic environment, the transactions of the
    workers and of the API, the system endpoints of \<open>main.py\<close>, the queues and the beat of \<open>workers/celery_app.py\<close>.
  \<^item> Schema: the scripts of \<open>db/migrations/versions\<close> as DDL commands, and what the classes of \<open>models/\<close> declare.
  \<^item> CsvText, ReportHtml, Reports: \<open>workers/report_builder.py\<close> and \<open>routes/reports.py\<close> with the dashboard; the
    reader of CsvText is the specification of its writer, ReportHtml the template of the page as the
    pieces it is made of.
  \<^item> Seed: \<open>seed_demo.py\<close>, the demo organisation.
  \<^item> Payloads: the response models that are built from rows (\<open>schemas/\<close>), and the DNS instructions up to the check.
  \<^item> Workers: the Celery application of \<open>workers/celery_app.py\<close>, the sockets of forked workers, the log lines and the
    context that stages exchange.
  \<^item> Routes: the endpoints of \<open>routes/\<close> and \<open>main.py\<close> with their methods, paths and gates.
  \<^item> EstateEffects, InventoryHistory: the effects an operation may have on the estate, what all
    of them keep, and histories of requests and scan modules.

  \<^bold>\<open>How state corresponds.\<close> A table is a list of records in insertion order; a primary key
  is a number taken from a counter (\<open>db_next\<close>) where the program draws a random UUID; a
  time is a number of microseconds; a transaction is one function from \<open>db\<close> to \<open>db\<close>, and a
  handler that commits and then fails returns both the committed tables and the error. A
  handler's result is a sum of \<open>http_error\<close> (status and detail) and a value.

  \<^bold>\<open>What the lemmas show.\<close> For each operation, its branches; for each component, an invariant
  that every operation keeps (\<open>claims_ok\<close>, \<open>scans_ok\<close>, \<open>schedules_ok\<close>, \<open>auth_ok\<close>), proved once
  per operation and lifted to histories by the locales; and the properties C1 to C40, stated
  where the component they are about is defined.

  \<^bold>\<open>Parameters.\<close> The DNS resolver, \<open>getaddrinfo\<close>, Redis (\<open>redis_client\<close>, with the laws of
  \<open>counter_store\<close> and an instance), the Celery broker (accepts with a task id or fails), bcrypt,
  the JWT library and the hash functions (\<open>crypto\<close>, with \<open>signs_and_verifies\<close> and an instance),
  the breach service (its response), the template engine's escaping, the PDF library and the disk
  (the record \<open>disk\<close> of Reports). The scan modules add the network, the HTTP client, the TLS
  handshake, the NVD, crt.sh and the zone transfer (the record \<open>services\<close> of Pipeline); advice and
  alerts the model's API and Slack; the live feed \<open>json.dumps\<close> and \<open>json.loads\<close>, of which only that
  the second reads back what the first wrote is used.

  \<^bold>\<open>Bounds and fuel.\<close> Every loop of the modelled code runs over a list or a number that
  shrinks, and each \<open>function\<close> has its termination proof; Celery's retries are a
  \<open>partial_function\<close> (\<open>alert_task\<close>), with the theorem that they end. The one bound taken as an argument
  is that of \<open>drop_references\<close>, the length of the text, of which each step takes a character. The end of
  the datetime range (year 9999) is not modelled, and characters are those below 256.

  \<^bold>\<open>Not modelled.\<close> SQL, the event loop and HTTP framing; the isolation of concurrent
  transactions beyond interleaving whole transactions; what the program logs outside a scan's own log; the construction of the
  FastAPI application and the pooling inside SQLAlchemy; the library that turns the page of a report into a PDF; package initialisers; the tests; the front end.
\<close>

end
